(* ===== verification/Yui_Prelude.thy ===== *)
theory Yui_Prelude
  imports Main "HOL-Library.Code_Target_Nat" "HOL-Library.Char_ord" "HOL-Library.List_Lexorder"
begin

section \<open>Results, sequencing and shared list lemmas\<close>

text \<open>
  What every component of the development shares: a TypeScript function that may throw
  is a function into \<open>'a result\<close> (\<open>Inl\<close> carries the thrown error, \<open>Inr\<close> the
  returned value), \<open>andThen\<close> is the sequencing of statements (a throw skips the rest),
  \<open>traverse\<close> is \<open>xs.map(f)\<close> with an \<open>f\<close> that may throw, and \<open>run_steps\<close>
  folds a throwing operation over a list of calls.  The locales \<open>step_machine\<close> and
  \<open>step_order\<close> state what a component owes about one call; every component interprets
  them on its own operations and inherits the facts about whole histories.
\<close>

subsection \<open>Thrown errors\<close>

text \<open>
  \<open>Err\<close> carries the fixed text of the message of \<open>throw new Error(...)\<close> (the
  interpolated values are left out), \<open>StateErr\<close> is \<open>InputRequestStateError\<close> (request
  id, status) and \<open>GateErr\<close> is \<open>WorkItemDependencyGateError\<close> (work item id and the
  unmet dependencies with their status), \<open>CoreJobErr\<close> an error whose name is \<open>CoreJobError\<close>.
\<close>

datatype err =
    Err string
  | StateErr string string
  | GateErr string "(string \<times> string) list"
  | CoreJobErr string

type_synonym 'a result = "err + 'a"

definition throw :: "string \<Rightarrow> 'a result" where
  "throw m = Inl (Err m)"

fun andThen :: "'a result \<Rightarrow> ('a \<Rightarrow> 'b result) \<Rightarrow> 'b result" where
  "andThen (Inl e) f = Inl e"
| "andThen (Inr x) f = f x"

definition isOk :: "'a result \<Rightarrow> bool" where
  "isOk r = (case r of Inl _ \<Rightarrow> False | Inr _ \<Rightarrow> True)"

fun traverse :: "('a \<Rightarrow> 'b result) \<Rightarrow> 'a list \<Rightarrow> 'b list result" where
  "traverse f [] = Inr []"
| "traverse f (x # xs) =
     andThen (f x) (\<lambda>y. andThen (traverse f xs) (\<lambda>ys. Inr (y # ys)))"

text \<open>\<open>optionally f None\<close> is the guard \<open>if (x !== undefined) f(x)\<close>.\<close>

definition optionally :: "('a \<Rightarrow> 'b result) \<Rightarrow> 'a option \<Rightarrow> 'b option result" where
  "optionally f x = (case x of None \<Rightarrow> Inr None | Some y \<Rightarrow> andThen (f y) (\<lambda>z. Inr (Some z)))"

fun run_steps :: "('s \<Rightarrow> 'e \<Rightarrow> 's result) \<Rightarrow> 's \<Rightarrow> 'e list \<Rightarrow> 's result" where
  "run_steps step s [] = Inr s"
| "run_steps step s (e # es) = andThen (step s e) (\<lambda>s'. run_steps step s' es)"

text \<open>
  The text of a message is never rewritten: the congruence keeps the simplifier out of
  the literal.
\<close>

lemma throw_weak_cong [cong]: "throw m = throw m"
  by (rule refl)

lemma throw_neq_Inr [simp]: "throw m \<noteq> Inr x" "Inr x \<noteq> throw m"
  by (simp_all add: throw_def)

lemma andThen_throw [simp]: "andThen (throw m) f = throw m"
  by (simp add: throw_def)

lemma isOk_simps [simp]: "isOk (Inr x)" "\<not> isOk (Inl e)" "\<not> isOk (throw m)"
  by (simp_all add: isOk_def throw_def)

lemma isOk_iff: "isOk r \<longleftrightarrow> (\<exists>x. r = Inr x)"
  by (cases r) auto

lemma andThen_eq_Inr [simp]:
  "andThen r f = Inr y \<longleftrightarrow> (\<exists>x. r = Inr x \<and> f x = Inr y)"
  by (cases r) auto

lemma andThen_eq_Inl:
  "andThen r f = Inl e \<longleftrightarrow> r = Inl e \<or> (\<exists>x. r = Inr x \<and> f x = Inl e)"
  by (cases r) auto

lemma isOk_andThen [simp]: "isOk (andThen r f) \<longleftrightarrow> (\<exists>x. r = Inr x \<and> isOk (f x))"
  by (cases r) auto

lemma andThen_unit_eq [simp]: "andThen r (\<lambda>x. Inr x) = r"
  by (cases r) auto

lemma if_throw_eq_Inr [simp]:
  "(if c then throw m else r) = Inr y \<longleftrightarrow> \<not> c \<and> r = Inr y"
  "(if c then r else throw m) = Inr y \<longleftrightarrow> c \<and> r = Inr y"
  by auto

lemma isOk_if_throw [simp]:
  "isOk (if c then throw m else r) \<longleftrightarrow> \<not> c \<and> isOk r"
  "isOk (if c then r else throw m) \<longleftrightarrow> c \<and> isOk r"
  by auto

lemma optionally_simps [simp]:
  "optionally f None = Inr None"
  "optionally f (Some y) = andThen (f y) (\<lambda>z. Inr (Some z))"
  by (simp_all add: optionally_def)

lemma optionally_eq_Inr:
  "optionally f x = Inr z \<longleftrightarrow>
     (x = None \<and> z = None \<or> (\<exists>y y'. x = Some y \<and> f y = Inr y' \<and> z = Some y'))"
  by (cases x) auto

lemma isOk_optionally: "isOk (optionally f x) \<longleftrightarrow> (\<forall>y. x = Some y \<longrightarrow> isOk (f y))"
  by (cases x) (auto simp: isOk_iff)

subsection \<open>Sequences of checks\<close>

text \<open>
  A validator is a sequence of statements that may throw: \<open>skip r\<close> is a call whose value is not
  used, \<open>refuse c m\<close> is \<open>if (c) throw new Error(m)\<close>, \<open>whenSome x f\<close> is
  \<open>if (x !== undefined) f(x)\<close>, and \<open>all_ok\<close> runs the checks in their order.
\<close>

definition skip :: "'a result \<Rightarrow> unit result" where
  "skip r = andThen r (\<lambda>_. Inr ())"

definition refuse :: "bool \<Rightarrow> string \<Rightarrow> unit result" where
  "refuse c m = (if c then throw m else Inr ())"

definition whenSome :: "'a option \<Rightarrow> ('a \<Rightarrow> unit result) \<Rightarrow> unit result" where
  "whenSome x f = (case x of None \<Rightarrow> Inr () | Some y \<Rightarrow> f y)"

fun all_ok :: "unit result list \<Rightarrow> unit result" where
  "all_ok [] = Inr ()"
| "all_ok (r # rs) = andThen r (\<lambda>_. all_ok rs)"

definition checked :: "'a \<Rightarrow> unit result list \<Rightarrow> 'a result" where
  \<comment> \<open>the checks, then \<open>return x\<close>\<close>
  "checked x rs = andThen (all_ok rs) (\<lambda>_. Inr x)"

lemma refuse_weak_cong [cong]: "c = c' \<Longrightarrow> refuse c m = refuse c' m"
  by simp

lemma skip_eq [simp]: "skip r = Inr u \<longleftrightarrow> isOk r" "isOk (skip r) = isOk r"
  by (auto simp: skip_def isOk_iff)

lemma refuse_eq [simp]: "refuse c m = Inr u \<longleftrightarrow> \<not> c" "isOk (refuse c m) \<longleftrightarrow> \<not> c"
  by (simp_all add: refuse_def)

lemma whenSome_eq [simp]:
  "whenSome x f = Inr u \<longleftrightarrow> (\<forall>y. x = Some y \<longrightarrow> f y = Inr ())"
  "isOk (whenSome x f) \<longleftrightarrow> (\<forall>y. x = Some y \<longrightarrow> isOk (f y))"
  by (auto simp: whenSome_def split: option.splits)

lemma all_ok_eq [simp]:
  "all_ok rs = Inr u \<longleftrightarrow> list_all isOk rs" "isOk (all_ok rs) \<longleftrightarrow> list_all isOk rs"
  by (induction rs) (auto simp: isOk_iff)

lemma checked_eq [simp]:
  "checked x rs = Inr y \<longleftrightarrow> y = x \<and> list_all isOk rs" "isOk (checked x rs) \<longleftrightarrow> list_all isOk rs"
  by (auto simp: checked_def)

subsection \<open>Mapping with a function that may throw\<close>

lemma traverse_eq_Inr: "traverse f xs = Inr ys \<longleftrightarrow> list_all2 (\<lambda>x y. f x = Inr y) xs ys"
proof (induction xs arbitrary: ys)
  case Nil
  then show ?case by auto
next
  case (Cons x xs)
  then show ?case by (cases ys) auto
qed

lemma traverse_length: "traverse f xs = Inr ys \<Longrightarrow> length ys = length xs"
  by (auto simp: traverse_eq_Inr dest: list_all2_lengthD)

lemma traverse_id: "(\<And>x. x \<in> set xs \<Longrightarrow> f x = Inr x) \<Longrightarrow> traverse f xs = Inr xs"
  by (induction xs) auto

lemma traverse_map: "traverse f (map g xs) = traverse (\<lambda>x. f (g x)) xs"
  by (induction xs) auto

lemma traverse_cong [fundef_cong]:
  "xs = ys \<Longrightarrow> (\<And>x. x \<in> set ys \<Longrightarrow> f x = g x) \<Longrightarrow> traverse f xs = traverse g ys"
  by (induction ys arbitrary: xs) auto

lemma traverse_fix:
  "traverse f xs = Inr xs \<longleftrightarrow> (\<forall>x \<in> set xs. f x = Inr x)"
  by (induction xs) auto

lemma traverse_result_fix:
  assumes "traverse f xs = Inr ys" and "\<And>x y. f x = Inr y \<Longrightarrow> g y = Inr y"
  shows "traverse g ys = Inr ys"
  using assms by (auto simp: traverse_eq_Inr traverse_fix list_all2_conv_all_nth in_set_conv_nth)

lemma traverse_map_result:
  assumes "traverse f xs = Inr ys" and "\<And>x y. f x = Inr y \<Longrightarrow> y = g x"
  shows "ys = map g xs"
  using assms by (auto simp: traverse_eq_Inr list_all2_conv_all_nth intro!: nth_equalityI)

lemma traverse_all:
  assumes "traverse f xs = Inr ys" and "\<And>x y. f x = Inr y \<Longrightarrow> P y"
  shows "list_all P ys"
  using assms by (auto simp: traverse_eq_Inr list_all2_conv_all_nth list_all_length)

lemma traverse_isOk: "isOk (traverse f xs) \<longleftrightarrow> (\<forall>x \<in> set xs. isOk (f x))"
  by (induction xs) (auto simp: isOk_iff)

subsection \<open>Histories of calls\<close>

lemma run_steps_append:
  "run_steps step s (es @ fs) = andThen (run_steps step s es) (\<lambda>s'. run_steps step s' fs)"
proof (induction es arbitrary: s)
  case Nil
  then show ?case by simp
next
  case (Cons e es)
  then show ?case by (cases "step s e") simp_all
qed

text \<open>
  What a component owes about one call: an invariant that every call that returns
  preserves.  The client of the component then has it for any history of calls.
\<close>

locale step_machine =
  fixes step :: "'s \<Rightarrow> 'e \<Rightarrow> 's result"
    and inv :: "'s \<Rightarrow> bool"
  assumes step_inv: "inv s \<Longrightarrow> step s e = Inr s' \<Longrightarrow> inv s'"
begin

lemma run_inv: "inv s \<Longrightarrow> run_steps step s es = Inr s' \<Longrightarrow> inv s'"
  by (induction es arbitrary: s) (auto intro: step_inv)

end

text \<open>
  The same with a preorder that every call moves along: what one call may change of a
  record, lifted to what a history may change.
\<close>

locale step_order = step_machine +
  fixes le :: "'s \<Rightarrow> 's \<Rightarrow> bool"
  assumes le_refl: "le s s"
    and le_trans: "le s t \<Longrightarrow> le t u \<Longrightarrow> le s u"
    and step_le: "inv s \<Longrightarrow> step s e = Inr s' \<Longrightarrow> le s s'"
begin

lemma run_le: "inv s \<Longrightarrow> run_steps step s es = Inr s' \<Longrightarrow> le s s'"
proof (induction es arbitrary: s)
  case Nil
  then show ?case by (auto intro: le_refl)
next
  case (Cons e es)
  then obtain t where "step s e = Inr t" "run_steps step t es = Inr s'" by auto
  with Cons show ?case by (blast intro: le_trans step_le step_inv)
qed

end

text \<open>
  The contract of the code's record validators: \<open>validateX(x)\<close> throws or returns the very
  record it was given.  An operation that ends in \<open>return validateX({...})\<close> therefore only
  ever produces valid records, and validation is idempotent.
\<close>

locale record_validator =
  fixes validate :: "'a \<Rightarrow> 'a result"
  assumes returns_self: "validate x = Inr y \<Longrightarrow> y = x"
begin

lemma result_valid: "validate x = Inr y \<Longrightarrow> isOk (validate y)"
  using returns_self by fastforce

lemma ok_eq: "isOk (validate x) \<longleftrightarrow> validate x = Inr x"
  using returns_self by (auto simp: isOk_iff)

lemma then_valid: "andThen (validate x) f = r \<Longrightarrow> r = Inr y \<Longrightarrow> f x = Inr y \<and> isOk (validate x)"
  using returns_self by fastforce

end

subsection \<open>Insertion-ordered sets of keys\<close>

text \<open>
  The loop \<open>for (const value of incoming) if (!keys.has(key)) result.push(value)\<close> over a list
  that already holds \<open>existing\<close>: values whose key is new are appended, once, in order.
\<close>

fun appendUnique :: "'a list \<Rightarrow> 'a list \<Rightarrow> ('a \<Rightarrow> 'k) \<Rightarrow> 'a list" where
  "appendUnique existing [] keyOf = existing"
| "appendUnique existing (v # vs) keyOf =
     (if keyOf v \<in> set (map keyOf existing) then appendUnique existing vs keyOf
      else appendUnique (existing @ [v]) vs keyOf)"

lemma appendUnique_keys: "keyOf ` set (appendUnique xs ys keyOf) = keyOf ` (set xs \<union> set ys)"
  by (induction xs ys keyOf rule: appendUnique.induct) (auto simp: image_iff)

lemma appendUnique_set: "set xs \<subseteq> set (appendUnique xs ys keyOf)"
  "set (appendUnique xs ys keyOf) \<subseteq> set xs \<union> set ys"
  by (induction xs ys keyOf rule: appendUnique.induct) auto

lemma appendUnique_set_id: "set (appendUnique xs ys (\<lambda>x. x)) = set xs \<union> set ys"
  using appendUnique_keys [of "\<lambda>x. x" xs ys] by simp

lemma appendUnique_distinct:
  "distinct (map keyOf xs) \<Longrightarrow> distinct (map keyOf (appendUnique xs ys keyOf))"
  by (induction xs ys keyOf rule: appendUnique.induct) auto

lemma appendUnique_fresh:
  "distinct ys \<Longrightarrow> set xs \<inter> set ys = {} \<Longrightarrow> appendUnique xs ys (\<lambda>x. x) = xs @ ys"
  by (induction ys arbitrary: xs) auto

lemma appendUnique_eq_Nil [simp]: "appendUnique xs ys keyOf = [] \<longleftrightarrow> xs = [] \<and> ys = []"
  by (induction xs ys keyOf rule: appendUnique.induct) auto

text \<open>\<open>xs.slice(-n)\<close> for a positive \<open>n\<close>: the last \<open>n\<close> elements.\<close>

definition slice_last :: "nat \<Rightarrow> 'a list \<Rightarrow> 'a list" where
  "slice_last n xs = drop (length xs - n) xs"

lemma length_slice_last [simp]: "length (slice_last n xs) = min n (length xs)"
  by (simp add: slice_last_def)

lemma set_slice_last: "set (slice_last n xs) \<subseteq> set xs"
  by (simp add: slice_last_def set_drop_subset)

lemma distinct_slice_last: "distinct xs \<Longrightarrow> distinct (slice_last n xs)"
  by (simp add: slice_last_def)

lemma slice_last_id [simp]: "length xs \<le> n \<Longrightarrow> slice_last n xs = xs"
  by (simp add: slice_last_def)

lemma slice_last_suffix: "\<exists>ys. xs = ys @ slice_last n xs"
  unfolding slice_last_def by (metis append_take_drop_id)

lemma last_in_slice_last: "xs \<noteq> [] \<Longrightarrow> 0 < n \<Longrightarrow> last xs \<in> set (slice_last n xs)"
proof -
  assume "xs \<noteq> []" and "0 < n"
  then have "length xs - n < length xs" by (cases xs) auto
  then have "drop (length xs - n) xs \<noteq> []" by simp
  then show ?thesis unfolding slice_last_def by (metis last_drop last_in_set drop_eq_Nil not_le)
qed

lemma disjoint_slice_last: "set xs \<inter> A = {} \<Longrightarrow> set (slice_last n xs) \<inter> A = {}"
  using set_slice_last [of n xs] by blast

end
