(* ===== verification/Yui_Text.thy ===== *)
theory Yui_Text
  imports Yui_Prelude
begin

section \<open>Strings, decimal numerals and JSON values\<close>

text \<open>
  The string operations of the language that the modelled code uses.  A JavaScript string
  is a \<open>string\<close> here, one \<open>char\<close> per code unit: the model covers strings whose code units
  are below 256.  \<open>js_trim\<close> is \<open>String.prototype.trim\<close> on that range, \<open>nat_str\<close> the decimal
  numeral a template literal prints, \<open>dec_val\<close> the value \<open>Number(...)\<close> reads back,
  \<open>uri_encode\<close> is \<open>encodeURIComponent\<close>.  \<open>json\<close> is the type of a parsed JSON document, an
  object being the list of its fields in order.
\<close>

subsection \<open>Characters\<close>

abbreviation code :: "char \<Rightarrow> nat" where
  "code c \<equiv> of_char c"

definition NUL :: char where
  "NUL = CHR 0x00"

text \<open>White space and line terminators below 256: tab to carriage return, space, no-break space.\<close>

definition is_ws :: "char \<Rightarrow> bool" where
  "is_ws c \<longleftrightarrow> c = CHR 0x09 \<or> c = CHR 0x0A \<or> c = CHR 0x0B \<or> c = CHR 0x0C \<or> c = CHR 0x0D
     \<or> c = CHR '' '' \<or> c = CHR 0xA0"

definition is_digit :: "char \<Rightarrow> bool" where
  "is_digit c \<longleftrightarrow> 48 \<le> code c \<and> code c \<le> 57"

definition is_hex_lower :: "char \<Rightarrow> bool" where
  "is_hex_lower c \<longleftrightarrow> is_digit c \<or> 97 \<le> code c \<and> code c \<le> 102"

definition is_alnum :: "char \<Rightarrow> bool" where
  "is_alnum c \<longleftrightarrow> is_digit c \<or> 65 \<le> code c \<and> code c \<le> 90 \<or> 97 \<le> code c \<and> code c \<le> 122"

text \<open>\<open>toLowerCase\<close> on the letters below 256 (multiplication sign excepted).\<close>

definition char_lower :: "char \<Rightarrow> char" where
  "char_lower c =
     (if 65 \<le> code c \<and> code c \<le> 90 \<or> 192 \<le> code c \<and> code c \<le> 222 \<and> code c \<noteq> 215
      then char_of (code c + 32) else c)"

definition js_lower :: "string \<Rightarrow> string" where
  "js_lower s = map char_lower s"

subsection \<open>trim\<close>

definition js_trim :: "string \<Rightarrow> string" where
  "js_trim s = rev (dropWhile is_ws (rev (dropWhile is_ws s)))"

lemma dropWhile_idem: "dropWhile P (dropWhile P xs) = dropWhile P xs"
  by (induction xs) auto

lemma dropWhile_fix: "xs = [] \<or> \<not> P (hd xs) \<Longrightarrow> dropWhile P xs = xs"
  by (cases xs) auto

lemma js_trim_id:
  "s = [] \<or> (\<not> is_ws (hd s) \<and> \<not> is_ws (last s)) \<Longrightarrow> js_trim s = s"
  by (auto simp: js_trim_def dropWhile_fix hd_rev)

lemma js_trim_ends:
  assumes "js_trim s \<noteq> []"
  shows "\<not> is_ws (hd (js_trim s))" and "\<not> is_ws (last (js_trim s))"
proof -
  let ?u = "dropWhile is_ws s"
  let ?t = "dropWhile is_ws (rev ?u)"
  have ne: "?t \<noteq> []" using assms by (simp add: js_trim_def del: dropWhile_eq_Nil_conv)
  from hd_dropWhile [OF ne] show "\<not> is_ws (last (js_trim s))"
    by (simp add: js_trim_def last_rev)
  have "?u \<noteq> []" using ne by force
  from hd_dropWhile [OF this] have h: "\<not> is_ws (hd ?u)" .
  have "rev ?u = takeWhile is_ws (rev ?u) @ ?t" by simp
  then have "?u = rev ?t @ rev (takeWhile is_ws (rev ?u))"
    by (metis rev_append rev_rev_ident)
  with ne have "hd ?u = hd (rev ?t)"
    by (metis hd_append2 rev_is_Nil_conv)
  with h show "\<not> is_ws (hd (js_trim s))" by (simp add: js_trim_def)
qed

lemma js_trim_idem [simp]: "js_trim (js_trim s) = js_trim s"
  by (rule js_trim_id) (use js_trim_ends in blast)

lemma js_trim_Nil [simp]: "js_trim [] = []"
  by (simp add: js_trim_def)

lemma set_js_trim: "set (js_trim s) \<subseteq> set s"
  unfolding js_trim_def by (metis set_dropWhileD set_rev subsetI)

lemma not_in_js_trim: "c \<notin> set s \<Longrightarrow> c \<notin> set (js_trim s)"
  using set_js_trim [of s] by blast

subsection \<open>Decimal numerals\<close>

definition digit_char :: "nat \<Rightarrow> char" where
  "digit_char n = char_of (48 + n)"

fun nat_str :: "nat \<Rightarrow> string" where
  "nat_str n = (if n < 10 then [digit_char n] else nat_str (n div 10) @ [digit_char (n mod 10)])"

declare nat_str.simps [simp del]

definition dec_val :: "string \<Rightarrow> nat" where
  "dec_val s = foldl (\<lambda>v c. 10 * v + (code c - 48)) 0 s"

definition int_str :: "int \<Rightarrow> string" where
  "int_str i = (if i < 0 then ''-'' @ nat_str (nat (- i)) else nat_str (nat i))"

lemma code_digit_char: "n < 10 \<Longrightarrow> code (digit_char n) = 48 + n"
  by (simp add: digit_char_def)

lemma is_digit_digit_char: "n < 10 \<Longrightarrow> is_digit (digit_char n)"
  by (simp add: is_digit_def code_digit_char)

lemma dec_val_snoc: "dec_val (s @ [c]) = 10 * dec_val s + (code c - 48)"
  by (simp add: dec_val_def)

lemma dec_val_append: "dec_val (s @ t) = dec_val s * 10 ^ length t + dec_val t"
proof (induction t rule: rev_induct)
  case Nil
  then show ?case by (simp add: dec_val_def)
next
  case (snoc c t)
  then show ?case
    using dec_val_snoc [of "s @ t" c] dec_val_snoc [of t c] by simp
qed

lemma nat_str_nonempty [simp]: "nat_str n \<noteq> []"
  by (subst nat_str.simps) simp

lemma nat_str_digits: "c \<in> set (nat_str n) \<Longrightarrow> is_digit c"
proof (induction n rule: nat_str.induct)
  case (1 n)
  show ?case
  proof (cases "n < 10")
    case True
    with "1.prems" show ?thesis
      by (auto simp: nat_str.simps [of n] is_digit_digit_char)
  next
    case False
    with "1.prems" "1.IH" show ?thesis
      by (auto simp: nat_str.simps [of n] is_digit_digit_char)
  qed
qed

lemma dec_val_nat_str [simp]: "dec_val (nat_str n) = n"
proof (induction n rule: nat_str.induct)
  case (1 n)
  show ?case
  proof (cases "n < 10")
    case True
    then show ?thesis
      by (simp add: nat_str.simps [of n] dec_val_def code_digit_char)
  next
    case False
    with "1.IH" have "dec_val (nat_str (n div 10)) = n div 10" by simp
    with False show ?thesis
      by (subst nat_str.simps) (simp add: dec_val_snoc code_digit_char)
  qed
qed

lemma nat_str_inj: "nat_str m = nat_str n \<longleftrightarrow> m = n"
  by (metis dec_val_nat_str)

lemma hd_nat_str: "0 < n \<Longrightarrow> code (hd (nat_str n)) \<noteq> 48"
proof (induction n rule: nat_str.induct)
  case (1 n)
  show ?case
  proof (cases "n < 10")
    case True
    with "1.prems" show ?thesis
      by (simp add: nat_str.simps [of n] code_digit_char)
  next
    case False
    with "1.IH" have "code (hd (nat_str (n div 10))) \<noteq> 48" by simp
    with False show ?thesis
      by (subst nat_str.simps) (simp add: hd_append)
  qed
qed

lemma is_digit_not_ws: "is_digit c \<Longrightarrow> \<not> is_ws c"
  by (auto simp: is_digit_def is_ws_def)

lemma nat_str_not_ws: "\<not> is_ws (hd (nat_str n))" "\<not> is_ws (last (nat_str n))"
  by (rule is_digit_not_ws, rule nat_str_digits [of _ n], simp)+

subsection \<open>encodeURIComponent\<close>

definition hex_digit :: "nat \<Rightarrow> char" where
  "hex_digit n = (if n < 10 then char_of (48 + n) else char_of (55 + n))"

definition uri_unreserved :: "char \<Rightarrow> bool" where
  "uri_unreserved c \<longleftrightarrow> is_alnum c \<or> c \<in> set ''-_.!~*()'' \<or> c = CHR 0x27"

definition percent_byte :: "nat \<Rightarrow> string" where
  "percent_byte b = [CHR ''%'', hex_digit (b div 16), hex_digit (b mod 16)]"

text \<open>A code unit below 128 is one byte of UTF-8, one below 256 is two.\<close>

definition uri_char :: "char \<Rightarrow> string" where
  "uri_char c =
     (if uri_unreserved c then [c]
      else if code c < 128 then percent_byte (code c)
      else percent_byte (192 + code c div 64) @ percent_byte (128 + code c mod 64))"

definition uri_encode :: "string \<Rightarrow> string" where
  "uri_encode s = concat (map uri_char s)"

lemma hex_digit_inj: "m < 16 \<Longrightarrow> n < 16 \<Longrightarrow> hex_digit m = hex_digit n \<Longrightarrow> m = n"
proof -
  assume a: "m < 16" "n < 16" "hex_digit m = hex_digit n"
  then have "code (hex_digit m) = code (hex_digit n)" by simp
  with a show ?thesis by (auto simp: hex_digit_def split: if_splits)
qed

lemma percent_byte_inj:
  "b < 256 \<Longrightarrow> b' < 256 \<Longrightarrow> percent_byte b = percent_byte b' \<Longrightarrow> b = b'"
proof -
  assume a: "b < 256" "b' < 256" "percent_byte b = percent_byte b'"
  then have "b div 16 = b' div 16" "b mod 16 = b' mod 16"
    by (auto simp: percent_byte_def intro!: hex_digit_inj)
  then show ?thesis by (metis div_mult_mod_eq)
qed

lemma percent_reserved: "\<not> uri_unreserved (CHR ''%'')"
  by (simp add: uri_unreserved_def is_alnum_def is_digit_def)

lemma code_less_256: "code c < 256"
  by (metis nat_of_char_less_256)

text \<open>No code is a prefix of another, so the encoding of a string is decodable.\<close>

lemma percent_byte_append:
  "b < 256 \<Longrightarrow> b' < 256 \<Longrightarrow>
     percent_byte b @ x = percent_byte b' @ y \<longleftrightarrow> b = b' \<and> x = y"
  using percent_byte_inj by (auto simp: percent_byte_def)

lemma uri_char_prefix_free: "uri_char c @ x = uri_char d @ y \<Longrightarrow> c = d \<and> x = y"
proof -
  assume eq: "uri_char c @ x = uri_char d @ y"
  have c: "code c < 256" and d: "code d < 256" by (rule code_less_256)+
  show ?thesis
  proof (cases "uri_unreserved c \<or> uri_unreserved d")
    case True
    with eq show ?thesis
      using percent_reserved
      by (auto simp: uri_char_def percent_byte_def split: if_splits)
  next
    case False
    then consider "code c < 128" "code d < 128" | "code c < 128" "128 \<le> code d"
      | "128 \<le> code c" "code d < 128" | "128 \<le> code c" "128 \<le> code d"
      by linarith
    then show ?thesis
    proof cases
      case 1
      with False eq have "code c = code d \<and> x = y"
        by (simp add: uri_char_def percent_byte_append)
      then show ?thesis by simp
    next
      case 2
      with False eq c d have "code c = 192 + code d div 64"
        by (simp add: uri_char_def percent_byte_append)
      with 2 show ?thesis by simp
    next
      case 3
      with False eq c d have "192 + code c div 64 = code d"
        by (simp add: uri_char_def percent_byte_append)
      with 3 show ?thesis by simp
    next
      case 4
      with False eq c d have "code c div 64 = code d div 64" "code c mod 64 = code d mod 64" "x = y"
        by (simp_all add: uri_char_def percent_byte_append)
      then have "code c = code d" by (metis div_mult_mod_eq)
      with \<open>x = y\<close> show ?thesis by simp
    qed
  qed
qed

lemma uri_char_nonempty [simp]: "uri_char c \<noteq> []"
  by (simp add: uri_char_def percent_byte_def)

lemma uri_encode_inj: "uri_encode s = uri_encode t \<Longrightarrow> s = t"
proof (induction s arbitrary: t)
  case Nil
  then show ?case by (cases t) (auto simp: uri_encode_def)
next
  case (Cons c s)
  show ?case
  proof (cases t)
    case Nil
    with Cons.prems show ?thesis by (simp add: uri_encode_def)
  next
    case (Cons d t')
    with Cons.prems have "uri_char c @ uri_encode s = uri_char d @ uri_encode t'"
      by (simp add: uri_encode_def)
    then have "c = d" "uri_encode s = uri_encode t'"
      using uri_char_prefix_free by blast+
    with Cons.IH Cons show ?thesis by simp
  qed
qed

lemma hex_digit_no_slash: "n < 16 \<Longrightarrow> hex_digit n \<noteq> CHR ''/''"
proof
  assume "n < 16" and "hex_digit n = CHR ''/''"
  then have "code (hex_digit n) = 47" by simp
  with \<open>n < 16\<close> show False by (simp add: hex_digit_def split: if_splits)
qed

lemma percent_byte_no_slash: "b < 256 \<Longrightarrow> CHR ''/'' \<notin> set (percent_byte b)"
proof -
  assume "b < 256"
  then have "b div 16 < 16" "b mod 16 < 16" by auto
  from this [THEN hex_digit_no_slash] show ?thesis by (auto simp: percent_byte_def)
qed

lemma uri_encode_no_slash: "CHR ''/'' \<notin> set (uri_encode s)"
proof -
  have u: "\<not> uri_unreserved (CHR ''/'')"
    by (simp add: uri_unreserved_def is_alnum_def is_digit_def)
  have "CHR ''/'' \<notin> set (uri_char c)" for c
  proof -
    have "code c < 256" by (rule code_less_256)
    then have "192 + code c div 64 < 256" "128 + code c mod 64 < 256" by linarith+
    with \<open>code c < 256\<close> [THEN percent_byte_no_slash] this [THEN percent_byte_no_slash] u
    show ?thesis by (auto simp: uri_char_def split: if_splits)
  qed
  then show ?thesis by (simp add: uri_encode_def)
qed

lemma slash_split_inj:
  "CHR ''/'' \<notin> set a \<Longrightarrow> CHR ''/'' \<notin> set b \<Longrightarrow> a @ CHR ''/'' # c = b @ CHR ''/'' # d \<longleftrightarrow> a = b \<and> c = d"
proof (induction a arbitrary: b)
  case Nil
  then show ?case by (cases b) auto
next
  case (Cons x a)
  then show ?case by (cases b) auto
qed

lemma uri_pair_inj:
  "uri_encode a @ CHR ''/'' # uri_encode c = uri_encode b @ CHR ''/'' # uri_encode d \<Longrightarrow> a = b \<and> c = d"
  by (auto simp: slash_split_inj uri_encode_no_slash dest: uri_encode_inj)

subsection \<open>JSON documents\<close>

text \<open>
  A value of \<open>JSON.parse\<close>: \<open>JFrac\<close> is a number that is not an integer, with the numeral it prints.
  \<open>is_record\<close> and \<open>exact\<close> are the two shape checks the validators share (the object test,
  and the test that the object has exactly the given fields, unknown fields reported first).
\<close>

datatype json =
    JNull
  | JBool bool
  | JInt int
  | JFrac string
  | JStr string
  | JArr "json list"
  | JObj "(string \<times> json) list"

type_synonym fields = "(string \<times> json) list"

definition get_field :: "fields \<Rightarrow> string \<Rightarrow> json option" where
  "get_field fs k = map_of fs k"

definition field :: "fields \<Rightarrow> string \<Rightarrow> json" where
  \<comment> \<open>the value of a field the \<open>exact\<close> check has already found\<close>
  "field fs k = (case map_of fs k of None \<Rightarrow> JNull | Some v \<Rightarrow> v)"

definition jstrs :: "string list \<Rightarrow> json" where
  "jstrs xs = JArr (map JStr xs)"

text \<open>
  \<open>JSON.stringify\<close> of such a value, and its canonical form: the fields of every object sorted
  with the comparison \<open>le\<close> of the keys (the code sorts with \<open>localeCompare\<close>, which depends on the
  collation tables of the runtime, so \<open>le\<close> is a parameter).
\<close>

definition hex_lower :: "nat \<Rightarrow> char" where
  "hex_lower n = (if n < 10 then char_of (48 + n) else char_of (87 + n))"

definition json_char :: "char \<Rightarrow> string" where
  "json_char c =
     (if c = CHR 0x22 then [CHR 0x5C, CHR 0x22]
      else if c = CHR 0x5C then [CHR 0x5C, CHR 0x5C]
      else if c = CHR 0x08 then CHR 0x5C # ''b''
      else if c = CHR 0x09 then CHR 0x5C # ''t''
      else if c = CHR 0x0A then CHR 0x5C # ''n''
      else if c = CHR 0x0C then CHR 0x5C # ''f''
      else if c = CHR 0x0D then CHR 0x5C # ''r''
      else if code c < 32 then CHR 0x5C # ''u00'' @ [hex_lower (code c div 16), hex_lower (code c mod 16)]
      else [c])"

definition json_string :: "string \<Rightarrow> string" where
  "json_string s = CHR 0x22 # concat (map json_char s) @ [CHR 0x22]"

fun join_with :: "string \<Rightarrow> string list \<Rightarrow> string" where
  "join_with sep [] = []"
| "join_with sep [x] = x"
| "join_with sep (x # xs) = x @ sep @ join_with sep xs"

fun jsonStringify :: "json \<Rightarrow> string" where
  "jsonStringify JNull = ''null''"
| "jsonStringify (JBool b) = (if b then ''true'' else ''false'')"
| "jsonStringify (JInt i) = int_str i"
| "jsonStringify (JFrac printed) = printed"
| "jsonStringify (JStr s) = json_string s"
| "jsonStringify (JArr xs) = ''['' @ join_with '','' (map jsonStringify xs) @ '']''"
| "jsonStringify (JObj fs) =
     ''{'' @ join_with '','' (map (\<lambda>(k, v). json_string k @ '':'' @ jsonStringify v) fs) @ ''}''"

fun insert_by :: "('a \<Rightarrow> 'a \<Rightarrow> bool) \<Rightarrow> 'a \<Rightarrow> 'a list \<Rightarrow> 'a list" where
  "insert_by le x [] = [x]"
| "insert_by le x (y # ys) = (if le x y then x # y # ys else y # insert_by le x ys)"

definition sort_by :: "('a \<Rightarrow> 'a \<Rightarrow> bool) \<Rightarrow> 'a list \<Rightarrow> 'a list" where
  "sort_by le xs = foldr (insert_by le) xs []"

fun canonicalize :: "(string \<Rightarrow> string \<Rightarrow> bool) \<Rightarrow> json \<Rightarrow> json" where
  "canonicalize le (JArr xs) = JArr (map (canonicalize le) xs)"
| "canonicalize le (JObj fs) =
     JObj (sort_by (\<lambda>a b. le (fst a) (fst b)) (map (\<lambda>(k, v). (k, canonicalize le v)) fs))"
| "canonicalize le v = v"

definition canonicalJson :: "(string \<Rightarrow> string \<Rightarrow> bool) \<Rightarrow> json \<Rightarrow> string" where
  "canonicalJson le v = jsonStringify (canonicalize le v)"

end
