(* ===== verification/Yui_Time.thy ===== *)
theory Yui_Time
  imports Yui_Text
begin

section \<open>Dates and ISO timestamps\<close>

text \<open>
  A \<open>Date\<close> is its time value, the milliseconds since the epoch (an \<open>int\<close>); every record of
  the program stores the string \<open>toISOString\<close> makes of it and reads it back with \<open>Date.parse\<close>.
  \<open>iso_string\<close> follows the ECMAScript definition (DayFromYear, YearFromTime, MonthFromTime).
  \<open>date_parse\<close> reads exactly the format \<open>toISOString\<close> writes and is \<open>None\<close> (NaN) elsewhere: the
  shorter ISO forms and the implementation's fallback formats, which \<open>Date.parse\<close> also accepts,
  are outside the model.  The main lemma is the round trip \<open>date_parse_iso\<close>, for every time
  value a \<open>Date\<close> can hold.
\<close>

type_synonym date = int

definition ms_per_day :: int where
  "ms_per_day = 86400000"

definition day_from_year :: "int \<Rightarrow> int" where
  "day_from_year y =
     365 * (y - 1970) + (y - 1969) div 4 - (y - 1901) div 100 + (y - 1601) div 400"

definition leap_day :: "int \<Rightarrow> int" where
  "leap_day y = (if y mod 4 = 0 \<and> (y mod 100 \<noteq> 0 \<or> y mod 400 = 0) then 1 else 0)"

definition year_from_day :: "int \<Rightarrow> int" where
  "year_from_day d =
     (let c = 1970 + (400 * d) div 146097 in
      if d < day_from_year c then c - 1
      else if day_from_year (c + 1) \<le> d then c + 1
      else c)"

definition month_starts :: "int \<Rightarrow> int list" where
  "month_starts l =
     [0, 31, 59 + l, 90 + l, 120 + l, 151 + l, 181 + l, 212 + l, 243 + l, 273 + l, 304 + l, 334 + l]"

definition month_from_day :: "int \<Rightarrow> int \<Rightarrow> nat" where
  \<comment> \<open>from the leap day of the year and the day within the year; 0 is January\<close>
  "month_from_day l n = length (takeWhile (\<lambda>s. s \<le> n) (month_starts l)) - 1"

definition pad2 :: "nat \<Rightarrow> string" where
  "pad2 k = [digit_char (k div 10 mod 10), digit_char (k mod 10)]"

definition pad3 :: "nat \<Rightarrow> string" where
  "pad3 k = [digit_char (k div 100 mod 10), digit_char (k div 10 mod 10), digit_char (k mod 10)]"

definition iso_year :: "int \<Rightarrow> string" where
  "iso_year y =
     (if 0 \<le> y \<and> y \<le> 9999 then pad2 (nat y div 100) @ pad2 (nat y mod 100)
      else (if y < 0 then CHR ''-'' else CHR ''+'')
             # pad3 (nat \<bar>y\<bar> div 1000) @ pad3 (nat \<bar>y\<bar> mod 1000))"

definition iso_string :: "date \<Rightarrow> string" where
  "iso_string t =
     (let d = t div ms_per_day; r = t mod ms_per_day;
          y = year_from_day d; n = d - day_from_year y;
          m = month_from_day (leap_day y) n
      in iso_year y
           @ ''-'' @ pad2 (Suc m)
           @ ''-'' @ pad2 (nat (n - month_starts (leap_day y) ! m + 1))
           @ ''T'' @ pad2 (nat (r div 3600000))
           @ '':'' @ pad2 (nat (r div 60000 mod 60))
           @ '':'' @ pad2 (nat (r div 1000 mod 60))
           @ ''.'' @ pad3 (nat (r mod 1000))
           @ ''Z'')"

text \<open>A \<open>#\<close> of the template is a digit, every other character is itself.\<close>

definition matches :: "string \<Rightarrow> string \<Rightarrow> bool" where
  "matches template s =
     list_all2 (\<lambda>p c. if p = CHR ''#'' then is_digit c else c = p) template s"

definition number_at :: "nat \<Rightarrow> nat \<Rightarrow> string \<Rightarrow> nat" where
  "number_at i n s = dec_val (take n (drop i s))"

definition parse_year :: "string \<Rightarrow> (int \<times> string) option" where
  "parse_year s =
     (if length s = 24 \<and> matches ''####'' (take 4 s) then Some (int (number_at 0 4 s), drop 4 s)
      else if length s = 27 \<and> matches ''+######'' (take 7 s)
        then Some (int (number_at 1 6 s), drop 7 s)
      else if length s = 27 \<and> matches ''-######'' (take 7 s) \<and> number_at 1 6 s \<noteq> 0
        then Some (- int (number_at 1 6 s), drop 7 s)
      else None)"

definition date_parse :: "string \<Rightarrow> date option" where
  "date_parse s =
     (case parse_year s of
        None \<Rightarrow> None
      | Some (y, r) \<Rightarrow>
          let mo = number_at 1 2 r; da = number_at 4 2 r; h = number_at 7 2 r;
              mi = number_at 10 2 r; se = number_at 13 2 r; ms = number_at 16 3 r
          in if matches ''-##-##T##:##:##.###Z'' r
                \<and> 1 \<le> mo \<and> mo \<le> 12 \<and> 1 \<le> da \<and> da \<le> 31 \<and> h \<le> 23 \<and> mi \<le> 59 \<and> se \<le> 59
             then Some ((day_from_year y + month_starts (leap_day y) ! (mo - 1) + int da - 1) * ms_per_day
                        + int h * 3600000 + int mi * 60000 + int se * 1000 + int ms)
             else None)"

text \<open>\<open>Number.isFinite(Date.parse(s))\<close>, and the comparisons of two parsed dates (false on NaN).\<close>

definition is_date :: "string \<Rightarrow> bool" where
  "is_date s \<longleftrightarrow> date_parse s \<noteq> None"

definition date_le :: "string \<Rightarrow> string \<Rightarrow> bool" where
  "date_le a b = (case (date_parse a, date_parse b) of (Some x, Some y) \<Rightarrow> x \<le> y | _ \<Rightarrow> False)"

definition date_less :: "string \<Rightarrow> string \<Rightarrow> bool" where
  "date_less a b = (case (date_parse a, date_parse b) of (Some x, Some y) \<Rightarrow> x < y | _ \<Rightarrow> False)"

subsection \<open>The calendar\<close>

lemma div_succ: "0 < k \<Longrightarrow> (x + 1) div k = x div k + (if (x + 1) mod k = 0 then 1 else 0)"
  for x k :: int
proof -
  assume k: "0 < k"
  let ?q = "x div k" and ?r = "x mod k"
  have x: "x + 1 = k * ?q + (?r + 1)" by simp
  have r: "0 \<le> ?r" "?r < k" using k by simp_all
  show ?thesis
  proof (cases "?r + 1 < k")
    case True
    with int_div_pos_eq [OF x] int_mod_pos_eq [OF x] r
    have "(x + 1) div k = ?q" "(x + 1) mod k = ?r + 1" by simp_all
    with r show ?thesis by simp
  next
    case False
    with r have "?r + 1 = k" by simp
    with x have x': "x + 1 = k * (?q + 1) + 0" by (simp add: distrib_left)
    with int_div_pos_eq [OF x'] int_mod_pos_eq [OF x'] k
    have "(x + 1) div k = ?q + 1" "(x + 1) mod k = 0" by simp_all
    then show ?thesis by simp
  qed
qed

lemma leap_cases:
  "(y - 1968) mod 4 = 0 \<longleftrightarrow> y mod 4 = 0" "(y - 1900) mod 100 = 0 \<longleftrightarrow> y mod 100 = 0"
  "(y - 1600) mod 400 = 0 \<longleftrightarrow> y mod 400 = 0"
  "y mod 100 = 0 \<Longrightarrow> y mod 4 = 0" "y mod 400 = 0 \<Longrightarrow> y mod 100 = 0" for y :: int
proof -
  have "(4::int) dvd 1968" "(100::int) dvd 1900" "(400::int) dvd 1600" by simp_all
  from this [THEN dvd_diff_left_iff]
  show "(y - 1968) mod 4 = 0 \<longleftrightarrow> y mod 4 = 0" "(y - 1900) mod 100 = 0 \<longleftrightarrow> y mod 100 = 0"
    "(y - 1600) mod 400 = 0 \<longleftrightarrow> y mod 400 = 0" by (simp_all only: mod_eq_0_iff_dvd)
  show "y mod 100 = 0 \<Longrightarrow> y mod 4 = 0"
    unfolding mod_eq_0_iff_dvd by (rule dvd_trans [of 4 100 y]) simp_all
  show "y mod 400 = 0 \<Longrightarrow> y mod 100 = 0"
    unfolding mod_eq_0_iff_dvd by (rule dvd_trans [of 100 400 y]) simp_all
qed

lemma day_from_year_Suc: "day_from_year (y + 1) = day_from_year y + 365 + leap_day y"
proof -
  have e: "y + 1 - 1969 = y - 1969 + 1" "y + 1 - 1901 = y - 1901 + 1" "y + 1 - 1601 = y - 1601 + 1"
    "y - 1969 + 1 = y - 1968" "y - 1901 + 1 = y - 1900" "y - 1601 + 1 = y - 1600" by simp_all
  have arith: "365 * (y + 1 - 1970) + (A + a) - (B + b) + (C + c)
      = 365 * (y - 1970) + A - B + C + 365 + (a - b + c)" for A B C a b c :: int
    by simp
  have four: "(y + 1 - 1969) div 4 = (y - 1969) div 4 + (if y mod 4 = 0 then 1 else 0)"
    using div_succ [of 4 "y - 1969"] by (simp only: e leap_cases)
  have hundred: "(y + 1 - 1901) div 100 = (y - 1901) div 100 + (if y mod 100 = 0 then 1 else 0)"
    using div_succ [of 100 "y - 1901"] by (simp only: e leap_cases)
  have fourhundred: "(y + 1 - 1601) div 400 = (y - 1601) div 400 + (if y mod 400 = 0 then 1 else 0)"
    using div_succ [of 400 "y - 1601"] by (simp only: e leap_cases)
  have leap: "leap_day y = (if y mod 4 = 0 then 1 else 0) - (if y mod 100 = 0 then 1 else 0)
      + (if y mod 400 = 0 then 1 else 0)"
  proof -
    have "(C \<Longrightarrow> B) \<Longrightarrow> (B \<Longrightarrow> A) \<Longrightarrow> (if A \<and> (\<not> B \<or> C) then 1 else 0 :: int)
        = (if A then 1 else 0) - (if B then 1 else 0) + (if C then 1 else 0)" for A B C
      by (cases A; cases B; cases C) simp_all
    from this [OF leap_cases(5) leap_cases(4)] show ?thesis
      unfolding leap_day_def .
  qed
  show ?thesis
    unfolding day_from_year_def four hundred fourhundred leap by (rule arith)
qed

lemma leap_day_cases: "leap_day y = 0 \<or> leap_day y = 1"
  by (simp add: leap_day_def)

lemma div_bounds: "0 < k \<Longrightarrow> k * (x div k) \<le> x" "0 < k \<Longrightarrow> x \<le> k * (x div k) + (k - 1)" for x k :: int
  using pos_mod_bound [of k x] pos_mod_sign [of k x] mult_div_mod_eq [of k x] by linarith+

text \<open>Four hundred years have 146097 days; a year starts within two days of the linear estimate.\<close>

lemma day_from_year_approx:
  "146097 * (y - 1970) - 506 \<le> 400 * day_from_year y"
  "400 * day_from_year y \<le> 146097 * (y - 1970) + 589"
proof -
  define a b c where "a = (y - 1969) div 4" and "b = (y - 1901) div 100" and "c = (y - 1601) div 400"
  have "4 * a \<le> y - 1969" "y - 1969 \<le> 4 * a + (4 - 1)" "100 * b \<le> y - 1901"
    "y - 1901 \<le> 100 * b + (100 - 1)" "400 * c \<le> y - 1601" "y - 1601 \<le> 400 * c + (400 - 1)"
    unfolding a_def b_def c_def by (rule div_bounds, simp)+
  moreover have "day_from_year y = 365 * (y - 1970) + a - b + c"
    by (simp only: day_from_year_def a_def b_def c_def)
  ultimately have "146097 * (y - 1970) - 506 \<le> 400 * day_from_year y
      \<and> 400 * day_from_year y \<le> 146097 * (y - 1970) + 589"
    by (simp add: algebra_simps)
  then show "146097 * (y - 1970) - 506 \<le> 400 * day_from_year y"
    and "400 * day_from_year y \<le> 146097 * (y - 1970) + 589" by simp_all
qed

lemma year_estimate:
  "146097 * ((400 * d) div 146097) \<le> 400 * d"
  "400 * d \<le> 146097 * ((400 * d) div 146097) + (146097 - 1)" for d :: int
  by (rule div_bounds, simp)+

lemma year_from_day_bounds:
  "day_from_year (year_from_day d) \<le> d" "d < day_from_year (year_from_day d + 1)"
proof -
  define q where "q = (400 * d) div 146097"
  define c where "c = 1970 + q"
  have "146097 * q \<le> 400 * d" "400 * d \<le> 146097 * q + (146097 - 1)"
    unfolding q_def by (rule year_estimate)+
  moreover define u v where "u = day_from_year (c - 1)" and "v = day_from_year (c + 1 + 1)"
  moreover have "400 * u \<le> 146097 * (c - 1 - 1970) + 589" "146097 * (c + 1 + 1 - 1970) - 506 \<le> 400 * v"
    unfolding u_def v_def by (rule day_from_year_approx)+
  ultimately have "u \<le> d \<and> d < v" unfolding c_def by (simp add: algebra_simps)
  then have lo: "day_from_year (c - 1) \<le> d" and hi: "d < day_from_year (c + 1 + 1)"
    by (simp_all only: u_def v_def)
  have eq: "year_from_day d = (if d < day_from_year c then c - 1
      else if day_from_year (c + 1) \<le> d then c + 1 else c)"
    by (simp only: year_from_day_def Let_def c_def q_def)
  show "day_from_year (year_from_day d) \<le> d" "d < day_from_year (year_from_day d + 1)"
    unfolding eq using lo hi by (simp_all split: if_split del: add.assoc)
qed

lemma year_from_day_range:
  assumes "\<bar>d\<bar> \<le> 100000000"
  shows "\<bar>year_from_day d\<bar> < 1000000"
proof -
  define q where "q = (400 * d) div 146097"
  have "146097 * q \<le> 400 * d" "400 * d \<le> 146097 * q + (146097 - 1)"
    unfolding q_def by (rule year_estimate)+
  with assms have "\<bar>q\<bar> < 300000" by linarith
  moreover have "year_from_day d = 1970 + q - 1 \<or> year_from_day d = 1970 + q + 1
      \<or> year_from_day d = 1970 + q"
    by (simp only: year_from_day_def Let_def q_def) simp
  ultimately show ?thesis by linarith
qed

text \<open>The month is the last one that starts on or before the day.\<close>

lemma month_from_day_bounds:
  assumes "l = 0 \<or> l = 1" and "0 \<le> n" and "n < 365 + l"
  shows "month_from_day l n < 12"
    and "month_starts l ! month_from_day l n \<le> n"
    and "n < month_starts l ! month_from_day l n + 31"
  using assms unfolding month_from_day_def month_starts_def by (auto split: if_splits)

subsection \<open>Reading back what toISOString writes\<close>

lemma pad2_value: "k < 100 \<Longrightarrow> dec_val (pad2 k) = k"
  by (simp add: pad2_def dec_val_def code_digit_char)

lemma pad3_value: "k < 1000 \<Longrightarrow> dec_val (pad3 k) = k"
proof -
  assume "k < 1000"
  then have "k div 100 mod 10 = k div 100" by simp
  moreover have "k div 100 = k div 10 div 10" by (simp add: div_mult2_eq [symmetric])
  ultimately have "10 * (k div 100 mod 10) + k div 10 mod 10 = k div 10"
    by (metis mult_div_mod_eq)
  moreover have "dec_val (pad3 k) = 10 * (10 * (k div 100 mod 10) + k div 10 mod 10) + k mod 10"
    by (simp add: pad3_def dec_val_def code_digit_char)
  ultimately show ?thesis by (simp only: mult_div_mod_eq)
qed

lemma pad_digits: "list_all is_digit (pad2 k)" "list_all is_digit (pad3 k)"
  by (simp_all add: pad2_def pad3_def is_digit_digit_char)

lemma pad_length [simp]: "length (pad2 k) = 2" "length (pad3 k) = 3"
  by (simp_all add: pad2_def pad3_def)

lemma pad2_pos: "take 2 (pad2 k @ r) = pad2 k" "drop 2 (pad2 k @ r) = r"
  by simp_all

lemma iso_year_parse:
  assumes y: "\<bar>y\<bar> < 1000000" and r: "length r = 20"
  shows "parse_year (iso_year y @ r) = Some (y, r)"
proof (cases "0 \<le> y \<and> y \<le> 9999")
  case True
  define k where "k = nat y"
  from True have k: "k < 10000" "y = int k" by (auto simp: k_def)
  then have "k div 100 < 100" "k mod 100 < 100" by auto
  then have v: "dec_val (pad2 (k div 100) @ pad2 (k mod 100)) = k"
    by (simp add: dec_val_append pad2_value)
  have "matches ''####'' (pad2 (k div 100) @ pad2 (k mod 100))"
    by (simp add: matches_def pad2_def is_digit_digit_char)
  with True r v k show ?thesis
    by (simp add: iso_year_def parse_year_def number_at_def k_def [symmetric])
next
  case False
  define k where "k = nat \<bar>y\<bar>"
  from y have "k < 1000000" by (simp add: k_def)
  then have "k div 1000 < 1000" "k mod 1000 < 1000" by auto
  then have v: "dec_val (pad3 (k div 1000) @ pad3 (k mod 1000)) = k"
    by (simp add: dec_val_append pad3_value)
  have m: "matches ''+######'' (CHR ''+'' # pad3 (k div 1000) @ pad3 (k mod 1000))"
    "matches ''-######'' (CHR ''-'' # pad3 (k div 1000) @ pad3 (k mod 1000))"
    "\<not> matches ''+######'' (CHR ''-'' # pad3 (k div 1000) @ pad3 (k mod 1000))"
    by (simp_all add: matches_def pad3_def is_digit_digit_char)
  from False have "y < 0 \<and> y = - int k \<and> k \<noteq> 0 \<or> \<not> y < 0 \<and> y = int k" by (auto simp: k_def)
  with False r v m show ?thesis
    by (auto simp: iso_year_def parse_year_def number_at_def k_def [symmetric])
qed

lemma date_parse_parts:
  assumes y: "\<bar>y\<bar> < 1000000" and mo: "1 \<le> mo" "mo \<le> 12" and da: "1 \<le> da" "da \<le> 31"
    and h: "h \<le> 23" and mi: "mi \<le> 59" and se: "se \<le> 59" and ms: "ms < 1000"
  shows "date_parse (iso_year y @ ''-'' @ pad2 mo @ ''-'' @ pad2 da @ ''T'' @ pad2 h
           @ '':'' @ pad2 mi @ '':'' @ pad2 se @ ''.'' @ pad3 ms @ ''Z'') =
         Some ((day_from_year y + month_starts (leap_day y) ! (mo - 1) + int da - 1) * ms_per_day
               + int h * 3600000 + int mi * 60000 + int se * 1000 + int ms)"
proof -
  let ?r = "''-'' @ pad2 mo @ ''-'' @ pad2 da @ ''T'' @ pad2 h
           @ '':'' @ pad2 mi @ '':'' @ pad2 se @ ''.'' @ pad3 ms @ ''Z''"
  have p: "parse_year (iso_year y @ ?r) = Some (y, ?r)" by (rule iso_year_parse [OF y]) simp
  have m: "matches ''-##-##T##:##:##.###Z'' ?r"
    by (simp add: matches_def pad2_def pad3_def is_digit_digit_char)
  have "number_at 1 2 ?r = dec_val (pad2 mo)" "number_at 4 2 ?r = dec_val (pad2 da)"
    "number_at 7 2 ?r = dec_val (pad2 h)" "number_at 10 2 ?r = dec_val (pad2 mi)"
    "number_at 13 2 ?r = dec_val (pad2 se)" "number_at 16 3 ?r = dec_val (pad3 ms)"
    by (simp_all add: number_at_def pad2_def pad3_def)
  moreover have "dec_val (pad2 mo) = mo" "dec_val (pad2 da) = da" "dec_val (pad2 h) = h"
    "dec_val (pad2 mi) = mi" "dec_val (pad2 se) = se" "dec_val (pad3 ms) = ms"
    using assms by (simp_all add: pad2_value pad3_value)
  ultimately show ?thesis
    using p m assms by (simp only: date_parse_def Let_def option.case prod.case) simp
qed

text \<open>A \<open>Date\<close> holds at most \<open>8.64e15\<close> milliseconds on either side of the epoch.\<close>

definition valid_date :: "date \<Rightarrow> bool" where
  "valid_date t \<longleftrightarrow> \<bar>t\<bar> \<le> 8640000000000000"

lemma time_split:
  fixes r :: int
  assumes r: "0 \<le> r" "r < 86400000"
  defines "h \<equiv> r div 3600000" and "mi \<equiv> r div 60000 mod 60" and "se \<equiv> r div 1000 mod 60"
    and "ms \<equiv> r mod 1000"
  shows "h * 3600000 + mi * 60000 + se * 1000 + ms = r"
    and "0 \<le> h" "h < 24" "0 \<le> mi" "mi < 60" "0 \<le> se" "se < 60" "0 \<le> ms" "ms < 1000"
proof -
  define p where "p = r div 1000"
  define q where "q = p div 60"
  have h: "h = q div 60" and mi: "mi = q mod 60" and se: "se = p mod 60"
    unfolding h_def mi_def se_def q_def p_def by (simp_all add: zdiv_zmult2_eq [symmetric])
  have e: "1000 * p + ms = r" "60 * q + se = p" "60 * h + mi = q"
    unfolding h mi se by (simp_all add: p_def q_def ms_def)
  then show "h * 3600000 + mi * 60000 + se * 1000 + ms = r" by linarith
  show b: "0 \<le> mi" "mi < 60" "0 \<le> se" "se < 60" "0 \<le> ms" "ms < 1000"
    unfolding mi se by (simp_all add: ms_def)
  show "0 \<le> h" "h < 24" using e b r by linarith+
qed

theorem date_parse_iso: "valid_date t \<Longrightarrow> date_parse (iso_string t) = Some t"
proof -
  assume "valid_date t"
  define d r where "d = t div ms_per_day" and "r = t mod ms_per_day"
  define y where "y = year_from_day d"
  define n where "n = d - day_from_year y"
  define m where "m = month_from_day (leap_day y) n"
  define s where "s = month_starts (leap_day y) ! m"
  have t: "ms_per_day * d + r = t" by (simp add: d_def r_def)
  have r: "0 \<le> r" "r < 86400000" by (simp_all add: r_def ms_per_day_def)
  with t \<open>valid_date t\<close> have "\<bar>d\<bar> \<le> 100000000"
    unfolding valid_date_def ms_per_day_def by linarith
  then have y: "\<bar>y\<bar> < 1000000" unfolding y_def by (rule year_from_day_range)
  have n: "0 \<le> n" "n < 365 + leap_day y"
    using year_from_day_bounds [of d] day_from_year_Suc [of y] by (simp_all add: n_def y_def)
  note mb = month_from_day_bounds [OF leap_day_cases n, folded m_def, folded s_def]
  define h mi se ms where "h = r div 3600000" and "mi = r div 60000 mod 60"
    and "se = r div 1000 mod 60" and "ms = r mod 1000"
  note rb = time_split [OF r, folded h_def mi_def se_def ms_def]
  have iso: "iso_string t = iso_year y @ ''-'' @ pad2 (Suc m) @ ''-'' @ pad2 (nat (n - s + 1))
      @ ''T'' @ pad2 (nat h) @ '':'' @ pad2 (nat mi)
      @ '':'' @ pad2 (nat se) @ ''.'' @ pad3 (nat ms) @ ''Z''"
    by (simp only: iso_string_def Let_def d_def r_def y_def n_def m_def s_def h_def mi_def se_def ms_def)
  have "date_parse (iso_string t) =
      Some ((day_from_year y + s + int (nat (n - s + 1)) - 1) * ms_per_day
        + int (nat h) * 3600000 + int (nat mi) * 60000
        + int (nat se) * 1000 + int (nat ms))"
  proof -
    have "1 \<le> Suc m" "Suc m \<le> 12" "1 \<le> nat (n - s + 1)" "nat (n - s + 1) \<le> 31"
      using mb by auto
    moreover have "nat h \<le> 23" "nat mi \<le> 59"
      "nat se \<le> 59" "nat ms < 1000"
      using rb by simp_all
    moreover have "month_starts (leap_day y) ! (Suc m - 1) = s" by (simp add: s_def)
    ultimately show ?thesis
      unfolding iso using date_parse_parts [OF y] by (simp only:)
  qed
  moreover have "int (nat (n - s + 1)) = n - s + 1" using mb by simp
  then have "day_from_year y + s + int (nat (n - s + 1)) - 1 = d" by (simp add: n_def)
  moreover have "int (nat h) = h"
    "int (nat mi) = mi"
    "int (nat se) = se" "int (nat ms) = ms"
    using rb by simp_all
  moreover have "d * ms_per_day + h * 3600000 + mi * 60000
      + se * 1000 + ms = t"
    using rb(1) t unfolding mult.commute [of ms_per_day d] by linarith
  ultimately show ?thesis by (simp only:)
qed

lemma is_date_iso: "valid_date t \<Longrightarrow> is_date (iso_string t)"
  by (simp add: is_date_def date_parse_iso)

lemma date_le_iso: "valid_date s \<Longrightarrow> valid_date t \<Longrightarrow> date_le (iso_string s) (iso_string t) \<longleftrightarrow> s \<le> t"
  by (simp add: date_le_def date_parse_iso)

text \<open>The printed form is its own trimmed text.\<close>

lemma iso_string_chars: "list_all (\<lambda>c. is_digit c \<or> c \<in> set ''+-T:.Z'') (iso_string t)"
proof -
  have pads: "list_all (\<lambda>c. is_digit c \<or> c \<in> set ''+-T:.Z'') (pad2 k)"
    "list_all (\<lambda>c. is_digit c \<or> c \<in> set ''+-T:.Z'') (pad3 k)" for k
    using pad_digits by (auto simp: list_all_iff)
  then show ?thesis by (simp add: iso_string_def iso_year_def Let_def)
qed

lemma iso_string_plain: "c \<in> set (iso_string t) \<Longrightarrow> \<not> is_ws c \<and> c \<noteq> NUL"
proof -
  assume "c \<in> set (iso_string t)"
  with iso_string_chars consider "is_digit c" | "c \<in> set ''+-T:.Z''" by (auto simp: list_all_iff)
  then show ?thesis
    by cases (auto simp: is_digit_def is_ws_def NUL_def)
qed

lemma iso_string_nonempty: "iso_string t \<noteq> []"
  by (simp add: iso_string_def Let_def)

lemma js_trim_iso: "js_trim (iso_string t) = iso_string t"
  using iso_string_plain iso_string_nonempty by (intro js_trim_id) (meson hd_in_set last_in_set)

end
