(* ===== verification/Yui_Validation.thy ===== *)
theory Yui_Validation
  imports Yui_Time
begin

section \<open>Field validation and Task record references\<close>

text \<open>
  \<open>src/domain/validation.ts\<close> and \<open>src/task/taskRecordReference.ts\<close>: the field checks every
  record of the control plane goes through, and the two-part identity \<open>taskId/localId\<close> of a
  Task-owned record.  A JavaScript number is an \<open>int\<close>; where the code asks
  \<open>Number.isSafeInteger\<close> the bound of 53 bits is explicit.  The lemmas say when a check
  succeeds and what it returns, that normalization is idempotent, and that a formatted
  reference resolves to itself.
\<close>

subsection \<open>domain/validation.ts\<close>

definition requireText :: "string \<Rightarrow> string \<Rightarrow> string result" where
  "requireText value label =
     (if NUL \<in> set value then throw (label @ '' is invalid.'')
      else let normalized = js_trim value in
        if normalized = [] then throw (label @ '' is required.'')
        else Inr normalized)"

definition reserved_identities :: "string list" where
  "reserved_identities = [''.'', ''..'', ''__proto__'', ''prototype'', ''constructor'']"

definition has_path_char :: "string \<Rightarrow> bool" where
  "has_path_char s \<longleftrightarrow> CHR ''/'' \<in> set s \<or> CHR 0x5C \<in> set s \<or> NUL \<in> set s"

definition requireIdentity :: "string \<Rightarrow> string \<Rightarrow> string result" where
  "requireIdentity value label =
     andThen (requireText value label) (\<lambda>normalized.
       if normalized \<in> set reserved_identities \<or> has_path_char normalized
       then throw (label @ '' is invalid.'')
       else Inr normalized)"

definition optionalText :: "string option \<Rightarrow> string \<Rightarrow> string option result" where
  "optionalText value label = optionally (\<lambda>v. requireText v label) value"

definition requireTimestamp :: "string \<Rightarrow> string \<Rightarrow> string result" where
  "requireTimestamp value label =
     (if \<not> is_date value then throw (label @ '' must be an ISO timestamp.'') else Inr value)"

definition safe_integer :: "int \<Rightarrow> bool" where
  "safe_integer n \<longleftrightarrow> \<bar>n\<bar> \<le> 9007199254740991"

definition requirePositiveInteger :: "int \<Rightarrow> string \<Rightarrow> int result" where
  "requirePositiveInteger value label =
     (if \<not> safe_integer value \<or> value < 1 then throw (label @ '' must be a positive integer.'')
      else Inr value)"

definition normalizedUniqueText :: "string list \<Rightarrow> string \<Rightarrow> string list result" where
  "normalizedUniqueText values label =
     andThen (traverse (\<lambda>value. requireText value label) values) (\<lambda>normalized.
       if \<not> distinct normalized then throw (label @ '' must be unique.'')
       else Inr normalized)"

definition normalizedUniqueIdentities :: "string list \<Rightarrow> string \<Rightarrow> string list result" where
  "normalizedUniqueIdentities values label =
     andThen (traverse (\<lambda>value. requireIdentity value label) values) (\<lambda>normalized.
       if \<not> distinct normalized then throw (label @ '' must be unique.'')
       else Inr normalized)"

text \<open>
  \<open>requireCommit\<close>, the private helper several records share (\<open>integrationAttempt.ts\<close>,
  \<open>durableJob.ts\<close>, \<open>workItem.ts\<close>, \<open>task.ts\<close>): a lower-cased SHA-1 or SHA-256 object id.
\<close>

definition is_commit :: "string \<Rightarrow> bool" where
  "is_commit s \<longleftrightarrow> (length s = 40 \<or> length s = 64) \<and> list_all is_hex_lower s"

definition requireCommit :: "string \<Rightarrow> string \<Rightarrow> string result" where
  "requireCommit value label =
     andThen (requireText value label) (\<lambda>text.
       let normalized = js_lower text in
         if \<not> is_commit normalized then throw (label @ '' is invalid.'') else Inr normalized)"

text \<open>\<open>now.toISOString()\<close>, which throws on an invalid date.\<close>

definition toISOString :: "date \<Rightarrow> string result" where
  "toISOString now = (if \<not> valid_date now then throw ''Invalid time value'' else Inr (iso_string now))"

lemma toISOString_eq [simp]: "toISOString now = Inr t \<longleftrightarrow> valid_date now \<and> t = iso_string now"
  by (auto simp: toISOString_def)

subsection \<open>When the checks succeed\<close>

text \<open>
  A normalizing check returns a value it accepts unchanged: persisted fields are fixed points.
\<close>

locale normalizer =
  fixes norm :: "'a \<Rightarrow> 'a result"
  assumes norm_idem: "norm x = Inr y \<Longrightarrow> norm y = Inr y"
begin

lemma traverse_idem: "traverse norm xs = Inr ys \<Longrightarrow> traverse norm ys = Inr ys"
  by (rule traverse_result_fix) (auto intro: norm_idem)

lemma optionally_idem: "optionally norm x = Inr y \<Longrightarrow> optionally norm y = Inr y"
  by (cases x) (auto intro: norm_idem)

end

definition text_ok :: "string \<Rightarrow> bool" where
  "text_ok s \<longleftrightarrow> NUL \<notin> set s \<and> js_trim s \<noteq> []"

definition identity_ok :: "string \<Rightarrow> bool" where
  "identity_ok s \<longleftrightarrow> text_ok s \<and> js_trim s \<notin> set reserved_identities \<and> \<not> has_path_char (js_trim s)"

lemma requireText_eq [simp]: "requireText v l = Inr t \<longleftrightarrow> text_ok v \<and> t = js_trim v"
  by (auto simp: requireText_def text_ok_def Let_def)

lemma requireIdentity_eq [simp]: "requireIdentity v l = Inr t \<longleftrightarrow> identity_ok v \<and> t = js_trim v"
  by (auto simp: requireIdentity_def identity_ok_def)

lemma text_ok_trim: "text_ok v \<Longrightarrow> text_ok (js_trim v)"
  by (auto simp: text_ok_def dest: not_in_js_trim)

lemma identity_ok_trim: "identity_ok v \<Longrightarrow> identity_ok (js_trim v)"
  by (auto simp: identity_ok_def dest: text_ok_trim)

lemma requireTimestamp_eq [simp]: "requireTimestamp v l = Inr t \<longleftrightarrow> is_date v \<and> t = v"
  by (auto simp: requireTimestamp_def)

lemma requirePositiveInteger_eq [simp]:
  "requirePositiveInteger n l = Inr m \<longleftrightarrow> safe_integer n \<and> 1 \<le> n \<and> m = n"
  by (auto simp: requirePositiveInteger_def)

interpretation text_norm: normalizer "\<lambda>v. requireText v l" for l
  by unfold_locales (auto dest: text_ok_trim)

interpretation identity_norm: normalizer "\<lambda>v. requireIdentity v l" for l
  by unfold_locales (auto dest: identity_ok_trim)

interpretation unique_text: normalizer "\<lambda>vs. normalizedUniqueText vs l" for l
  by unfold_locales (auto simp: normalizedUniqueText_def intro: text_norm.traverse_idem)

interpretation unique_identities: normalizer "\<lambda>vs. normalizedUniqueIdentities vs l" for l
  by unfold_locales (auto simp: normalizedUniqueIdentities_def intro: identity_norm.traverse_idem)

lemma is_hex_lower_lower: "is_hex_lower c \<Longrightarrow> char_lower c = c"
  by (auto simp: is_hex_lower_def is_digit_def char_lower_def)

lemma js_lower_commit: "is_commit s \<Longrightarrow> js_lower s = s"
  by (auto simp: is_commit_def js_lower_def list_all_iff is_hex_lower_lower intro: map_idI)

lemma hex_not_ws: "is_hex_lower c \<Longrightarrow> \<not> is_ws c \<and> c \<noteq> NUL"
  by (auto simp: is_hex_lower_def is_digit_def is_ws_def NUL_def)

lemma commit_text: "is_commit s \<Longrightarrow> text_ok s \<and> js_trim s = s"
proof -
  assume s: "is_commit s"
  then have ne: "s \<noteq> []" and h: "\<forall>c \<in> set s. is_hex_lower c"
    by (auto simp: is_commit_def list_all_iff)
  then have "js_trim s = s"
    by (intro js_trim_id) (meson hex_not_ws hd_in_set last_in_set)
  with ne h show ?thesis by (auto simp: text_ok_def dest: hex_not_ws)
qed

lemma requireCommit_eq:
  "requireCommit v l = Inr c \<longleftrightarrow> text_ok v \<and> c = js_lower (js_trim v) \<and> is_commit c"
  by (auto simp: requireCommit_def Let_def)

interpretation commit_norm: normalizer "\<lambda>v. requireCommit v l" for l
  by unfold_locales (auto simp: requireCommit_eq js_lower_commit commit_text)

lemma requireCommit_self: "is_commit c \<Longrightarrow> requireCommit c l = Inr c"
  by (simp add: requireCommit_eq commit_text js_lower_commit)

lemma text_ok_iso: "text_ok (iso_string t)"
  using iso_string_plain [of NUL t] iso_string_nonempty [of t] by (auto simp: text_ok_def js_trim_iso)

text \<open>When the checks return, as rewrite rules for validators.\<close>

definition text_or_empty :: "string option \<Rightarrow> string" where
  "text_or_empty x = (case x of None \<Rightarrow> [] | Some s \<Rightarrow> s)"

lemma no_date_Nil: "\<not> is_date []"
  by code_simp

lemma requireCommit_ok: "isOk (requireCommit v l) \<longleftrightarrow> text_ok v \<and> is_commit (js_lower (js_trim v))"
  by (auto simp: isOk_iff requireCommit_eq)

lemma requireText_ok [simp]: "isOk (requireText v l) \<longleftrightarrow> text_ok v"
  by (auto simp: isOk_iff)

lemma requireIdentity_ok [simp]: "isOk (requireIdentity v l) \<longleftrightarrow> identity_ok v"
  by (auto simp: isOk_iff)

lemma text_or_empty_eq [simp]:
  "text_or_empty (Some s) = s" "text_ok (text_or_empty x) \<longleftrightarrow> (\<exists>s. x = Some s \<and> text_ok s)"
  "is_date (text_or_empty x) \<longleftrightarrow> (\<exists>s. x = Some s \<and> is_date s)"
  by (auto simp: text_or_empty_def text_ok_def no_date_Nil split: option.splits)

definition commit_text_ok :: "string \<Rightarrow> bool" where
  "commit_text_ok s \<longleftrightarrow> text_ok s \<and> is_commit (js_lower (js_trim s))"

lemma uniqueText_ok:
  "isOk (normalizedUniqueText xs l) \<longleftrightarrow> list_all text_ok xs \<and> distinct (map js_trim xs)"
proof (cases "list_all text_ok xs")
  case True
  then have "traverse (\<lambda>v. requireText v l) xs = Inr (map js_trim xs)"
    by (induction xs) auto
  with True show ?thesis by (simp add: normalizedUniqueText_def)
next
  case False
  then have "\<not> isOk (traverse (\<lambda>v. requireText v l) xs)"
    by (auto simp: traverse_isOk list_all_iff)
  with False show ?thesis by (auto simp: normalizedUniqueText_def isOk_iff)
qed

lemma requireTimestamp_ok [simp]: "isOk (requireTimestamp t l) \<longleftrightarrow> is_date t"
  by (auto simp: isOk_iff)

lemma uniqueIdentity_ok: "isOk (normalizedUniqueIdentities [i] l) \<longleftrightarrow> identity_ok i"
  by (auto simp: normalizedUniqueIdentities_def isOk_iff)

text \<open>\<open>TaskCompletedBy\<close>: who acts on a Task (\<open>task/task.ts\<close>).\<close>

datatype task_actor = By_User | By_Operator | By_Leader

subsection \<open>task/taskRecordReference.ts\<close>

datatype record_kind =
    WorkItemKind | ContextSnapshotKind | RunKind | ReviewRoundKind | ChangeSetKind
  | IntegrationAttemptKind | IntegrationQueueKind | DurableJobKind | MessageKind
  | InputRequestKind | DecisionKind | MilestoneKind | EventKind | CapabilityGrantKind
  | ReleaseWorkflowKind | TaskWakeKind | PublicationReferenceKind

fun record_id_prefix :: "record_kind \<Rightarrow> string" where
  "record_id_prefix WorkItemKind = ''work-item''"
| "record_id_prefix ContextSnapshotKind = ''context-snapshot''"
| "record_id_prefix RunKind = ''run''"
| "record_id_prefix ReviewRoundKind = ''review-round''"
| "record_id_prefix ChangeSetKind = ''change-set''"
| "record_id_prefix IntegrationAttemptKind = ''integration''"
| "record_id_prefix IntegrationQueueKind = ''integration-queue''"
| "record_id_prefix DurableJobKind = ''job''"
| "record_id_prefix MessageKind = ''message''"
| "record_id_prefix InputRequestKind = ''input''"
| "record_id_prefix DecisionKind = ''decision''"
| "record_id_prefix MilestoneKind = ''milestone''"
| "record_id_prefix EventKind = ''event''"
| "record_id_prefix CapabilityGrantKind = ''capability-grant''"
| "record_id_prefix ReleaseWorkflowKind = ''release-workflow''"
| "record_id_prefix TaskWakeKind = ''wake''"
| "record_id_prefix PublicationReferenceKind = ''publication''"

text \<open>
  The regular expression \<open>^prefix-([1-9]\d*)$\<close> with the safe-integer test on the group: after the
  prefix and the dash, a decimal numeral without leading zero, at most \<open>2^53 - 1\<close>.
\<close>

definition numeral_id :: "string \<Rightarrow> string \<Rightarrow> bool" where
  "numeral_id prefix s \<longleftrightarrow>
     (let p = prefix @ ''-''; n = drop (length p) s in
        take (length p) s = p \<and> n \<noteq> [] \<and> list_all is_digit n \<and> code (hd n) \<noteq> 48
        \<and> safe_integer (int (dec_val n)))"

definition local_id_ok :: "record_kind \<Rightarrow> string \<Rightarrow> bool" where
  "local_id_ok kind s \<longleftrightarrow>
     (if kind = RunKind then numeral_id ''run'' s \<or> numeral_id ''turn'' s
      else numeral_id (record_id_prefix kind) s)"

definition validateTaskRecordReference ::
    "string \<Rightarrow> string \<Rightarrow> record_kind \<Rightarrow> (string \<times> string) result" where
  "validateTaskRecordReference taskId localId kind =
     andThen (requireIdentity taskId ''Task id'') (\<lambda>task.
     andThen (requireIdentity localId (record_id_prefix kind @ '' local id'')) (\<lambda>local_id.
       if \<not> local_id_ok kind local_id then throw (record_id_prefix kind @ '' local id is invalid'')
       else Inr (task, local_id)))"

definition formatTaskRecordReference :: "string \<Rightarrow> string \<Rightarrow> record_kind \<Rightarrow> string result" where
  "formatTaskRecordReference taskId localId kind =
     andThen (validateTaskRecordReference taskId localId kind) (\<lambda>(task, local_id).
       Inr (task @ ''/'' @ local_id))"

definition formatRunReceiptId :: "string \<Rightarrow> string \<Rightarrow> string result" where
  "formatRunReceiptId taskId runId =
     andThen (formatTaskRecordReference taskId runId RunKind) (\<lambda>r. Inr (''turn:'' @ r))"

definition formatInputRequestReceiptId :: "string \<Rightarrow> string \<Rightarrow> string result" where
  "formatInputRequestReceiptId taskId requestId =
     andThen (formatTaskRecordReference taskId requestId InputRequestKind)
       (\<lambda>r. Inr (''input-request:'' @ r))"

definition normalizedReference :: "string \<Rightarrow> string \<Rightarrow> string result" where
  "normalizedReference value label =
     (if NUL \<in> set value then throw (label @ '' is invalid.'')
      else let normalized = js_trim value in
        if normalized = [] then throw (label @ '' is required.'')
        else if normalized \<noteq> value then throw (label @ '' must be normalized.'')
        else Inr normalized)"

text \<open>\<open>before_slash s\<close> and \<open>after_slash s\<close> are the slices at \<open>s.indexOf("/")\<close>.\<close>

definition before_slash :: "string \<Rightarrow> string" where
  "before_slash s = takeWhile (\<lambda>c. c \<noteq> CHR ''/'') s"

definition after_slash :: "string \<Rightarrow> string" where
  "after_slash s = drop 1 (dropWhile (\<lambda>c. c \<noteq> CHR ''/'') s)"

definition resolveTaskRecordReference ::
    "string \<Rightarrow> record_kind \<Rightarrow> string option \<Rightarrow> string \<Rightarrow> (string \<times> string) result" where
  "resolveTaskRecordReference value kind contextTaskId label =
     andThen (normalizedReference value label) (\<lambda>reference.
       if CHR ''/'' \<notin> set reference then
         (case contextTaskId of
            None \<Rightarrow> throw (label @ '' has no Task context'')
          | Some task \<Rightarrow> validateTaskRecordReference task reference kind)
       else if before_slash reference = [] \<or> after_slash reference = []
             \<or> CHR ''/'' \<in> set (after_slash reference)
         then throw (label @ '' must use taskId/localId.'')
       else validateTaskRecordReference (before_slash reference) (after_slash reference) kind)"

subsection \<open>References resolve to what was formatted\<close>

definition record_ref_ok :: "string \<Rightarrow> string \<Rightarrow> record_kind \<Rightarrow> bool" where
  "record_ref_ok taskId localId kind \<longleftrightarrow>
     identity_ok taskId \<and> identity_ok localId \<and> local_id_ok kind (js_trim localId)"

lemma validateTaskRecordReference_eq [simp]:
  "validateTaskRecordReference t l k = Inr r \<longleftrightarrow>
     record_ref_ok t l k \<and> r = (js_trim t, js_trim l)"
  by (auto simp: validateTaskRecordReference_def record_ref_ok_def)

lemma record_ref_ok_trim: "record_ref_ok t l k \<Longrightarrow> record_ref_ok (js_trim t) (js_trim l) k"
  by (simp add: record_ref_ok_def identity_ok_trim)

lemma identity_no_slash: "identity_ok s \<Longrightarrow> CHR ''/'' \<notin> set (js_trim s)"
  by (simp add: identity_ok_def has_path_char_def)

lemma before_slash_append: "CHR ''/'' \<notin> set a \<Longrightarrow> before_slash (a @ CHR ''/'' # b) = a"
  unfolding before_slash_def by (induction a) auto

lemma after_slash_append: "CHR ''/'' \<notin> set a \<Longrightarrow> after_slash (a @ CHR ''/'' # b) = b"
  unfolding after_slash_def by (induction a) auto

lemma joined_text:
  assumes "text_ok a" and "text_ok b"
  shows "normalizedReference (js_trim a @ CHR ''/'' # js_trim b) l = Inr (js_trim a @ CHR ''/'' # js_trim b)"
proof -
  have a: "js_trim a \<noteq> []" "NUL \<notin> set (js_trim a)" and b: "js_trim b \<noteq> []" "NUL \<notin> set (js_trim b)"
    using assms by (auto simp: text_ok_def dest: not_in_js_trim)
  have "js_trim (js_trim a @ CHR ''/'' # js_trim b) = js_trim a @ CHR ''/'' # js_trim b"
    using a(1) b(1) js_trim_ends(1) [OF a(1)] js_trim_ends(2) [OF b(1)]
    by (intro js_trim_id) simp
  with a b show ?thesis by (simp add: normalizedReference_def NUL_def)
qed

lemma resolve_format:
  assumes "formatTaskRecordReference t l k = Inr s"
  shows "resolveTaskRecordReference s k c label = Inr (js_trim t, js_trim l)"
proof -
  from assms have ok: "record_ref_ok t l k" and s: "s = js_trim t @ CHR ''/'' # js_trim l"
    by (auto simp: formatTaskRecordReference_def)
  then have t: "identity_ok t" and l: "identity_ok l" by (simp_all add: record_ref_ok_def)
  from t l have "normalizedReference s label = Inr s"
    unfolding s by (intro joined_text) (simp_all add: identity_ok_def)
  moreover have "before_slash s = js_trim t" "after_slash s = js_trim l"
    unfolding s using identity_no_slash [OF t] by (simp_all add: before_slash_append after_slash_append)
  moreover have "js_trim t \<noteq> []" "js_trim l \<noteq> []" "CHR ''/'' \<notin> set (js_trim l)"
    using t l by (auto simp: identity_ok_def text_ok_def dest: identity_no_slash [OF l, THEN notE])
  moreover have "CHR ''/'' \<in> set s" by (simp add: s)
  ultimately show ?thesis
    using record_ref_ok_trim [OF ok] by (simp add: resolveTaskRecordReference_def)
qed

text \<open>The ids the store mints, \<open>prefix-n\<close> for a positive \<open>n\<close>, are valid local ids.\<close>

lemma numeral_id_mint:
  "0 < n \<Longrightarrow> safe_integer (int n) \<Longrightarrow> numeral_id p (p @ ''-'' @ nat_str n)"
  using nat_str_digits by (auto simp: numeral_id_def list_all_iff hd_nat_str)

end
