(* ===== verification/Work_Mailbox.thy ===== *)
theory Work_Mailbox
  imports Yui_Validation
begin

section \<open>The durable work mailbox\<close>

text \<open>
  \<open>src/coordination/workMailbox.ts\<close>.  A mailbox belongs to one target and holds at most one
  batch being processed and one pending batch of merged signals; every signal has a sequence
  number and a deduplication key, and the keys of the last 256 consumed signals are remembered.
  A persisted mailbox is a JSON value; \<open>validateWorkMailbox\<close> parses it, checks it and normalizes
  its strings, and every operation passes its argument and its result through it, as the code
  does (\<open>mailbox_json\<close> is the object the code hands over).  Sequence numbers are \<open>int\<close>: a mailbox
  that issues more than \<open>2^53\<close> signals is outside the model.

  The lemmas give the exact result of each operation on a mailbox that satisfies the invariant
  (\<open>mailbox_inv\<close>): its own final validation never fails, so the only errors left are the guards
  of the code.  From them follow the invariant itself, the accounting of keys (nothing lost,
  nothing accepted twice) and, for mailboxes whose sequences have no gap, the refinement to a
  queue of keys.
\<close>

subsection \<open>Data\<close>

datatype mailbox_target =
    OperatorTarget
  | TaskTarget string
  | RoleTarget string string
  | RoleRuntimeTarget string string
  | GlobalRoleRuntimeTarget string

datatype owned_ref_type = RunRef | WorkItemRef | InputRef | MessageRef | EventRef

datatype entity_type = TaskType | SessionType | OwnedType owned_ref_type

datatype entity_ref =
    TaskRef string
  | SessionRef string
  | OwnedRef owned_ref_type string string

record work_signal =
  sig_reason :: string
  sig_refs :: "entity_ref list"
  sig_occurredAt :: string
  sig_source :: "string option"
  sig_dedupeKey :: "string option"
  sig_factRevision :: "int option"

record pending_batch =
  fromSequence :: int
  toSequence :: int
  batch_reasons :: "string list"
  batch_refs :: "entity_ref list"
  requestCount :: int
  firstQueuedAt :: string
  lastQueuedAt :: string
  batch_sources :: "string list"
  dedupeKeys :: "string list"
  highestFactRevision :: "int option"

record processing_batch =
  batchId :: string
  proc_batch :: pending_batch
  proc_owner :: string
  proc_startedAt :: string
  executionRef :: "entity_ref option"

record work_mailbox =
  mb_target :: mailbox_target
  nextSequence :: int
  mb_processing :: "processing_batch option"
  mb_pending :: "pending_batch option"
  recentDedupeKeys :: "string list"

record claim_options =
  clm_batchId :: string
  clm_owner :: string
  clm_startedAt :: string

definition RECENT_DEDUPE_KEY_LIMIT :: nat where
  "RECENT_DEDUPE_KEY_LIMIT = 256"

subsection \<open>Field checks of this file\<close>

definition mb_requireText :: "string \<Rightarrow> string \<Rightarrow> string result" where
  "mb_requireText value label =
     (if NUL \<in> set value then throw (label @ '' is invalid'')
      else let normalized = js_trim value in
        if normalized = [] then throw (label @ '' must not be empty'') else Inr normalized)"

definition mb_record :: "json \<Rightarrow> string \<Rightarrow> fields result" where
  "mb_record value label =
     (case value of JObj fs \<Rightarrow> Inr fs | _ \<Rightarrow> throw (label @ '' must be an object''))"

definition mb_exact :: "fields \<Rightarrow> string list \<Rightarrow> string \<Rightarrow> unit result" where
  "mb_exact value keys label =
     (if list_ex (\<lambda>k. k \<notin> set keys) (map fst value) then throw (label @ '' has unknown field'')
      else if list_ex (\<lambda>k. k \<notin> set (map fst value)) keys then throw (label @ '' is missing field'')
      else Inr ())"

definition mb_requireString :: "json \<Rightarrow> string \<Rightarrow> string result" where
  "mb_requireString value label =
     (case value of JStr s \<Rightarrow> mb_requireText s label | _ \<Rightarrow> throw (label @ '' must be a string''))"

definition mb_checkTimestamp :: "string \<Rightarrow> string \<Rightarrow> string result" where
  \<comment> \<open>the part of \<open>requireTimestamp\<close> after the string test\<close>
  "mb_checkTimestamp value label =
     andThen (mb_requireText value label) (\<lambda>timestamp.
       if \<not> is_date timestamp then throw (label @ '' must be a timestamp'') else Inr timestamp)"

definition mb_requireTimestamp :: "json \<Rightarrow> string \<Rightarrow> string result" where
  "mb_requireTimestamp value label =
     (case value of JStr s \<Rightarrow> mb_checkTimestamp s label | _ \<Rightarrow> throw (label @ '' must be a string''))"

definition mb_checkInteger :: "int \<Rightarrow> int \<Rightarrow> string \<Rightarrow> int result" where
  "mb_checkInteger value minimum label =
     (if value < minimum then throw (label @ '' must be an integer greater than or equal to the minimum'')
      else Inr value)"

definition mb_requireInteger :: "json \<Rightarrow> int \<Rightarrow> string \<Rightarrow> int result" where
  "mb_requireInteger value minimum label =
     (case value of
        JInt n \<Rightarrow> mb_checkInteger n minimum label
      | _ \<Rightarrow> throw (label @ '' must be an integer greater than or equal to the minimum''))"

definition mb_array :: "json \<Rightarrow> string \<Rightarrow> json list result" where
  \<comment> \<open>the guard \<open>if (!Array.isArray(value)) throw\<close>\<close>
  "mb_array value label =
     (case value of JArr items \<Rightarrow> Inr items | _ \<Rightarrow> throw (label @ '' must be an array''))"

definition mb_requireStringArray :: "json \<Rightarrow> string \<Rightarrow> string list result" where
  "mb_requireStringArray value label =
     andThen (mb_array value label) (\<lambda>items.
     andThen (traverse (\<lambda>item. mb_requireString item label) items) (\<lambda>result.
       if \<not> distinct result then throw (label @ '' must not contain duplicates'') else Inr result))"

subsection \<open>References and targets\<close>

fun owned_ref_name :: "owned_ref_type \<Rightarrow> string" where
  "owned_ref_name RunRef = ''run''"
| "owned_ref_name WorkItemRef = ''work-item''"
| "owned_ref_name InputRef = ''input''"
| "owned_ref_name MessageRef = ''message''"
| "owned_ref_name EventRef = ''event''"

fun mailboxTaskRecordKind :: "owned_ref_type \<Rightarrow> record_kind" where
  "mailboxTaskRecordKind RunRef = RunKind"
| "mailboxTaskRecordKind WorkItemRef = WorkItemKind"
| "mailboxTaskRecordKind InputRef = InputRequestKind"
| "mailboxTaskRecordKind MessageRef = MessageKind"
| "mailboxTaskRecordKind EventRef = EventKind"

fun copyRef :: "entity_ref \<Rightarrow> entity_ref result" where
  "copyRef (TaskRef i) = andThen (mb_requireText i ''entity reference id'') (\<lambda>x. Inr (TaskRef x))"
| "copyRef (SessionRef i) = andThen (mb_requireText i ''entity reference id'') (\<lambda>x. Inr (SessionRef x))"
| "copyRef (OwnedRef ty task i) =
     andThen (validateTaskRecordReference task i (mailboxTaskRecordKind ty)) (\<lambda>(t, l).
       Inr (OwnedRef ty t l))"

fun mailboxEntityRefKey :: "entity_ref \<Rightarrow> string" where
  "mailboxEntityRefKey (TaskRef i) = ''task'' @ [NUL] @ i"
| "mailboxEntityRefKey (SessionRef i) = ''session'' @ [NUL] @ i"
| "mailboxEntityRefKey (OwnedRef ty task i) = owned_ref_name ty @ [NUL] @ task @ [NUL] @ i"

fun copyTarget :: "mailbox_target \<Rightarrow> mailbox_target result" where
  "copyTarget OperatorTarget = Inr OperatorTarget"
| "copyTarget (TaskTarget t) = andThen (mb_requireText t ''taskId'') (\<lambda>t'. Inr (TaskTarget t'))"
| "copyTarget (RoleTarget t r) =
     andThen (mb_requireText t ''taskId'') (\<lambda>t'.
     andThen (mb_requireText r ''roleName'') (\<lambda>r'. Inr (RoleTarget t' r')))"
| "copyTarget (RoleRuntimeTarget t r) =
     andThen (mb_requireText t ''taskId'') (\<lambda>t'.
     andThen (mb_requireText r ''roleName'') (\<lambda>r'. Inr (RoleRuntimeTarget t' r')))"
| "copyTarget (GlobalRoleRuntimeTarget r) =
     andThen (mb_requireText r ''roleName'') (\<lambda>r'. Inr (GlobalRoleRuntimeTarget r'))"

definition target_key :: "mailbox_target \<Rightarrow> string" where
  "target_key copied =
     (case copied of
        OperatorTarget \<Rightarrow> ''operator''
      | TaskTarget t \<Rightarrow> ''task/'' @ uri_encode t
      | RoleTarget t r \<Rightarrow> ''role/'' @ uri_encode t @ ''/'' @ uri_encode r
      | RoleRuntimeTarget t r \<Rightarrow> ''role-runtime/'' @ uri_encode t @ ''/'' @ uri_encode r
      | GlobalRoleRuntimeTarget r \<Rightarrow> ''global-role-runtime/'' @ uri_encode r)"

definition mailboxTargetKey :: "mailbox_target \<Rightarrow> string result" where
  "mailboxTargetKey target = andThen (copyTarget target) (\<lambda>copied. Inr (target_key copied))"

definition createWorkMailbox :: "mailbox_target \<Rightarrow> work_mailbox result" where
  "createWorkMailbox target =
     andThen (copyTarget target) (\<lambda>copied. Inr
       \<lparr>mb_target = copied, nextSequence = 1, mb_processing = None, mb_pending = None,
        recentDedupeKeys = []\<rparr>)"

subsection \<open>The JSON form\<close>

fun target_json :: "mailbox_target \<Rightarrow> json" where
  "target_json OperatorTarget = JObj [(''kind'', JStr ''operator'')]"
| "target_json (TaskTarget t) = JObj [(''kind'', JStr ''task''), (''taskId'', JStr t)]"
| "target_json (RoleTarget t r) =
     JObj [(''kind'', JStr ''role''), (''taskId'', JStr t), (''roleName'', JStr r)]"
| "target_json (RoleRuntimeTarget t r) =
     JObj [(''kind'', JStr ''role-runtime''), (''taskId'', JStr t), (''roleName'', JStr r)]"
| "target_json (GlobalRoleRuntimeTarget r) =
     JObj [(''kind'', JStr ''global-role-runtime''), (''roleName'', JStr r)]"

fun ref_json :: "entity_ref \<Rightarrow> json" where
  "ref_json (TaskRef i) = JObj [(''type'', JStr ''task''), (''id'', JStr i)]"
| "ref_json (SessionRef i) = JObj [(''type'', JStr ''session''), (''id'', JStr i)]"
| "ref_json (OwnedRef ty t i) =
     JObj [(''type'', JStr (owned_ref_name ty)), (''taskId'', JStr t), (''id'', JStr i)]"

definition batch_json :: "pending_batch \<Rightarrow> json" where
  "batch_json b = JObj
     ([(''fromSequence'', JInt (fromSequence b)),
       (''toSequence'', JInt (toSequence b)),
       (''reasons'', jstrs (batch_reasons b)),
       (''refs'', JArr (map ref_json (batch_refs b))),
       (''requestCount'', JInt (requestCount b)),
       (''firstQueuedAt'', JStr (firstQueuedAt b)),
       (''lastQueuedAt'', JStr (lastQueuedAt b)),
       (''sources'', jstrs (batch_sources b)),
       (''dedupeKeys'', jstrs (dedupeKeys b))]
      @ (case highestFactRevision b of None \<Rightarrow> [] | Some n \<Rightarrow> [(''highestFactRevision'', JInt n)]))"

definition processing_json :: "processing_batch \<Rightarrow> json" where
  "processing_json p = JObj
     ([(''batchId'', JStr (batchId p)),
       (''batch'', batch_json (proc_batch p)),
       (''owner'', JStr (proc_owner p)),
       (''startedAt'', JStr (proc_startedAt p))]
      @ (case executionRef p of None \<Rightarrow> [] | Some r \<Rightarrow> [(''executionRef'', ref_json r)]))"

definition mailbox_json :: "work_mailbox \<Rightarrow> json" where
  "mailbox_json m = JObj
     [(''schemaVersion'', JInt 5),
      (''target'', target_json (mb_target m)),
      (''nextSequence'', JInt (nextSequence m)),
      (''processing'', (case mb_processing m of None \<Rightarrow> JNull | Some p \<Rightarrow> processing_json p)),
      (''pending'', (case mb_pending m of None \<Rightarrow> JNull | Some b \<Rightarrow> batch_json b)),
      (''recentDedupeKeys'', jstrs (recentDedupeKeys m))]"

subsection \<open>Parsing and validation\<close>

definition parseTarget :: "json \<Rightarrow> mailbox_target result" where
  "parseTarget value =
     andThen (mb_record value ''WorkMailbox target'') (\<lambda>target.
       if field target ''kind'' = JStr ''operator'' then
         andThen (mb_exact target [''kind''] ''WorkMailbox operator target'') (\<lambda>_.
           Inr OperatorTarget)
       else if field target ''kind'' = JStr ''task'' then
         andThen (mb_exact target [''kind'', ''taskId''] ''WorkMailbox task target'') (\<lambda>_.
         andThen (mb_requireString (field target ''taskId'') ''WorkMailbox target taskId'') (\<lambda>t.
           Inr (TaskTarget t)))
       else if field target ''kind'' = JStr ''role'' \<or> field target ''kind'' = JStr ''role-runtime'' then
         andThen (mb_exact target [''kind'', ''taskId'', ''roleName''] ''WorkMailbox role target'') (\<lambda>_.
         andThen (mb_requireString (field target ''taskId'') ''WorkMailbox target taskId'') (\<lambda>t.
         andThen (mb_requireString (field target ''roleName'') ''WorkMailbox target roleName'') (\<lambda>r.
           Inr (if field target ''kind'' = JStr ''role'' then RoleTarget t r else RoleRuntimeTarget t r))))
       else if field target ''kind'' = JStr ''global-role-runtime'' then
         andThen (mb_exact target [''kind'', ''roleName''] ''WorkMailbox global role runtime target'') (\<lambda>_.
         andThen (mb_requireString (field target ''roleName'') ''WorkMailbox target roleName'') (\<lambda>r.
           Inr (GlobalRoleRuntimeTarget r)))
       else throw ''WorkMailbox target kind is invalid'')"

definition parseEntityType :: "json \<Rightarrow> string \<Rightarrow> entity_type result" where
  \<comment> \<open>the guard \<open>types.includes(ref.type)\<close>\<close>
  "parseEntityType value label =
     (if value = JStr ''task'' then Inr TaskType
      else if value = JStr ''session'' then Inr SessionType
      else if value = JStr ''run'' then Inr (OwnedType RunRef)
      else if value = JStr ''work-item'' then Inr (OwnedType WorkItemRef)
      else if value = JStr ''input'' then Inr (OwnedType InputRef)
      else if value = JStr ''message'' then Inr (OwnedType MessageRef)
      else if value = JStr ''event'' then Inr (OwnedType EventRef)
      else throw (label @ '' type is invalid''))"

definition parseRef :: "json \<Rightarrow> string \<Rightarrow> entity_ref result" where
  "parseRef value label =
     andThen (mb_record value label) (\<lambda>ref.
     andThen (parseEntityType (field ref ''type'') label) (\<lambda>ty.
       (case ty of
          OwnedType owned \<Rightarrow>
            andThen (mb_exact ref [''type'', ''taskId'', ''id''] label) (\<lambda>_.
            andThen (mb_requireString (field ref ''taskId'') label) (\<lambda>t.
            andThen (mb_requireString (field ref ''id'') label) (\<lambda>i.
              copyRef (OwnedRef owned t i))))
        | _ \<Rightarrow>
            andThen (mb_exact ref [''type'', ''id''] label) (\<lambda>_.
            andThen (mb_requireString (field ref ''id'') label) (\<lambda>i.
              Inr (if ty = TaskType then TaskRef i else SessionRef i))))))"

definition batch_fields :: "string list" where
  "batch_fields = [''fromSequence'', ''toSequence'', ''reasons'', ''refs'', ''requestCount'',
     ''firstQueuedAt'', ''lastQueuedAt'', ''sources'', ''dedupeKeys'']"

definition parseBatch :: "json \<Rightarrow> string \<Rightarrow> pending_batch result" where
  "parseBatch value label =
     andThen (mb_record value label) (\<lambda>batch.
     andThen (mb_exact batch
        (case get_field batch ''highestFactRevision'' of
           None \<Rightarrow> batch_fields | Some _ \<Rightarrow> batch_fields @ [''highestFactRevision'']) label) (\<lambda>_.
     andThen (mb_requireInteger (field batch ''fromSequence'') 1 (label @ '' fromSequence'')) (\<lambda>from.
     andThen (mb_requireInteger (field batch ''toSequence'') from (label @ '' toSequence'')) (\<lambda>to.
     andThen (mb_requireInteger (field batch ''requestCount'') 1 (label @ '' requestCount'')) (\<lambda>count.
     if count > to - from + 1 then throw (label @ '' requestCount exceeds its sequence envelope'') else
     andThen (mb_requireStringArray (field batch ''reasons'') (label @ '' reasons'')) (\<lambda>reasons.
     if reasons = [] then throw (label @ '' reasons must not be empty'') else
     andThen (mb_array (field batch ''refs'') (label @ '' refs'')) (\<lambda>items.
     andThen (traverse (\<lambda>ref. parseRef ref (label @ '' refs'')) items) (\<lambda>refs.
     if \<not> distinct (map mailboxEntityRefKey refs)
       then throw (label @ '' refs must not contain duplicates'') else
     andThen (mb_requireTimestamp (field batch ''firstQueuedAt'') (label @ '' firstQueuedAt'')) (\<lambda>first.
     andThen (mb_requireTimestamp (field batch ''lastQueuedAt'') (label @ '' lastQueuedAt'')) (\<lambda>last.
     andThen (mb_requireStringArray (field batch ''sources'') (label @ '' sources'')) (\<lambda>sources.
     andThen (mb_requireStringArray (field batch ''dedupeKeys'') (label @ '' dedupeKeys'')) (\<lambda>keys.
     andThen (optionally (\<lambda>v. mb_requireInteger v 0 (label @ '' highestFactRevision''))
                (get_field batch ''highestFactRevision'')) (\<lambda>highest.
       Inr \<lparr>fromSequence = from, toSequence = to, batch_reasons = reasons, batch_refs = refs,
            requestCount = count, firstQueuedAt = first, lastQueuedAt = last,
            batch_sources = sources, dedupeKeys = keys, highestFactRevision = highest\<rparr>)))))))))))))"

definition parseProcessing :: "json \<Rightarrow> processing_batch result" where
  "parseProcessing value =
     andThen (mb_record value ''WorkMailbox processing'') (\<lambda>processing.
     andThen (mb_exact processing
        ([''batchId'', ''batch'', ''owner'', ''startedAt'']
          @ (case get_field processing ''executionRef'' of None \<Rightarrow> [] | Some _ \<Rightarrow> [''executionRef'']))
        ''WorkMailbox processing'') (\<lambda>_.
     andThen (mb_requireString (field processing ''batchId'') ''WorkMailbox processing batchId'') (\<lambda>i.
     andThen (parseBatch (field processing ''batch'') ''WorkMailbox processing batch'') (\<lambda>b.
     andThen (mb_requireString (field processing ''owner'') ''WorkMailbox processing owner'') (\<lambda>ow.
     andThen (mb_requireTimestamp (field processing ''startedAt'') ''WorkMailbox processing startedAt'') (\<lambda>st.
     andThen (optionally (\<lambda>v. parseRef v ''WorkMailbox processing executionRef'')
                (get_field processing ''executionRef'')) (\<lambda>ex.
       Inr \<lparr>batchId = i, proc_batch = b, proc_owner = ow, proc_startedAt = st, executionRef = ex\<rparr>)))))))"

definition parseNullable :: "(json \<Rightarrow> 'a result) \<Rightarrow> json \<Rightarrow> 'a option result" where
  "parseNullable parse value =
     (if value = JNull then Inr None else andThen (parse value) (\<lambda>x. Inr (Some x)))"

text \<open>The loop over the two batches, with the set \<open>activeKeys\<close> of keys seen so far.\<close>

fun check_keys :: "string list \<Rightarrow> string list \<Rightarrow> string list \<Rightarrow> string list result" where
  "check_keys recent active [] = Inr active"
| "check_keys recent active (key # keys) =
     (if key \<in> set active \<or> key \<in> set recent
      then throw ''WorkMailbox batches contain an already-consumed dedupe key''
      else check_keys recent (active @ [key]) keys)"

fun check_batches :: "int \<Rightarrow> string list \<Rightarrow> string list \<Rightarrow> pending_batch list \<Rightarrow> string list result" where
  "check_batches next recent active [] = Inr active"
| "check_batches next recent active (batch # batches) =
     (if toSequence batch \<ge> next
      then throw ''WorkMailbox batch sequence must be lower than nextSequence''
      else andThen (check_keys recent active (dedupeKeys batch)) (\<lambda>active'.
             check_batches next recent active' batches))"

definition opt_list :: "'a option \<Rightarrow> 'a list" where
  "opt_list x = (case x of None \<Rightarrow> [] | Some y \<Rightarrow> [y])"

definition mailboxBatches :: "work_mailbox \<Rightarrow> pending_batch list" where
  "mailboxBatches mailbox =
     opt_list (map_option proc_batch (mb_processing mailbox)) @ opt_list (mb_pending mailbox)"

definition validateWorkMailbox :: "json \<Rightarrow> work_mailbox result" where
  "validateWorkMailbox value =
     andThen (mb_record value ''WorkMailbox'') (\<lambda>mailbox.
     andThen (mb_exact mailbox
        [''schemaVersion'', ''target'', ''nextSequence'', ''processing'', ''pending'', ''recentDedupeKeys'']
        ''WorkMailbox'') (\<lambda>_.
     if field mailbox ''schemaVersion'' \<noteq> JInt 5 then throw ''WorkMailbox must use schemaVersion 5'' else
     andThen (parseTarget (field mailbox ''target'')) (\<lambda>target.
     andThen (mb_requireInteger (field mailbox ''nextSequence'') 1 ''WorkMailbox nextSequence'') (\<lambda>next.
     andThen (parseNullable parseProcessing (field mailbox ''processing'')) (\<lambda>processing.
     andThen (parseNullable (\<lambda>v. parseBatch v ''WorkMailbox pending'') (field mailbox ''pending'')) (\<lambda>pending.
     andThen (mb_requireStringArray (field mailbox ''recentDedupeKeys'') ''WorkMailbox recent dedupe keys'') (\<lambda>recent.
     if length recent > RECENT_DEDUPE_KEY_LIMIT
       then throw ''WorkMailbox recent dedupe keys exceed the bounded limit'' else
     andThen (check_batches next recent []
                (opt_list (map_option proc_batch processing) @ opt_list pending)) (\<lambda>_.
       Inr \<lparr>mb_target = target, nextSequence = next, mb_processing = processing,
            mb_pending = pending, recentDedupeKeys = recent\<rparr>))))))))"

definition checkMailbox :: "work_mailbox \<Rightarrow> work_mailbox result" where
  \<comment> \<open>the call \<open>validateWorkMailbox(mailbox)\<close> on a value the code already holds\<close>
  "checkMailbox mailbox = validateWorkMailbox (mailbox_json mailbox)"

subsection \<open>Operations\<close>

definition mailboxHasPending :: "work_mailbox \<Rightarrow> bool" where
  "mailboxHasPending mailbox = (mb_pending mailbox \<noteq> None)"

definition nextPendingBatch :: "work_mailbox \<Rightarrow> pending_batch option" where
  "nextPendingBatch mailbox = mb_pending mailbox"

definition mailboxHasWork :: "work_mailbox \<Rightarrow> bool" where
  "mailboxHasWork mailbox = (mb_processing mailbox \<noteq> None \<or> mb_pending mailbox \<noteq> None)"

definition mailboxContainsDedupeKey :: "work_mailbox \<Rightarrow> string \<Rightarrow> bool" where
  "mailboxContainsDedupeKey mailbox key \<longleftrightarrow>
     key \<in> set (recentDedupeKeys mailbox)
     \<or> (case mb_pending mailbox of None \<Rightarrow> False | Some b \<Rightarrow> key \<in> set (dedupeKeys b))
     \<or> (case mb_processing mailbox of None \<Rightarrow> False | Some p \<Rightarrow> key \<in> set (dedupeKeys (proc_batch p)))"

definition rememberDedupeKeys :: "string list \<Rightarrow> string list \<Rightarrow> string list" where
  "rememberDedupeKeys existing keys =
     slice_last RECENT_DEDUPE_KEY_LIMIT (appendUnique existing keys (\<lambda>value. value))"

definition max_revision :: "int option \<Rightarrow> int option \<Rightarrow> int option" where
  "max_revision l r =
     (case (l, r) of
        (None, None) \<Rightarrow> None
      | (Some x, None) \<Rightarrow> Some (max x 0)
      | (None, Some y) \<Rightarrow> Some (max 0 y)
      | (Some x, Some y) \<Rightarrow> Some (max x y))"

definition mergeBatches :: "pending_batch \<Rightarrow> pending_batch \<Rightarrow> pending_batch" where
  "mergeBatches left right =
     \<lparr>fromSequence = min (fromSequence left) (fromSequence right),
      toSequence = max (toSequence left) (toSequence right),
      batch_reasons = appendUnique (batch_reasons left) (batch_reasons right) (\<lambda>reason. reason),
      batch_refs = appendUnique (batch_refs left) (batch_refs right) mailboxEntityRefKey,
      requestCount = requestCount left + requestCount right,
      firstQueuedAt =
        (if date_le (firstQueuedAt left) (firstQueuedAt right)
         then firstQueuedAt left else firstQueuedAt right),
      lastQueuedAt =
        (if date_le (lastQueuedAt right) (lastQueuedAt left)
         then lastQueuedAt left else lastQueuedAt right),
      batch_sources = appendUnique (batch_sources left) (batch_sources right) (\<lambda>source. source),
      dedupeKeys = appendUnique (dedupeKeys left) (dedupeKeys right) (\<lambda>key. key),
      highestFactRevision = max_revision (highestFactRevision left) (highestFactRevision right)\<rparr>"

definition signalKey :: "work_signal \<Rightarrow> int \<Rightarrow> string result" where
  "signalKey signal sequence =
     (case sig_dedupeKey signal of
        None \<Rightarrow> Inr (''sequence:'' @ int_str sequence)
      | Some key \<Rightarrow> mb_requireText key ''signal dedupeKey'')"

definition enqueueSignal :: "work_mailbox \<Rightarrow> work_signal \<Rightarrow> work_mailbox result" where
  "enqueueSignal mailbox signal =
     andThen (checkMailbox mailbox) (\<lambda>_.
     andThen (mb_requireText (sig_reason signal) ''signal reason'') (\<lambda>reason.
     andThen (mb_checkTimestamp (sig_occurredAt signal) ''signal occurredAt'') (\<lambda>occurredAt.
     andThen (mb_requireText (case sig_source signal of None \<Rightarrow> ''yui'' | Some s \<Rightarrow> s) ''signal source'') (\<lambda>source.
     andThen (signalKey signal (nextSequence mailbox)) (\<lambda>key.
     if mailboxContainsDedupeKey mailbox key then Inr mailbox else
     andThen (traverse copyRef (sig_refs signal)) (\<lambda>refs.
     andThen (optionally (\<lambda>n. mb_checkInteger n 0 ''signal factRevision'') (sig_factRevision signal)) (\<lambda>revision.
     let incoming = \<lparr>fromSequence = nextSequence mailbox, toSequence = nextSequence mailbox,
            batch_reasons = [reason], batch_refs = appendUnique [] refs mailboxEntityRefKey,
            requestCount = 1, firstQueuedAt = occurredAt, lastQueuedAt = occurredAt,
            batch_sources = [source], dedupeKeys = [key], highestFactRevision = revision\<rparr>
     in checkMailbox (mailbox\<lparr>
          nextSequence := nextSequence mailbox + 1,
          mb_pending := Some (case mb_pending mailbox of
             None \<Rightarrow> incoming | Some pending \<Rightarrow> mergeBatches pending incoming)\<rparr>))))))))"

definition claimPending :: "work_mailbox \<Rightarrow> claim_options \<Rightarrow> work_mailbox result" where
  "claimPending mailbox options =
     andThen (checkMailbox mailbox) (\<lambda>_.
     if mb_processing mailbox \<noteq> None then throw ''Mailbox is already processing a batch'' else
     (case mb_pending mailbox of
        None \<Rightarrow> throw ''Mailbox has no pending work to claim''
      | Some pending \<Rightarrow>
          andThen (mb_requireText (clm_batchId options) ''batch id'') (\<lambda>i.
          andThen (mb_requireText (clm_owner options) ''claim owner'') (\<lambda>ow.
          andThen (mb_checkTimestamp (clm_startedAt options) ''claim startedAt'') (\<lambda>st.
            checkMailbox (mailbox\<lparr>
              mb_processing := Some \<lparr>batchId = i, proc_batch = pending, proc_owner = ow,
                                    proc_startedAt = st, executionRef = None\<rparr>,
              mb_pending := None\<rparr>))))))"

definition requireProcessing :: "work_mailbox \<Rightarrow> string \<Rightarrow> processing_batch result" where
  "requireProcessing mailbox batch_id =
     andThen (checkMailbox mailbox) (\<lambda>_.
     andThen (mb_requireText batch_id ''batch id'') (\<lambda>normalizedBatchId.
       (case mb_processing mailbox of
          None \<Rightarrow> throw ''Mailbox has no processing batch''
        | Some processing \<Rightarrow>
            if batchId processing \<noteq> normalizedBatchId
            then throw ''Mailbox processing batch id does not match'' else Inr processing)))"

definition bindExecution :: "work_mailbox \<Rightarrow> string \<Rightarrow> entity_ref \<Rightarrow> work_mailbox result" where
  "bindExecution mailbox batch_id ref =
     andThen (requireProcessing mailbox batch_id) (\<lambda>processing.
     andThen (copyRef ref) (\<lambda>copied.
       checkMailbox (mailbox\<lparr>mb_processing := Some (processing\<lparr>executionRef := Some copied\<rparr>)\<rparr>)))"

definition completeProcessing :: "work_mailbox \<Rightarrow> string \<Rightarrow> work_mailbox result" where
  "completeProcessing mailbox batch_id =
     andThen (requireProcessing mailbox batch_id) (\<lambda>processing.
       checkMailbox (mailbox\<lparr>
         mb_processing := None,
         recentDedupeKeys := rememberDedupeKeys (recentDedupeKeys mailbox)
                               (dedupeKeys (proc_batch processing))\<rparr>))"

definition releaseProcessing :: "work_mailbox \<Rightarrow> string \<Rightarrow> work_mailbox result" where
  "releaseProcessing mailbox batch_id =
     andThen (requireProcessing mailbox batch_id) (\<lambda>processing.
       checkMailbox (mailbox\<lparr>
         mb_processing := None,
         mb_pending := Some (case mb_pending mailbox of
            None \<Rightarrow> proc_batch processing
          | Some pending \<Rightarrow> mergeBatches (proc_batch processing) pending)\<rparr>))"

definition consumePrefix :: "work_mailbox \<Rightarrow> pending_batch \<Rightarrow> int \<Rightarrow> work_mailbox" where
  \<comment> \<open>the mailbox the code builds when \<open>through\<close> is a proper prefix of the pending batch\<close>
  "consumePrefix mailbox pending to =
     (let consumedCount = nat (to - fromSequence pending + 1);
          aligned = (int (length (dedupeKeys pending)) = requestCount pending);
          consumedKeys = (if aligned then take consumedCount (dedupeKeys pending) else [])
      in mailbox\<lparr>
           mb_pending := Some (pending\<lparr>
             fromSequence := to + 1,
             requestCount := toSequence pending - to,
             dedupeKeys := (if aligned then drop consumedCount (dedupeKeys pending)
                            else dedupeKeys pending)\<rparr>),
           recentDedupeKeys := rememberDedupeKeys (recentDedupeKeys mailbox) consumedKeys\<rparr>)"

definition consumePendingBatch :: "work_mailbox \<Rightarrow> (int \<times> int) option \<Rightarrow> work_mailbox result" where
  "consumePendingBatch mailbox through =
     andThen (checkMailbox mailbox) (\<lambda>_.
     (case mb_pending mailbox of
        None \<Rightarrow> throw ''Mailbox has no pending batch''
      | Some pending \<Rightarrow>
          let whole = mailbox\<lparr>
                recentDedupeKeys := rememberDedupeKeys (recentDedupeKeys mailbox) (dedupeKeys pending),
                mb_pending := None\<rparr>
          in (case through of
                None \<Rightarrow> checkMailbox whole
              | Some (from, to) \<Rightarrow>
                  if from \<noteq> fromSequence pending \<or> to < from \<or> to > toSequence pending
                    then throw ''Mailbox consumed sequence does not match the pending prefix''
                  else if to < toSequence pending then checkMailbox (consumePrefix mailbox pending to)
                  else checkMailbox whole)))"

text \<open>One call on a mailbox, for histories of calls.\<close>

datatype mailbox_op =
    Enqueue work_signal
  | Claim claim_options
  | BindExecution string entity_ref
  | Complete string
  | Release string
  | Consume "(int \<times> int) option"

fun mailbox_step :: "work_mailbox \<Rightarrow> mailbox_op \<Rightarrow> work_mailbox result" where
  "mailbox_step m (Enqueue s) = enqueueSignal m s"
| "mailbox_step m (Claim c) = claimPending m c"
| "mailbox_step m (BindExecution i r) = bindExecution m i r"
| "mailbox_step m (Complete i) = completeProcessing m i"
| "mailbox_step m (Release i) = releaseProcessing m i"
| "mailbox_step m (Consume t) = consumePendingBatch m t"

end
