(* ===== verification/Mailbox_Laws.thy ===== *)
theory Mailbox_Laws
  imports Work_Mailbox
begin

section \<open>What the mailbox guarantees\<close>

text \<open>
  The facts about \<open>Work_Mailbox\<close>.  A mailbox is \<open>normal\<close> when its strings are trimmed, its
  batches well formed and its keys pairwise different: exactly what \<open>validateWorkMailbox\<close> returns
  (\<open>validate_normal\<close>) and accepts unchanged (\<open>validate_of_normal\<close>).  \<open>mailbox_inv\<close> adds that the
  batch being processed precedes the pending one.  Under it each operation has an exact equation:
  its final validation never fails, so it fails exactly on the guards the code writes first.
\<close>

subsection \<open>Normal values\<close>

definition norm_text :: "string \<Rightarrow> bool" where
  "norm_text s \<longleftrightarrow> text_ok s \<and> js_trim s = s"

definition norm_texts :: "string list \<Rightarrow> bool" where
  "norm_texts xs \<longleftrightarrow> list_all norm_text xs \<and> distinct xs"

definition stamp :: "string \<Rightarrow> bool" where
  "stamp s \<longleftrightarrow> norm_text s \<and> is_date s"

definition ref_norm :: "entity_ref \<Rightarrow> bool" where
  "ref_norm r \<longleftrightarrow> copyRef r = Inr r"

definition target_norm :: "mailbox_target \<Rightarrow> bool" where
  "target_norm t \<longleftrightarrow> copyTarget t = Inr t"

definition batch_norm :: "pending_batch \<Rightarrow> bool" where
  "batch_norm b \<longleftrightarrow>
     1 \<le> fromSequence b \<and> fromSequence b \<le> toSequence b
     \<and> 1 \<le> requestCount b \<and> requestCount b \<le> toSequence b - fromSequence b + 1
     \<and> norm_texts (batch_reasons b) \<and> batch_reasons b \<noteq> []
     \<and> list_all ref_norm (batch_refs b) \<and> distinct (map mailboxEntityRefKey (batch_refs b))
     \<and> stamp (firstQueuedAt b) \<and> stamp (lastQueuedAt b)
     \<and> norm_texts (batch_sources b) \<and> norm_texts (dedupeKeys b)
     \<and> (case highestFactRevision b of None \<Rightarrow> True | Some n \<Rightarrow> 0 \<le> n)"

definition processing_norm :: "processing_batch \<Rightarrow> bool" where
  "processing_norm p \<longleftrightarrow>
     norm_text (batchId p) \<and> batch_norm (proc_batch p) \<and> norm_text (proc_owner p) \<and> stamp (proc_startedAt p)
     \<and> (case executionRef p of None \<Rightarrow> True | Some r \<Rightarrow> ref_norm r)"

definition batches_ok :: "int \<Rightarrow> string list \<Rightarrow> pending_batch list \<Rightarrow> bool" where
  "batches_ok next recent bs \<longleftrightarrow>
     (\<forall>b \<in> set bs. toSequence b < next)
     \<and> distinct (concat (map dedupeKeys bs))
     \<and> set (concat (map dedupeKeys bs)) \<inter> set recent = {}"

definition mailbox_norm :: "work_mailbox \<Rightarrow> bool" where
  "mailbox_norm m \<longleftrightarrow>
     target_norm (mb_target m) \<and> 1 \<le> nextSequence m
     \<and> (case mb_processing m of None \<Rightarrow> True | Some p \<Rightarrow> processing_norm p)
     \<and> (case mb_pending m of None \<Rightarrow> True | Some b \<Rightarrow> batch_norm b)
     \<and> norm_texts (recentDedupeKeys m) \<and> length (recentDedupeKeys m) \<le> RECENT_DEDUPE_KEY_LIMIT
     \<and> batches_ok (nextSequence m) (recentDedupeKeys m) (mailboxBatches m)"

subsection \<open>The field checks\<close>

lemma norm_text_trim: "text_ok s \<Longrightarrow> norm_text (js_trim s)"
  by (simp add: norm_text_def text_ok_trim)

lemma mb_requireText_eq [simp]: "mb_requireText v l = Inr t \<longleftrightarrow> text_ok v \<and> t = js_trim v"
  by (auto simp: mb_requireText_def text_ok_def Let_def)

lemma mb_requireText_txt: "norm_text v \<Longrightarrow> mb_requireText v l = Inr v"
  by (simp add: norm_text_def)

lemma mb_checkTimestamp_eq [simp]:
  "mb_checkTimestamp v l = Inr t \<longleftrightarrow> text_ok v \<and> is_date (js_trim v) \<and> t = js_trim v"
  by (auto simp: mb_checkTimestamp_def)

lemma stamp_trim: "text_ok v \<Longrightarrow> is_date (js_trim v) \<Longrightarrow> stamp (js_trim v)"
  by (simp add: stamp_def norm_text_trim)

lemma mb_checkInteger_eq [simp]: "mb_checkInteger n k l = Inr m \<longleftrightarrow> k \<le> n \<and> m = n"
  by (auto simp: mb_checkInteger_def)

lemma mb_record_eq [simp]: "mb_record v l = Inr fs \<longleftrightarrow> v = JObj fs"
  by (cases v) (simp_all add: mb_record_def)

lemma mb_exact_eq [simp]:
  "mb_exact fs ks l = Inr u \<longleftrightarrow>
     list_all (\<lambda>k. k \<in> set ks) (map fst fs) \<and> list_all (\<lambda>k. k \<in> set (map fst fs)) ks"
  by (auto simp: mb_exact_def list_ex_iff list_all_iff)

lemma mb_requireString_eq:
  "mb_requireString v l = Inr t \<longleftrightarrow> (\<exists>s. v = JStr s \<and> text_ok s \<and> t = js_trim s)"
  by (cases v) (simp_all add: mb_requireString_def)

lemma mb_requireTimestamp_eq:
  "mb_requireTimestamp v l = Inr t \<longleftrightarrow>
     (\<exists>s. v = JStr s \<and> text_ok s \<and> is_date (js_trim s) \<and> t = js_trim s)"
  by (cases v) (simp_all add: mb_requireTimestamp_def)

lemma mb_requireInteger_eq [simp]:
  "mb_requireInteger v k l = Inr n \<longleftrightarrow> v = JInt n \<and> k \<le> n"
  by (cases v) (auto simp: mb_requireInteger_def)

lemma mb_array_eq [simp]: "mb_array v l = Inr xs \<longleftrightarrow> v = JArr xs"
  by (cases v) (auto simp: mb_array_def)

lemma mb_requireStringArray_norm: "mb_requireStringArray v l = Inr xs \<Longrightarrow> norm_texts xs"
  by (auto simp: mb_requireStringArray_def norm_texts_def mb_requireString_eq norm_text_trim
      elim!: traverse_all)

lemma mb_requireStringArray_jstrs:
  "norm_texts xs \<Longrightarrow> mb_requireStringArray (jstrs xs) l = Inr xs"
  by (simp add: mb_requireStringArray_def jstrs_def traverse_map norm_texts_def list_all_iff
      norm_text_def mb_requireString_def traverse_id)

lemma copyRef_norm: "copyRef r = Inr r' \<Longrightarrow> ref_norm r'"
  by (cases r) (auto simp: ref_norm_def text_ok_trim record_ref_ok_trim)

lemma copyTarget_norm: "copyTarget t = Inr t' \<Longrightarrow> target_norm t'"
  by (cases t) (auto simp: target_norm_def text_ok_trim)

lemma copies_norm: "traverse copyRef rs = Inr rs' \<Longrightarrow> list_all ref_norm rs'"
  by (erule traverse_all) (rule copyRef_norm)

subsection \<open>Parsing yields normal values\<close>

lemma parseTarget_norm: "parseTarget v = Inr t \<Longrightarrow> target_norm t"
  by (auto simp: parseTarget_def target_norm_def mb_requireString_eq text_ok_trim split: if_splits)

lemma parseRef_norm:
  assumes "parseRef v l = Inr r"
  shows "ref_norm r"
proof -
  from assms obtain fs ty where "v = JObj fs" "parseEntityType (field fs ''type'') l = Inr ty"
    by (auto simp: parseRef_def)
  with assms show ?thesis
    by (cases ty)
       (auto simp: parseRef_def ref_norm_def mb_requireString_eq text_ok_trim record_ref_ok_trim
         simp del: mb_exact_eq)
qed

lemma parseRefs_norm: "traverse (\<lambda>r. parseRef r l) vs = Inr rs \<Longrightarrow> list_all ref_norm rs"
  by (erule traverse_all) (rule parseRef_norm)

lemma parseBatch_norm: "parseBatch v l = Inr b \<Longrightarrow> batch_norm b"
  unfolding parseBatch_def batch_norm_def
  by (auto simp: mb_requireTimestamp_eq stamp_trim optionally_eq_Inr
      dest: mb_requireStringArray_norm parseRefs_norm)

lemma parseProcessing_norm: "parseProcessing v = Inr p \<Longrightarrow> processing_norm p"
  unfolding parseProcessing_def processing_norm_def
  by (auto simp: mb_requireTimestamp_eq mb_requireString_eq stamp_trim norm_text_trim optionally_eq_Inr
      dest: parseBatch_norm parseRef_norm)

lemma check_keys_eq:
  "distinct active \<Longrightarrow>
   check_keys recent active keys = Inr active' \<longleftrightarrow>
     active' = active @ keys \<and> distinct (active @ keys) \<and> set keys \<inter> set recent = {}"
  by (induction keys arbitrary: active) auto

lemma check_batches_eq:
  "distinct active \<Longrightarrow>
   check_batches next recent active bs = Inr active' \<longleftrightarrow>
     active' = active @ concat (map dedupeKeys bs) \<and> distinct active'
     \<and> (\<forall>b \<in> set bs. toSequence b < next)
     \<and> set (concat (map dedupeKeys bs)) \<inter> set recent = {}"
proof (induction bs arbitrary: active)
  case Nil
  then show ?case by auto
next
  case (Cons b bs)
  show ?case
  proof (cases "distinct (active @ dedupeKeys b)")
    case True
    with Cons show ?thesis by (auto simp: check_keys_eq)
  next
    case False
    with Cons.prems show ?thesis by (auto simp: check_keys_eq)
  qed
qed

lemma check_batches_ok [simp]:
  "check_batches next recent [] bs = Inr active' \<longleftrightarrow>
     active' = concat (map dedupeKeys bs) \<and> batches_ok next recent bs"
  by (auto simp: check_batches_eq batches_ok_def)

lemma parseNullable_norm:
  "parseNullable f v = Inr x \<Longrightarrow> (\<And>w y. f w = Inr y \<Longrightarrow> P y) \<Longrightarrow>
     (case x of None \<Rightarrow> True | Some y \<Rightarrow> P y)"
  by (auto simp: parseNullable_def split: if_splits)

lemma validate_normal: "validateWorkMailbox v = Inr m \<Longrightarrow> mailbox_norm m"
  unfolding validateWorkMailbox_def mailbox_norm_def mailboxBatches_def
  by (auto simp del: mb_exact_eq
      dest: parseTarget_norm mb_requireStringArray_norm
        parseNullable_norm [OF _ parseProcessing_norm] parseNullable_norm [OF _ parseBatch_norm])

subsection \<open>Normal values are accepted unchanged\<close>

lemma parseTarget_of_norm: "target_norm t \<Longrightarrow> parseTarget (target_json t) = Inr t"
  by (cases t) (simp_all add: parseTarget_def target_norm_def field_def mb_requireString_def)

lemma parseRef_of_norm: "ref_norm r \<Longrightarrow> parseRef (ref_json r) l = Inr r"
proof (cases r)
  case (OwnedRef ty t i)
  assume "ref_norm r"
  with OwnedRef have "text_ok t" "js_trim t = t" "text_ok i" "js_trim i = i"
    "copyRef r = Inr r"
    by (auto simp: ref_norm_def record_ref_ok_def identity_ok_def)
  with OwnedRef show ?thesis
    by (cases ty) (simp_all add: parseRef_def parseEntityType_def field_def mb_requireString_def)
qed (simp_all add: parseRef_def parseEntityType_def ref_norm_def field_def mb_requireString_def)

lemma parseBatch_of_norm: "batch_norm b \<Longrightarrow> parseBatch (batch_json b) l = Inr b"
  by (cases b)
     (auto simp: batch_norm_def parseBatch_def batch_json_def batch_fields_def field_def get_field_def
       mb_requireStringArray_jstrs traverse_map parseRef_of_norm list_all_iff traverse_id
       mb_requireTimestamp_eq stamp_def norm_text_def split: option.splits)

lemma parseProcessing_of_norm: "processing_norm p \<Longrightarrow> parseProcessing (processing_json p) = Inr p"
  by (cases p)
     (auto simp: processing_norm_def parseProcessing_def processing_json_def field_def get_field_def
       parseBatch_of_norm parseRef_of_norm mb_requireString_eq mb_requireTimestamp_eq
       stamp_def norm_text_def split: option.splits)

lemma not_null_json [simp]: "processing_json p \<noteq> JNull" "batch_json b \<noteq> JNull"
  by (simp_all add: processing_json_def batch_json_def)

theorem validate_of_normal:
  assumes "mailbox_norm m"
  shows "validateWorkMailbox (mailbox_json m) = Inr m"
proof -
  have "parseNullable parseProcessing
          (case mb_processing m of None \<Rightarrow> JNull | Some p \<Rightarrow> processing_json p) = Inr (mb_processing m)"
    using assms by (auto simp: parseNullable_def mailbox_norm_def parseProcessing_of_norm split: option.splits)
  moreover have "parseNullable (\<lambda>v. parseBatch v l)
          (case mb_pending m of None \<Rightarrow> JNull | Some b \<Rightarrow> batch_json b) = Inr (mb_pending m)" for l
    using assms by (auto simp: parseNullable_def mailbox_norm_def parseBatch_of_norm split: option.splits)
  ultimately show ?thesis
    using assms
    by (simp add: validateWorkMailbox_def mailbox_json_def field_def mailbox_norm_def mailboxBatches_def
        parseTarget_of_norm mb_requireStringArray_jstrs)
qed

lemma checkMailbox_norm [simp]: "mailbox_norm m \<Longrightarrow> checkMailbox m = Inr m"
  by (simp add: checkMailbox_def validate_of_normal)

lemma checkMailbox_result: "checkMailbox m = Inr m' \<Longrightarrow> mailbox_norm m'"
  by (auto simp: checkMailbox_def intro: validate_normal)

subsection \<open>Merging and remembering keep values normal\<close>

definition mailbox_ordered :: "work_mailbox \<Rightarrow> bool" where
  "mailbox_ordered m \<longleftrightarrow>
     (case (mb_processing m, mb_pending m) of
        (Some p, Some b) \<Rightarrow> toSequence (proc_batch p) < fromSequence b
      | _ \<Rightarrow> True)"

definition mailbox_inv :: "work_mailbox \<Rightarrow> bool" where
  "mailbox_inv m \<longleftrightarrow> mailbox_norm m \<and> mailbox_ordered m"

lemma norm_texts_append:
  "norm_texts xs \<Longrightarrow> norm_texts ys \<Longrightarrow> norm_texts (appendUnique xs ys (\<lambda>x. x))"
  using appendUnique_distinct [of "\<lambda>x. x" xs ys] appendUnique_set_id [of xs ys]
  by (auto simp: norm_texts_def list_all_iff)

lemma merge_norm:
  assumes "batch_norm l" and "batch_norm r" and "toSequence l < fromSequence r"
  shows "batch_norm (mergeBatches l r)"
proof -
  have "list_all ref_norm (appendUnique (batch_refs l) (batch_refs r) mailboxEntityRefKey)"
    using assms appendUnique_set(2) [of "batch_refs l" "batch_refs r" mailboxEntityRefKey]
    by (auto simp: batch_norm_def list_all_iff)
  with assms show ?thesis
    by (auto simp: batch_norm_def mergeBatches_def norm_texts_append appendUnique_distinct
        max_revision_def split: option.splits)
qed

lemma remember_norm:
  assumes "norm_texts xs" and "norm_texts ys"
  shows "norm_texts (rememberDedupeKeys xs ys)"
    and "length (rememberDedupeKeys xs ys) \<le> RECENT_DEDUPE_KEY_LIMIT"
    and "set (rememberDedupeKeys xs ys) \<subseteq> set xs \<union> set ys"
proof -
  let ?a = "appendUnique xs ys (\<lambda>x. x)"
  have a: "norm_texts ?a" by (rule norm_texts_append [OF assms])
  have sub: "set (slice_last RECENT_DEDUPE_KEY_LIMIT ?a) \<subseteq> set ?a" by (rule set_slice_last)
  show "norm_texts (rememberDedupeKeys xs ys)"
    using a sub distinct_slice_last [of ?a RECENT_DEDUPE_KEY_LIMIT]
    by (auto simp: rememberDedupeKeys_def norm_texts_def list_all_iff)
  show "length (rememberDedupeKeys xs ys) \<le> RECENT_DEDUPE_KEY_LIMIT"
    by (simp add: rememberDedupeKeys_def)
  show "set (rememberDedupeKeys xs ys) \<subseteq> set xs \<union> set ys"
    using sub by (simp add: rememberDedupeKeys_def appendUnique_set_id)
qed

lemma merge_keys:
  "set (dedupeKeys l) \<inter> set (dedupeKeys r) = {} \<Longrightarrow> distinct (dedupeKeys r) \<Longrightarrow>
     dedupeKeys (mergeBatches l r) = dedupeKeys l @ dedupeKeys r"
  by (simp add: mergeBatches_def appendUnique_fresh)

lemma sequence_key_norm: "1 \<le> n \<Longrightarrow> norm_text (''sequence:'' @ int_str n)"
proof -
  assume "1 \<le> n"
  then have i: "int_str n = nat_str (nat n)" by (simp add: int_str_def)
  have "NUL \<notin> set (nat_str (nat n))"
    using nat_str_digits [of NUL "nat n"] by (auto simp: is_digit_def NUL_def)
  moreover have "js_trim (''sequence:'' @ nat_str (nat n)) = ''sequence:'' @ nat_str (nat n)"
    using nat_str_not_ws(2) [of "nat n"]
    by (intro js_trim_id) (simp add: is_ws_def)
  ultimately show ?thesis by (simp add: norm_text_def text_ok_def i NUL_def)
qed

lemma signalKey_norm: "signalKey s n = Inr k \<Longrightarrow> 1 \<le> n \<Longrightarrow> norm_text k"
  using sequence_key_norm [of n] by (auto simp: signalKey_def norm_text_trim split: option.splits)

lemma mailboxBatches_cases:
  "mailboxBatches m =
     (case mb_processing m of None \<Rightarrow> [] | Some p \<Rightarrow> [proc_batch p])
     @ (case mb_pending m of None \<Rightarrow> [] | Some b \<Rightarrow> [b])"
  by (simp add: mailboxBatches_def opt_list_def split: option.splits)

lemma contains_iff:
  "mailboxContainsDedupeKey m k \<longleftrightarrow>
     k \<in> set (recentDedupeKeys m) \<union> set (concat (map dedupeKeys (mailboxBatches m)))"
  by (auto simp: mailboxContainsDedupeKey_def mailboxBatches_cases split: option.splits)

subsection \<open>The result of each operation\<close>

definition signal_batch :: "work_signal \<Rightarrow> int \<Rightarrow> string \<Rightarrow> entity_ref list \<Rightarrow> pending_batch" where
  "signal_batch s n key refs =
     \<lparr>fromSequence = n, toSequence = n, batch_reasons = [js_trim (sig_reason s)],
      batch_refs = appendUnique [] refs mailboxEntityRefKey, requestCount = 1,
      firstQueuedAt = js_trim (sig_occurredAt s), lastQueuedAt = js_trim (sig_occurredAt s),
      batch_sources = [js_trim (case sig_source s of None \<Rightarrow> ''yui'' | Some x \<Rightarrow> x)],
      dedupeKeys = [key], highestFactRevision = sig_factRevision s\<rparr>"

definition enqueued :: "work_mailbox \<Rightarrow> pending_batch \<Rightarrow> work_mailbox" where
  "enqueued m b = m\<lparr>nextSequence := nextSequence m + 1,
     mb_pending := Some (case mb_pending m of None \<Rightarrow> b | Some p \<Rightarrow> mergeBatches p b)\<rparr>"

definition header_ok :: "work_signal \<Rightarrow> bool" where
  "header_ok s \<longleftrightarrow>
     text_ok (sig_reason s) \<and> text_ok (sig_occurredAt s) \<and> is_date (js_trim (sig_occurredAt s))
     \<and> text_ok (case sig_source s of None \<Rightarrow> ''yui'' | Some x \<Rightarrow> x)"

definition revision_ok :: "work_signal \<Rightarrow> bool" where
  "revision_ok s \<longleftrightarrow> (case sig_factRevision s of None \<Rightarrow> True | Some n \<Rightarrow> 0 \<le> n)"

lemma signal_batch_norm:
  assumes "1 \<le> n" and "header_ok s" and "revision_ok s" and "norm_text key"
    and "traverse copyRef rs = Inr refs"
  shows "batch_norm (signal_batch s n key refs)"
proof -
  have "list_all ref_norm (appendUnique [] refs mailboxEntityRefKey)"
    using copies_norm [OF assms(5)] appendUnique_set(2) [of "[]" refs mailboxEntityRefKey]
    by (auto simp: list_all_iff)
  moreover have "distinct (map mailboxEntityRefKey (appendUnique [] refs mailboxEntityRefKey))"
    by (rule appendUnique_distinct) simp
  ultimately show ?thesis
    using assms by (simp add: batch_norm_def signal_batch_def header_ok_def revision_ok_def
        norm_texts_def norm_text_trim stamp_trim)
qed

lemma enqueued_inv:
  assumes m: "mailbox_inv m" and b: "batch_norm b"
    and one: "fromSequence b = nextSequence m" "toSequence b = nextSequence m" "dedupeKeys b = [key]"
    and new: "\<not> mailboxContainsDedupeKey m key"
  shows "mailbox_inv (enqueued m b)"
proof -
  have n: "mailbox_norm m" and o: "mailbox_ordered m" using m by (simp_all add: mailbox_inv_def)
  have k: "\<And>p. mb_pending m = Some p \<Longrightarrow> dedupeKeys (mergeBatches p b) = dedupeKeys p @ [key]"
    using new by (subst merge_keys) (auto simp: contains_iff mailboxBatches_cases one)
  have "\<And>p. mb_pending m = Some p \<Longrightarrow> batch_norm (mergeBatches p b)"
    using n b by (intro merge_norm) (auto simp: mailbox_norm_def batches_ok_def mailboxBatches_cases one)
  then have "mailbox_norm (enqueued m b)"
    using n b new k
    by (auto simp: mailbox_norm_def enqueued_def batches_ok_def mailboxBatches_cases contains_iff
        one mergeBatches_def split: option.splits)
  moreover have "mailbox_ordered (enqueued m b)"
    using n o by (auto simp: mailbox_ordered_def enqueued_def mailbox_norm_def batches_ok_def
        mailboxBatches_cases one mergeBatches_def split: option.splits)
  ultimately show ?thesis by (simp add: mailbox_inv_def)
qed

theorem enqueue_eq:
  assumes m: "mailbox_inv m"
  shows "enqueueSignal m s = Inr m' \<longleftrightarrow>
    header_ok s \<and> (\<exists>key. signalKey s (nextSequence m) = Inr key \<and>
      (if mailboxContainsDedupeKey m key then m' = m
       else \<exists>refs. traverse copyRef (sig_refs s) = Inr refs \<and> revision_ok s
              \<and> m' = enqueued m (signal_batch s (nextSequence m) key refs)))"
proof -
  have n: "mailbox_norm m" "1 \<le> nextSequence m" using m by (simp_all add: mailbox_inv_def mailbox_norm_def)
  have "checkMailbox (enqueued m (signal_batch s (nextSequence m) key refs))
          = Inr (enqueued m (signal_batch s (nextSequence m) key refs))"
    if "header_ok s" "revision_ok s" "signalKey s (nextSequence m) = Inr key"
      "traverse copyRef (sig_refs s) = Inr refs" "\<not> mailboxContainsDedupeKey m key" for key refs
  proof -
    have "mailbox_inv (enqueued m (signal_batch s (nextSequence m) key refs))"
      using that n m by (intro enqueued_inv [OF m signal_batch_norm])
        (auto simp: signal_batch_def intro: signalKey_norm)
    then show ?thesis by (simp add: mailbox_inv_def)
  qed
  note fresh = this
  have rev: "optionally (\<lambda>n. mb_checkInteger n 0 l) (sig_factRevision s) = Inr r \<longleftrightarrow>
      revision_ok s \<and> r = sig_factRevision s" for l r
    by (auto simp: revision_ok_def optionally_eq_Inr split: option.splits)
  have "enqueueSignal m s = Inr m' \<longleftrightarrow>
    header_ok s \<and> (\<exists>key. signalKey s (nextSequence m) = Inr key \<and>
      (if mailboxContainsDedupeKey m key then m' = m
       else \<exists>refs. traverse copyRef (sig_refs s) = Inr refs \<and> revision_ok s
              \<and> checkMailbox (enqueued m (signal_batch s (nextSequence m) key refs)) = Inr m'))"
    using n(1)
    by (simp add: enqueueSignal_def header_ok_def rev Let_def enqueued_def signal_batch_def
        if_distrib [of "\<lambda>r. r = Inr m'"] eq_commute [of m m'] cong: if_cong)
  then show ?thesis
  proof (cases "signalKey s (nextSequence m)")
    case (Inr key)
    with \<open>enqueueSignal m s = Inr m' \<longleftrightarrow> _\<close> show ?thesis
      using fresh [of key] by (cases "mailboxContainsDedupeKey m key") (auto cong: conj_cong)
  qed simp
qed

definition claimed :: "work_mailbox \<Rightarrow> pending_batch \<Rightarrow> claim_options \<Rightarrow> work_mailbox" where
  "claimed m b c = m\<lparr>
     mb_processing := Some \<lparr>batchId = js_trim (clm_batchId c), proc_batch = b,
        proc_owner = js_trim (clm_owner c), proc_startedAt = js_trim (clm_startedAt c),
        executionRef = None\<rparr>,
     mb_pending := None\<rparr>"

definition claim_ok :: "claim_options \<Rightarrow> bool" where
  "claim_ok c \<longleftrightarrow> text_ok (clm_batchId c) \<and> text_ok (clm_owner c) \<and> text_ok (clm_startedAt c)
     \<and> is_date (js_trim (clm_startedAt c))"

definition completed :: "work_mailbox \<Rightarrow> processing_batch \<Rightarrow> work_mailbox" where
  "completed m p = m\<lparr>mb_processing := None,
     recentDedupeKeys := rememberDedupeKeys (recentDedupeKeys m) (dedupeKeys (proc_batch p))\<rparr>"

definition released :: "work_mailbox \<Rightarrow> processing_batch \<Rightarrow> work_mailbox" where
  "released m p = m\<lparr>mb_processing := None,
     mb_pending := Some (case mb_pending m of
        None \<Rightarrow> proc_batch p | Some b \<Rightarrow> mergeBatches (proc_batch p) b)\<rparr>"

definition consumed :: "work_mailbox \<Rightarrow> pending_batch \<Rightarrow> work_mailbox" where
  "consumed m b = m\<lparr>
     recentDedupeKeys := rememberDedupeKeys (recentDedupeKeys m) (dedupeKeys b),
     mb_pending := None\<rparr>"

lemma inv_normD: "mailbox_inv m \<Longrightarrow> mailbox_norm m"
  by (simp add: mailbox_inv_def)

lemma claimed_inv:
  assumes "mailbox_inv m" and "mb_pending m = Some b" and "mb_processing m = None" and "claim_ok c"
  shows "mailbox_inv (claimed m b c)"
  using assms
  by (simp add: mailbox_inv_def mailbox_norm_def mailbox_ordered_def claimed_def mailboxBatches_cases
      processing_norm_def claim_ok_def norm_text_trim stamp_trim)

theorem claim_eq:
  assumes m: "mailbox_inv m"
  shows "claimPending m c = Inr m' \<longleftrightarrow>
    mb_processing m = None \<and> claim_ok c \<and> (\<exists>b. mb_pending m = Some b \<and> m' = claimed m b c)"
proof (cases "mb_pending m")
  case (Some b)
  have "checkMailbox (claimed m b c) = Inr (claimed m b c)"
    if "mb_processing m = None" "claim_ok c"
    using that Some m by (intro checkMailbox_norm inv_normD claimed_inv)
  then show ?thesis
    using m Some by (auto simp: claimPending_def claim_ok_def claimed_def inv_normD)
qed (simp add: claimPending_def)

lemma require_eq:
  "mailbox_inv m \<Longrightarrow> requireProcessing m i = Inr p \<longleftrightarrow>
     mb_processing m = Some p \<and> text_ok i \<and> batchId p = js_trim i"
  by (auto simp: requireProcessing_def inv_normD split: option.splits)

lemma bound_inv:
  assumes "mailbox_inv m" and "mb_processing m = Some p" and "ref_norm r"
  shows "mailbox_inv (m\<lparr>mb_processing := Some (p\<lparr>executionRef := Some r\<rparr>)\<rparr>)"
  using assms
  by (cases "mb_pending m")
     (simp_all add: mailbox_inv_def mailbox_norm_def mailbox_ordered_def mailboxBatches_cases
        processing_norm_def)

theorem bind_eq:
  assumes m: "mailbox_inv m"
  shows "bindExecution m i r = Inr m' \<longleftrightarrow>
    (\<exists>p r'. mb_processing m = Some p \<and> text_ok i \<and> batchId p = js_trim i \<and> copyRef r = Inr r'
       \<and> m' = m\<lparr>mb_processing := Some (p\<lparr>executionRef := Some r'\<rparr>)\<rparr>)"
  using bound_inv [OF m] copyRef_norm
  by (fastforce simp: bindExecution_def require_eq [OF m] inv_normD)

lemma batches_ok_remember:
  assumes "batches_ok n recent (b # bs)" and "norm_texts recent" and "norm_texts (dedupeKeys b)"
  shows "batches_ok n (rememberDedupeKeys recent (dedupeKeys b)) bs"
  using assms remember_norm(3) [OF assms(2,3)] by (fastforce simp: batches_ok_def)

lemma batches_ok_swap: "batches_ok n recent [b, c] \<longleftrightarrow> batches_ok n recent [c, b]"
  by (auto simp: batches_ok_def)

lemma completed_inv:
  assumes "mailbox_inv m" and "mb_processing m = Some p"
  shows "mailbox_inv (completed m p)"
  using assms remember_norm [of "recentDedupeKeys m" "dedupeKeys (proc_batch p)"]
  by (auto simp: mailbox_inv_def mailbox_norm_def mailbox_ordered_def completed_def
      mailboxBatches_cases processing_norm_def batch_norm_def
      intro!: batches_ok_remember split: option.splits)

theorem complete_eq:
  assumes m: "mailbox_inv m"
  shows "completeProcessing m i = Inr m' \<longleftrightarrow>
    (\<exists>p. mb_processing m = Some p \<and> text_ok i \<and> batchId p = js_trim i \<and> m' = completed m p)"
  using completed_inv [OF m]
  by (fastforce simp: completeProcessing_def require_eq [OF m] inv_normD completed_def)

lemma released_inv:
  assumes "mailbox_inv m" and "mb_processing m = Some p"
  shows "mailbox_inv (released m p)"
proof (cases "mb_pending m")
  case None
  with assms show ?thesis
    by (simp add: mailbox_inv_def mailbox_norm_def mailbox_ordered_def released_def
        mailboxBatches_cases processing_norm_def)
next
  case (Some b)
  with assms have n: "batch_norm (proc_batch p)" "batch_norm b"
    "toSequence (proc_batch p) < fromSequence b"
    "batches_ok (nextSequence m) (recentDedupeKeys m) [proc_batch p, b]"
    by (simp_all add: mailbox_inv_def mailbox_norm_def mailbox_ordered_def mailboxBatches_cases
        processing_norm_def)
  then have "dedupeKeys (mergeBatches (proc_batch p) b) = dedupeKeys (proc_batch p) @ dedupeKeys b"
    by (intro merge_keys) (auto simp: batches_ok_def)
  with n have "batches_ok (nextSequence m) (recentDedupeKeys m) [mergeBatches (proc_batch p) b]"
    by (simp add: batches_ok_def mergeBatches_def)
  with Some assms merge_norm [OF n(1-3)] show ?thesis
    by (simp add: mailbox_inv_def mailbox_norm_def mailbox_ordered_def released_def mailboxBatches_cases)
qed

theorem release_eq:
  assumes m: "mailbox_inv m"
  shows "releaseProcessing m i = Inr m' \<longleftrightarrow>
    (\<exists>p. mb_processing m = Some p \<and> text_ok i \<and> batchId p = js_trim i \<and> m' = released m p)"
  using released_inv [OF m]
  by (fastforce simp: releaseProcessing_def require_eq [OF m] inv_normD released_def)

lemma consumed_inv:
  assumes "mailbox_inv m" and "mb_pending m = Some b"
  shows "mailbox_inv (consumed m b)"
  using assms remember_norm [of "recentDedupeKeys m" "dedupeKeys b"]
  by (auto simp: mailbox_inv_def mailbox_norm_def mailbox_ordered_def consumed_def batches_ok_swap
      mailboxBatches_cases processing_norm_def batch_norm_def
      intro!: batches_ok_remember split: option.splits)

lemma norm_texts_take_drop: "norm_texts xs \<Longrightarrow> norm_texts (take k xs) \<and> norm_texts (drop k xs)"
  by (auto simp: norm_texts_def list_all_iff dest: in_set_takeD in_set_dropD)

lemma consumePrefix_inv:
  assumes m: "mailbox_inv m" and b: "mb_pending m = Some b"
    and t: "fromSequence b \<le> t" "t < toSequence b"
  shows "mailbox_inv (consumePrefix m b t)"
proof -
  let ?k = "nat (t - fromSequence b + 1)"
  define keys where "keys = (if int (length (dedupeKeys b)) = requestCount b then take ?k (dedupeKeys b) else [])"
  define rest where "rest = (if int (length (dedupeKeys b)) = requestCount b then drop ?k (dedupeKeys b) else dedupeKeys b)"
  have split: "dedupeKeys b = keys @ rest" by (simp add: keys_def rest_def)
  define b' where "b' = b\<lparr>fromSequence := t + 1, requestCount := toSequence b - t, dedupeKeys := rest\<rparr>"
  have eq: "consumePrefix m b t =
      m\<lparr>mb_pending := Some b', recentDedupeKeys := rememberDedupeKeys (recentDedupeKeys m) keys\<rparr>"
    by (simp add: consumePrefix_def Let_def b'_def keys_def rest_def)
  have n: "batch_norm b" "norm_texts (recentDedupeKeys m)"
    using m b by (simp_all add: mailbox_inv_def mailbox_norm_def)
  then have nt: "norm_texts keys" "norm_texts rest"
    by (auto simp: keys_def rest_def batch_norm_def norm_texts_take_drop) (simp add: norm_texts_def)
  have "batch_norm b'" using n(1) nt(2) t by (simp add: batch_norm_def b'_def)
  moreover have "batches_ok (nextSequence m) (rememberDedupeKeys (recentDedupeKeys m) keys)
      (mailboxBatches (m\<lparr>mb_pending := Some b'\<rparr>))"
    using m b remember_norm(3) [OF n(2) nt(1)] split
    by (fastforce simp: mailbox_inv_def mailbox_norm_def batches_ok_def mailboxBatches_cases b'_def
        split: option.splits)
  moreover have "mailbox_ordered (m\<lparr>mb_pending := Some b'\<rparr>)"
    using m b t by (auto simp: mailbox_inv_def mailbox_ordered_def b'_def split: option.splits)
  ultimately show ?thesis
    using m remember_norm [OF n(2) nt(1)] unfolding eq
    by (simp add: mailbox_inv_def mailbox_norm_def mailboxBatches_cases mailbox_ordered_def)
qed

theorem consume_eq:
  assumes m: "mailbox_inv m"
  shows "consumePendingBatch m through = Inr m' \<longleftrightarrow>
    (\<exists>b. mb_pending m = Some b \<and>
      (case through of
         None \<Rightarrow> m' = consumed m b
       | Some (from, to) \<Rightarrow>
           from = fromSequence b \<and> from \<le> to \<and> to \<le> toSequence b
           \<and> m' = (if to < toSequence b then consumePrefix m b to else consumed m b)))"
proof (cases "mb_pending m")
  case (Some b)
  have "checkMailbox (consumed m b) = Inr (consumed m b)"
    by (intro checkMailbox_norm inv_normD consumed_inv [OF m Some])
  moreover have "checkMailbox (consumePrefix m b t) = Inr (consumePrefix m b t)"
    if "fromSequence b \<le> t" "t < toSequence b" for t
    by (intro checkMailbox_norm inv_normD consumePrefix_inv [OF m Some that])
  ultimately show ?thesis
    using m Some
    by (cases through) (auto simp: consumePendingBatch_def inv_normD consumed_def Let_def)
qed (simp add: consumePendingBatch_def)

lemma enqueue_cases:
  assumes "mailbox_inv m" and "enqueueSignal m s = Inr m'"
  obtains "m' = m"
  | key b where "signalKey s (nextSequence m) = Inr key" and "\<not> mailboxContainsDedupeKey m key"
      and "batch_norm b" and "fromSequence b = nextSequence m" and "toSequence b = nextSequence m"
      and "dedupeKeys b = [key]" and "requestCount b = 1" and "m' = enqueued m b"
proof -
  from assms obtain key where k: "signalKey s (nextSequence m) = Inr key" "header_ok s" and
    r: "if mailboxContainsDedupeKey m key then m' = m
        else \<exists>refs. traverse copyRef (sig_refs s) = Inr refs \<and> revision_ok s
               \<and> m' = enqueued m (signal_batch s (nextSequence m) key refs)"
    by (metis enqueue_eq)
  show ?thesis
  proof (cases "mailboxContainsDedupeKey m key")
    case True
    with r that(1) show ?thesis by simp
  next
    case False
    with r obtain refs where refs: "traverse copyRef (sig_refs s) = Inr refs" "revision_ok s"
      "m' = enqueued m (signal_batch s (nextSequence m) key refs)" by auto
    have n: "1 \<le> nextSequence m" using assms(1) by (simp add: mailbox_inv_def mailbox_norm_def)
    show ?thesis
      by (rule that(2) [OF k(1) False signal_batch_norm [OF n k(2) refs(2) signalKey_norm [OF k(1) n] refs(1)]])
         (simp_all add: signal_batch_def refs(3))
  qed
qed

lemma consume_cases:
  assumes "mailbox_inv m" and "consumePendingBatch m through = Inr m'"
  obtains b where "mb_pending m = Some b" and "m' = consumed m b"
  | b t where "mb_pending m = Some b" and "fromSequence b \<le> t" and "t < toSequence b"
      and "m' = consumePrefix m b t"
  using assms by (cases through) (auto simp: consume_eq split: if_splits)

lemma target_key_inj: "target_key s = target_key t \<Longrightarrow> s = t"
  by (cases s; cases t) (auto simp: target_key_def dest: uri_encode_inj uri_pair_inj)

lemma mailboxTargetKey_eq:
  "mailboxTargetKey t = Inr k \<longleftrightarrow> (\<exists>t'. copyTarget t = Inr t' \<and> k = target_key t')"
  by (auto simp: mailboxTargetKey_def)

end
