(* ===== verification/Signal_Queue.thy ===== *)
theory Signal_Queue
  imports Mailbox_Laws "HOL-Library.Multiset"
begin

section \<open>A mailbox is a queue of signals\<close>

text \<open>
  What a mailbox promises, as a queue of numbered keys: \<open>q_waiting\<close> holds the signals still
  pending, \<open>q_inflight\<close> the signals of the batch being processed, \<open>q_recent\<close> the keys remembered
  as consumed.  \<open>orderly\<close> mailboxes have one key per sequence number in each batch, and there
  every operation is the queue operation (\<open>step_refines\<close>), with one exception: a prefix consumed while
  another batch is being processed leaves a gap between the two, and releasing the batch then merges across
  it.  \<open>gap_free\<close> histories have no such release; \<open>consume_gap\<close> shows what a consumption after one does.
\<close>

subsection \<open>The abstract queue\<close>

record signal_queue =
  q_recent :: "string list"
  q_inflight :: "(int \<times> string) list option"
  q_waiting :: "(int \<times> string) list"
  q_next :: int

definition q_empty :: signal_queue where
  "q_empty = \<lparr>q_recent = [], q_inflight = None, q_waiting = [], q_next = 1\<rparr>"

definition q_flight :: "signal_queue \<Rightarrow> (int \<times> string) list" where
  "q_flight q = (case q_inflight q of None \<Rightarrow> [] | Some xs \<Rightarrow> xs)"

definition q_known :: "signal_queue \<Rightarrow> string set" where
  "q_known q = set (q_recent q) \<union> snd ` set (q_waiting q) \<union> snd ` set (q_flight q)"

definition q_remember :: "string list \<Rightarrow> (int \<times> string) list \<Rightarrow> string list" where
  "q_remember recent xs = slice_last RECENT_DEDUPE_KEY_LIMIT (recent @ map snd xs)"

fun q_step :: "signal_queue \<Rightarrow> mailbox_op \<Rightarrow> signal_queue" where
  "q_step q (Enqueue s) =
     (case signalKey s (q_next q) of
        Inl _ \<Rightarrow> q
      | Inr key \<Rightarrow>
          if key \<in> q_known q then q
          else q\<lparr>q_waiting := q_waiting q @ [(q_next q, key)], q_next := q_next q + 1\<rparr>)"
| "q_step q (Claim _) = q\<lparr>q_inflight := Some (q_waiting q), q_waiting := []\<rparr>"
| "q_step q (BindExecution _ _) = q"
| "q_step q (Complete _) =
     q\<lparr>q_recent := q_remember (q_recent q) (q_flight q), q_inflight := None\<rparr>"
| "q_step q (Release _) =
     q\<lparr>q_waiting := q_flight q @ q_waiting q, q_inflight := None\<rparr>"
| "q_step q (Consume None) =
     q\<lparr>q_recent := q_remember (q_recent q) (q_waiting q), q_waiting := []\<rparr>"
| "q_step q (Consume (Some (from, to))) =
     q\<lparr>q_recent := q_remember (q_recent q) (filter (\<lambda>e. fst e \<le> to) (q_waiting q)),
       q_waiting := filter (\<lambda>e. to < fst e) (q_waiting q)\<rparr>"

definition q_gap :: "signal_queue \<Rightarrow> bool" where
  \<comment> \<open>the signals in flight do not end just before those that wait\<close>
  "q_gap q \<longleftrightarrow> q_flight q \<noteq> []
     \<and> fst (last (q_flight q)) + 1 \<noteq> (case q_waiting q of [] \<Rightarrow> q_next q | e # _ \<Rightarrow> fst e)"

fun gap_free :: "signal_queue \<Rightarrow> mailbox_op list \<Rightarrow> bool" where
  \<comment> \<open>no batch is released across a gap\<close>
  "gap_free q [] \<longleftrightarrow> True"
| "gap_free q (op # ops) \<longleftrightarrow> (case op of Release _ \<Rightarrow> \<not> q_gap q | _ \<Rightarrow> True) \<and> gap_free (q_step q op) ops"

text \<open>The signals an operation accepts, the signals it takes out, and either over a history.\<close>

fun q_accepts :: "signal_queue \<Rightarrow> mailbox_op \<Rightarrow> (int \<times> string) list" where
  "q_accepts q (Enqueue s) =
     (case signalKey s (q_next q) of
        Inl _ \<Rightarrow> []
      | Inr key \<Rightarrow> if key \<in> q_known q then [] else [(q_next q, key)])"
| "q_accepts q _ = []"

fun q_consumes :: "signal_queue \<Rightarrow> mailbox_op \<Rightarrow> (int \<times> string) list" where
  "q_consumes q (Complete _) = q_flight q"
| "q_consumes q (Consume None) = q_waiting q"
| "q_consumes q (Consume (Some (from, to))) = filter (\<lambda>e. fst e \<le> to) (q_waiting q)"
| "q_consumes q _ = []"

fun q_log :: "(signal_queue \<Rightarrow> mailbox_op \<Rightarrow> (int \<times> string) list) \<Rightarrow> signal_queue \<Rightarrow> mailbox_op list \<Rightarrow> (int \<times> string) list" where
  "q_log f q [] = []"
| "q_log f q (op # ops) = f q op @ q_log f (q_step q op) ops"

subsection \<open>Orderly mailboxes\<close>

definition entries :: "pending_batch \<Rightarrow> (int \<times> string) list" where
  "entries b = zip [fromSequence b..toSequence b] (dedupeKeys b)"

definition aligned :: "pending_batch \<Rightarrow> bool" where
  "aligned b \<longleftrightarrow> requestCount b = toSequence b - fromSequence b + 1
     \<and> int (length (dedupeKeys b)) = requestCount b"

definition orderly :: "work_mailbox \<Rightarrow> bool" where
  "orderly m \<longleftrightarrow>
     list_all aligned (mailboxBatches m)
     \<and> (case mb_pending m of None \<Rightarrow> True | Some b \<Rightarrow> toSequence b + 1 = nextSequence m)
     \<and> (case mb_processing m of None \<Rightarrow> True | Some p \<Rightarrow> toSequence (proc_batch p)
          < (case mb_pending m of None \<Rightarrow> nextSequence m | Some b \<Rightarrow> fromSequence b))"

definition queue_of :: "work_mailbox \<Rightarrow> signal_queue" where
  "queue_of m =
     \<lparr>q_recent = recentDedupeKeys m,
      q_inflight = map_option (\<lambda>p. entries (proc_batch p)) (mb_processing m),
      q_waiting = (case mb_pending m of None \<Rightarrow> [] | Some b \<Rightarrow> entries b),
      q_next = nextSequence m\<rparr>"

lemma aligned_length: "aligned b \<Longrightarrow> length [fromSequence b..toSequence b] = length (dedupeKeys b)"
  by (auto simp: aligned_def nat_eq_iff)

lemma entries_keys: "aligned b \<Longrightarrow> map snd (entries b) = dedupeKeys b"
  unfolding entries_def by (rule map_snd_zip) (rule aligned_length)

lemma entries_key_set: "aligned b \<Longrightarrow> snd ` set (entries b) = set (dedupeKeys b)"
  using entries_keys [of b] by (metis set_map)

lemma q_known_contains:
  "orderly m \<Longrightarrow> key \<in> q_known (queue_of m) \<longleftrightarrow> mailboxContainsDedupeKey m key"
  by (auto simp: q_known_def q_flight_def queue_of_def orderly_def contains_iff mailboxBatches_cases
      entries_key_set split: option.splits)

lemma remember_fresh:
  assumes "distinct ys" and "set xs \<inter> set ys = {}"
  shows "rememberDedupeKeys xs ys = slice_last RECENT_DEDUPE_KEY_LIMIT (xs @ ys)"
  using assms by (simp add: rememberDedupeKeys_def appendUnique_fresh)

lemma q_remember_entries:
  assumes "aligned b" and "distinct (dedupeKeys b)" and "set recent \<inter> set (dedupeKeys b) = {}"
  shows "q_remember recent (entries b) = rememberDedupeKeys recent (dedupeKeys b)"
  using assms by (simp add: q_remember_def entries_keys remember_fresh)

lemma entries_merge:
  assumes "aligned l" and "aligned r" and "toSequence l + 1 = fromSequence r"
    and "fromSequence l \<le> toSequence l" and "fromSequence r \<le> toSequence r"
    and "set (dedupeKeys l) \<inter> set (dedupeKeys r) = {}" and "distinct (dedupeKeys r)"
  shows "entries (mergeBatches l r) = entries l @ entries r" and "aligned (mergeBatches l r)"
    and "toSequence (mergeBatches l r) = toSequence r"
proof -
  have k: "dedupeKeys (mergeBatches l r) = dedupeKeys l @ dedupeKeys r"
    using assms by (intro merge_keys)
  have s: "fromSequence (mergeBatches l r) = fromSequence l" "toSequence (mergeBatches l r) = toSequence r"
    "requestCount (mergeBatches l r) = requestCount l + requestCount r"
    using assms by (simp_all add: mergeBatches_def)
  have "[fromSequence l..toSequence r] = [fromSequence l..toSequence l] @ [fromSequence r..toSequence r]"
    using assms upto_split2 [of "fromSequence l" "toSequence l" "toSequence r"] by simp
  then show "entries (mergeBatches l r) = entries l @ entries r"
    unfolding entries_def s k using zip_append [OF aligned_length [OF assms(1)]] by metis
  show "aligned (mergeBatches l r)"
    using assms unfolding aligned_def s k by simp
  show "toSequence (mergeBatches l r) = toSequence r" by (rule s(2))
qed

lemma entries_split:
  assumes a: "aligned b" and t: "fromSequence b \<le> t" "t < toSequence b"
  defines "k \<equiv> nat (t - fromSequence b + 1)"
  shows "map snd (filter (\<lambda>e. fst e \<le> t) (entries b)) = take k (dedupeKeys b)"
    and "filter (\<lambda>e. t < fst e) (entries b) = zip [t + 1..toSequence b] (drop k (dedupeKeys b))"
proof -
  let ?l = "[fromSequence b..t]" and ?r = "[t + 1..toSequence b]"
  have len: "length ?l = length (take k (dedupeKeys b))"
    using a t by (auto simp: k_def aligned_def)
  have e: "entries b = zip ?l (take k (dedupeKeys b)) @ zip ?r (drop k (dedupeKeys b))"
    using zip_append [OF len, of ?r "drop k (dedupeKeys b)"] upto_split2 [of "fromSequence b" t "toSequence b"] t
    unfolding entries_def by simp
  have l: "\<And>e. e \<in> set (zip ?l xs) \<Longrightarrow> fst e \<le> t" and r: "\<And>e. e \<in> set (zip ?r xs) \<Longrightarrow> t < fst e"
    for xs :: "string list"
    by (auto dest: set_zip_leftD)
  have "filter (\<lambda>e. fst e \<le> t) (entries b) = zip ?l (take k (dedupeKeys b))"
    unfolding e filter_append using l r by (simp add: filter_id_conv filter_empty_conv not_le)
  then show "map snd (filter (\<lambda>e. fst e \<le> t) (entries b)) = take k (dedupeKeys b)"
    using len by (simp add: map_snd_zip)
  show "filter (\<lambda>e. t < fst e) (entries b) = zip ?r (drop k (dedupeKeys b))"
    unfolding e filter_append using l r by (simp add: filter_id_conv filter_empty_conv not_less)
qed

subsection \<open>Each operation is the queue operation\<close>

lemma mailbox_facts:
  assumes "mailbox_inv m" and "b \<in> set (mailboxBatches m)"
  shows "fromSequence b \<le> toSequence b" and "distinct (dedupeKeys b)"
    and "set (recentDedupeKeys m) \<inter> set (dedupeKeys b) = {}"
  using assms
  by (auto simp: mailbox_inv_def mailbox_norm_def mailboxBatches_cases processing_norm_def
      batch_norm_def norm_texts_def batches_ok_def split: option.splits)

lemma refine_enqueue:
  assumes m: "mailbox_inv m" "orderly m" and s: "enqueueSignal m s = Inr m'"
  shows "orderly m' \<and> queue_of m' = q_step (queue_of m) (Enqueue s)"
proof -
  from s [unfolded enqueue_eq [OF m(1)]] obtain key where
    k: "signalKey s (nextSequence m) = Inr key" and
    r: "if mailboxContainsDedupeKey m key then m' = m
        else \<exists>refs. m' = enqueued m (signal_batch s (nextSequence m) key refs)"
    by metis
  have n: "q_next (queue_of m) = nextSequence m" by (simp add: q_flight_def queue_of_def)
  show ?thesis
  proof (cases "mailboxContainsDedupeKey m key")
    case True
    with k r m(2) show ?thesis by (simp add: n q_known_contains)
  next
    case False
    with r obtain refs where m': "m' = enqueued m (signal_batch s (nextSequence m) key refs)" by auto
    define b where "b = signal_batch s (nextSequence m) key refs"
    have b: "aligned b" "entries b = [(nextSequence m, key)]" "fromSequence b = nextSequence m"
      "toSequence b = nextSequence m" "dedupeKeys b = [key]"
      by (simp_all add: b_def signal_batch_def aligned_def entries_def)
    have merge: "entries (mergeBatches p b) = entries p @ [(nextSequence m, key)] \<and> aligned (mergeBatches p b)
        \<and> toSequence (mergeBatches p b) = nextSequence m \<and> fromSequence (mergeBatches p b) = fromSequence p"
      if p: "mb_pending m = Some p" for p
    proof -
      have "p \<in> set (mailboxBatches m)" using p by (simp add: mailboxBatches_cases)
      with m mailbox_facts [OF m(1) this] p False show ?thesis
        using entries_merge [of p b] b
        by (auto simp: orderly_def mailboxBatches_cases contains_iff mergeBatches_def split: option.splits)
    qed
    have "orderly m'"
      using m(2) b merge unfolding m' b_def [symmetric]
      by (auto simp: orderly_def enqueued_def mailboxBatches_cases split: option.splits)
    moreover have "q_step (queue_of m) (Enqueue s) = (queue_of m)
        \<lparr>q_waiting := q_waiting (queue_of m) @ [(nextSequence m, key)], q_next := nextSequence m + 1\<rparr>"
      using False k m(2) by (simp add: n q_known_contains)
    then have "queue_of m' = q_step (queue_of m) (Enqueue s)"
      using b merge unfolding m' b_def [symmetric]
      by (auto simp: q_flight_def queue_of_def enqueued_def split: option.splits)
    ultimately show ?thesis by simp
  qed
qed

lemma refine_claim:
  assumes m: "mailbox_inv m" "orderly m" and s: "claimPending m c = Inr m'"
  shows "orderly m' \<and> queue_of m' = q_step (queue_of m) (Claim c)"
  using m(2) s [unfolded claim_eq [OF m(1)]]
  by (auto simp: orderly_def claimed_def mailboxBatches_cases q_flight_def queue_of_def)

lemma refine_bind:
  assumes m: "mailbox_inv m" "orderly m" and s: "bindExecution m i r = Inr m'"
  shows "orderly m' \<and> queue_of m' = q_step (queue_of m) (BindExecution i r)"
  using m(2) s [unfolded bind_eq [OF m(1)]]
  by (auto simp: orderly_def mailboxBatches_cases q_flight_def queue_of_def split: option.splits)

lemma refine_complete:
  assumes m: "mailbox_inv m" "orderly m" and s: "completeProcessing m i = Inr m'"
  shows "orderly m' \<and> queue_of m' = q_step (queue_of m) (Complete i)"
proof -
  from s [unfolded complete_eq [OF m(1)]] obtain p where
    p: "mb_processing m = Some p" "m' = completed m p" by blast
  then have "proc_batch p \<in> set (mailboxBatches m)" by (simp add: mailboxBatches_cases)
  with m p show ?thesis
    using q_remember_entries [of "proc_batch p" "recentDedupeKeys m"] mailbox_facts [OF m(1)]
    by (auto simp: orderly_def completed_def mailboxBatches_cases q_flight_def queue_of_def split: option.splits)
qed

lemma entries_ends:
  assumes "aligned b" and "fromSequence b \<le> toSequence b"
  shows "entries b \<noteq> []" and "fst (hd (entries b)) = fromSequence b" and "fst (last (entries b)) = toSequence b"
proof -
  have f: "map fst (entries b) = [fromSequence b..toSequence b]"
    unfolding entries_def by (rule map_fst_zip) (rule aligned_length [OF assms(1)])
  then show ne: "entries b \<noteq> []" using assms(2) by auto
  have "hd [fromSequence b..toSequence b] = fromSequence b" "last [fromSequence b..toSequence b] = toSequence b"
    using assms(2) by (simp_all add: upto.simps [of "fromSequence b"] upto_rec2)
  then show "fst (hd (entries b)) = fromSequence b" "fst (last (entries b)) = toSequence b"
    using f ne by (metis hd_map, metis last_map)
qed

lemma gap_of_batches:
  assumes "mailbox_inv m" and "orderly m" and "mb_processing m = Some p"
  shows "q_gap (queue_of m) \<longleftrightarrow> toSequence (proc_batch p) + 1
    \<noteq> (case mb_pending m of None \<Rightarrow> nextSequence m | Some b \<Rightarrow> fromSequence b)"
proof -
  have ends: "entries b \<noteq> [] \<and> fst (hd (entries b)) = fromSequence b \<and> fst (last (entries b)) = toSequence b"
    if "b \<in> set (mailboxBatches m)" for b
    using entries_ends [of b] mailbox_facts(1) [OF assms(1) that] assms(2) that
    by (auto simp: orderly_def list_all_iff)
  have "proc_batch p \<in> set (mailboxBatches m)" using assms(3) by (simp add: mailboxBatches_cases)
  note p = ends [OF this]
  show ?thesis
  proof (cases "mb_pending m")
    case None
    with p assms(3) show ?thesis by (simp add: q_gap_def q_flight_def queue_of_def)
  next
    case (Some b)
    then have "b \<in> set (mailboxBatches m)" by (simp add: mailboxBatches_cases)
    note b = ends [OF this]
    then obtain e es where "entries b = e # es" by (cases "entries b") auto
    with b Some p assms(3) show ?thesis
      by (simp add: q_gap_def q_flight_def queue_of_def)
  qed
qed

lemma refine_release:
  assumes m: "mailbox_inv m" "orderly m" and gap: "\<not> q_gap (queue_of m)" and s: "releaseProcessing m i = Inr m'"
  shows "orderly m' \<and> queue_of m' = q_step (queue_of m) (Release i)"
proof -
  from s [unfolded release_eq [OF m(1)]] obtain p where
    p: "mb_processing m = Some p" "m' = released m p" by blast
  note next_to = gap [unfolded gap_of_batches [OF m p(1)], simplified]
  show ?thesis
  proof (cases "mb_pending m")
    case None
    with m p next_to show ?thesis
      by (simp add: orderly_def released_def mailboxBatches_cases q_flight_def queue_of_def)
  next
    case (Some b)
    have in_set: "proc_batch p \<in> set (mailboxBatches m)" "b \<in> set (mailboxBatches m)"
      using Some p by (simp_all add: mailboxBatches_cases)
    have "set (dedupeKeys (proc_batch p)) \<inter> set (dedupeKeys b) = {}"
      using m(1) Some p by (simp add: mailbox_inv_def mailbox_norm_def batches_ok_def mailboxBatches_cases)
    with Some m p next_to mailbox_facts [OF m(1) in_set(1)] mailbox_facts [OF m(1) in_set(2)] show ?thesis
      using entries_merge [of "proc_batch p" b]
      by (auto simp: orderly_def released_def mailboxBatches_cases q_flight_def queue_of_def)
  qed
qed

lemma refine_consume:
  assumes m: "mailbox_inv m" "orderly m" and s: "consumePendingBatch m through = Inr m'"
  shows "orderly m' \<and> queue_of m' = q_step (queue_of m) (Consume through)"
proof -
  from s [unfolded consume_eq [OF m(1)]] obtain b where b: "mb_pending m = Some b" by blast
  then have in_set: "b \<in> set (mailboxBatches m)" by (simp add: mailboxBatches_cases)
  note facts = mailbox_facts [OF m(1) in_set]
  have a: "aligned b" and last: "toSequence b + 1 = nextSequence m"
    using m(2) b by (simp_all add: orderly_def mailboxBatches_cases)
  have proc: "aligned (proc_batch p) \<and> toSequence (proc_batch p) < fromSequence b" if "mb_processing m = Some p" for p
    using m(2) b that by (simp add: orderly_def mailboxBatches_cases)
  have whole: "orderly (consumed m b)"
    "queue_of (consumed m b) = q_step (queue_of m) (Consume None)"
    using q_remember_entries [OF a facts(2,3)] b m(2) facts(1)
    by (auto simp: orderly_def consumed_def mailboxBatches_cases q_flight_def queue_of_def split: option.splits)
  show ?thesis
  proof (cases through)
    case None
    with s b whole show ?thesis by (simp add: consume_eq [OF m(1)])
  next
    case (Some ft)
    then obtain to where ft: "through = Some (fromSequence b, to)" "fromSequence b \<le> to"
      "to \<le> toSequence b" "m' = (if to < toSequence b then consumePrefix m b to else consumed m b)"
      using s b by (cases ft) (auto simp: consume_eq [OF m(1)])
    show ?thesis
    proof (cases "to < toSequence b")
      case True
      let ?k = "nat (to - fromSequence b + 1)"
      note sp = entries_split [OF a ft(2) True]
      have "distinct (take ?k (dedupeKeys b))"
        "set (recentDedupeKeys m) \<inter> set (take ?k (dedupeKeys b)) = {}"
        using facts(2,3) by (auto dest: in_set_takeD)
      then have "rememberDedupeKeys (recentDedupeKeys m) (take ?k (dedupeKeys b))
          = q_remember (recentDedupeKeys m) (filter (\<lambda>e. fst e \<le> to) (entries b))"
        by (simp add: q_remember_def sp(1) remember_fresh)
      moreover have "int (length (dedupeKeys b)) = requestCount b" using a by (simp add: aligned_def)
      ultimately show ?thesis
        using ft True b a sp(2) last
        by (cases "mb_processing m") (use proc in \<open>auto simp: consumePrefix_def Let_def orderly_def mailboxBatches_cases q_flight_def queue_of_def
            entries_def aligned_def\<close>)
    next
      case False
      have "\<And>e. e \<in> set (entries b) \<Longrightarrow> fst e \<le> toSequence b"
        by (auto simp: entries_def dest: set_zip_leftD)
      then have "filter (\<lambda>e. fst e \<le> toSequence b) (entries b) = entries b"
        "filter (\<lambda>e. toSequence b < fst e) (entries b) = []"
        by (auto simp: filter_id_conv filter_empty_conv not_less)
      with False ft whole b show ?thesis by (simp add: q_flight_def queue_of_def)
    qed
  qed
qed

subsection \<open>Histories\<close>

definition mailbox_le :: "work_mailbox \<Rightarrow> work_mailbox \<Rightarrow> bool" where
  "mailbox_le m m' \<longleftrightarrow> mb_target m' = mb_target m \<and> nextSequence m \<le> nextSequence m'"

lemmas mailbox_eqs = enqueue_eq claim_eq bind_eq complete_eq release_eq consume_eq

lemma mailbox_step_inv:
  assumes m: "mailbox_inv m" and "mailbox_step m op = Inr m'"
  shows "mailbox_inv m'"
proof (cases op)
  case (Enqueue s)
  with assms have "enqueueSignal m s = Inr m'" by simp
  from m this show ?thesis by (cases rule: enqueue_cases) (auto intro: m enqueued_inv [OF m])
next
  case (BindExecution i r)
  with assms show ?thesis by (auto simp: bind_eq copyRef_norm intro!: bound_inv)
next
  case (Consume t)
  with assms have "consumePendingBatch m t = Inr m'" by simp
  from m this show ?thesis
    by (cases rule: consume_cases) (auto intro: consumed_inv [OF m] consumePrefix_inv [OF m])
qed (use assms in \<open>auto simp: claim_eq complete_eq release_eq intro: claimed_inv completed_inv released_inv\<close>)

lemma mailbox_step_le:
  assumes m: "mailbox_inv m" and "mailbox_step m op = Inr m'"
  shows "mailbox_le m m'"
proof (cases op)
  case (Enqueue s)
  with assms have "enqueueSignal m s = Inr m'" by simp
  with m show ?thesis by (cases rule: enqueue_cases) (simp_all add: mailbox_le_def enqueued_def)
next
  case (Consume t)
  with assms have "consumePendingBatch m t = Inr m'" by simp
  with m show ?thesis
    by (cases rule: consume_cases) (simp_all add: mailbox_le_def consumed_def consumePrefix_def Let_def)
qed (use assms in \<open>auto simp: claim_eq bind_eq complete_eq release_eq mailbox_le_def
        claimed_def completed_def released_def\<close>)

lemma mailbox_le_refl: "mailbox_le m m"
  by (simp add: mailbox_le_def)

lemma mailbox_le_trans: "mailbox_le l m \<Longrightarrow> mailbox_le m n \<Longrightarrow> mailbox_le l n"
  by (simp add: mailbox_le_def)

interpretation mailbox: step_order mailbox_step mailbox_inv mailbox_le
  by unfold_locales (fact mailbox_step_inv mailbox_le_refl mailbox_le_trans mailbox_step_le)+

lemma created_inv: "createWorkMailbox t = Inr m \<Longrightarrow> mailbox_inv m \<and> orderly m"
  by (auto simp: createWorkMailbox_def mailbox_inv_def mailbox_norm_def mailbox_ordered_def
      orderly_def mailboxBatches_cases batches_ok_def norm_texts_def copyTarget_norm)

lemma step_refines:
  assumes m: "mailbox_inv m" "orderly m" and step: "mailbox_step m op = Inr m'"
    and gap: "case op of Release _ \<Rightarrow> \<not> q_gap (queue_of m) | _ \<Rightarrow> True"
  shows "orderly m' \<and> queue_of m' = q_step (queue_of m) op"
  using step gap refine_enqueue [OF m] refine_claim [OF m] refine_bind [OF m] refine_complete [OF m]
    refine_release [OF m] refine_consume [OF m]
  by (cases op) (simp_all del: q_step.simps)

lemma run_refines:
  "run_steps mailbox_step m ops = Inr m' \<Longrightarrow> mailbox_inv m \<Longrightarrow> orderly m \<Longrightarrow> gap_free (queue_of m) ops \<Longrightarrow>
     orderly m' \<and> queue_of m' = foldl q_step (queue_of m) ops"
proof (induction ops arbitrary: m)
  case (Cons op ops)
  then obtain n where n: "mailbox_step m op = Inr n" "run_steps mailbox_step n ops = Inr m'" by auto
  with Cons.prems step_refines [OF _ _ n(1)] mailbox_step_inv [OF _ n(1)] Cons.IH [OF n(2)] show ?case by simp
qed simp

lemma created_queue: "createWorkMailbox t = Inr m \<Longrightarrow> mailbox_inv m \<and> orderly m \<and> queue_of m = q_empty"
  using created_inv by (auto simp: createWorkMailbox_def queue_of_def q_empty_def)

subsection \<open>Accounts\<close>

definition q_held :: "signal_queue \<Rightarrow> (int \<times> string) list" where
  "q_held q = q_flight q @ q_waiting q"

lemma slice_last_twice: "slice_last n (slice_last n xs @ ys) = slice_last n (xs @ ys)"
proof -
  let ?k = "length xs - n"
  have "drop ?k xs @ ys = drop ?k (xs @ ys)" by simp
  moreover have "length (drop ?k (xs @ ys)) - n + ?k = length (xs @ ys) - n" by auto
  ultimately show ?thesis unfolding slice_last_def by (metis drop_drop)
qed

lemma step_account:
  assumes "\<And>c. op = Claim c \<Longrightarrow> q_flight q = []"
  shows "mset (q_held q) + mset (q_accepts q op) = mset (q_consumes q op) + mset (q_held (q_step q op))"
proof (cases "(q, op)" rule: q_step.cases)
  case (7 q i to)
  have "mset xs = mset (filter (\<lambda>e. fst e \<le> to) xs) + mset (filter (\<lambda>e. to < fst e) xs)" for xs :: "(int \<times> string) list"
    by (induction xs) auto
  from this [of "q_waiting q"] 7 show ?thesis by (simp add: q_held_def q_flight_def)
qed (use assms in \<open>auto simp: q_held_def q_flight_def split: sum.splits\<close>)

lemma step_recent:
  assumes "length (q_recent q) \<le> RECENT_DEDUPE_KEY_LIMIT"
  shows "q_recent (q_step q op) = slice_last RECENT_DEDUPE_KEY_LIMIT (q_recent q @ map snd (q_consumes q op))"
  using assms by (cases "(q, op)" rule: q_step.cases) (auto simp: q_remember_def split: sum.splits)

lemma step_numbers: "map fst (q_accepts q op) = [q_next q..q_next (q_step q op) - 1]"
  by (cases "(q, op)" rule: q_step.cases) (auto split: sum.splits)

lemma step_next: "q_next q \<le> q_next (q_step q op)"
  by (cases "(q, op)" rule: q_step.cases) (auto split: sum.splits)

lemma run_next: "q_next q \<le> q_next (foldl q_step q ops)"
  by (induction ops arbitrary: q) (auto intro: order_trans [OF step_next])

lemma log_numbers: "map fst (q_log q_accepts q ops) = [q_next q..q_next (foldl q_step q ops) - 1]"
proof (induction ops arbitrary: q)
  case (Cons op ops)
  let ?n = "q_next (q_step q op)" and ?l = "q_next (foldl q_step (q_step q op) ops)"
  have "?n = q_next q \<or> ?n = q_next q + 1"
    by (cases "(q, op)" rule: q_step.cases) (auto split: sum.splits)
  then have "[q_next q..?n - 1] @ [?n..?l - 1] = [q_next q..?l - 1]"
    using run_next [of "q_step q op" ops] by (auto simp: upto.simps [of "q_next q" "?l - 1"])
  with Cons.IH show ?case by (simp add: step_numbers)
qed simp

lemma account_chain:
  fixes h a c :: "'a multiset"
  assumes "h + a = c + h1" and "h1 + a' = c' + h2"
  shows "h + (a + a') = c + c' + h2"
proof -
  have "h + (a + a') = c + (h1 + a')" using assms(1) by (simp flip: add.assoc)
  then show ?thesis using assms(2) by (simp add: add.assoc)
qed

lemma queue_recent: "q_recent (queue_of m) = recentDedupeKeys m"
  by (simp add: queue_of_def)

lemma run_account:
  "run_steps mailbox_step m ops = Inr m' \<Longrightarrow> mailbox_inv m \<Longrightarrow> orderly m \<Longrightarrow> gap_free (queue_of m) ops \<Longrightarrow>
     mset (q_held (queue_of m)) + mset (q_log q_accepts (queue_of m) ops)
       = mset (q_log q_consumes (queue_of m) ops) + mset (q_held (queue_of m'))
     \<and> recentDedupeKeys m' = slice_last RECENT_DEDUPE_KEY_LIMIT
         (recentDedupeKeys m @ map snd (q_log q_consumes (queue_of m) ops))"
proof (induction ops arbitrary: m)
  case Nil
  then show ?case by (simp add: mailbox_inv_def mailbox_norm_def)
next
  case (Cons op ops)
  then obtain n where n: "mailbox_step m op = Inr n" "run_steps mailbox_step n ops = Inr m'" by auto
  have r: "orderly n" "queue_of n = q_step (queue_of m) op" "mailbox_inv n"
    using Cons.prems step_refines [OF _ _ n(1)] mailbox_step_inv [OF _ n(1)] by auto
  note IH = Cons.IH [OF n(2) r(3,1)]
  have claim: "q_flight (queue_of m) = []" if "op = Claim c" for c
    using n(1) that Cons.prems(2) by (simp add: claim_eq q_flight_def queue_of_def)
  have a: "mset (q_held (queue_of m)) + mset (q_accepts (queue_of m) op)
      = mset (q_consumes (queue_of m) op) + mset (q_held (q_step (queue_of m) op))"
    by (rule step_account) (rule claim)
  have "length (recentDedupeKeys m) \<le> RECENT_DEDUPE_KEY_LIMIT"
    using Cons.prems(2) by (simp add: mailbox_inv_def mailbox_norm_def)
  then have "recentDedupeKeys n = slice_last RECENT_DEDUPE_KEY_LIMIT
      (recentDedupeKeys m @ map snd (q_consumes (queue_of m) op))"
    using step_recent [of "queue_of m" op] r(2) queue_recent by metis
  then have "recentDedupeKeys m' = slice_last RECENT_DEDUPE_KEY_LIMIT
      (recentDedupeKeys m @ map snd (q_log q_consumes (queue_of m) (op # ops)))"
    using IH Cons.prems(4) r(2) slice_last_twice
      [of RECENT_DEDUPE_KEY_LIMIT "recentDedupeKeys m @ map snd (q_consumes (queue_of m) op)"] by simp
  moreover have "mset (q_held (queue_of n)) + mset (q_log q_accepts (queue_of n) ops)
      = mset (q_log q_consumes (queue_of n) ops) + mset (q_held (queue_of m'))"
    using IH Cons.prems(4) r(2) by simp
  then have "mset (q_held (queue_of m)) + mset (q_log q_accepts (queue_of m) (op # ops))
      = mset (q_log q_consumes (queue_of m) (op # ops)) + mset (q_held (queue_of m'))"
    using account_chain [OF a] unfolding r(2) q_log.simps mset_append by blast
  ultimately show ?case by blast
qed

subsection \<open>Concrete mailboxes\<close>

definition noon :: string where "noon = ''2024-03-01T12:00:00.000Z''"

definition sample_signal :: work_signal where
  "sample_signal = \<lparr>sig_reason = '' work '', sig_refs = [TaskRef ''task-1'', OwnedRef RunRef ''task-1'' ''run-2''],
     sig_occurredAt = noon, sig_source = None, sig_dedupeKey = None, sig_factRevision = Some 2\<rparr>"

definition sample_batch :: "int \<Rightarrow> int \<Rightarrow> string list \<Rightarrow> pending_batch" where
  "sample_batch from to keys =
     \<lparr>fromSequence = from, toSequence = to, batch_reasons = [''work''], batch_refs = [],
      requestCount = to - from + 1, firstQueuedAt = noon, lastQueuedAt = noon,
      batch_sources = [''yui''], dedupeKeys = keys, highestFactRevision = None\<rparr>"

definition sample_mailbox :: "processing_batch option \<Rightarrow> pending_batch option \<Rightarrow> int \<Rightarrow> string list \<Rightarrow> work_mailbox" where
  "sample_mailbox processing pending next recent =
     \<lparr>mb_target = TaskTarget ''task-1'', nextSequence = next, mb_processing = processing,
      mb_pending = pending, recentDedupeKeys = recent\<rparr>"

definition sample_processing :: "pending_batch \<Rightarrow> processing_batch" where
  "sample_processing b = \<lparr>batchId = ''b1'', proc_batch = b, proc_owner = ''controller'',
     proc_startedAt = noon, executionRef = None\<rparr>"

lemma sample_invs:
  "mailbox_inv (sample_mailbox None None 1 [])"
  "mailbox_inv (sample_mailbox None (Some (sample_batch 1 2 [''a'', ''b''])) 3 [])"
  "mailbox_inv (sample_mailbox (Some (sample_processing (sample_batch 2 3 [''b'', ''c''])))
     (Some (sample_batch 4 4 [''d''])) 5 [''a''])"
  by code_simp+



subsection \<open>Properties\<close>

definition keyed_signal :: "string \<Rightarrow> work_signal" where
  "keyed_signal key = sample_signal\<lparr>sig_dedupeKey := Some key\<rparr>"

definition sample_history :: "mailbox_op list" where
  \<comment> \<open>a prefix is consumed while a batch is processed\<close>
  "sample_history = [Enqueue (keyed_signal ''a''),
     Claim \<lparr>clm_batchId = ''b1'', clm_owner = ''controller'', clm_startedAt = noon\<rparr>,
     Enqueue (keyed_signal ''c''), Enqueue (keyed_signal ''d''), Consume (Some (2, 2)), Complete ''b1'']"

lemma sample_created: "createWorkMailbox (TaskTarget ''task-1'') = Inr (sample_mailbox None None 1 [])"
  by code_simp

lemma sample_history_runs: "isOk (run_steps mailbox_step (sample_mailbox None None 1 []) sample_history)"
  by code_simp

lemma sample_history_gap_free: "gap_free q_empty sample_history"
  by code_simp

text \<open>
  C1.  Every history of a mailbox in which no batch is released across a gap (the case of C8) is a history of
  the queue of numbered keys: an enqueue appends the next number unless the key is known, a claim moves
  the whole queue in flight, a release puts the in-flight signals back in front, a completion takes out
  the signals in flight and a consumption those up to its number, whether or not a batch is processed
  meanwhile.  The mailbox knows exactly the keys the queue knows.
\<close>

theorem mailbox_refines_queue:
  assumes "createWorkMailbox target = Inr m0" and "run_steps mailbox_step m0 ops = Inr m" and "gap_free q_empty ops"
  shows "mailbox_inv m \<and> queue_of m = foldl q_step q_empty ops
    \<and> (\<forall>key. mailboxContainsDedupeKey m key \<longleftrightarrow> key \<in> q_known (foldl q_step q_empty ops))"
proof -
  note c = created_queue [OF assms(1)]
  then have "orderly m \<and> queue_of m = foldl q_step q_empty ops"
    using run_refines [OF assms(2)] assms(3) by simp
  moreover have "mailbox_inv m" using mailbox.run_inv [OF _ assms(2)] c by blast
  ultimately show ?thesis using q_known_contains by metis
qed

theorem mailbox_refines_queue_witness:
  "\<exists>m. run_steps mailbox_step (sample_mailbox None None 1 []) sample_history = Inr m
     \<and> q_waiting (queue_of m) = [(3, ''d'')] \<and> q_recent (queue_of m) = [''c'', ''a'']"
proof -
  obtain m where m: "run_steps mailbox_step (sample_mailbox None None 1 []) sample_history = Inr m"
    using sample_history_runs by (auto simp: isOk_iff)
  have "q_waiting (foldl q_step q_empty sample_history) = [(3, ''d'')]"
    "q_recent (foldl q_step q_empty sample_history) = [''c'', ''a'']" by code_simp+
  with m mailbox_refines_queue [OF sample_created m sample_history_gap_free] show ?thesis by metis
qed

text \<open>
  C2.  From the creation of a mailbox on, whatever sequence of operations returns leaves a mailbox
  that satisfies the invariant, that \<open>validateWorkMailbox\<close> reads back from its persisted form
  unchanged, that still belongs to its target, and whose sequence numbers have not gone back.
\<close>

theorem mailbox_history_valid:
  assumes "createWorkMailbox target = Inr m" and "run_steps mailbox_step m ops = Inr m'"
  shows "mailbox_inv m' \<and> validateWorkMailbox (mailbox_json m') = Inr m'
     \<and> mb_target m' = mb_target m \<and> nextSequence m \<le> nextSequence m'"
proof -
  have m: "mailbox_inv m" using created_inv [OF assms(1)] by simp
  have "mailbox_inv m'" by (rule mailbox.run_inv [OF m assms(2)])
  moreover have "mailbox_le m m'" by (rule mailbox.run_le [OF m assms(2)])
  ultimately show ?thesis by (simp add: inv_normD validate_of_normal mailbox_le_def)
qed

theorem mailbox_history_valid_witness:
  "\<exists>m m'. createWorkMailbox (TaskTarget '' task-1'') = Inr m
     \<and> run_steps mailbox_step m [Enqueue sample_signal] = Inr m' \<and> mailbox_inv m'"
proof -
  let ?m = "sample_mailbox None None 1 []"
  have c: "createWorkMailbox (TaskTarget '' task-1'') = Inr ?m" by code_simp
  have "isOk (enqueueSignal ?m sample_signal)" by code_simp
  then obtain m' where "run_steps mailbox_step ?m [Enqueue sample_signal] = Inr m'"
    by (auto simp: isOk_iff)
  with mailbox_history_valid [OF c this] c show ?thesis by blast
qed

text \<open>
  C3.  Reading a persisted mailbox is idempotent: whatever JSON document \<open>validateWorkMailbox\<close>
  accepts, the mailbox it returns is written and read back as itself.
\<close>

theorem validate_mailbox_roundtrip:
  assumes "validateWorkMailbox v = Inr m"
  shows "validateWorkMailbox (mailbox_json m) = Inr m"
  by (rule validate_of_normal [OF validate_normal [OF assms]])

theorem validate_mailbox_roundtrip_witness:
  "validateWorkMailbox (mailbox_json (sample_mailbox None (Some (sample_batch 1 2 [''a'', ''b''])) 3 []))
     = Inr (sample_mailbox None (Some (sample_batch 1 2 [''a'', ''b''])) 3 [])"
  by (rule validate_mailbox_roundtrip [OF validate_of_normal [OF inv_normD [OF sample_invs(2)]]])

text \<open>
  C4.  When \<open>enqueueSignal\<close> returns, and what: on a mailbox satisfying the invariant the only
  failures are a malformed signal; a signal whose key is remembered, pending or being processed
  leaves the mailbox as it is; any other is merged into the pending batch under the next sequence
  number, its references normalized and deduplicated.
\<close>

theorem enqueue_exact:
  assumes "mailbox_inv m"
  shows "enqueueSignal m s = Inr m' \<longleftrightarrow>
    header_ok s \<and> (\<exists>key. signalKey s (nextSequence m) = Inr key \<and>
      (if mailboxContainsDedupeKey m key then m' = m
       else \<exists>refs. traverse copyRef (sig_refs s) = Inr refs \<and> revision_ok s
              \<and> m' = enqueued m (signal_batch s (nextSequence m) key refs)))"
  by (rule enqueue_eq [OF assms])

theorem enqueue_exact_witness:
  "\<not> isOk (enqueueSignal (sample_mailbox None None 1 []) (sample_signal\<lparr>sig_reason := ''  ''\<rparr>))"
proof -
  have "\<not> header_ok (sample_signal\<lparr>sig_reason := ''  ''\<rparr>)" by code_simp
  then show ?thesis unfolding isOk_iff enqueue_exact [OF sample_invs(1)] by simp
qed

text \<open>
  C5.  No signal is lost, none is taken twice, and the window is exact.  In every history in which no batch is
  released across a gap (the case of C8) the signals accepted, numbered from 1 without a hole, are those taken
  out, by a completion of their batch or a consumption up to their number, together with those still held, as
  multisets; the key of every signal held is known, so a redelivery is dropped; and the keys
  remembered as consumed are the last 256 of the signals taken out, in order.
\<close>

theorem mailbox_keeps_keys:
  assumes "createWorkMailbox target = Inr m0" and "run_steps mailbox_step m0 ops = Inr m" and "gap_free q_empty ops"
  shows "mset (q_log q_accepts q_empty ops) = mset (q_log q_consumes q_empty ops) + mset (q_held (queue_of m))
    \<and> map fst (q_log q_accepts q_empty ops) = [1..nextSequence m - 1]
    \<and> (\<forall>e \<in> set (q_held (queue_of m)). mailboxContainsDedupeKey m (snd e))
    \<and> recentDedupeKeys m = slice_last RECENT_DEDUPE_KEY_LIMIT (map snd (q_log q_consumes q_empty ops))"
proof -
  note c = created_queue [OF assms(1)]
  have r: "orderly m" "queue_of m = foldl q_step q_empty ops"
    using run_refines [OF assms(2)] c assms(3) by simp_all
  have z: "q_held q_empty = []" "recentDedupeKeys m0 = []" "q_next q_empty = 1"
    using c by (auto simp: q_held_def q_flight_def q_empty_def queue_of_def)
  have "q_next (queue_of m) = nextSequence m" by (simp add: queue_of_def)
  then have "map fst (q_log q_accepts q_empty ops) = [1..nextSequence m - 1]"
    using log_numbers [of q_empty ops] r(2) z(3) by simp
  moreover have "\<forall>e \<in> set (q_held (queue_of m)). snd e \<in> q_known (queue_of m)"
    by (auto simp: q_held_def q_known_def)
  ultimately show ?thesis
    using run_account [OF assms(2)] c assms(3) z q_known_contains [OF r(1)] by simp
qed

theorem mailbox_keeps_keys_witness:
  "\<exists>m. run_steps mailbox_step (sample_mailbox None None 1 []) sample_history = Inr m
     \<and> q_held (queue_of m) = [(3, ''d'')] \<and> recentDedupeKeys m = [''c'', ''a'']
     \<and> {#(1, ''a''), (2, ''c''), (3, ''d'')#} = {#(2, ''c''), (1, ''a'')#} + mset (q_held (queue_of m))"
proof -
  obtain m where m: "run_steps mailbox_step (sample_mailbox None None 1 []) sample_history = Inr m"
    using sample_history_runs by (auto simp: isOk_iff)
  have l: "q_log q_accepts q_empty sample_history = [(1, ''a''), (2, ''c''), (3, ''d'')]"
    "q_log q_consumes q_empty sample_history = [(2, ''c''), (1, ''a'')]" by code_simp+
  note k = mailbox_keeps_keys [OF sample_created m sample_history_gap_free, unfolded l]
  then have "mset (q_held (queue_of m)) = {#(3, ''d'')#}" by auto
  then have "q_held (queue_of m) = [(3, ''d'')]" by simp
  with m k show ?thesis by (auto simp: RECENT_DEDUPE_KEY_LIMIT_def)
qed

text \<open>
  Mailboxes of different targets have different store keys: if two targets have the same
  key they are the same target up to the white space around their names.
\<close>

theorem mailbox_target_key_injective:
  assumes "mailboxTargetKey s = Inr k" and "mailboxTargetKey t = Inr k"
  shows "copyTarget s = copyTarget t"
  using assms by (auto simp: mailboxTargetKey_eq dest: target_key_inj)

theorem mailbox_target_key_injective_witness:
  "copyTarget (RoleTarget ''task-1'' ''dev'') = copyTarget (RoleTarget '' task-1'' ''dev '')"
proof (rule mailbox_target_key_injective)
  show "mailboxTargetKey (RoleTarget ''task-1'' ''dev'') = Inr ''role/task-1/dev''"
    "mailboxTargetKey (RoleTarget '' task-1'' ''dev '') = Inr ''role/task-1/dev''" by code_simp+
qed

text \<open>
  A claim that is released again restores the mailbox exactly, when no signal arrived in
  between.
\<close>

theorem claim_release_roundtrip:
  assumes "mailbox_inv m" and "claimPending m c = Inr m1"
  shows "releaseProcessing m1 (clm_batchId c) = Inr m"
proof -
  from assms obtain b where b: "mb_processing m = None" "claim_ok c" "mb_pending m = Some b"
    "m1 = claimed m b c" by (auto simp: claim_eq)
  have "mailbox_inv m1" using assms(1) b by (simp add: claimed_inv)
  moreover have "released m1 (the (mb_processing m1)) = m" using b by (simp add: claimed_def released_def)
  ultimately show ?thesis using b by (simp add: release_eq claimed_def claim_ok_def)
qed

theorem claim_release_roundtrip_witness:
  "\<exists>m1. claimPending (sample_mailbox None (Some (sample_batch 1 2 [''a'', ''b''])) 3 [])
       \<lparr>clm_batchId = ''b1 '', clm_owner = ''controller'', clm_startedAt = noon\<rparr> = Inr m1
     \<and> releaseProcessing m1 ''b1 '' = Inr (sample_mailbox None (Some (sample_batch 1 2 [''a'', ''b''])) 3 [])"
proof -
  let ?m = "sample_mailbox None (Some (sample_batch 1 2 [''a'', ''b''])) 3 []"
  let ?c = "\<lparr>clm_batchId = ''b1 '', clm_owner = ''controller'', clm_startedAt = noon\<rparr>"
  have "claim_ok ?c" by code_simp
  then have "claimPending ?m ?c = Inr (claimed ?m (sample_batch 1 2 [''a'', ''b'']) ?c)"
    unfolding claim_eq [OF sample_invs(2)] by (simp add: sample_mailbox_def)
  with claim_release_roundtrip [OF sample_invs(2) this] show ?thesis by simp
qed




end
