(* ===== verification/Mailbox_Store.thy ===== *)
theory Mailbox_Store
  imports Signal_Queue
begin

section \<open>Mailboxes in the store, and the role dispatch protocol on top of them\<close>

text \<open>
  \<open>src/coordination/workMailboxQueue.ts\<close> and the mailbox table of \<open>src/storage/sqliteStore.ts\<close>.
  The client functions take the two operations of \<open>WorkMailboxQueueStore\<close> as arguments, like the
  code; the locale \<open>mailbox_store\<close> states what they rely on, and is interpreted on the rows
  of the \<open>mailboxes\<close> table, keyed by \<open>mailboxTargetKey\<close>.  An operation returns its value with the
  new store; a throw leaves no store, the surrounding transaction being rolled back.
\<close>

subsection \<open>The table\<close>

type_synonym mailbox_rows = "string \<Rightarrow> work_mailbox option"

definition getWorkMailbox :: "mailbox_rows \<Rightarrow> mailbox_target \<Rightarrow> work_mailbox option result" where
  "getWorkMailbox rows target =
     andThen (mailboxTargetKey target) (\<lambda>key.
       (case rows key of
          None \<Rightarrow> Inr None
        | Some row \<Rightarrow> andThen (checkMailbox row) (\<lambda>mailbox. Inr (Some mailbox))))"

text \<open>
  An insert, or on a conflict of the key an update of every column but those of the target.
\<close>

definition saveWorkMailbox :: "mailbox_rows \<Rightarrow> work_mailbox \<Rightarrow> mailbox_rows result" where
  "saveWorkMailbox rows mailbox =
     andThen (checkMailbox mailbox) (\<lambda>validated.
     andThen (mailboxTargetKey (mb_target validated)) (\<lambda>key. Inr (rows(key \<mapsto>
       (case rows key of
          None \<Rightarrow> validated
        | Some old \<Rightarrow> validated\<lparr>mb_target := mb_target old\<rparr>)))))"

definition removeWorkMailbox :: "mailbox_rows \<Rightarrow> mailbox_target \<Rightarrow> (bool \<times> mailbox_rows) result" where
  "removeWorkMailbox rows target =
     andThen (mailboxTargetKey target) (\<lambda>key. Inr (rows key \<noteq> None, rows(key := None)))"

definition clearPendingWakeup :: "mailbox_rows \<Rightarrow> string \<Rightarrow> mailbox_rows result" where
  "clearPendingWakeup rows taskId =
     andThen (getWorkMailbox rows (RoleTarget taskId ''leader'')) (\<lambda>found.
       (case found of
          None \<Rightarrow> Inr rows
        | Some mailbox \<Rightarrow>
            if mb_pending mailbox = None then Inr rows
            else andThen (consumePendingBatch mailbox None) (saveWorkMailbox rows)))"

subsection \<open>The client operations\<close>

type_synonym 'st mailbox_get = "'st \<Rightarrow> mailbox_target \<Rightarrow> work_mailbox option result"
type_synonym 'st mailbox_save = "'st \<Rightarrow> work_mailbox \<Rightarrow> 'st result"

datatype instant = AtDate date | AtText string

record signal_metadata =
  meta_source :: "string option"
  meta_dedupeKey :: "string option"
  meta_factRevision :: "int option"

record run_dispatch =
  rd_taskId :: string
  rd_roleName :: string
  rd_runId :: string

datatype dispatch_token = PendingToken int int | ProcessingToken string

datatype settlement = Settled | Absent | StateChanged

datatype exact_settlement = SettledProcessing | SettledPending | SettledAbsent

definition queue_timestamp :: "instant \<Rightarrow> string result" where
  "queue_timestamp value =
     (case value of
        AtDate d \<Rightarrow> toISOString d
      | AtText s \<Rightarrow> Inr s)"

definition enqueueWork ::
    "'st mailbox_get \<Rightarrow> 'st mailbox_save \<Rightarrow> 'st \<Rightarrow> mailbox_target \<Rightarrow> string \<Rightarrow> instant
       \<Rightarrow> entity_ref list \<Rightarrow> signal_metadata \<Rightarrow> (work_mailbox \<times> 'st) result" where
  "enqueueWork get save st target reason occurredAt refs meta =
     andThen (get st target) (\<lambda>found.
     andThen (case found of Some mailbox \<Rightarrow> Inr mailbox | None \<Rightarrow> createWorkMailbox target) (\<lambda>mailbox.
     andThen (queue_timestamp occurredAt) (\<lambda>at.
     andThen (enqueueSignal mailbox
        \<lparr>sig_reason = reason, sig_refs = refs, sig_occurredAt = at, sig_source = meta_source meta,
         sig_dedupeKey = meta_dedupeKey meta, sig_factRevision = meta_factRevision meta\<rparr>) (\<lambda>queued.
     andThen (save st queued) (\<lambda>st'. Inr (queued, st'))))))"

definition roleRunTarget :: "run_dispatch \<Rightarrow> mailbox_target" where
  "roleRunTarget i = RoleTarget (rd_taskId i) (rd_roleName i)"

definition roleRunRef :: "run_dispatch \<Rightarrow> entity_ref" where
  "roleRunRef i = OwnedRef RunRef (rd_taskId i) (rd_runId i)"

definition roleRunDispatchDedupeKey :: "run_dispatch \<Rightarrow> string" where
  "roleRunDispatchDedupeKey i =
     ''role-turn:'' @ rd_taskId i @ '':'' @ rd_roleName i @ '':'' @ rd_runId i"

definition enqueueRoleRunDispatch ::
    "'st mailbox_get \<Rightarrow> 'st mailbox_save \<Rightarrow> 'st \<Rightarrow> run_dispatch \<Rightarrow> string \<Rightarrow> instant
       \<Rightarrow> (work_mailbox option \<times> 'st) result" where
  "enqueueRoleRunDispatch get save st i reason occurredAt =
     (if rd_roleName i = ''leader'' then Inr (None, st)
      else andThen (enqueueWork get save st (roleRunTarget i) reason occurredAt [roleRunRef i]
                \<lparr>meta_source = Some ''turn-dispatch'',
                 meta_dedupeKey = Some (roleRunDispatchDedupeKey i), meta_factRevision = None\<rparr>)
             (\<lambda>(mailbox, st'). Inr (Some mailbox, st')))"

definition legacy_dispatch_reasons :: "string list" where
  "legacy_dispatch_reasons = [''turn-dispatched'', ''turn-retried'', ''review-requested'',
     ''workitem-synthesis-ready'', ''review-synthesis-ready'']"

fun index_of :: "'a \<Rightarrow> 'a list \<Rightarrow> nat option" where
  \<comment> \<open>\<open>indexOf\<close>, with \<open>None\<close> for -1\<close>
  "index_of x [] = None"
| "index_of x (y # ys) = (if x = y then Some 0 else map_option Suc (index_of x ys))"

definition has_ref :: "entity_ref \<Rightarrow> pending_batch \<Rightarrow> bool" where
  "has_ref r b \<longleftrightarrow> list_ex (\<lambda>x. mailboxEntityRefKey x = mailboxEntityRefKey r) (batch_refs b)"

definition capturePending :: "work_mailbox \<Rightarrow> run_dispatch \<Rightarrow> pending_batch \<Rightarrow> dispatch_token option" where
  \<comment> \<open>the part of \<open>captureRoleRunDispatch\<close> that looks at the pending batch\<close>
  "capturePending mailbox i pending =
     (let key = roleRunDispatchDedupeKey i;
          legacy =
            (if requestCount pending = 1 \<and> batch_sources pending = [''yui'']
                \<and> list_ex (\<lambda>reason. reason \<in> set legacy_dispatch_reasons) (batch_reasons pending)
                \<and> has_ref (roleRunRef i) pending
             then Some (PendingToken (fromSequence pending) (toSequence pending)) else None)
      in if key \<in> set (recentDedupeKeys mailbox) then None
         else (case index_of key (dedupeKeys pending) of
                 Some keyIndex \<Rightarrow>
                   if int (length (dedupeKeys pending)) = requestCount pending
                      \<and> fromSequence pending + int keyIndex \<le> toSequence pending
                   then Some (PendingToken (fromSequence pending) (fromSequence pending + int keyIndex))
                   else legacy
               | None \<Rightarrow> legacy))"

definition captureRoleRunDispatch :: "work_mailbox option \<Rightarrow> run_dispatch \<Rightarrow> dispatch_token option" where
  "captureRoleRunDispatch found i =
     (case found of
        None \<Rightarrow> None
      | Some mailbox \<Rightarrow>
          if mb_target mailbox \<noteq> RoleTarget (rd_taskId i) (rd_roleName i) then None
          else (case mb_processing mailbox of
                  Some processing \<Rightarrow>
                    (case executionRef processing of
                       Some r \<Rightarrow>
                         if mailboxEntityRefKey r = mailboxEntityRefKey (roleRunRef i)
                         then Some (ProcessingToken (batchId processing))
                         else if rd_roleName i = ''leader'' then None
                         else Option.bind (mb_pending mailbox) (capturePending mailbox i)
                     | None \<Rightarrow>
                         if rd_roleName i = ''leader'' then None
                         else Option.bind (mb_pending mailbox) (capturePending mailbox i))
                | None \<Rightarrow>
                    if rd_roleName i = ''leader'' then None
                    else Option.bind (mb_pending mailbox) (capturePending mailbox i)))"

text \<open>
  \<open>expected\<close> is \<open>None\<close> where the caller leaves the argument out, \<open>Some None\<close> where it passes null.
\<close>

definition settleRoleRunDispatch ::
    "'st mailbox_get \<Rightarrow> 'st mailbox_save \<Rightarrow> 'st \<Rightarrow> run_dispatch \<Rightarrow> dispatch_token option option
       \<Rightarrow> (settlement \<times> 'st) result" where
  "settleRoleRunDispatch get save st i expected =
     (if expected = Some None then Inr (Absent, st) else
      andThen (get st (roleRunTarget i)) (\<lambda>found.
      (case (captureRoleRunDispatch found i, found) of
         (Some current, Some mailbox) \<Rightarrow>
           if (case expected of Some (Some e) \<Rightarrow> current \<noteq> e | _ \<Rightarrow> False) then Inr (StateChanged, st)
           else (case (case expected of Some (Some e) \<Rightarrow> e | _ \<Rightarrow> current) of
                   ProcessingToken batch_id \<Rightarrow>
                     if map_option batchId (mb_processing mailbox) \<noteq> Some batch_id
                     then Inr (StateChanged, st)
                     else andThen (completeProcessing mailbox batch_id) (\<lambda>m'.
                          andThen (save st m') (\<lambda>st'. Inr (Settled, st')))
                 | PendingToken from to \<Rightarrow>
                     (case mb_pending mailbox of
                        None \<Rightarrow> Inr (StateChanged, st)
                      | Some pending \<Rightarrow>
                          if fromSequence pending \<noteq> from \<or> toSequence pending < to
                          then Inr (StateChanged, st)
                          else andThen (consumePendingBatch mailbox (Some (from, to))) (\<lambda>m'.
                               andThen (save st m') (\<lambda>st'. Inr (Settled, st')))))
       | _ \<Rightarrow> Inr (Absent, st))))"

definition bound_to :: "entity_ref \<Rightarrow> processing_batch \<Rightarrow> bool" where
  "bound_to r p \<longleftrightarrow> (case executionRef p of None \<Rightarrow> False | Some x \<Rightarrow> mailboxEntityRefKey x = mailboxEntityRefKey r)"

definition completeWorkExecution ::
    "'st mailbox_get \<Rightarrow> 'st mailbox_save \<Rightarrow> 'st \<Rightarrow> mailbox_target \<Rightarrow> entity_ref \<Rightarrow> (bool \<times> 'st) result" where
  "completeWorkExecution get save st target r =
     andThen (get st target) (\<lambda>found.
       (case found of
          None \<Rightarrow> Inr (False, st)
        | Some mailbox \<Rightarrow>
            (case mb_processing mailbox of
               None \<Rightarrow> Inr (False, st)
             | Some processing \<Rightarrow>
                 if \<not> bound_to r processing then Inr (False, st)
                 else andThen (completeProcessing mailbox (batchId processing)) (\<lambda>m'.
                      andThen (save st m') (\<lambda>st'. Inr (True, st'))))))"

definition requireCompleteWorkExecution ::
    "'st mailbox_get \<Rightarrow> 'st mailbox_save \<Rightarrow> 'st \<Rightarrow> mailbox_target \<Rightarrow> entity_ref \<Rightarrow> 'st result" where
  "requireCompleteWorkExecution get save st target r =
     andThen (get st target) (\<lambda>found.
       (case Option.bind found mb_processing of
          None \<Rightarrow> throw ''Work mailbox has no processing execution''
        | Some processing \<Rightarrow>
            if executionRef processing = None then throw ''Work mailbox processing batch is not bound''
            else andThen (completeWorkExecution get save st target r) (\<lambda>(completed, st').
              if completed then Inr st' else throw ''Work mailbox execution mismatch'')))"

text \<open>
  \<open>mailboxBatches(mailbox).filter(...)\<close>, each batch with the answer to \<open>mailbox.pending === batch\<close>.
\<close>

definition matching_batches :: "work_mailbox \<Rightarrow> entity_ref \<Rightarrow> (bool \<times> pending_batch) list" where
  "matching_batches mailbox r =
     filter (\<lambda>(_, b). has_ref r b)
       (map (Pair False) (opt_list (map_option proc_batch (mb_processing mailbox)))
        @ map (Pair True) (opt_list (mb_pending mailbox)))"

definition settleExactWorkExecution ::
    "'st mailbox_get \<Rightarrow> 'st mailbox_save \<Rightarrow> 'st \<Rightarrow> mailbox_target \<Rightarrow> entity_ref
       \<Rightarrow> (exact_settlement \<times> 'st) result" where
  "settleExactWorkExecution get save st target r =
     andThen (completeWorkExecution get save st target r) (\<lambda>(completed, st1).
       if completed then Inr (SettledProcessing, st1) else
       andThen (get st1 target) (\<lambda>found.
         (case found of
            None \<Rightarrow> Inr (SettledAbsent, st1)
          | Some mailbox \<Rightarrow>
              (case matching_batches mailbox r of
                 [] \<Rightarrow> Inr (SettledAbsent, st1)
               | [(isPending, batch)] \<Rightarrow>
                   if requestCount batch \<noteq> 1 then throw ''Cannot settle a merged pending mailbox batch''
                   else if \<not> isPending then Inr (SettledAbsent, st1)
                   else andThen (consumePendingBatch mailbox None) (\<lambda>m'.
                        andThen (save st1 m') (\<lambda>st2. Inr (SettledPending, st2)))
               | _ \<Rightarrow> throw ''Cannot settle a merged pending mailbox batch''))))"

subsection \<open>The contract of the store\<close>

definition waiting_keys :: "work_mailbox \<Rightarrow> string list" where
  "waiting_keys m = (case mb_pending m of None \<Rightarrow> [] | Some b \<Rightarrow> dedupeKeys b)"

lemma index_of_nth: "index_of x xs = Some n \<Longrightarrow> n < length xs \<and> xs ! n = x"
  by (induction xs arbitrary: n) (auto split: if_splits)

locale mailbox_store =
  fixes get :: "'st mailbox_get" and save :: "'st mailbox_save" and inv :: "'st \<Rightarrow> bool"
  assumes get_inv: "inv st \<Longrightarrow> get st t = Inr (Some m) \<Longrightarrow> mailbox_inv m \<and> copyTarget t = Inr (mb_target m)"
    and save_ok: "inv st \<Longrightarrow> mailbox_inv m \<Longrightarrow> \<exists>st'. save st m = Inr st' \<and> inv st'"
    and save_get: "inv st \<Longrightarrow> mailbox_inv m \<Longrightarrow> save st m = Inr st' \<Longrightarrow>
      get st' t = (if copyTarget t = Inr (mb_target m) then Inr (Some m) else get st t)"
begin

lemma save_inv: "inv st \<Longrightarrow> mailbox_inv m \<Longrightarrow> save st m = Inr st' \<Longrightarrow> inv st'"
  using save_ok by fastforce

text \<open>What an enqueue does to the store: one mailbox, and no other.\<close>

lemma enqueue_store:
  assumes st: "inv st" and e: "enqueueWork get save st t reason at refs meta = Inr (q, st')"
  shows "inv st' \<and> mailbox_inv q \<and> copyTarget t = Inr (mb_target q)
     \<and> get st' u = (if copyTarget u = copyTarget t then Inr (Some q) else get st u)"
proof -
  from e obtain found m s where f: "get st t = Inr found"
    "(case found of Some m \<Rightarrow> Inr m | None \<Rightarrow> createWorkMailbox t) = Inr m"
    and q: "enqueueSignal m s = Inr q" and sv: "save st q = Inr st'"
    by (auto simp: enqueueWork_def)
  have m: "mailbox_inv m \<and> copyTarget t = Inr (mb_target m)"
  proof (cases found)
    case None
    with f have "createWorkMailbox t = Inr m" by simp
    then show ?thesis using created_inv by (auto simp: createWorkMailbox_def)
  qed (use f get_inv [OF st] in simp)
  have qi: "mailbox_inv q" "mb_target q = mb_target m"
    using m q mailbox_step_inv [of m "Enqueue s" q] mailbox_step_le [of m "Enqueue s" q]
    by (simp_all add: mailbox_le_def)
  with m st sv show ?thesis using save_get [OF st qi(1) sv] save_inv by auto
qed

lemma enqueued_signal:
  assumes st: "inv st"
    and e: "enqueueWork get save st t reason at refs
      \<lparr>meta_source = source, meta_dedupeKey = None, meta_factRevision = revision\<rparr> = Inr (q, st')"
    and new: "\<forall>m. get st t = Inr (Some m) \<longrightarrow> \<not> mailboxContainsDedupeKey m (''sequence:'' @ int_str (nextSequence m))"
  obtains b refs' where "mb_pending q = Some b" and "js_trim reason \<in> set (batch_reasons b)"
    and "traverse copyRef refs = Inr refs'" and "mailboxEntityRefKey ` set refs' \<subseteq> mailboxEntityRefKey ` set (batch_refs b)"
proof -
  from e obtain found m s where f: "get st t = Inr found"
    "(case found of Some m \<Rightarrow> Inr m | None \<Rightarrow> createWorkMailbox t) = Inr m"
    and q: "enqueueSignal m s = Inr q"
    and s: "sig_reason s = reason" "sig_refs s = refs" "sig_dedupeKey s = None"
    by (fastforce simp: enqueueWork_def)
  have m: "mailbox_inv m \<and> \<not> mailboxContainsDedupeKey m (''sequence:'' @ int_str (nextSequence m))"
  proof (cases found)
    case None
    with f have "createWorkMailbox t = Inr m" by simp
    then show ?thesis using created_inv by (auto simp: createWorkMailbox_def contains_iff mailboxBatches_cases)
  qed (use f get_inv [OF st] new in simp)
  moreover have "signalKey s (nextSequence m) = Inr (''sequence:'' @ int_str (nextSequence m))"
    using s(3) by (simp add: signalKey_def)
  ultimately obtain refs' where refs': "traverse copyRef refs = Inr refs'"
    and q': "q = enqueued m (signal_batch s (nextSequence m) (''sequence:'' @ int_str (nextSequence m)) refs')"
    using q s(2) by (auto simp: enqueue_eq)
  show ?thesis
  proof (cases "mb_pending m")
    case None
    with that refs' show ?thesis by (simp add: q' enqueued_def signal_batch_def s(1) appendUnique_keys)
  next
    case (Some p)
    with that refs' show ?thesis
      by (simp add: q' enqueued_def signal_batch_def mergeBatches_def s(1) appendUnique_keys appendUnique_set_id image_Un)
  qed
qed

text \<open>An operation on the mailbox found in the store.\<close>

lemma saved_step:
  assumes st: "inv st" and m: "get st t = Inr (Some m)" and s: "mailbox_step m op = Inr m'"
  obtains st' where "save st m' = Inr st'" and "inv st'" and "get st' t = Inr (Some m')"
    and "\<And>u. copyTarget u \<noteq> copyTarget t \<Longrightarrow> get st' u = get st u"
proof -
  have i: "mailbox_inv m" "copyTarget t = Inr (mb_target m)" using get_inv [OF st m] by simp_all
  then have m': "mailbox_inv m'" "mb_target m' = mb_target m"
    using mailbox_step_inv [OF _ s] mailbox_step_le [OF _ s] by (simp_all add: mailbox_le_def)
  obtain st' where "save st m' = Inr st'" "inv st'" using save_ok [OF st m'(1)] by blast
  with save_get [OF st m'(1) this(1)] that i(2) m'(2) show ?thesis by auto
qed

lemma complete_store:
  assumes st: "inv st" and m: "get st t = Inr found"
  shows "completeWorkExecution get save st t r = Inr (done, st') \<longleftrightarrow>
    (case Option.bind found mb_processing of
       None \<Rightarrow> \<not> done \<and> st' = st
     | Some p \<Rightarrow> if bound_to r p then done \<and> save st (completed (the found) p) = Inr st'
                 else \<not> done \<and> st' = st)"
proof (cases found)
  case (Some mb)
  then have i: "mailbox_inv mb" using get_inv [OF st] m by simp
  have "completeProcessing mb (batchId p) = Inr (completed mb p)" if "mb_processing mb = Some p" for p
  proof -
    have "norm_text (batchId p)"
      using i that by (simp add: mailbox_inv_def mailbox_norm_def processing_norm_def)
    then show ?thesis using that by (simp add: complete_eq [OF i] norm_text_def)
  qed
  with Some m show ?thesis
    by (cases "mb_processing mb") (auto simp: completeWorkExecution_def)
qed (use m in \<open>auto simp: completeWorkExecution_def\<close>)

lemma require_store:
  assumes st: "inv st" and m: "get st t = Inr found"
  shows "requireCompleteWorkExecution get save st t r = Inr st' \<longleftrightarrow>
    (\<exists>mb p. found = Some mb \<and> mb_processing mb = Some p \<and> bound_to r p
       \<and> save st (completed mb p) = Inr st')"
  using m
  by (cases found; cases "Option.bind found mb_processing")
     (auto simp: requireCompleteWorkExecution_def complete_store [OF st m] bound_to_def
       split: if_splits option.splits)

lemma settle_pending_once:
  assumes st: "inv st" and m: "get st (roleRunTarget i) = Inr (Some mb)"
    and t: "mb_target mb = roleRunTarget i" "rd_roleName i \<noteq> ''leader''"
    and free: "\<And>p. mb_processing mb = Some p \<Longrightarrow> \<not> bound_to (roleRunRef i) p"
    and b: "mb_pending mb = Some b" "aligned b"
    and n: "index_of (roleRunDispatchDedupeKey i) (dedupeKeys b) = Some n"
  shows "\<exists>mb' st'. settleRoleRunDispatch get save st i None = Inr (Settled, st')
    \<and> get st' (roleRunTarget i) = Inr (Some mb')
    \<and> waiting_keys mb' = drop (Suc n) (dedupeKeys b)
    \<and> mb_processing mb' = mb_processing mb
    \<and> settleRoleRunDispatch get save st' i None = Inr (Absent, st')"
proof -
  let ?key = "roleRunDispatchDedupeKey i" and ?to = "fromSequence b + int n"
  have mi: "mailbox_inv mb" using get_inv [OF st m] by simp
  have in_set: "b \<in> set (mailboxBatches mb)" using b by (simp add: mailboxBatches_cases)
  note facts = mailbox_facts [OF mi in_set]
  have nk: "n < length (dedupeKeys b)" "dedupeKeys b ! n = ?key"
    using index_of_nth [OF n] by simp_all
  then have key: "?key \<in> set (dedupeKeys b)" by (metis nth_mem)
  with facts(3) have fresh: "?key \<notin> set (recentDedupeKeys mb)" by blast
  have cap: "captureRoleRunDispatch (Some mb) i = Some (PendingToken (fromSequence b) ?to)"
    using t free b n nk(1) fresh
    by (auto simp: captureRoleRunDispatch_def roleRunTarget_def capturePending_def bound_to_def
        aligned_def split: option.splits)
  define mb' where "mb' = (if ?to < toSequence b then consumePrefix mb b ?to else consumed mb b)"
  have op: "consumePendingBatch mb (Some (fromSequence b, ?to)) = Inr mb'"
    using b nk(1) by (auto simp: consume_eq [OF mi] mb'_def aligned_def)
  then have step: "mailbox_step mb (Consume (Some (fromSequence b, ?to))) = Inr mb'" by simp
  obtain st' where sv: "save st mb' = Inr st'" "inv st'" "get st' (roleRunTarget i) = Inr (Some mb')"
    using saved_step [OF st m step] by blast
  have settled: "settleRoleRunDispatch get save st i None = Inr (Settled, st')"
    using m cap b op sv(1) nk(1) by (auto simp: settleRoleRunDispatch_def aligned_def)
  have taken: "(if ?to < toSequence b then Suc n else length (dedupeKeys b)) = Suc n"
    using b(2) nk(1) by (auto simp: aligned_def)
  have res: "recentDedupeKeys mb' = rememberDedupeKeys (recentDedupeKeys mb) (take (Suc n) (dedupeKeys b))"
    "waiting_keys mb' = drop (Suc n) (dedupeKeys b)" "mb_processing mb' = mb_processing mb"
    "mb_target mb' = mb_target mb"
    using b nk(1) taken
    by (auto simp: mb'_def waiting_keys_def consumePrefix_def consumed_def Let_def aligned_def nat_add_distrib)
  have "last (take (Suc n) (dedupeKeys b)) = ?key" "take (Suc n) (dedupeKeys b) \<noteq> []"
    using nk by (simp_all add: take_Suc_conv_app_nth)
  moreover have "rememberDedupeKeys (recentDedupeKeys mb) (take (Suc n) (dedupeKeys b))
      = slice_last RECENT_DEDUPE_KEY_LIMIT (recentDedupeKeys mb @ take (Suc n) (dedupeKeys b))"
    using facts(2,3) by (intro remember_fresh) (auto dest: in_set_takeD)
  ultimately have "?key \<in> set (recentDedupeKeys mb')"
    using res(1) last_in_slice_last [of "recentDedupeKeys mb @ take (Suc n) (dedupeKeys b)" RECENT_DEDUPE_KEY_LIMIT]
    by (simp add: RECENT_DEDUPE_KEY_LIMIT_def)
  then have "captureRoleRunDispatch (Some mb') i = None"
    using t free res
    by (auto simp: captureRoleRunDispatch_def roleRunTarget_def capturePending_def bound_to_def
        bind_eq_None_conv split: option.splits)
  then have "settleRoleRunDispatch get save st' i None = Inr (Absent, st')"
    using sv(3) by (simp add: settleRoleRunDispatch_def)
  with settled sv(3) res show ?thesis by blast
qed

lemma settle_exact_pending:
  assumes st: "inv st" and s: "settleExactWorkExecution get save st t r = Inr (SettledPending, st')"
  shows "\<exists>mb b. get st t = Inr (Some mb) \<and> mb_pending mb = Some b \<and> requestCount b = 1 \<and> has_ref r b
     \<and> get st' t = Inr (Some (consumed mb b))"
proof -
  from s obtain st1 where c: "completeWorkExecution get save st t r = Inr (False, st1)"
    by (auto simp: settleExactWorkExecution_def split: if_splits)
  then obtain found where f: "get st t = Inr found" by (auto simp: completeWorkExecution_def)
  have [simp]: "st1 = st"
    using c by (auto simp: complete_store [OF st f] split: option.splits if_splits)
  from s c f obtain mb batch mb' where m: "found = Some mb" "matching_batches mb r = [(True, batch)]"
    "requestCount batch = 1" "consumePendingBatch mb None = Inr mb'" "save st mb' = Inr st'"
    by (auto simp: settleExactWorkExecution_def split: option.splits list.splits if_splits)
  have mi: "mailbox_inv mb" "copyTarget t = Inr (mb_target mb)" using get_inv [OF st] f m by simp_all
  from m(4) obtain b where b: "mb_pending mb = Some b" "mb' = consumed mb b" by (auto simp: consume_eq [OF mi(1)])
  have "(True, batch) \<in> set (matching_batches mb r)" using m(2) by simp
  then have "batch = b" "has_ref r b"
    using b(1) by (auto simp: matching_batches_def opt_list_def split: option.splits if_splits)
  moreover have "mailbox_inv mb'" using consumed_inv [OF mi(1) b(1)] b(2) by simp
  then have "get st' t = Inr (Some mb')"
    using save_get [OF st _ m(5), of t] mi(2) b(2) by (simp add: consumed_def)
  ultimately show ?thesis using f m b by auto
qed

end

subsection \<open>The table satisfies the contract\<close>

definition rows_inv :: "mailbox_rows \<Rightarrow> bool" where
  "rows_inv rows \<longleftrightarrow> (\<forall>key m. rows key = Some m \<longrightarrow> mailbox_inv m \<and> target_key (mb_target m) = key)"

lemma norm_target: "mailbox_inv m \<Longrightarrow> copyTarget (mb_target m) = Inr (mb_target m)"
  by (simp add: mailbox_inv_def mailbox_norm_def target_norm_def)

lemma getWorkMailbox_eq:
  assumes "rows_inv rows"
  shows "getWorkMailbox rows t = andThen (copyTarget t) (\<lambda>t'. Inr (rows (target_key t')))"
proof (cases "copyTarget t")
  case (Inr t')
  have "checkMailbox m = Inr m" if "rows (target_key t') = Some m" for m
    using assms that by (auto simp: rows_inv_def inv_normD)
  with Inr show ?thesis
    by (cases "rows (target_key t')") (simp_all add: getWorkMailbox_def mailboxTargetKey_def)
qed (simp add: getWorkMailbox_def mailboxTargetKey_def)

lemma saveWorkMailbox_eq:
  assumes r: "rows_inv rows" and m: "mailbox_inv m"
  shows "saveWorkMailbox rows m = Inr (rows(target_key (mb_target m) \<mapsto> m))"
proof (cases "rows (target_key (mb_target m))")
  case None
  with m norm_target [OF m] show ?thesis
    by (simp add: saveWorkMailbox_def mailboxTargetKey_def inv_normD)
next
  case (Some old)
  with r have "target_key (mb_target old) = target_key (mb_target m)" by (simp add: rows_inv_def)
  then have "mb_target old = mb_target m" by (rule target_key_inj)
  with Some m norm_target [OF m] show ?thesis
    by (simp add: saveWorkMailbox_def mailboxTargetKey_def inv_normD)
qed

interpretation rows: mailbox_store getWorkMailbox saveWorkMailbox rows_inv
proof
  fix st t m
  assume r: "rows_inv st" and g: "getWorkMailbox st t = Inr (Some m)"
  then obtain t' where t': "copyTarget t = Inr t'" "st (target_key t') = Some m"
    by (auto simp: getWorkMailbox_eq)
  with r have "mailbox_inv m" "target_key (mb_target m) = target_key t'" by (auto simp: rows_inv_def)
  with t' show "mailbox_inv m \<and> copyTarget t = Inr (mb_target m)" using target_key_inj by fastforce
next
  fix st m
  assume "rows_inv st" and "mailbox_inv m"
  then show "\<exists>st'. saveWorkMailbox st m = Inr st' \<and> rows_inv st'"
    by (auto simp: saveWorkMailbox_eq rows_inv_def)
next
  fix st m st' t
  assume r: "rows_inv st" "mailbox_inv m" and s: "saveWorkMailbox st m = Inr st'"
  then have st': "st' = st(target_key (mb_target m) \<mapsto> m)" by (simp add: saveWorkMailbox_eq)
  have "rows_inv st'" using r by (auto simp: st' rows_inv_def)
  with r show "getWorkMailbox st' t
      = (if copyTarget t = Inr (mb_target m) then Inr (Some m) else getWorkMailbox st t)"
    using target_key_inj by (cases "copyTarget t") (auto simp: getWorkMailbox_eq st')
qed

subsection \<open>Properties\<close>

definition sample_dispatch :: run_dispatch where
  "sample_dispatch = \<lparr>rd_taskId = ''task-1'', rd_roleName = ''dev'', rd_runId = ''run-1''\<rparr>"

definition sample_role_mailbox :: work_mailbox where
  "sample_role_mailbox =
     \<lparr>mb_target = RoleTarget ''task-1'' ''dev'', nextSequence = 3,
      mb_processing = Some ((sample_processing (sample_batch 1 1 [''x'']))\<lparr>executionRef := Some (TaskRef ''task-1'')\<rparr>),
      mb_pending = Some ((sample_batch 2 2 [''role-turn:task-1:dev:run-1''])\<lparr>batch_refs := [TaskRef ''task-2'']\<rparr>),
      recentDedupeKeys = []\<rparr>"

definition sample_rows :: mailbox_rows where
  "sample_rows = (\<lambda>_. None)(''role/task-1/dev'' \<mapsto> sample_role_mailbox)"

lemma sample_role_inv: "mailbox_inv sample_role_mailbox"
  by code_simp

lemma sample_rows_inv: "rows_inv sample_rows"
proof -
  have "target_key (mb_target sample_role_mailbox) = ''role/task-1/dev''" by code_simp
  with sample_role_inv show ?thesis by (auto simp: rows_inv_def sample_rows_def)
qed

lemma sample_rows_get:
  "getWorkMailbox sample_rows (RoleTarget ''task-1'' ''dev'') = Inr (Some sample_role_mailbox)"
proof -
  have "copyTarget (RoleTarget ''task-1'' ''dev'') = Inr (RoleTarget ''task-1'' ''dev'')"
    "target_key (RoleTarget ''task-1'' ''dev'') = ''role/task-1/dev''" by code_simp+
  then show ?thesis
    unfolding getWorkMailbox_eq [OF sample_rows_inv] by (simp add: sample_rows_def del: copyTarget.simps)
qed

text \<open>
  \<open>enqueueWork\<close> on the mailbox table: when it returns, the target reads back exactly the
  returned mailbox, no mailbox of another target has changed, and the table is still well formed.
\<close>

theorem enqueue_work_stored:
  assumes "rows_inv rows"
    and "enqueueWork getWorkMailbox saveWorkMailbox rows t reason at refs meta = Inr (q, rows')"
  shows "rows_inv rows' \<and> mailbox_inv q \<and> copyTarget t = Inr (mb_target q)
     \<and> getWorkMailbox rows' u
         = (if copyTarget u = copyTarget t then Inr (Some q) else getWorkMailbox rows u)"
  by (rule rows.enqueue_store [OF assms])

theorem enqueue_work_stored_witness:
  "\<exists>q rows'. enqueueWork getWorkMailbox saveWorkMailbox (\<lambda>_. None) OperatorTarget ''wake'' (AtText noon) []
       \<lparr>meta_source = None, meta_dedupeKey = None, meta_factRevision = None\<rparr> = Inr (q, rows')
     \<and> getWorkMailbox rows' OperatorTarget = Inr (Some q)"
proof -
  have r: "rows_inv (\<lambda>_. None)" by (simp add: rows_inv_def)
  have "isOk (enqueueWork getWorkMailbox saveWorkMailbox (\<lambda>_. None) OperatorTarget ''wake'' (AtText noon) []
       \<lparr>meta_source = None, meta_dedupeKey = None, meta_factRevision = None\<rparr>)" by code_simp
  then obtain q rows' where "enqueueWork getWorkMailbox saveWorkMailbox (\<lambda>_. None) OperatorTarget ''wake''
       (AtText noon) [] \<lparr>meta_source = None, meta_dedupeKey = None, meta_factRevision = None\<rparr> = Inr (q, rows')"
    by (auto simp: isOk_iff)
  with enqueue_work_stored [OF r this, of OperatorTarget] show ?thesis by auto
qed

text \<open>
  A role dispatch is settled exactly once.  When the dispatch key of a Run is pending at
  position \<open>n\<close> of a gap-free batch and no processing batch is bound to the Run, settling consumes
  the signals up to and including the dispatch, keeps the later ones in order and the batch in
  flight untouched; settling again finds nothing and changes nothing.
\<close>

theorem settle_role_dispatch_once:
  assumes "rows_inv rows" and "getWorkMailbox rows (roleRunTarget i) = Inr (Some mb)"
    and "mb_target mb = roleRunTarget i" and "rd_roleName i \<noteq> ''leader''"
    and "\<And>p. mb_processing mb = Some p \<Longrightarrow> \<not> bound_to (roleRunRef i) p"
    and "mb_pending mb = Some b" and "aligned b"
    and "index_of (roleRunDispatchDedupeKey i) (dedupeKeys b) = Some n"
  shows "\<exists>mb' rows'. settleRoleRunDispatch getWorkMailbox saveWorkMailbox rows i None = Inr (Settled, rows')
    \<and> getWorkMailbox rows' (roleRunTarget i) = Inr (Some mb')
    \<and> waiting_keys mb' = drop (Suc n) (dedupeKeys b)
    \<and> mb_processing mb' = mb_processing mb
    \<and> settleRoleRunDispatch getWorkMailbox saveWorkMailbox rows' i None = Inr (Absent, rows')"
  using assms by (rule rows.settle_pending_once)

theorem settle_role_dispatch_once_witness:
  "\<exists>rows'. settleRoleRunDispatch getWorkMailbox saveWorkMailbox sample_rows sample_dispatch None
       = Inr (Settled, rows')
     \<and> settleRoleRunDispatch getWorkMailbox saveWorkMailbox rows' sample_dispatch None = Inr (Absent, rows')"
proof -
  have t: "roleRunTarget sample_dispatch = RoleTarget ''task-1'' ''dev''"
    by (simp add: roleRunTarget_def sample_dispatch_def)
  define b where "b = (sample_batch 2 2 [''role-turn:task-1:dev:run-1''])\<lparr>batch_refs := [TaskRef ''task-2'']\<rparr>"
  have "aligned b" "index_of (roleRunDispatchDedupeKey sample_dispatch) (dedupeKeys b) = Some 0"
    "rd_roleName sample_dispatch \<noteq> ''leader''"
    unfolding b_def by code_simp+
  moreover have "\<not> bound_to (roleRunRef sample_dispatch)
      ((sample_processing (sample_batch 1 1 [''x'']))\<lparr>executionRef := Some (TaskRef ''task-1'')\<rparr>)"
    by code_simp
  ultimately show ?thesis
    using settle_role_dispatch_once [OF sample_rows_inv sample_rows_get [folded t], of b 0]
    by (auto simp: sample_role_mailbox_def t b_def)
qed

text \<open>
  \<open>requireCompleteWorkExecution\<close> returns exactly when the mailbox of the target has a batch
  in flight that is bound to the given execution, and then the only change is the completion of
  that batch; in every other case it throws.
\<close>

theorem require_complete_exact:
  assumes "rows_inv rows" and "getWorkMailbox rows t = Inr found"
  shows "requireCompleteWorkExecution getWorkMailbox saveWorkMailbox rows t r = Inr rows' \<longleftrightarrow>
    (\<exists>mb p. found = Some mb \<and> mb_processing mb = Some p \<and> bound_to r p
       \<and> rows' = rows(target_key (mb_target mb) \<mapsto> completed mb p))"
proof -
  have "saveWorkMailbox rows (completed mb p) = Inr (rows(target_key (mb_target mb) \<mapsto> completed mb p))"
    if "found = Some mb" "mb_processing mb = Some p" for mb p
  proof -
    have "mailbox_inv mb" using rows.get_inv [OF assms(1)] assms(2) that by simp
    then have "mailbox_inv (completed mb p)" using that by (simp add: completed_inv)
    then show ?thesis by (simp add: saveWorkMailbox_eq [OF assms(1)]) (simp add: completed_def)
  qed
  then show ?thesis unfolding rows.require_store [OF assms] by auto
qed

theorem require_complete_exact_witness:
  "\<exists>e. requireCompleteWorkExecution getWorkMailbox saveWorkMailbox sample_rows
       (RoleTarget ''task-1'' ''dev'') (TaskRef ''task-9'') = Inl e"
proof -
  have "\<not> bound_to (TaskRef ''task-9'')
      ((sample_processing (sample_batch 1 1 [''x'']))\<lparr>executionRef := Some (TaskRef ''task-1'')\<rparr>)" by code_simp
  then have "requireCompleteWorkExecution getWorkMailbox saveWorkMailbox sample_rows
       (RoleTarget ''task-1'' ''dev'') (TaskRef ''task-9'') \<noteq> Inr rows'" for rows'
    unfolding require_complete_exact [OF sample_rows_inv sample_rows_get]
    by (simp add: sample_role_mailbox_def)
  then show ?thesis by (metis sum.exhaust)
qed

text \<open>
  Settling an exact execution never discards a merged batch: when it settles pending work,
  that work was a single signal carrying the reference, and the mailbox read back afterwards is
  the one with just this batch consumed.
\<close>

theorem settle_exact_single:
  assumes "rows_inv rows"
    and "settleExactWorkExecution getWorkMailbox saveWorkMailbox rows t r = Inr (SettledPending, rows')"
  shows "\<exists>mb b. getWorkMailbox rows t = Inr (Some mb) \<and> mb_pending mb = Some b
     \<and> requestCount b = 1 \<and> has_ref r b \<and> getWorkMailbox rows' t = Inr (Some (consumed mb b))"
  by (rule rows.settle_exact_pending [OF assms])

theorem settle_exact_single_witness:
  "\<exists>rows' mb b. settleExactWorkExecution getWorkMailbox saveWorkMailbox sample_rows
       (RoleTarget ''task-1'' ''dev'') (TaskRef ''task-2'') = Inr (SettledPending, rows')
     \<and> mb_pending mb = Some b \<and> getWorkMailbox rows' (RoleTarget ''task-1'' ''dev'') = Inr (Some (consumed mb b))"
proof -
  let ?t = "RoleTarget ''task-1'' ''dev''"
  define p where "p = (sample_processing (sample_batch 1 1 [''x'']))\<lparr>executionRef := Some (TaskRef ''task-1'')\<rparr>"
  define b where "b = (sample_batch 2 2 [''role-turn:task-1:dev:run-1''])\<lparr>batch_refs := [TaskRef ''task-2'']\<rparr>"
  have m: "mb_processing sample_role_mailbox = Some p" "mb_pending sample_role_mailbox = Some b"
    by (simp_all add: sample_role_mailbox_def p_def b_def)
  have "\<not> bound_to (TaskRef ''task-2'') p" unfolding p_def by code_simp
  then have c: "completeWorkExecution getWorkMailbox saveWorkMailbox sample_rows ?t (TaskRef ''task-2'')
      = Inr (False, sample_rows)"
    by (simp add: rows.complete_store [OF sample_rows_inv sample_rows_get] m)
  have r: "has_ref (TaskRef ''task-2'') b \<and> \<not> has_ref (TaskRef ''task-2'') (proc_batch p) \<and> requestCount b = 1"
    unfolding p_def b_def by code_simp
  have k: "consumePendingBatch sample_role_mailbox None = Inr (consumed sample_role_mailbox b)"
    by (simp add: consume_eq [OF sample_role_inv] m)
  have "mailbox_inv (consumed sample_role_mailbox b)" by (rule consumed_inv [OF sample_role_inv m(2)])
  then obtain rows' where "saveWorkMailbox sample_rows (consumed sample_role_mailbox b) = Inr rows'"
    by (auto simp: saveWorkMailbox_eq [OF sample_rows_inv])
  with c r k m have "settleExactWorkExecution getWorkMailbox saveWorkMailbox sample_rows ?t (TaskRef ''task-2'')
      = Inr (SettledPending, rows')"
    by (simp add: settleExactWorkExecution_def sample_rows_get matching_batches_def opt_list_def)
  with settle_exact_single [OF sample_rows_inv this] show ?thesis by blast
qed

end
