(* ===== verification/Keyed_Queue.thy ===== *)
theory Keyed_Queue
  imports Yui_Prelude "HOL-Library.AList"
begin

section \<open>The keyed work queue\<close>

text \<open>
  \<open>src/coordination/keyedWorkQueue.ts\<close>: a FIFO queue that coalesces signals by key.  \<open>#states\<close> is
  a JavaScript \<open>Map\<close>, an association list in insertion order; \<open>#ready\<close> and \<open>#takeWaiters\<close> are
  arrays with a head index, as in the code.  A promise is the number of the call that created it,
  and its resolution is an event appended to \<open>kq_log\<close> (the continuation of a resolved promise
  runs in a later turn, so it never re-enters an operation).  The fresh \<open>Symbol\<close> of a lease is the
  next number \<open>kq_nextToken\<close>, and \<open>kq_completed\<close> holds the tokens whose closure variable
  \<open>completed\<close> is set.

  The invariant \<open>kq_inv\<close> makes the two internal errors of the code unreachable, and gives the
  guarantees of its header comment: at most one lease per key, FIFO order, a signal received while
  the key is processed causes a replay at the tail, shutdown keeps the accepted work and
  \<open>abortPending\<close> drops exactly what is not leased.
\<close>

subsection \<open>State\<close>

datatype key_state = Queued | Processing bool nat  \<comment> \<open>dirty, token\<close>

datatype 'k queue_event =
    TakeResolved nat "('k \<times> nat) option"  \<comment> \<open>call, leased key and token\<close>
  | DrainResolved nat
  | CloseResolved

record 'k keyed_queue =
  kq_states :: "('k \<times> key_state) list"
  kq_ready :: "'k list"
  kq_readyHead :: nat
  kq_takeWaiters :: "nat list"
  kq_takeWaiterHead :: nat
  kq_drainWaiters :: "nat list"
  kq_closed :: bool
  kq_aborted :: bool
  kq_closeCompletion :: "bool option"  \<comment> \<open>undefined, or whether the promise is resolved\<close>
  kq_nextToken :: nat
  kq_completed :: "nat list"
  kq_log :: "'k queue_event list"

definition newQueue :: "'k keyed_queue" where
  "newQueue = \<lparr>kq_states = [], kq_ready = [], kq_readyHead = 0, kq_takeWaiters = [],
     kq_takeWaiterHead = 0, kq_drainWaiters = [], kq_closed = False, kq_aborted = False,
     kq_closeCompletion = None, kq_nextToken = 0, kq_completed = [], kq_log = []\<rparr>"

subsection \<open>Private methods\<close>

definition hasReadyWork :: "'k keyed_queue \<Rightarrow> bool" where
  "hasReadyWork q \<longleftrightarrow> kq_readyHead q < length (kq_ready q)"

definition hasTakeWaiter :: "'k keyed_queue \<Rightarrow> bool" where
  "hasTakeWaiter q \<longleftrightarrow> kq_takeWaiterHead q < length (kq_takeWaiters q)"

definition emit :: "'k keyed_queue \<Rightarrow> 'k queue_event list \<Rightarrow> 'k keyed_queue" where
  "emit q es = q\<lparr>kq_log := kq_log q @ es\<rparr>"

definition advanceReady :: "'k keyed_queue \<Rightarrow> 'k keyed_queue" where
  "advanceReady q =
     (let q' = q\<lparr>kq_readyHead := kq_readyHead q + 1\<rparr>
      in if hasReadyWork q' then q' else q'\<lparr>kq_ready := [], kq_readyHead := 0\<rparr>)"

definition leaseReadyWork :: "'k keyed_queue \<Rightarrow> (('k \<times> nat) \<times> 'k keyed_queue) result" where
  "leaseReadyWork q =
     (let key = kq_ready q ! kq_readyHead q; q' = advanceReady q; token = kq_nextToken q
      in if map_of (kq_states q') key \<noteq> Some Queued
         then throw ''Keyed work queue invariant failed: ready key was not queued.''
         else Inr ((key, token), q'\<lparr>
                kq_states := AList.update key (Processing False token) (kq_states q'),
                kq_nextToken := token + 1\<rparr>))"

text \<open>The loop of \<open>#dispatchReadyWork\<close>: the waiter is taken off first, then the key leased.\<close>

definition dispatchOne :: "'k keyed_queue \<Rightarrow> 'k keyed_queue result" where
  "dispatchOne q =
     (let waiter = kq_takeWaiters q ! kq_takeWaiterHead q;
          q' = q\<lparr>kq_takeWaiterHead := kq_takeWaiterHead q + 1\<rparr>
      in andThen (leaseReadyWork q') (\<lambda>(item, q''). Inr (emit q'' [TakeResolved waiter (Some item)])))"

lemma leaseReadyWork_frame:
  "leaseReadyWork q = Inr (item, q') \<Longrightarrow>
     kq_takeWaiters q' = kq_takeWaiters q \<and> kq_takeWaiterHead q' = kq_takeWaiterHead q"
  by (auto simp: leaseReadyWork_def advanceReady_def Let_def split: if_splits)

lemma dispatchOne_frame:
  "dispatchOne q = Inr q' \<Longrightarrow>
     kq_takeWaiters q' = kq_takeWaiters q \<and> kq_takeWaiterHead q' = kq_takeWaiterHead q + 1"
  by (auto simp: dispatchOne_def Let_def emit_def dest: leaseReadyWork_frame)

function dispatchLoop :: "'k keyed_queue \<Rightarrow> 'k keyed_queue result" where
  "dispatchLoop q =
     (if hasReadyWork q \<and> hasTakeWaiter q
      then (case dispatchOne q of Inl e \<Rightarrow> Inl e | Inr q' \<Rightarrow> dispatchLoop q')
      else Inr q)"
  by pat_completeness auto
termination
  by (relation "measure (\<lambda>q. length (kq_takeWaiters q) - kq_takeWaiterHead q)")
     (auto simp: hasTakeWaiter_def dest!: dispatchOne_frame)

declare dispatchLoop.simps [simp del]

definition dispatchReadyWork :: "'k keyed_queue \<Rightarrow> 'k keyed_queue result" where
  "dispatchReadyWork q =
     andThen (dispatchLoop q) (\<lambda>q'.
       Inr (if hasTakeWaiter q' then q' else q'\<lparr>kq_takeWaiters := [], kq_takeWaiterHead := 0\<rparr>))"

definition resolveTakeWaiters :: "'k keyed_queue \<Rightarrow> 'k keyed_queue" where
  "resolveTakeWaiters q =
     (emit q (map (\<lambda>w. TakeResolved w None) (drop (kq_takeWaiterHead q) (kq_takeWaiters q))))
       \<lparr>kq_takeWaiters := [], kq_takeWaiterHead := 0\<rparr>"

definition resolveClose :: "'k keyed_queue \<Rightarrow> 'k keyed_queue" where
  \<comment> \<open>\<open>#closeCompletion?.resolve()\<close>: resolving a settled promise does nothing\<close>
  "resolveClose q =
     (if kq_closeCompletion q = Some False
      then emit (q\<lparr>kq_closeCompletion := Some True\<rparr>) [CloseResolved] else q)"

definition settleIdleWaiters :: "'k keyed_queue \<Rightarrow> 'k keyed_queue" where
  "settleIdleWaiters q =
     (if kq_states q \<noteq> [] then q
      else let q' = emit (q\<lparr>kq_drainWaiters := []\<rparr>) (map DrainResolved (kq_drainWaiters q))
        in if \<not> kq_closed q' then q' else resolveClose (resolveTakeWaiters q'))"

definition beginClose :: "'k keyed_queue \<Rightarrow> 'k keyed_queue" where
  "beginClose q =
     (if kq_closeCompletion q = None
      then q\<lparr>kq_closeCompletion := Some False, kq_closed := True\<rparr> else q)"

definition completeLease :: "'k keyed_queue \<Rightarrow> 'k \<Rightarrow> nat \<Rightarrow> 'k keyed_queue result" where
  "completeLease q key token =
     (case map_of (kq_states q) key of
        Some (Processing dirty t) \<Rightarrow>
          if t \<noteq> token
          then throw ''Keyed work queue invariant failed: completed lease is not active.''
          else if dirty \<and> \<not> kq_aborted q
          then dispatchReadyWork (q\<lparr>kq_states := AList.update key Queued (kq_states q),
                                   kq_ready := kq_ready q @ [key]\<rparr>)
          else Inr (settleIdleWaiters (q\<lparr>kq_states := AList.delete key (kq_states q)\<rparr>))
      | _ \<Rightarrow> throw ''Keyed work queue invariant failed: completed lease is not active.'')"

subsection \<open>Public methods\<close>

definition signal :: "'k keyed_queue \<Rightarrow> 'k \<Rightarrow> (bool \<times> 'k keyed_queue) result" where
  "signal q key =
     (if kq_closed q then Inr (False, q)
      else (case map_of (kq_states q) key of
              None \<Rightarrow>
                andThen (dispatchReadyWork (q\<lparr>kq_states := AList.update key Queued (kq_states q),
                                             kq_ready := kq_ready q @ [key]\<rparr>))
                  (\<lambda>q'. Inr (True, q'))
            | Some (Processing dirty token) \<Rightarrow>
                Inr (True, q\<lparr>kq_states := AList.update key (Processing True token) (kq_states q)\<rparr>)
            | Some Queued \<Rightarrow> Inr (True, q)))"

definition takeItem :: "'k keyed_queue \<Rightarrow> nat \<Rightarrow> 'k keyed_queue result" where
  "takeItem q call =
     (if kq_aborted q then Inr (emit q [TakeResolved call None])
      else if hasReadyWork q then
        andThen (leaseReadyWork q) (\<lambda>(item, q'). Inr (emit q' [TakeResolved call (Some item)]))
      else if kq_closed q \<and> kq_states q = [] then Inr (emit q [TakeResolved call None])
      else Inr (q\<lparr>kq_takeWaiters := kq_takeWaiters q @ [call]\<rparr>))"

definition drain :: "'k keyed_queue \<Rightarrow> nat \<Rightarrow> 'k keyed_queue" where
  "drain q call =
     (if kq_states q = [] then emit q [DrainResolved call]
      else q\<lparr>kq_drainWaiters := kq_drainWaiters q @ [call]\<rparr>)"

definition shutdown :: "'k keyed_queue \<Rightarrow> 'k keyed_queue" where
  "shutdown q = settleIdleWaiters (beginClose q)"

definition drop_pending :: "'k \<times> key_state \<Rightarrow> ('k \<times> key_state) list" where
  \<comment> \<open>the body of the loop over \<open>#states\<close> in \<open>abortPending\<close>\<close>
  "drop_pending e = (case e of (key, Queued) \<Rightarrow> [] | (key, Processing _ token) \<Rightarrow> [(key, Processing False token)])"

definition abortPending :: "'k keyed_queue \<Rightarrow> 'k keyed_queue" where
  "abortPending q =
     (let q1 = beginClose q
      in if kq_aborted q1 then q1
         else settleIdleWaiters (resolveTakeWaiters (q1\<lparr>kq_aborted := True,
                kq_states := concat (map drop_pending (kq_states q1)),
                kq_ready := [], kq_readyHead := 0\<rparr>)))"

definition doneItem :: "'k keyed_queue \<Rightarrow> 'k \<Rightarrow> nat \<Rightarrow> 'k keyed_queue result" where
  \<comment> \<open>the closure \<open>done\<close> of the item leased with the key and the token\<close>
  "doneItem q key token =
     (if token \<in> set (kq_completed q) then throw ''Keyed work item was already completed.''
      else completeLease (q\<lparr>kq_completed := token # kq_completed q\<rparr>) key token)"

datatype 'k queue_op =
    Signal 'k | Take nat | Drain nat | Done 'k nat | Shutdown | Abort

fun kq_step :: "'k keyed_queue \<Rightarrow> 'k queue_op \<Rightarrow> 'k keyed_queue result" where
  "kq_step q (Signal key) = andThen (signal q key) (\<lambda>(_, q'). Inr q')"
| "kq_step q (Take call) = takeItem q call"
| "kq_step q (Drain call) = Inr (drain q call)"
| "kq_step q (Done key token) = doneItem q key token"
| "kq_step q Shutdown = Inr (shutdown q)"
| "kq_step q Abort = Inr (abortPending q)"

subsection \<open>Views of the state\<close>

definition pend :: "'k keyed_queue \<Rightarrow> 'k list" where
  "pend q = drop (kq_readyHead q) (kq_ready q)"

definition state_of :: "'k keyed_queue \<Rightarrow> 'k \<Rightarrow> key_state option" where
  "state_of q k = map_of (kq_states q) k"

definition waits :: "'k keyed_queue \<Rightarrow> nat list" where
  "waits q = drop (kq_takeWaiterHead q) (kq_takeWaiters q)"

fun event_leases :: "'k queue_event list \<Rightarrow> ('k \<times> nat) list" where
  "event_leases [] = []"
| "event_leases (TakeResolved _ (Some l) # es) = l # event_leases es"
| "event_leases (_ # es) = event_leases es"

definition leases :: "'k keyed_queue \<Rightarrow> ('k \<times> nat) list" where
  "leases q = event_leases (kq_log q)"

definition outstanding :: "'k keyed_queue \<Rightarrow> ('k \<times> nat) list" where
  "outstanding q = filter (\<lambda>(k, t). t \<notin> set (kq_completed q)) (leases q)"

definition kq_heads :: "'k keyed_queue \<Rightarrow> bool" where
  "kq_heads q \<longleftrightarrow> kq_readyHead q \<le> length (kq_ready q) \<and> kq_takeWaiterHead q \<le> length (kq_takeWaiters q)"

definition kq_wf :: "'k keyed_queue \<Rightarrow> bool" where
  "kq_wf q \<longleftrightarrow>
     kq_heads q
     \<and> distinct (map fst (kq_states q))
     \<and> distinct (pend q) \<and> (\<forall>k. k \<in> set (pend q) \<longleftrightarrow> state_of q k = Some Queued)
     \<and> (\<forall>k d t. state_of q k = Some (Processing d t) \<longrightarrow>
            (k, t) \<in> set (leases q) \<and> t \<notin> set (kq_completed q))
     \<and> (\<forall>(k, t) \<in> set (leases q). t < kq_nextToken q \<and>
            (t \<in> set (kq_completed q) \<or> (\<exists>d. state_of q k = Some (Processing d t))))
     \<and> distinct (map snd (leases q))
     \<and> set (kq_completed q) \<subseteq> snd ` set (leases q)"

text \<open>
  What an operation leaves: nobody waits for a ready key, nobody waits for an idle queue, and the
  promise of the stop is resolved exactly when the stopped queue is idle.
\<close>

definition kq_closing :: "'k keyed_queue \<Rightarrow> bool" where
  "kq_closing q \<longleftrightarrow>
     (kq_closed q \<longleftrightarrow> kq_closeCompletion q \<noteq> None)
     \<and> (kq_aborted q \<longrightarrow> kq_closed q \<and> pend q = [] \<and> waits q = []
          \<and> (\<forall>k t. state_of q k \<noteq> Some (Processing True t)))
     \<and> length (filter (\<lambda>e. e = CloseResolved) (kq_log q))
          = (if kq_closeCompletion q = Some True then 1 else 0)"

definition kq_idle :: "'k keyed_queue \<Rightarrow> bool" where
  "kq_idle q \<longleftrightarrow>
     (kq_states q = [] \<longrightarrow> kq_drainWaiters q = []
        \<and> (kq_closed q \<longrightarrow> waits q = [] \<and> kq_closeCompletion q = Some True))
     \<and> (kq_closeCompletion q = Some True \<longrightarrow> kq_states q = [])"

definition kq_inv :: "'k keyed_queue \<Rightarrow> bool" where
  "kq_inv q \<longleftrightarrow> kq_wf q \<and> kq_closing q \<and> kq_idle q \<and> (pend q = [] \<or> waits q = [])"

lemma event_leases_append [simp]: "event_leases (xs @ ys) = event_leases xs @ event_leases ys"
  by (induction xs rule: event_leases.induct) auto

lemma event_leases_silent [simp]:
  "event_leases (map (\<lambda>w. TakeResolved w None) ws) = []" "event_leases (map DrainResolved ws) = []"
  by (induction ws) auto

lemma filter_close_silent [simp]:
  "filter (\<lambda>e. e = CloseResolved) (map (\<lambda>w. TakeResolved w x) ws) = []"
  "filter (\<lambda>e. e = CloseResolved) (map DrainResolved ws) = []"
  by (induction ws) auto

lemma hasReadyWork_pend: "hasReadyWork q \<longleftrightarrow> pend q \<noteq> []"
  by (auto simp: hasReadyWork_def pend_def)

lemma hasTakeWaiter_waits: "hasTakeWaiter q \<longleftrightarrow> waits q \<noteq> []"
  by (auto simp: hasTakeWaiter_def waits_def)

lemma map_of_update [simp]: "map_of (AList.update k v xs) = (map_of xs)(k \<mapsto> v)"
  by (simp add: update_conv')

lemma map_of_delete [simp]: "map_of (AList.delete k xs) = (map_of xs)(k := None)"
  by (simp add: delete_conv')

lemma state_of_simps [simp]:
  "state_of (q\<lparr>kq_states := AList.update k v xs\<rparr>) k' = (if k' = k then Some v else map_of xs k')"
  "state_of (q\<lparr>kq_states := AList.delete k xs\<rparr>) k' = (if k' = k then None else map_of xs k')"
  by (simp_all add: state_of_def)

lemma update_not_Nil [simp]: "AList.update k v xs \<noteq> []"
  by (cases xs) auto

subsection \<open>Leasing\<close>

definition lease_to :: "'k keyed_queue \<Rightarrow> nat \<Rightarrow> 'k keyed_queue result" where
  \<comment> \<open>lease the next ready key to the call: the common part of \<open>take\<close> and the dispatch loop\<close>
  "lease_to q call = andThen (leaseReadyWork q) (\<lambda>(item, q'). Inr (emit q' [TakeResolved call (Some item)]))"

lemma advanceReady_pend:
  "hasReadyWork q \<Longrightarrow> pend q = kq_ready q ! kq_readyHead q # pend (advanceReady q)"
  by (auto simp: advanceReady_def Let_def pend_def hasReadyWork_def Cons_nth_drop_Suc [symmetric])

lemma advanceReady_frame:
  "kq_states (advanceReady q) = kq_states q" "waits (advanceReady q) = waits q"
  "leases (advanceReady q) = leases q" "kq_completed (advanceReady q) = kq_completed q"
  "kq_nextToken (advanceReady q) = kq_nextToken q" "kq_log (advanceReady q) = kq_log q"
  "kq_closed (advanceReady q) = kq_closed q" "kq_aborted (advanceReady q) = kq_aborted q"
  "kq_closeCompletion (advanceReady q) = kq_closeCompletion q"
  "kq_drainWaiters (advanceReady q) = kq_drainWaiters q"
  by (simp_all add: advanceReady_def Let_def waits_def leases_def)

lemma advanceReady_heads: "kq_heads q \<Longrightarrow> hasReadyWork q \<Longrightarrow> kq_heads (advanceReady q)"
  by (auto simp: kq_heads_def advanceReady_def Let_def hasReadyWork_def)

text \<open>The same stop state and the same waiting drains: what leasing and dispatching never touch.\<close>

definition same_stop :: "'k keyed_queue \<Rightarrow> 'k keyed_queue \<Rightarrow> bool" where
  "same_stop q q' \<longleftrightarrow> kq_closed q' = kq_closed q \<and> kq_aborted q' = kq_aborted q
     \<and> kq_closeCompletion q' = kq_closeCompletion q \<and> kq_drainWaiters q' = kq_drainWaiters q
     \<and> kq_completed q' = kq_completed q
     \<and> filter (\<lambda>e. e = CloseResolved) (kq_log q') = filter (\<lambda>e. e = CloseResolved) (kq_log q)"

lemma lease_to_result:
  assumes wf: "kq_wf q" and r: "pend q = k # ks"
  obtains q' where "lease_to q call = Inr q'" and "kq_wf q'" and "pend q' = ks" and "waits q' = waits q"
    and "kq_states q' = AList.update k (Processing False (kq_nextToken q)) (kq_states q)"
    and "leases q' = leases q @ [(k, kq_nextToken q)]" and "same_stop q q'"
proof -
  have h: "hasReadyWork q" using r by (simp add: hasReadyWork_pend)
  let ?a = "advanceReady q" and ?t = "kq_nextToken q"
  have k: "kq_ready q ! kq_readyHead q = k" "pend ?a = ks" using advanceReady_pend [OF h] r by simp_all
  have queued: "state_of q k = Some Queued" using wf r by (auto simp: kq_wf_def)
  then have mq: "map_of (kq_states q) k = Some Queued" by (simp add: state_of_def)
  define q' where "q' = emit (?a\<lparr>kq_states := AList.update k (Processing False ?t) (kq_states q),
      kq_nextToken := ?t + 1\<rparr>) [TakeResolved call (Some (k, ?t))]"
  have l: "lease_to q call = Inr q'"
    using mq by (simp add: lease_to_def leaseReadyWork_def Let_def k advanceReady_frame q'_def)
  have f: "pend q' = ks" "waits q' = waits q" "leases q' = leases q @ [(k, ?t)]"
    "kq_states q' = AList.update k (Processing False ?t) (kq_states q)" "kq_completed q' = kq_completed q"
    "kq_nextToken q' = ?t + 1" "same_stop q q'" "kq_heads q'"
    "\<And>j. state_of q' j = (if j = k then Some (Processing False ?t) else state_of q j)"
    using k(2) advanceReady_heads [OF _ h] wf advanceReady_frame [of q]
    by (simp_all add: q'_def emit_def pend_def waits_def leases_def same_stop_def kq_heads_def kq_wf_def state_of_def)
  have fresh: "?t \<notin> snd ` set (leases q)" using wf by (fastforce simp: kq_wf_def)
  then have done_fresh: "?t \<notin> set (kq_completed q)" using wf by (auto simp: kq_wf_def)
  have "kq_wf q'"
    using wf r f fresh done_fresh queued
    by (auto simp: kq_wf_def distinct_update less_Suc_eq split: if_splits)
  with l f that show ?thesis by blast
qed

subsection \<open>Dispatching\<close>

definition order :: "'k keyed_queue \<Rightarrow> 'k list" where
  \<comment> \<open>the keys leased so far, then the keys waiting for a lease\<close>
  "order q = map fst (leases q) @ pend q"

fun weight :: "key_state \<Rightarrow> nat" where
  \<comment> \<open>leases and completions still needed for the key\<close>
  "weight Queued = 2"
| "weight (Processing dirty _) = (if dirty then 3 else 1)"

definition work :: "'k keyed_queue \<Rightarrow> nat" where
  "work q = sum_list (map (\<lambda>e. weight (snd e)) (kq_states q))"

lemma sum_update:
  "distinct (map fst xs) \<Longrightarrow> map_of xs k = Some v \<Longrightarrow>
     sum_list (map (\<lambda>e. weight (snd e)) (AList.update k w xs)) + weight v
       = sum_list (map (\<lambda>e. weight (snd e)) xs) + weight w"
  by (induction xs) (auto split: if_splits)

lemma sum_delete:
  "distinct (map fst xs) \<Longrightarrow> map_of xs k = Some v \<Longrightarrow>
     sum_list (map (\<lambda>e. weight (snd e)) (AList.delete k xs)) + weight v
       = sum_list (map (\<lambda>e. weight (snd e)) xs)"
proof (induction xs)
  case (Cons x xs)
  then show ?case
    by (cases x) (auto simp: delete_id dest: weak_map_of_SomeI)
qed simp

text \<open>A view only depends on its own fields.\<close>

lemma view_simps [simp]:
  "pend (q\<lparr>kq_takeWaiters := ws\<rparr>) = pend q"
  "pend (q\<lparr>kq_takeWaiterHead := n\<rparr>) = pend q"
  "pend (q\<lparr>kq_drainWaiters := ds\<rparr>) = pend q"
  "pend (q\<lparr>kq_closed := b\<rparr>) = pend q"
  "pend (q\<lparr>kq_aborted := b\<rparr>) = pend q"
  "pend (q\<lparr>kq_closeCompletion := c\<rparr>) = pend q"
  "pend (q\<lparr>kq_completed := ts\<rparr>) = pend q"
  "pend (q\<lparr>kq_log := es\<rparr>) = pend q"
  "pend (q\<lparr>kq_states := ss\<rparr>) = pend q"
  "pend (q\<lparr>kq_nextToken := n\<rparr>) = pend q"
  "waits (q\<lparr>kq_drainWaiters := ds\<rparr>) = waits q"
  "waits (q\<lparr>kq_closed := b\<rparr>) = waits q"
  "waits (q\<lparr>kq_aborted := b\<rparr>) = waits q"
  "waits (q\<lparr>kq_closeCompletion := c\<rparr>) = waits q"
  "waits (q\<lparr>kq_completed := ts\<rparr>) = waits q"
  "waits (q\<lparr>kq_log := es\<rparr>) = waits q"
  "waits (q\<lparr>kq_ready := ks\<rparr>) = waits q"
  "waits (q\<lparr>kq_readyHead := n\<rparr>) = waits q"
  "waits (q\<lparr>kq_states := ss\<rparr>) = waits q"
  "waits (q\<lparr>kq_nextToken := n\<rparr>) = waits q"
  "leases (q\<lparr>kq_takeWaiters := ws\<rparr>) = leases q"
  "leases (q\<lparr>kq_takeWaiterHead := n\<rparr>) = leases q"
  "leases (q\<lparr>kq_drainWaiters := ds\<rparr>) = leases q"
  "leases (q\<lparr>kq_closed := b\<rparr>) = leases q"
  "leases (q\<lparr>kq_aborted := b\<rparr>) = leases q"
  "leases (q\<lparr>kq_closeCompletion := c\<rparr>) = leases q"
  "leases (q\<lparr>kq_completed := ts\<rparr>) = leases q"
  "leases (q\<lparr>kq_ready := ks\<rparr>) = leases q"
  "leases (q\<lparr>kq_readyHead := n\<rparr>) = leases q"
  "leases (q\<lparr>kq_states := ss\<rparr>) = leases q"
  "leases (q\<lparr>kq_nextToken := n\<rparr>) = leases q"
  "state_of (q\<lparr>kq_takeWaiters := ws\<rparr>) = state_of q"
  "state_of (q\<lparr>kq_takeWaiterHead := n\<rparr>) = state_of q"
  "state_of (q\<lparr>kq_drainWaiters := ds\<rparr>) = state_of q"
  "state_of (q\<lparr>kq_closed := b\<rparr>) = state_of q"
  "state_of (q\<lparr>kq_aborted := b\<rparr>) = state_of q"
  "state_of (q\<lparr>kq_closeCompletion := c\<rparr>) = state_of q"
  "state_of (q\<lparr>kq_completed := ts\<rparr>) = state_of q"
  "state_of (q\<lparr>kq_log := es\<rparr>) = state_of q"
  "state_of (q\<lparr>kq_ready := ks\<rparr>) = state_of q"
  "state_of (q\<lparr>kq_readyHead := n\<rparr>) = state_of q"
  "state_of (q\<lparr>kq_nextToken := n\<rparr>) = state_of q"
  "work (q\<lparr>kq_takeWaiters := ws\<rparr>) = work q"
  "work (q\<lparr>kq_takeWaiterHead := n\<rparr>) = work q"
  "work (q\<lparr>kq_drainWaiters := ds\<rparr>) = work q"
  "work (q\<lparr>kq_closed := b\<rparr>) = work q"
  "work (q\<lparr>kq_aborted := b\<rparr>) = work q"
  "work (q\<lparr>kq_closeCompletion := c\<rparr>) = work q"
  "work (q\<lparr>kq_completed := ts\<rparr>) = work q"
  "work (q\<lparr>kq_log := es\<rparr>) = work q"
  "work (q\<lparr>kq_ready := ks\<rparr>) = work q"
  "work (q\<lparr>kq_readyHead := n\<rparr>) = work q"
  "work (q\<lparr>kq_nextToken := n\<rparr>) = work q"
  "kq_heads (q\<lparr>kq_drainWaiters := ds\<rparr>) = kq_heads q"
  "kq_heads (q\<lparr>kq_closed := b\<rparr>) = kq_heads q"
  "kq_heads (q\<lparr>kq_aborted := b\<rparr>) = kq_heads q"
  "kq_heads (q\<lparr>kq_closeCompletion := c\<rparr>) = kq_heads q"
  "kq_heads (q\<lparr>kq_completed := ts\<rparr>) = kq_heads q"
  "kq_heads (q\<lparr>kq_log := es\<rparr>) = kq_heads q"
  "kq_heads (q\<lparr>kq_states := ss\<rparr>) = kq_heads q"
  "kq_heads (q\<lparr>kq_nextToken := n\<rparr>) = kq_heads q"
  by (simp_all add: pend_def waits_def leases_def state_of_def work_def kq_heads_def fun_eq_iff)

definition dispatched :: "'k keyed_queue \<Rightarrow> 'k keyed_queue \<Rightarrow> bool" where
  "dispatched q q' \<longleftrightarrow> kq_wf q' \<and> same_stop q q' \<and> order q' = order q
     \<and> map fst (kq_states q') = map fst (kq_states q)
     \<and> (\<forall>k t. state_of q' k = Some (Processing True t) \<longleftrightarrow> state_of q k = Some (Processing True t))
     \<and> set (leases q) \<subseteq> set (leases q') \<and> work q' \<le> work q"

lemma dispatched_refl: "kq_wf q \<Longrightarrow> dispatched q q"
  by (simp add: dispatched_def same_stop_def)

lemma dispatched_trans: "dispatched p q \<Longrightarrow> dispatched q r \<Longrightarrow> dispatched p r"
  by (auto simp: dispatched_def same_stop_def)

lemma lease_dispatched:
  assumes wf: "kq_wf q" and r: "pend q = k # ks"
  obtains q' where "lease_to q call = Inr q'" and "dispatched q q'" and "pend q' = ks"
    and "waits q' = waits q" and "leases q' = leases q @ [(k, kq_nextToken q)]" and "work q' < work q"
proof -
  let ?p = "Processing False (kq_nextToken q)"
  obtain q' where q': "lease_to q call = Inr q'" "kq_wf q'" "pend q' = ks" "waits q' = waits q"
    "kq_states q' = AList.update k ?p (kq_states q)"
    "leases q' = leases q @ [(k, kq_nextToken q)]" "same_stop q q'"
    using lease_to_result [OF wf r] by metis
  have queued: "map_of (kq_states q) k = Some Queued"
    using wf r by (auto simp: kq_wf_def state_of_def)
  then have keys: "map fst (kq_states q') = map fst (kq_states q)"
    using q'(5) by (auto simp: update_keys dest: map_of_SomeD) (force dest: map_of_SomeD)
  have "distinct (map fst (kq_states q))" using wf by (simp add: kq_wf_def)
  from sum_update [OF this queued, of ?p] have w: "work q' < work q"
    using q'(5) by (simp add: work_def)
  have "state_of q' j = (if j = k then Some ?p else state_of q j)" for j
    using q'(5) by (simp add: state_of_def)
  then have "dispatched q q'"
    using q' keys w queued r
    by (auto simp: dispatched_def order_def state_of_def split: if_splits)
  with q' w that show ?thesis by blast
qed

lemma dispatchOne_lease:
  "dispatchOne q = lease_to (q\<lparr>kq_takeWaiterHead := kq_takeWaiterHead q + 1\<rparr>)
     (kq_takeWaiters q ! kq_takeWaiterHead q)"
  by (simp add: dispatchOne_def lease_to_def Let_def)

lemma next_waiter:
  assumes "kq_wf q" and "waits q \<noteq> []"
  shows "kq_wf (q\<lparr>kq_takeWaiterHead := kq_takeWaiterHead q + 1\<rparr>)"
    and "dispatched q (q\<lparr>kq_takeWaiterHead := kq_takeWaiterHead q + 1\<rparr>)"
    and "waits (q\<lparr>kq_takeWaiterHead := kq_takeWaiterHead q + 1\<rparr>) = tl (waits q)"
    and "pend (q\<lparr>kq_takeWaiterHead := kq_takeWaiterHead q + 1\<rparr>) = pend q"
proof -
  let ?q = "q\<lparr>kq_takeWaiterHead := kq_takeWaiterHead q + 1\<rparr>"
  show "kq_wf ?q" using assms by (auto simp: kq_wf_def kq_heads_def waits_def)
  then show "dispatched q ?q" by (simp add: dispatched_def same_stop_def order_def)
  show "waits ?q = tl (waits q)" by (simp add: waits_def tl_drop drop_Suc)
qed simp

lemma dispatchLoop_result:
  "kq_wf q \<Longrightarrow> \<exists>q'. dispatchLoop q = Inr q' \<and> dispatched q q' \<and> (pend q' = [] \<or> waits q' = [])
     \<and> (waits q = [] \<longrightarrow> waits q' = [])"
proof (induction q rule: dispatchLoop.induct)
  case (1 q)
  show ?case
  proof (cases "hasReadyWork q \<and> hasTakeWaiter q")
    case True
    then obtain k ks where p: "pend q = k # ks" and w: "waits q \<noteq> []"
      by (auto simp: hasReadyWork_pend hasTakeWaiter_waits neq_Nil_conv)
    note nw = next_waiter [OF "1.prems" w]
    obtain q1 where q1: "dispatchOne q = Inr q1" "dispatched q q1"
      using lease_dispatched [OF nw(1) trans [OF nw(4) p]] dispatched_trans [OF nw(2)]
      unfolding dispatchOne_lease by metis
    then have "kq_wf q1" by (simp add: dispatched_def)
    from "1.IH" [OF True q1(1) this] obtain q2 where
      "dispatchLoop q1 = Inr q2" "dispatched q1 q2" "pend q2 = [] \<or> waits q2 = []" by blast
    with q1 True w dispatched_trans show ?thesis
      by (subst dispatchLoop.simps) auto
  next
    case False
    with "1.prems" show ?thesis
      by (subst dispatchLoop.simps) (auto simp: hasReadyWork_pend hasTakeWaiter_waits dispatched_refl)
  qed
qed

lemma dispatch_result:
  assumes "kq_wf q"
  obtains q' where "dispatchReadyWork q = Inr q'" and "dispatched q q'"
    and "pend q' = [] \<or> waits q' = []" and "waits q = [] \<Longrightarrow> waits q' = []"
proof -
  obtain p where p: "dispatchLoop q = Inr p" "dispatched q p" "pend p = [] \<or> waits p = []"
    "waits q = [] \<longrightarrow> waits p = []"
    using dispatchLoop_result [OF assms] by blast
  let ?p = "p\<lparr>kq_takeWaiters := [], kq_takeWaiterHead := 0\<rparr>"
  have w: "waits ?p = []" by (simp add: waits_def)
  have "kq_wf p" using p(2) by (simp add: dispatched_def)
  then have "kq_wf ?p" by (auto simp: kq_wf_def kq_heads_def)
  then have "dispatched p ?p" by (simp add: dispatched_def same_stop_def order_def)
  with p that w show ?thesis
    by (cases "hasTakeWaiter p") (auto simp: dispatchReadyWork_def intro: dispatched_trans)
qed

subsection \<open>Every operation keeps the invariant\<close>

lemma emit_simps [simp]:
  "pend (emit q es) = pend q" "waits (emit q es) = waits q" "state_of (emit q es) = state_of q"
  "work (emit q es) = work q" "leases (emit q es) = leases q @ event_leases es"
  "kq_states (emit q es) = kq_states q" "kq_completed (emit q es) = kq_completed q"
  "kq_nextToken (emit q es) = kq_nextToken q" "kq_closed (emit q es) = kq_closed q"
  "kq_aborted (emit q es) = kq_aborted q" "kq_closeCompletion (emit q es) = kq_closeCompletion q"
  "kq_drainWaiters (emit q es) = kq_drainWaiters q" "kq_log (emit q es) = kq_log q @ es"
  "kq_heads (emit q es) = kq_heads q"
  by (simp_all add: emit_def leases_def kq_heads_def)

lemma resolveTakeWaiters_simps [simp]:
  "pend (resolveTakeWaiters q) = pend q" "waits (resolveTakeWaiters q) = []"
  "state_of (resolveTakeWaiters q) = state_of q" "work (resolveTakeWaiters q) = work q"
  "leases (resolveTakeWaiters q) = leases q" "kq_states (resolveTakeWaiters q) = kq_states q"
  "kq_completed (resolveTakeWaiters q) = kq_completed q"
  "kq_nextToken (resolveTakeWaiters q) = kq_nextToken q" "kq_closed (resolveTakeWaiters q) = kq_closed q"
  "kq_aborted (resolveTakeWaiters q) = kq_aborted q"
  "kq_closeCompletion (resolveTakeWaiters q) = kq_closeCompletion q"
  "kq_drainWaiters (resolveTakeWaiters q) = kq_drainWaiters q"
  "filter (\<lambda>e. e = CloseResolved) (kq_log (resolveTakeWaiters q)) = filter (\<lambda>e. e = CloseResolved) (kq_log q)"
  by (simp_all add: resolveTakeWaiters_def) (simp add: waits_def)

lemma resolveTakeWaiters_wf: "kq_wf q \<Longrightarrow> kq_wf (resolveTakeWaiters q)"
  by (auto simp: kq_wf_def) (auto simp: kq_heads_def resolveTakeWaiters_def emit_def)

lemma wf_empty: "kq_wf q \<Longrightarrow> kq_states q = [] \<Longrightarrow> pend q = []"
  by (auto simp: kq_wf_def state_of_def intro: subset_empty [THEN iffD1])

lemma settle_frame:
  "kq_states (settleIdleWaiters q) = kq_states q" "leases (settleIdleWaiters q) = leases q"
  "pend (settleIdleWaiters q) = pend q" "kq_completed (settleIdleWaiters q) = kq_completed q"
  "kq_closed (settleIdleWaiters q) = kq_closed q" "kq_aborted (settleIdleWaiters q) = kq_aborted q"
  "state_of (settleIdleWaiters q) = state_of q" "work (settleIdleWaiters q) = work q"
  by (simp_all add: settleIdleWaiters_def resolveClose_def Let_def)

lemma resolveClose_wf: "kq_wf q \<Longrightarrow> kq_wf (resolveClose q)"
  by (simp add: resolveClose_def kq_wf_def)

lemma settle_wf: "kq_wf q \<Longrightarrow> kq_wf (settleIdleWaiters q)"
proof -
  assume "kq_wf q"
  then have "kq_wf (emit (q\<lparr>kq_drainWaiters := []\<rparr>) (map DrainResolved (kq_drainWaiters q)))"
    by (simp add: kq_wf_def)
  with \<open>kq_wf q\<close> show ?thesis
    by (auto simp: settleIdleWaiters_def Let_def intro: resolveClose_wf resolveTakeWaiters_wf)
qed

lemma settle_inv:
  assumes "kq_wf q" and "kq_closing q" and "pend q = [] \<or> waits q = []"
    and "kq_closeCompletion q = Some True \<longrightarrow> kq_states q = []"
  shows "kq_inv (settleIdleWaiters q)"
  using assms settle_wf [OF assms(1)] wf_empty [OF assms(1)]
  by (auto simp: kq_inv_def kq_closing_def kq_idle_def settleIdleWaiters_def resolveClose_def Let_def)

text \<open>Appending a key to the ready array, and setting its state to queued.\<close>

definition requeue :: "'k keyed_queue \<Rightarrow> 'k \<Rightarrow> 'k keyed_queue" where
  "requeue q key = q\<lparr>kq_states := AList.update key Queued (kq_states q), kq_ready := kq_ready q @ [key]\<rparr>"

lemma requeue_simps [simp]:
  "kq_heads q \<Longrightarrow> pend (requeue q key) = pend q @ [key]"
  "waits (requeue q key) = waits q" "leases (requeue q key) = leases q"
  "state_of (requeue q key) k = (if k = key then Some Queued else state_of q k)"
  "kq_states (requeue q key) = AList.update key Queued (kq_states q)"
  "kq_completed (requeue q key) = kq_completed q" "kq_nextToken (requeue q key) = kq_nextToken q"
  "kq_heads q \<Longrightarrow> kq_heads (requeue q key)"
  "kq_closed (requeue q key) = kq_closed q" "kq_aborted (requeue q key) = kq_aborted q"
  "kq_closeCompletion (requeue q key) = kq_closeCompletion q"
  "kq_drainWaiters (requeue q key) = kq_drainWaiters q" "kq_log (requeue q key) = kq_log q"
  by (simp_all add: requeue_def pend_def waits_def leases_def state_of_def kq_heads_def)

lemma dispatched_inv:
  assumes "dispatched q q'" and "kq_closing q" and "\<not> kq_aborted q" and "kq_states q \<noteq> []"
    and "kq_closeCompletion q \<noteq> Some True" and "pend q' = [] \<or> waits q' = []"
  shows "kq_inv q'"
proof -
  have "kq_states q' \<noteq> []" using assms by (auto simp: dispatched_def)
  with assms show ?thesis
    by (auto simp: kq_inv_def dispatched_def same_stop_def kq_closing_def kq_idle_def)
qed

lemma invD:
  assumes "kq_inv q"
  shows "kq_wf q" and "kq_closing q" and "kq_idle q" and "pend q = [] \<or> waits q = []" and "kq_heads q"
  using assms by (auto simp: kq_inv_def kq_wf_def)

fun arrivals :: "'k keyed_queue \<Rightarrow> 'k queue_op \<Rightarrow> 'k list" where
  \<comment> \<open>the keys an operation appends to the FIFO order\<close>
  "arrivals q (Signal key) = (if \<not> kq_closed q \<and> state_of q key = None then [key] else [])"
| "arrivals q (Done key token) =
     (if state_of q key = Some (Processing True token) \<and> \<not> kq_aborted q then [key] else [])"
| "arrivals q _ = []"

lemma signal_result:
  assumes i: "kq_inv q"
  obtains q' where "signal q key = Inr (\<not> kq_closed q, q')" and "kq_inv q'"
    and "order q' = order q @ arrivals q (Signal key)"
proof (cases "kq_closed q")
  case True
  with i that show ?thesis by (simp add: signal_def)
next
  case False
  note d = invD [OF i]
  have na: "\<not> kq_aborted q" "kq_closeCompletion q = None" using d(2) False by (auto simp: kq_closing_def)
  show ?thesis
  proof (cases "state_of q key")
    case None
    then have "key \<notin> set (map fst (kq_states q))"
      by (simp add: state_of_def map_of_eq_None_iff)
    with d None have "kq_wf (requeue q key)"
      by (auto simp: kq_wf_def distinct_update split: if_splits)
    then obtain q' where q': "dispatchReadyWork (requeue q key) = Inr q'" "dispatched (requeue q key) q'"
      "pend q' = [] \<or> waits q' = []" by (rule dispatch_result)
    have "kq_closing (requeue q key)" using d(2) na by (simp add: kq_closing_def)
    with q' na have "kq_inv q'" by (intro dispatched_inv [OF q'(2)]) simp_all
    moreover have "order q' = order q @ [key]"
      using q'(2) d(5) by (simp add: dispatched_def order_def)
    ultimately show ?thesis
      using that False None q'(1) by (simp add: signal_def state_of_def requeue_def)
  next
    case (Some st)
    show ?thesis
    proof (cases st)
      case Queued
      with that i False Some show ?thesis by (simp add: signal_def state_of_def)
    next
      case (Processing dirty token)
      let ?q = "q\<lparr>kq_states := AList.update key (Processing True token) (kq_states q)\<rparr>"
      have v: "state_of ?q = (state_of q)(key \<mapsto> Processing True token)"
        by (simp add: state_of_def fun_eq_iff)
      have ex: "(\<exists>d. state_of ?q k = Some (Processing d t)) \<longleftrightarrow> (\<exists>d. state_of q k = Some (Processing d t))"
        for k t using Some Processing by (cases "k = key") (auto simp: v)
      have "kq_wf ?q"
        using d(1) Some Processing unfolding kq_wf_def ex by (auto simp: v distinct_update)
      then have "kq_inv ?q"
        using i na by (auto simp: kq_inv_def kq_closing_def kq_idle_def)
      with that False Some Processing show ?thesis
        by (simp add: signal_def state_of_def order_def)
    qed
  qed
qed

lemma emit_wf: "event_leases es = [] \<Longrightarrow> kq_wf (emit q es) = kq_wf q"
  by (simp add: kq_wf_def)

lemma emit_none_inv: "kq_inv q \<Longrightarrow> kq_inv (emit q [TakeResolved call None])"
  "kq_inv q \<Longrightarrow> kq_inv (emit q [DrainResolved call])"
  by (auto simp: kq_inv_def emit_wf kq_closing_def kq_idle_def)

lemma take_result:
  assumes i: "kq_inv q"
  obtains q' where "takeItem q call = Inr q'" and "kq_inv q'" and "order q' = order q"
    and "work q' \<le> work q" and "pend q \<noteq> [] \<Longrightarrow> work q' < work q" and "kq_closed q' = kq_closed q"
proof -
  note d = invD [OF i]
  consider "kq_aborted q \<or> pend q = [] \<and> kq_closed q \<and> kq_states q = []"
    | "\<not> kq_aborted q" "pend q \<noteq> []" | "\<not> kq_aborted q" "pend q = []" "\<not> (kq_closed q \<and> kq_states q = [])"
    by blast
  then show ?thesis
  proof cases
    case 1
    then have "takeItem q call = Inr (emit q [TakeResolved call None])" "pend q = []"
      using d(2) by (auto simp: takeItem_def hasReadyWork_pend kq_closing_def)
    with that i show ?thesis by (simp add: emit_none_inv order_def)
  next
    case 2
    then obtain k ks where p: "pend q = k # ks" by (auto simp: neq_Nil_conv)
    obtain q' where q': "lease_to q call = Inr q'" "dispatched q q'" "waits q' = waits q"
      "work q' < work q" using lease_dispatched [OF d(1) p] by metis
    have "waits q = []" using d(4) p by simp
    moreover have "kq_states q \<noteq> []" using wf_empty [OF d(1)] p by auto
    ultimately have "kq_inv q'"
      using q' d 2 by (intro dispatched_inv [OF q'(2)]) (auto simp: kq_idle_def)
    moreover have "takeItem q call = Inr q'"
      using q'(1) 2 by (simp add: takeItem_def hasReadyWork_pend lease_to_def)
    ultimately show ?thesis using that q' by (auto simp: dispatched_def same_stop_def)
  next
    case 3
    let ?q = "q\<lparr>kq_takeWaiters := kq_takeWaiters q @ [call]\<rparr>"
    have "kq_wf ?q" using d by (auto simp: kq_wf_def kq_heads_def)
    then have "kq_inv ?q" using i 3 d(5) by (auto simp: kq_inv_def kq_closing_def kq_idle_def)
    with that 3 show ?thesis by (auto simp: takeItem_def hasReadyWork_pend order_def)
  qed
qed

lemma drains_wf: "kq_wf (q\<lparr>kq_drainWaiters := ds\<rparr>) = kq_wf q"
  by (simp add: kq_wf_def)

lemma drain_result:
  assumes i: "kq_inv q"
  shows "kq_inv (drain q call)" and "order (drain q call) = order q" and "work (drain q call) = work q"
proof -
  have "kq_inv (q\<lparr>kq_drainWaiters := kq_drainWaiters q @ [call]\<rparr>)" if "kq_states q \<noteq> []"
    using i that by (auto simp: kq_inv_def drains_wf kq_closing_def kq_idle_def)
  with i show "kq_inv (drain q call)" by (simp add: drain_def emit_none_inv)
  show "order (drain q call) = order q" "work (drain q call) = work q"
    by (simp_all add: drain_def order_def)
qed

lemma lease_active:
  assumes "kq_wf q"
  shows "(k, t) \<in> set (outstanding q) \<longleftrightarrow> (\<exists>d. state_of q k = Some (Processing d t))"
  using assms by (fastforce simp: kq_wf_def outstanding_def)

lemma complete_wf:
  assumes wf: "kq_wf q" and p: "state_of q key = Some (Processing dirty token)"
  shows "kq_wf (q\<lparr>kq_completed := token # kq_completed q, kq_states := AList.delete key (kq_states q)\<rparr>)"
    and "kq_wf (requeue (q\<lparr>kq_completed := token # kq_completed q\<rparr>) key)"
proof -
  have l: "(key, token) \<in> set (leases q)" using wf p by (auto simp: kq_wf_def)
  have other: "t \<noteq> token" if "(k, t) \<in> set (leases q)" "k \<noteq> key" for k t
  proof
    assume "t = token"
    moreover have "inj_on snd (set (leases q))" using wf by (simp add: kq_wf_def distinct_map)
    ultimately show False using l that by (metis inj_onD prod.inject snd_conv)
  qed
  have mine: "t = token \<or> t \<in> set (kq_completed q)" if "(key, t) \<in> set (leases q)" for t
    using wf p that by (fastforce simp: kq_wf_def)
  have key_pend: "key \<notin> set (pend q)" using wf p by (auto simp: kq_wf_def)
  let ?q = "q\<lparr>kq_completed := token # kq_completed q, kq_states := AList.delete key (kq_states q)\<rparr>"
  let ?r = "requeue (q\<lparr>kq_completed := token # kq_completed q\<rparr>) key"
  have still: "(\<forall>(k, t) \<in> set (leases q). t < kq_nextToken q \<and> (t \<in> set (token # kq_completed q)
      \<or> (\<exists>d. k \<noteq> key \<and> state_of q k = Some (Processing d t))))"
    using wf mine by (fastforce simp: kq_wf_def)
  have act: "state_of q k = Some (Processing d t) \<Longrightarrow> k \<noteq> key \<Longrightarrow>
      (k, t) \<in> set (leases q) \<and> t \<notin> set (token # kq_completed q)" for k d t
    using wf other by (fastforce simp: kq_wf_def)
  have v: "state_of ?q k = (if k = key then None else state_of q k)" for k
    by (simp add: state_of_def)
  have exq: "(\<exists>d. state_of ?q k = Some (Processing d t)) \<longleftrightarrow>
      (\<exists>d. k \<noteq> key \<and> state_of q k = Some (Processing d t))" for k t
    by (simp add: v del: state_of_simps)
  have exr: "(\<exists>d. state_of ?r k = Some (Processing d t)) \<longleftrightarrow>
      (\<exists>d. k \<noteq> key \<and> state_of q k = Some (Processing d t))" for k t by simp
  have base: "kq_heads q" "distinct (map fst (kq_states q))" "distinct (pend q)"
    "\<And>k. k \<in> set (pend q) \<longleftrightarrow> state_of q k = Some Queued" "distinct (map snd (leases q))"
    "set (kq_completed q) \<subseteq> snd ` set (leases q)" "token \<in> snd ` set (leases q)"
    using wf l by (simp_all add: kq_wf_def) (metis l snd_conv image_eqI)
  have ready: "k \<in> set (pend q) \<longleftrightarrow> state_of ?q k = Some Queued"
    "k \<in> set (pend q @ [key]) \<longleftrightarrow> state_of ?r k = Some Queued" for k
    using base(4) [of k] p by (simp_all add: v del: state_of_simps)
  have act_q: "\<forall>k d t. state_of ?q k = Some (Processing d t) \<longrightarrow>
      (k, t) \<in> set (leases q) \<and> t \<notin> set (token # kq_completed q)"
    and act_r: "\<forall>k d t. state_of ?r k = Some (Processing d t) \<longrightarrow>
      (k, t) \<in> set (leases q) \<and> t \<notin> set (token # kq_completed q)"
    using act by (auto simp: v simp del: state_of_simps split: if_splits)
  have dist: "distinct (map fst (AList.delete key (kq_states q)))"
    "distinct (map fst (AList.update key Queued (kq_states q)))"
    using base(2) by (simp_all add: distinct_delete distinct_update)
  show "kq_wf ?q"
    unfolding kq_wf_def exq using base still act_q ready(1) dist by (simp del: state_of_simps)
  show "kq_wf ?r"
    unfolding kq_wf_def exr using base still act_r ready(2) dist key_pend by simp
qed

lemma doneItem_result:
  assumes i: "kq_inv q" and o: "(key, token) \<in> set (outstanding q)"
  obtains q' where "doneItem q key token = Inr q'" and "kq_inv q'" and "work q' < work q"
    and "kq_closed q' = kq_closed q" and "order q' = order q @ arrivals q (Done key token)"
proof -
  note d = invD [OF i]
  let ?q = "q\<lparr>kq_completed := token # kq_completed q\<rparr>"
  obtain dirty where s: "state_of q key = Some (Processing dirty token)"
    using o d(1) by (auto simp: lease_active)
  then have m: "map_of (kq_states q) key = Some (Processing dirty token)" by (simp add: state_of_def)
  have ne: "kq_states q \<noteq> []" using m by auto
  have dist: "distinct (map fst (kq_states q))" using d(1) by (simp add: kq_wf_def)
  have not_done: "token \<notin> set (kq_completed q)" using o by (simp add: outstanding_def)
  show ?thesis
  proof (cases "dirty \<and> \<not> kq_aborted q")
    case True
    have wf: "kq_wf (requeue ?q key)" by (rule complete_wf(2) [OF d(1) s])
    then obtain q' where q': "dispatchReadyWork (requeue ?q key) = Inr q'" "dispatched (requeue ?q key) q'"
      "pend q' = [] \<or> waits q' = []" by (rule dispatch_result)
    have "kq_closing (requeue ?q key)" using d(2) True by (simp add: kq_closing_def)
    moreover have "kq_closeCompletion q \<noteq> Some True" using d(3) ne by (simp add: kq_idle_def)
    ultimately have "kq_inv q'" using q' True by (intro dispatched_inv [OF q'(2)]) simp_all
    moreover have "work (requeue ?q key) < work q"
      using sum_update [OF dist m, of Queued] True by (simp add: work_def)
    then have "work q' < work q" using q'(2) by (simp add: dispatched_def)
    moreover have "order q' = order q @ [key]" using q'(2) d(5) by (simp add: dispatched_def order_def)
    moreover have "doneItem q key token = Inr q'"
      using q'(1) m True not_done by (simp add: doneItem_def completeLease_def requeue_def)
    moreover have "kq_closed q' = kq_closed q" using q'(2) by (simp add: dispatched_def same_stop_def)
    ultimately show ?thesis using that s True by simp
  next
    case False
    let ?d = "?q\<lparr>kq_states := AList.delete key (kq_states q)\<rparr>"
    have "kq_wf ?d" by (rule complete_wf(1) [OF d(1) s])
    moreover have "kq_closing ?d"
      using d(2) by (auto simp: kq_closing_def state_of_def)
    moreover have "kq_closeCompletion q \<noteq> Some True" using d(3) ne by (simp add: kq_idle_def)
    ultimately have "kq_inv (settleIdleWaiters ?d)" using d(4) by (intro settle_inv) simp_all
    moreover have "work ?d < work q"
      using sum_delete [OF dist m] by (simp add: work_def split: if_splits)
    moreover have "doneItem q key token = Inr (settleIdleWaiters ?d)"
      using m False not_done by (auto simp: doneItem_def completeLease_def)
    ultimately show ?thesis using that s False by (simp add: settle_frame order_def)
  qed
qed

lemma doneItem_error:
  assumes i: "kq_inv q" and o: "(key, token) \<notin> set (outstanding q)"
  shows "\<not> isOk (doneItem q key token)"
proof -
  have "state_of q key \<noteq> Some (Processing d token)" for d
    using o lease_active [of q key token] invD(1) [OF i] by blast
  then show ?thesis
    by (auto simp: doneItem_def completeLease_def state_of_def split: option.splits key_state.splits)
qed

lemma beginClose_facts:
  assumes i: "kq_inv q"
  shows "kq_wf (beginClose q)" and "kq_closing (beginClose q)" and "kq_closed (beginClose q)"
    and "pend (beginClose q) = pend q" and "waits (beginClose q) = waits q"
    and "kq_states (beginClose q) = kq_states q" and "leases (beginClose q) = leases q"
    and "kq_completed (beginClose q) = kq_completed q"
    and "kq_aborted (beginClose q) = kq_aborted q" and "state_of (beginClose q) = state_of q"
    and "kq_closeCompletion (beginClose q) = Some True \<longrightarrow> kq_states q = []"
proof -
  note d = invD [OF i]
  let ?b = "q\<lparr>kq_closeCompletion := Some False, kq_closed := True\<rparr>"
  have cases: "beginClose q = (if kq_closeCompletion q = None then ?b else q)"
    by (simp add: beginClose_def)
  have "kq_wf ?b" using d(1) by (simp add: kq_wf_def)
  with d(1) show "kq_wf (beginClose q)" by (simp add: cases)
  have "kq_closing ?b" if "kq_closeCompletion q = None" using d(2) that by (simp add: kq_closing_def)
  with d(2) show "kq_closing (beginClose q)" by (simp add: cases)
  show "kq_closed (beginClose q)" using d(2) by (auto simp: cases kq_closing_def)
  show "kq_closeCompletion (beginClose q) = Some True \<longrightarrow> kq_states q = []"
    using d(3) by (simp add: cases kq_idle_def)
qed (simp_all add: beginClose_def)

lemma shutdown_result:
  assumes i: "kq_inv q"
  shows "kq_inv (shutdown q)" and "order (shutdown q) = order q" and "kq_closed (shutdown q)"
    and "work (shutdown q) = work q" and "outstanding (shutdown q) = outstanding q"
proof -
  note b = beginClose_facts [OF i]
  show "kq_inv (shutdown q)"
    unfolding shutdown_def using b invD(4) [OF i] by (intro settle_inv) simp_all
  show "order (shutdown q) = order q" "kq_closed (shutdown q)" "work (shutdown q) = work q"
    "outstanding (shutdown q) = outstanding q"
    using b by (simp_all add: shutdown_def order_def settle_frame work_def outstanding_def)
qed

lemma drop_pending_key: "e \<in> set (drop_pending x) \<Longrightarrow> fst e = fst x"
  by (cases x) (auto simp: drop_pending_def split: key_state.splits)

lemma drop_pending_keys: "fst ` set (concat (map drop_pending xs)) \<subseteq> fst ` set xs"
  by (auto dest!: drop_pending_key)

lemma drop_pending_facts:
  assumes "distinct (map fst xs)"
  shows "distinct (map fst (concat (map drop_pending xs)))"
    and "map_of (concat (map drop_pending xs)) k =
      (case map_of xs k of Some (Processing d t) \<Rightarrow> Some (Processing False t) | _ \<Rightarrow> None)"
    and "fst ` set (concat (map drop_pending xs)) \<subseteq> fst ` set xs"
proof -
  note sub = drop_pending_keys
  show "fst ` set (concat (map drop_pending xs)) \<subseteq> fst ` set xs" by (rule drop_pending_keys)
  have "distinct (map fst (concat (map drop_pending xs))) \<and>
    map_of (concat (map drop_pending xs)) k =
      (case map_of xs k of Some (Processing d t) \<Rightarrow> Some (Processing False t) | _ \<Rightarrow> None)"
    using assms
  proof (induction xs)
    case (Cons x xs)
    obtain j st where x: "x = (j, st)" by (cases x)
    have "j \<notin> fst ` set (concat (map drop_pending xs))" using Cons.prems sub [of xs] x by auto
    moreover from this have "map_of (concat (map drop_pending xs)) j = None" by (simp add: map_of_eq_None_iff)
    moreover have "map_of xs j = None" using Cons.prems x by (simp add: map_of_eq_None_iff)
    moreover have "drop_pending x = (case st of Queued \<Rightarrow> [] | Processing d t \<Rightarrow> [(j, Processing False t)])"
      by (simp add: x drop_pending_def)
    ultimately show ?case
      using Cons x by (cases st) simp_all
  qed simp
  then show "distinct (map fst (concat (map drop_pending xs)))"
    "map_of (concat (map drop_pending xs)) k =
      (case map_of xs k of Some (Processing d t) \<Rightarrow> Some (Processing False t) | _ \<Rightarrow> None)" by simp_all
qed

lemma abort_result:
  assumes i: "kq_inv q"
  shows "kq_inv (abortPending q)" and "kq_aborted (abortPending q)" and "pend (abortPending q) = []"
    and "waits (abortPending q) = []" and "leases (abortPending q) = leases q"
    and "outstanding (abortPending q) = outstanding q" and "work (abortPending q) \<le> work q"
proof -
  note d = invD [OF i] and b = beginClose_facts [OF i]
  let ?b = "beginClose q"
  let ?q = "?b\<lparr>kq_aborted := True, kq_states := concat (map drop_pending (kq_states ?b)),
      kq_ready := [], kq_readyHead := 0\<rparr>"
  have all: "kq_inv (abortPending q) \<and> kq_aborted (abortPending q) \<and> pend (abortPending q) = []
    \<and> waits (abortPending q) = [] \<and> leases (abortPending q) = leases q
    \<and> kq_completed (abortPending q) = kq_completed q \<and> work (abortPending q) \<le> work q"
  proof (cases "kq_aborted q")
    case True
    then have "?b = q" using d(2) by (auto simp: beginClose_def kq_closing_def)
    with True have "abortPending q = q" by (simp add: abortPending_def Let_def)
    moreover have "pend q = []" "waits q = []" using True d(2) by (simp_all add: kq_closing_def)
    ultimately show ?thesis using i True by simp
  next
    case False
    have dist: "distinct (map fst (kq_states q))" using d(1) by (simp add: kq_wf_def)
    note dp = drop_pending_facts [OF dist]
    define q2 where "q2 = ?q"
    have keys: "distinct (map fst (kq_states q2))" using dp(1) b(6) by (simp add: q2_def)
    have stop: "kq_aborted q2" "kq_closed q2 = kq_closed ?b" "kq_closeCompletion q2 = kq_closeCompletion ?b"
      "kq_log q2 = kq_log ?b" by (simp_all add: q2_def)
    have v: "state_of q2 k = (case state_of q k of Some (Processing d t) \<Rightarrow> Some (Processing False t) | _ \<Rightarrow> None)"
      for k using dp(2) [of k] b(6) by (simp add: q2_def state_of_def)
    have ex: "(\<exists>d. state_of q2 k = Some (Processing d t)) \<longleftrightarrow> (\<exists>d. state_of q k = Some (Processing d t))"
      for k t by (auto simp: v split: option.splits key_state.splits)
    have one: "state_of q2 k = Some (Processing d t) \<Longrightarrow> \<exists>e. state_of q k = Some (Processing e t)" for k d t
      using ex by blast
    have p: "pend q2 = []" "waits q2 = waits q" "leases q2 = leases q" "kq_completed q2 = kq_completed q"
      "kq_nextToken q2 = kq_nextToken q" "kq_heads q2"
      using b d(5) by (simp_all add: q2_def pend_def waits_def leases_def kq_heads_def beginClose_def)
    have nq: "state_of q2 k \<noteq> Some Queued" "state_of q2 k \<noteq> Some (Processing True t)" for k t
      by (auto simp: v split: option.splits key_state.splits)
    have wf: "kq_wf q2"
      unfolding kq_wf_def ex p using d(1) nq keys one p(6) by (simp add: kq_wf_def) blast
    have w: "work q2 \<le> work q"
    proof -
      have "sum_list (map (\<lambda>e. weight (snd e)) (concat (map drop_pending xs)))
          \<le> sum_list (map (\<lambda>e. weight (snd e)) xs)" for xs :: "('a \<times> key_state) list"
      proof (induction xs)
        case (Cons x xs)
        have "sum_list (map (\<lambda>e. weight (snd e)) (drop_pending x)) \<le> weight (snd x)"
          by (cases x) (auto simp: drop_pending_def split: key_state.splits)
        with Cons show ?case by simp
      qed simp
      with b(6) show ?thesis by (simp add: q2_def work_def)
    qed
    have "kq_closing (resolveTakeWaiters q2)"
      using b(2,3) p nq stop unfolding kq_closing_def by (simp add: False b(9))
    moreover have "kq_closeCompletion q2 = Some True \<longrightarrow> kq_states q2 = []"
      using b(11) b(6) by (simp add: q2_def)
    ultimately have "kq_inv (settleIdleWaiters (resolveTakeWaiters q2))"
      using resolveTakeWaiters_wf [OF wf] by (intro settle_inv) simp_all
    moreover have "abortPending q = settleIdleWaiters (resolveTakeWaiters q2)"
      using False b(9) by (simp add: q2_def abortPending_def Let_def)
    moreover have "waits (settleIdleWaiters (resolveTakeWaiters q2)) = []"
      by (simp add: settleIdleWaiters_def resolveClose_def Let_def)
    ultimately show ?thesis using p w stop(1) by (simp add: settle_frame)
  qed
  then show "kq_inv (abortPending q)" "kq_aborted (abortPending q)" "pend (abortPending q) = []"
    "waits (abortPending q) = []" "leases (abortPending q) = leases q" "work (abortPending q) \<le> work q"
    by simp_all
  show "outstanding (abortPending q) = outstanding q" using all by (simp add: outstanding_def)
qed

lemma kq_step_inv:
  assumes i: "kq_inv q" and s: "kq_step q op = Inr q'"
  shows "kq_inv q'"
proof (cases op)
  case (Signal key)
  obtain r where "signal q key = Inr (\<not> kq_closed q, r)" "kq_inv r"
    by (rule signal_result [OF i, of key])
  with Signal s show ?thesis by simp
next
  case (Take call)
  obtain r where "takeItem q call = Inr r" "kq_inv r" by (rule take_result [OF i, of call])
  with Take s show ?thesis by simp
next
  case (Done key token)
  have "(key, token) \<in> set (outstanding q)"
    using doneItem_error [OF i, of key token] Done s by fastforce
  from doneItem_result [OF i this] obtain r where "doneItem q key token = Inr r" "kq_inv r" by metis
  with Done s show ?thesis by simp
qed (use i s in \<open>auto simp: drain_result shutdown_result abort_result\<close>)

lemma newQueue_inv: "kq_inv newQueue"
  by (simp add: kq_inv_def kq_wf_def kq_closing_def kq_idle_def newQueue_def pend_def waits_def
      leases_def state_of_def kq_heads_def)

interpretation kq: step_machine kq_step kq_inv
  by unfold_locales (rule kq_step_inv)

definition reachable_queue :: "'k keyed_queue \<Rightarrow> bool" where
  "reachable_queue q \<longleftrightarrow> (\<exists>ops. run_steps kq_step newQueue ops = Inr q)"

lemma reachable_inv: "reachable_queue q \<Longrightarrow> kq_inv q"
  using kq.run_inv [OF newQueue_inv] by (auto simp: reachable_queue_def)

lemma work_zero: "work q = 0 \<longleftrightarrow> kq_states q = []"
proof -
  have "0 < weight st" for st by (cases st) auto
  then show ?thesis by (cases "kq_states q") (auto simp: work_def)
qed

lemma outstanding_state:
  "kq_inv q \<Longrightarrow> (k, t) \<in> set (outstanding q) \<longleftrightarrow> (\<exists>d. state_of q k = Some (Processing d t))"
  by (simp add: lease_active invD(1))

subsection \<open>Properties\<close>

text \<open>
  C13.  The internal invariant errors of the code are unreachable: from any reachable queue every
  operation returns, except completing a lease that is not outstanding (never issued, or already
  completed), which throws.
\<close>

theorem keyed_queue_total:
  assumes "reachable_queue q"
  shows "isOk (kq_step q op) \<longleftrightarrow> (case op of Done key token \<Rightarrow> (key, token) \<in> set (outstanding q) | _ \<Rightarrow> True)"
proof -
  have i: "kq_inv q" by (rule reachable_inv [OF assms])
  show ?thesis
  proof (cases op)
    case (Signal key)
    obtain r where "signal q key = Inr (\<not> kq_closed q, r)" by (rule signal_result [OF i, of key])
    with Signal show ?thesis by simp
  next
    case (Take call)
    obtain r where "takeItem q call = Inr r" by (rule take_result [OF i, of call])
    with Take show ?thesis by simp
  next
    case (Done key token)
    show ?thesis
    proof (cases "(key, token) \<in> set (outstanding q)")
      case True
      from doneItem_result [OF i this] obtain r where "doneItem q key token = Inr r" by metis
      with Done True show ?thesis by simp
    qed (use Done doneItem_error [OF i] in simp)
  qed simp_all
qed

theorem keyed_queue_total_witness:
  "\<exists>q. run_steps kq_step newQueue [Signal (7::nat), Take 0, Done 7 0] = Inr q
     \<and> \<not> isOk (kq_step q (Done 7 0))"
proof -
  let ?r = "run_steps kq_step newQueue [Signal (7::nat), Take 0, Done 7 0]"
  have "isOk ?r \<and> (case ?r of Inr q \<Rightarrow> outstanding q = [] | _ \<Rightarrow> False)" by code_simp
  then obtain q where q: "?r = Inr q" "outstanding q = []" by (auto simp: isOk_iff simp del: run_steps.simps)
  then have "reachable_queue q" unfolding reachable_queue_def by blast
  from keyed_queue_total [OF this, of "Done 7 0"] q show ?thesis by (auto simp del: run_steps.simps)
qed

text \<open>
  C14.  Mutual exclusion per key: in every reachable queue no two outstanding leases have the
  same key, no token is leased twice, and a key with an outstanding lease is not in the ready
  queue.
\<close>

theorem keyed_queue_exclusive:
  assumes "reachable_queue q"
  shows "distinct (map fst (outstanding q)) \<and> distinct (map snd (outstanding q))
     \<and> set (map fst (outstanding q)) \<inter> set (pend q) = {}"
proof -
  have i: "kq_inv q" by (rule reachable_inv [OF assms])
  note wf = invD(1) [OF i] and st = outstanding_state [OF i]
  have snd: "distinct (map snd (outstanding q))"
    using wf by (simp add: kq_wf_def outstanding_def distinct_map_filter)
  have "inj_on fst (set (outstanding q))"
  proof (rule inj_onI)
    fix x y assume "x \<in> set (outstanding q)" "y \<in> set (outstanding q)" "fst x = fst y"
    moreover obtain k t where "x = (k, t)" by (cases x)
    moreover obtain l u where "y = (l, u)" by (cases y)
    ultimately show "x = y" using st [of k t] st [of k u] by auto
  qed
  with snd have "distinct (map fst (outstanding q))" by (simp add: distinct_map)
  moreover have "set (map fst (outstanding q)) \<inter> set (pend q) = {}"
    using wf by (auto simp: kq_wf_def st)
  ultimately show ?thesis using snd by simp
qed

theorem keyed_queue_exclusive_witness:
  "\<exists>q. run_steps kq_step newQueue [Signal (7::nat), Signal 8, Take 0, Signal 7, Take 1] = Inr q
     \<and> distinct (map fst (outstanding q)) \<and> length (outstanding q) = 2"
proof -
  let ?r = "run_steps kq_step newQueue [Signal (7::nat), Signal 8, Take 0, Signal 7, Take 1]"
  have "isOk ?r \<and> (case ?r of Inr q \<Rightarrow> length (outstanding q) = 2 | _ \<Rightarrow> False)" by code_simp
  then obtain q where q: "?r = Inr q" "length (outstanding q) = 2"
    by (auto simp: isOk_iff simp del: run_steps.simps)
  then have "reachable_queue q" unfolding reachable_queue_def by blast
  from keyed_queue_exclusive [OF this] q show ?thesis by blast
qed

text \<open>
  FIFO: the keys leased so far followed by the keys waiting form one order that operations
  only extend at the end, by exactly the key of an accepted signal for an idle key or of a
  completed lease whose key was signalled meanwhile; aborting removes exactly the waiting keys.
\<close>

theorem keyed_queue_fifo:
  assumes "reachable_queue q" and "kq_step q op = Inr q'"
  shows "order q' = (if op = Abort then map fst (leases q) else order q @ arrivals q op)"
proof -
  have i: "kq_inv q" by (rule reachable_inv [OF assms(1)])
  show ?thesis
  proof (cases op)
    case (Signal key)
    obtain r where "signal q key = Inr (\<not> kq_closed q, r)" "order r = order q @ arrivals q (Signal key)"
      by (rule signal_result [OF i, of key])
    with Signal assms(2) show ?thesis by simp
  next
    case (Take call)
    obtain r where "takeItem q call = Inr r" "order r = order q" by (rule take_result [OF i, of call])
    with Take assms(2) show ?thesis by simp
  next
    case (Done key token)
    then have "(key, token) \<in> set (outstanding q)"
      using doneItem_error [OF i, of key token] assms(2) by fastforce
    from doneItem_result [OF i this] obtain r where
      "doneItem q key token = Inr r" "order r = order q @ arrivals q (Done key token)" by metis
    with Done assms(2) show ?thesis by simp
  next
    case Abort
    with assms(2) show ?thesis by (auto simp: abort_result [OF i] order_def)
  qed (use assms(2) in \<open>auto simp: drain_result [OF i] shutdown_result [OF i]\<close>)
qed

theorem keyed_queue_fifo_witness:
  "\<exists>q q'. run_steps kq_step newQueue [Signal (7::nat), Signal 8, Take 0, Signal 7] = Inr q
     \<and> kq_step q (Done 7 0) = Inr q' \<and> order q' = [7, 8, 7]"
proof -
  let ?r = "run_steps kq_step newQueue [Signal (7::nat), Signal 8, Take 0, Signal 7]"
  have "isOk ?r \<and> (case ?r of Inr q \<Rightarrow> isOk (kq_step q (Done 7 0)) \<and> order q = [7, 8]
      \<and> arrivals q (Done 7 0) = [7] | _ \<Rightarrow> False)" by code_simp
  then obtain q q' where q: "?r = Inr q" "kq_step q (Done 7 0) = Inr q'" "order q = [7, 8]"
      "arrivals q (Done 7 0) = [7]"
    by (auto simp: isOk_iff simp del: run_steps.simps arrivals.simps)
  then have "reachable_queue q" unfolding reachable_queue_def by blast
  from keyed_queue_fifo [OF this q(2)] q show ?thesis by auto
qed

text \<open>
  A signal accepted while its key is being processed is not lost: however often the key was
  signalled, completing the lease appends the key exactly once to the order.
\<close>

theorem keyed_queue_replay:
  assumes "reachable_queue q" and "(key, token) \<in> set (outstanding q)" and "\<not> kq_closed q"
    and "signal q key = Inr (accepted, q1)"
  shows "accepted \<and> (\<exists>q2. doneItem q1 key token = Inr q2 \<and> order q2 = order q @ [key])"
proof -
  have i: "kq_inv q" by (rule reachable_inv [OF assms(1)])
  obtain dirty where s: "state_of q key = Some (Processing dirty token)"
    using assms(2) outstanding_state [OF i] by blast
  obtain r where r: "signal q key = Inr (\<not> kq_closed q, r)" "kq_inv r" "order r = order q @ arrivals q (Signal key)"
    by (rule signal_result [OF i, of key])
  with assms(3,4) s have q1: "accepted" "kq_inv q1" "order q1 = order q" by simp_all
  have eq: "q1 = q\<lparr>kq_states := AList.update key (Processing True token) (kq_states q)\<rparr>"
    using assms(3,4) s by (simp add: signal_def state_of_def)
  then have st: "state_of q1 key = Some (Processing True token)" "\<not> kq_aborted q1"
    using invD(2) [OF i] assms(3) by (auto simp: kq_closing_def)
  then have "(key, token) \<in> set (outstanding q1)" using outstanding_state [OF q1(2)] by blast
  from doneItem_result [OF q1(2) this] obtain q2 where
    "doneItem q1 key token = Inr q2" "order q2 = order q1 @ arrivals q1 (Done key token)" by metis
  with q1 st show ?thesis by simp
qed

theorem keyed_queue_replay_witness:
  "\<exists>q q1. run_steps kq_step newQueue [Take 0, Signal (7::nat)] = Inr q \<and> signal q 7 = Inr (True, q1)
     \<and> (\<exists>q2. doneItem q1 7 0 = Inr q2 \<and> order q2 = order q @ [7])"
proof -
  let ?r = "run_steps kq_step newQueue [Take 0, Signal (7::nat)]"
  have "isOk ?r \<and> (case ?r of Inr q \<Rightarrow> isOk (signal q 7) \<and> \<not> kq_closed q
      \<and> (7, 0) \<in> set (outstanding q) | _ \<Rightarrow> False)" by code_simp
  then obtain q acc q1 where q: "?r = Inr q" "signal q 7 = Inr (acc, q1)" "\<not> kq_closed q"
      "(7, 0) \<in> set (outstanding q)"
    by (auto simp: isOk_iff simp del: run_steps.simps)
  then have "reachable_queue q" unfolding reachable_queue_def by blast
  from keyed_queue_replay [OF this q(4,3,2)] q show ?thesis by auto
qed

text \<open>
  A stopped queue finishes.  Once closed, a queue stays closed and no operation adds work;
  every completed lease and every take of a ready key strictly decreases it; and the promise of the
  stop is resolved exactly when no work is left.
\<close>

theorem keyed_queue_stops:
  assumes "reachable_queue q" and "kq_closed q" and "kq_step q op = Inr q'"
  shows "kq_closed q' \<and> work q' \<le> work q
     \<and> ((\<exists>key token. op = Done key token) \<or> (\<exists>call. op = Take call) \<and> pend q \<noteq> [] \<longrightarrow> work q' < work q)
     \<and> (kq_closeCompletion q' = Some True \<longleftrightarrow> work q' = 0)"
proof -
  have i: "kq_inv q" by (rule reachable_inv [OF assms(1)])
  have i': "kq_inv q'" by (rule kq_step_inv [OF i assms(3)])
  have "kq_closed q' \<and> work q' \<le> work q
     \<and> ((\<exists>key token. op = Done key token) \<or> (\<exists>call. op = Take call) \<and> pend q \<noteq> [] \<longrightarrow> work q' < work q)"
  proof (cases op)
    case (Signal key)
    with assms show ?thesis by (simp add: signal_def)
  next
    case (Take call)
    obtain r where "takeItem q call = Inr r" "work r \<le> work q" "pend q \<noteq> [] \<longrightarrow> work r < work q"
      "kq_closed r = kq_closed q" by (rule take_result [OF i, of call]) blast
    with Take assms(2,3) show ?thesis by auto
  next
    case (Done key token)
    then have "(key, token) \<in> set (outstanding q)"
      using doneItem_error [OF i, of key token] assms(3) by fastforce
    from doneItem_result [OF i this] obtain r where
      "doneItem q key token = Inr r" "work r < work q" "kq_closed r = kq_closed q" by metis
    with Done assms(2,3) show ?thesis by simp
  next
    case (Drain call)
    with assms show ?thesis by (auto simp: drain_def)
  next
    case Shutdown
    with assms show ?thesis by (auto simp: shutdown_result [OF i])
  next
    case Abort
    with assms abort_result [OF i] invD(2) [OF abort_result(1) [OF i]] show ?thesis
      by (auto simp: kq_closing_def)
  qed
  moreover from this have "kq_closeCompletion q' = Some True \<longleftrightarrow> kq_states q' = []"
    using invD(3) [OF i'] by (auto simp: kq_idle_def)
  ultimately show ?thesis by (simp add: work_zero)
qed

theorem keyed_queue_stops_witness:
  "\<exists>q q'. run_steps kq_step newQueue [Signal (7::nat), Take 0, Shutdown] = Inr q
     \<and> kq_step q (Done 7 0) = Inr q' \<and> work q' < work q"
proof -
  let ?r = "run_steps kq_step newQueue [Signal (7::nat), Take 0, Shutdown]"
  have "isOk ?r \<and> (case ?r of Inr q \<Rightarrow> isOk (kq_step q (Done 7 0)) \<and> kq_closed q | _ \<Rightarrow> False)" by code_simp
  then obtain q q' where q: "?r = Inr q" "kq_step q (Done 7 0) = Inr q'" "kq_closed q"
    by (auto simp: isOk_iff simp del: run_steps.simps)
  then have "reachable_queue q" unfolding reachable_queue_def by blast
  from keyed_queue_stops [OF this q(3,2)] q show ?thesis by auto
qed

text \<open>
  \<open>abortPending\<close> drops every waiting key and answers every waiting take, but leaves the
  outstanding leases as they are; completing one of them afterwards never replays its key.
\<close>

theorem keyed_queue_abort:
  assumes "reachable_queue q"
  shows "pend (abortPending q) = [] \<and> waits (abortPending q) = []
     \<and> outstanding (abortPending q) = outstanding q
     \<and> (\<forall>(key, token) \<in> set (outstanding q). \<exists>q'. doneItem (abortPending q) key token = Inr q'
          \<and> order q' = map fst (leases q))"
proof -
  have i: "kq_inv q" by (rule reachable_inv [OF assms])
  note a = abort_result [OF i]
  have "\<exists>q'. doneItem (abortPending q) key token = Inr q' \<and> order q' = map fst (leases q)"
    if "(key, token) \<in> set (outstanding q)" for key token
  proof -
    have "(key, token) \<in> set (outstanding (abortPending q))" using that a by simp
    from doneItem_result [OF a(1) this] obtain q' where "doneItem (abortPending q) key token = Inr q'"
      "order q' = order (abortPending q) @ arrivals (abortPending q) (Done key token)" by metis
    with a show ?thesis by (simp add: order_def)
  qed
  with a show ?thesis by auto
qed

theorem keyed_queue_abort_witness:
  "\<exists>q. run_steps kq_step newQueue [Signal (7::nat), Signal 8, Take 0, Signal 7] = Inr q
     \<and> outstanding (abortPending q) = [(7, 0)] \<and> pend (abortPending q) = []"
proof -
  let ?r = "run_steps kq_step newQueue [Signal (7::nat), Signal 8, Take 0, Signal 7]"
  have "isOk ?r \<and> (case ?r of Inr q \<Rightarrow> outstanding q = [(7, 0)] | _ \<Rightarrow> False)" by code_simp
  then obtain q where q: "?r = Inr q" "outstanding q = [(7, 0)]"
    by (auto simp: isOk_iff simp del: run_steps.simps)
  then have "reachable_queue q" unfolding reachable_queue_def by blast
  from keyed_queue_abort [OF this] q show ?thesis by auto
qed

end
