(* ===== verification/Draft_Plan.thy ===== *)
theory Draft_Plan
  imports Yui_Validation
begin

section \<open>Draft plans and the dependency gate\<close>

text \<open>
  \<open>src/task/draftPlan.ts\<close> and \<open>src/workItem/dependencyGate.ts\<close>.  A Draft Task may be activated
  when nothing has been executed yet, every Work Item refers to Roles and Projects that exist, and
  the dependency graph of the Work Items that are not retired has no missing target and no cycle.
  The depth-first search of \<open>draftWorkItemDependencyIssue\<close> is translated with its two sets; the
  lemmas show that it decides exactly that: it reports an issue if and only if there is one, and a
  reported cycle edge lies on a cycle of the graph.

  \<open>plan_item\<close> holds the fields of a Work Item that these functions read (its other fields extend
  the record), \<open>draft_store\<close> the lists that the functions read from the store.
\<close>

subsection \<open>Data\<close>

datatype work_item_status = WI_Open | WI_Accepted | WI_Retired

record base_ref =
  br_projectId :: string
  br_baseRef :: string

record plan_item =
  wi_id :: string
  wi_taskId :: string
  wi_status :: work_item_status
  wi_dependsOn :: "string list"
  wi_assignee :: "string option"
  wi_writeProjectIds :: "string list"
  wi_baseRefs :: "base_ref list option"

datatype dependency_issue =
    MissingOrRetired string string  \<comment> \<open>work item, dependency\<close>
  | DependencyCycle string string

subsection \<open>The dependency graph\<close>

definition current_items :: "plan_item list \<Rightarrow> plan_item list" where
  "current_items items = filter (\<lambda>i. wi_status i \<noteq> WI_Retired) items"

text \<open>\<open>new Map(current.map((item) => [item.id, item]))\<close>: of equal ids the last one counts.\<close>

definition by_id :: "plan_item list \<Rightarrow> string \<Rightarrow> plan_item option" where
  "by_id items k = map_of (rev (map (\<lambda>i. (wi_id i, i)) items)) k"

fun missing_dependency :: "plan_item list \<Rightarrow> plan_item list \<Rightarrow> dependency_issue option" where
  "missing_dependency current [] = None"
| "missing_dependency current (item # items) =
     (case find (\<lambda>d. by_id current d = None) (wi_dependsOn item) of
        Some d \<Rightarrow> Some (MissingOrRetired (wi_id item) d)
      | None \<Rightarrow> missing_dependency current items)"

lemma by_id_Some: "by_id items k = Some i \<Longrightarrow> i \<in> set items \<and> wi_id i = k"
  by (auto simp: by_id_def dest!: map_of_SomeD)

text \<open>
  The loop of \<open>visit\<close> over the dependencies of the item \<open>wid\<close>.  \<open>visiting\<close> is the set of that name
  with \<open>wid\<close> already added; it is an argument, because each call takes out what it put in before it
  returns.  \<open>visited\<close> is threaded through.  Of the items only the ids are needed for termination:
  every nested call adds to \<open>visiting\<close> an id of the finite list.
\<close>

function visitDeps ::
    "plan_item list \<Rightarrow> string \<Rightarrow> string list \<Rightarrow> string list \<Rightarrow> string list
       \<Rightarrow> dependency_issue option \<times> string list" where
  "visitDeps items wid [] visiting visited = (None, wid # visited)"
| "visitDeps items wid (d # ds) visiting visited =
     (if d \<in> set visiting then (Some (DependencyCycle wid d), visited)
      else if d \<in> set visited then visitDeps items wid ds visiting visited
      else (case by_id items d of
              None \<Rightarrow> visitDeps items wid ds visiting visited
            | Some dependency \<Rightarrow>
                (case visitDeps items (wi_id dependency) (wi_dependsOn dependency)
                        (wi_id dependency # visiting) visited of
                   (Some issue, v) \<Rightarrow> (Some issue, v)
                 | (None, v) \<Rightarrow> visitDeps items wid ds visiting v)))"
  by pat_completeness auto
termination
proof (relation "inv_image (less_than <*lex*> less_than)
    (\<lambda>(items, wid, ds, visiting, visited). (card (set (map wi_id items) - set visiting), length ds))")
  fix items :: "plan_item list" and wid d :: string and ds visiting visited :: "string list"
    and dependency :: plan_item
  assume "d \<notin> set visiting" and "by_id items d = Some dependency"
  then have "wi_id dependency \<in> set (map wi_id items) - set visiting"
    by (auto dest!: by_id_Some)
  then have "card (set (map wi_id items) - set (wi_id dependency # visiting))
      < card (set (map wi_id items) - set visiting)"
    by (intro psubset_card_mono) auto
  then show "((items, wi_id dependency, wi_dependsOn dependency, wi_id dependency # visiting, visited),
      items, wid, d # ds, visiting, visited)
      \<in> inv_image (less_than <*lex*> less_than)
          (\<lambda>(items, wid, ds, visiting, visited). (card (set (map wi_id items) - set visiting), length ds))"
    by simp
qed auto

definition visit :: "plan_item list \<Rightarrow> plan_item \<Rightarrow> string list \<Rightarrow> dependency_issue option \<times> string list" where
  "visit items item visited = visitDeps items (wi_id item) (wi_dependsOn item) [wi_id item] visited"

fun visitAll :: "plan_item list \<Rightarrow> plan_item list \<Rightarrow> string list \<Rightarrow> dependency_issue option" where
  "visitAll items [] visited = None"
| "visitAll items (item # rest) visited =
     (if wi_id item \<in> set visited then visitAll items rest visited
      else (case visit items item visited of
              (Some issue, _) \<Rightarrow> Some issue
            | (None, v) \<Rightarrow> visitAll items rest v))"

definition draftWorkItemDependencyIssue :: "plan_item list \<Rightarrow> plan_item option \<Rightarrow> dependency_issue option" where
  "draftWorkItemDependencyIssue workItems onlyItem =
     (let current = current_items workItems
      in case missing_dependency current (case onlyItem of None \<Rightarrow> current | Some item \<Rightarrow> [item]) of
           Some issue \<Rightarrow> Some issue
         | None \<Rightarrow> visitAll current current [])"

definition assertDraftWorkItemDependencyGraph :: "plan_item list \<Rightarrow> plan_item option \<Rightarrow> unit result" where
  "assertDraftWorkItemDependencyGraph workItems onlyItem =
     (case draftWorkItemDependencyIssue workItems onlyItem of
        None \<Rightarrow> Inr ()
      | Some (MissingOrRetired _ _) \<Rightarrow> throw ''Work Item dependency is missing or retired''
      | Some (DependencyCycle _ _) \<Rightarrow> throw ''Work Item dependency cycle detected'')"

subsection \<open>The search decides acyclicity\<close>

definition edges :: "plan_item list \<Rightarrow> (string \<times> string) set" where
  "edges items = {(a, b). \<exists>i. by_id items a = Some i \<and> b \<in> set (wi_dependsOn i) \<and> by_id items b \<noteq> None}"

definition settled :: "plan_item list \<Rightarrow> string set \<Rightarrow> bool" where
  "settled items V \<longleftrightarrow> edges items `` V \<subseteq> V \<and> (\<forall>x \<in> V. (x, x) \<notin> (edges items)\<^sup>+)"

lemma closed_reach: "E `` V \<subseteq> V \<Longrightarrow> (x, y) \<in> E\<^sup>* \<Longrightarrow> x \<in> V \<Longrightarrow> y \<in> V"
  by (erule rtrancl_induct) auto

lemma settled_insert:
  assumes s: "settled items V" and w: "w \<notin> V" and out: "edges items `` {w} \<subseteq> V"
  shows "settled items (insert w V)"
proof -
  let ?E = "edges items"
  have closed: "?E `` V \<subseteq> V" and no: "\<forall>x \<in> V. (x, x) \<notin> ?E\<^sup>+"
    using s by (auto simp: settled_def)
  have "(w, w) \<notin> ?E\<^sup>+"
  proof
    assume "(w, w) \<in> ?E\<^sup>+"
    then obtain y where y: "(w, y) \<in> ?E" "(y, w) \<in> ?E\<^sup>*" by (meson tranclD)
    with out have "y \<in> V" by auto
    with closed_reach [OF closed y(2)] w show False by simp
  qed
  with closed no out show ?thesis by (auto simp: settled_def)
qed

definition on_cycle :: "plan_item list \<Rightarrow> dependency_issue \<Rightarrow> bool" where
  "on_cycle items issue \<longleftrightarrow>
     (\<exists>w d. issue = DependencyCycle w d \<and> (w, d) \<in> edges items \<and> (d, w) \<in> (edges items)\<^sup>*)"

definition visit_post :: "plan_item list \<Rightarrow> string \<Rightarrow> string list \<Rightarrow> string list
    \<Rightarrow> dependency_issue option \<times> string list \<Rightarrow> bool" where
  "visit_post items wid visiting visited r \<longleftrightarrow>
     (case r of
        (Some issue, _) \<Rightarrow> on_cycle items issue
      | (None, v) \<Rightarrow> settled items (set v) \<and> set visited \<subseteq> set v \<and> wid \<in> set v
                    \<and> set v \<inter> (set visiting - {wid}) = {})"

lemma visitDeps_correct:
  assumes "settled items (set visited)" and "set visited \<inter> set visiting = {}" and "wid \<in> set visiting"
    and "\<forall>x \<in> set visiting. (x, wid) \<in> (edges items)\<^sup>* \<and> by_id items x \<noteq> None"
    and "\<forall>d \<in> set ds. by_id items d \<noteq> None \<longrightarrow> (wid, d) \<in> edges items"
    and "\<forall>d. (wid, d) \<in> edges items \<longrightarrow> d \<in> set ds \<or> d \<in> set visited"
  shows "visit_post items wid visiting visited (visitDeps items wid ds visiting visited)"
  using assms
proof (induction items wid ds visiting visited rule: visitDeps.induct)
  case (1 items wid visiting visited)
  then have "settled items (insert wid (set visited))"
    by (intro settled_insert) auto
  with 1 show ?case by (auto simp: visit_post_def)
next
  case (2 items wid d ds visiting visited)
  consider "d \<in> set visiting" | "d \<notin> set visiting" "d \<in> set visited"
    | "d \<notin> set visiting" "d \<notin> set visited" "by_id items d = None"
    | i where "d \<notin> set visiting" "d \<notin> set visited" "by_id items d = Some i" by fast
  then show ?case
  proof cases
    case 1
    with "2.prems" have "on_cycle items (DependencyCycle wid d)" by (auto simp: on_cycle_def)
    with 1 show ?thesis by (simp add: visit_post_def)
  next
    case 2
    with "2.prems" have "visit_post items wid visiting visited (visitDeps items wid ds visiting visited)"
      by (intro "2.IH"(1)) auto
    with 2 show ?thesis by simp
  next
    case 3
    then have "(wid, d) \<notin> edges items" by (simp add: edges_def)
    with 3 "2.prems" have "visit_post items wid visiting visited (visitDeps items wid ds visiting visited)"
      by (intro "2.IH"(2)) auto
    with 3 show ?thesis by simp
  next
    case (4 i)
    have id: "wi_id i = d" using by_id_Some [OF 4(3)] by simp
    have wd: "(wid, d) \<in> edges items" using "2.prems"(5) 4(3) by simp
    have inner: "visit_post items d (d # visiting) visited
        (visitDeps items d (wi_dependsOn i) (d # visiting) visited)"
      unfolding id [symmetric]
    proof (rule "2.IH"(3) [OF 4])
      show "\<forall>x \<in> set (wi_id i # visiting). (x, wi_id i) \<in> (edges items)\<^sup>* \<and> by_id items x \<noteq> None"
        using "2.prems"(4) wd 4(3) id by (auto intro: rtrancl.rtrancl_into_rtrancl)
      show "\<forall>e \<in> set (wi_dependsOn i). by_id items e \<noteq> None \<longrightarrow> (wi_id i, e) \<in> edges items"
        "\<forall>e. (wi_id i, e) \<in> edges items \<longrightarrow> e \<in> set (wi_dependsOn i) \<or> e \<in> set visited"
        using 4(3) id by (auto simp: edges_def)
    qed (use "2.prems" 4 id in auto)
    show ?thesis
    proof (cases "visitDeps items d (wi_dependsOn i) (d # visiting) visited")
      case (Pair res v)
      show ?thesis
      proof (cases res)
        case (Some issue)
        with inner Pair 4 id show ?thesis by (simp add: visit_post_def)
      next
        case None
        with inner Pair have v: "settled items (set v)" "set visited \<subseteq> set v" "d \<in> set v"
          "set v \<inter> set visiting \<subseteq> {d}" by (auto simp: visit_post_def)
        have "visit_post items wid visiting v (visitDeps items wid ds visiting v)"
          using "2.prems" 4 v id Pair None by (intro "2.IH"(4) [OF 4]) auto
        with Pair None 4 id v(2) show ?thesis by (auto simp: visit_post_def split: option.splits)
      qed
    qed
  qed
qed

definition ids_distinct :: "plan_item list \<Rightarrow> bool" where
  "ids_distinct items \<longleftrightarrow> distinct (map wi_id items)"

lemma by_id_mem: "ids_distinct items \<Longrightarrow> i \<in> set items \<Longrightarrow> by_id items (wi_id i) = Some i"
  unfolding by_id_def ids_distinct_def
  by (rule map_of_is_SomeI) (auto simp: rev_map [symmetric] comp_def)

lemma visit_correct:
  assumes d: "ids_distinct items" and i: "i \<in> set items"
    and v: "settled items (set visited)" "wi_id i \<notin> set visited"
  shows "visit_post items (wi_id i) [wi_id i] visited (visit items i visited)"
proof -
  have b: "by_id items (wi_id i) = Some i" by (rule by_id_mem [OF d i])
  show ?thesis
    unfolding visit_def
    by (rule visitDeps_correct) (use v b in \<open>auto simp: edges_def\<close>)
qed

lemma visitAll_correct:
  assumes "ids_distinct items" and "set rest \<subseteq> set items" and "settled items (set visited)"
  shows "case visitAll items rest visited of
      Some issue \<Rightarrow> on_cycle items issue
    | None \<Rightarrow> \<exists>V. settled items V \<and> set visited \<subseteq> V \<and> wi_id ` set rest \<subseteq> V"
  using assms
proof (induction items rest visited rule: visitAll.induct)
  case (1 items visited)
  then show ?case by auto
next
  case (2 items item rest visited)
  show ?case
  proof (cases "wi_id item \<in> set visited")
    case True
    have "case visitAll items rest visited of Some issue \<Rightarrow> on_cycle items issue
        | None \<Rightarrow> \<exists>V. settled items V \<and> set visited \<subseteq> V \<and> wi_id ` set rest \<subseteq> V"
      using "2.IH"(1) [OF True] "2.prems" by simp
    with True show ?thesis by (auto split: option.splits)
  next
    case False
    obtain res v where r: "visit items item visited = (res, v)" by (cases "visit items item visited")
    have post: "visit_post items (wi_id item) [wi_id item] visited (res, v)"
      using visit_correct [of items item visited] "2.prems" False r by simp
    show ?thesis
    proof (cases res)
      case None
      with post have "settled items (set v)" "set visited \<subseteq> set v" "wi_id item \<in> set v"
        by (auto simp: visit_post_def)
      moreover from this "2.IH"(2) [OF False r [symmetric] None] "2.prems"
      have "case visitAll items rest v of Some issue \<Rightarrow> on_cycle items issue
        | None \<Rightarrow> \<exists>V. settled items V \<and> set v \<subseteq> V \<and> wi_id ` set rest \<subseteq> V" by simp
      ultimately show ?thesis using None False r by (auto split: option.splits)
    next
      case (Some issue)
      with post r False show ?thesis by (simp add: visit_post_def)
    qed
  qed
qed

lemma find_SomeD: "find P xs = Some x \<Longrightarrow> x \<in> set xs \<and> P x"
  by (induction xs) (auto split: if_splits)

lemma missing_None:
  "missing_dependency current items = None \<longleftrightarrow>
     (\<forall>i \<in> set items. \<forall>d \<in> set (wi_dependsOn i). by_id current d \<noteq> None)"
  by (induction items) (auto simp: find_None_iff split: option.splits dest: find_SomeD)

lemma missing_Some:
  "missing_dependency current items = Some issue \<Longrightarrow>
     \<exists>i \<in> set items. \<exists>d \<in> set (wi_dependsOn i). by_id current d = None \<and> issue = MissingOrRetired (wi_id i) d"
proof (induction items)
  case (Cons i items)
  show ?case
  proof (cases "find (\<lambda>d. by_id current d = None) (wi_dependsOn i)")
    case None
    with Cons show ?thesis by auto
  next
    case (Some d)
    then have "d \<in> set (wi_dependsOn i)" "by_id current d = None"
      by (auto simp: find_Some_iff)
    with Some Cons.prems show ?thesis by auto
  qed
qed simp

lemma issue_sound:
  assumes d: "ids_distinct (current_items items)"
    and "draftWorkItemDependencyIssue items onlyItem = Some issue"
  shows "(\<exists>i dep. issue = MissingOrRetired (wi_id i) dep \<and> dep \<in> set (wi_dependsOn i)
            \<and> by_id (current_items items) dep = None
            \<and> i \<in> set (case onlyItem of None \<Rightarrow> current_items items | Some item \<Rightarrow> [item]))
       \<or> on_cycle (current_items items) issue"
proof (cases "missing_dependency (current_items items)
    (case onlyItem of None \<Rightarrow> current_items items | Some item \<Rightarrow> [item])")
  case None
  with assms(2) have "visitAll (current_items items) (current_items items) [] = Some issue"
    by (simp add: draftWorkItemDependencyIssue_def Let_def)
  with visitAll_correct [OF d order_refl, of "[]"] show ?thesis by (simp add: settled_def)
next
  case (Some i)
  with assms(2) have "i = issue" by (simp add: draftWorkItemDependencyIssue_def Let_def)
  with missing_Some [OF Some] show ?thesis by blast
qed

lemma cycle_not_acyclic: "on_cycle items issue \<Longrightarrow> \<not> acyclic (edges items)"
  by (auto simp: on_cycle_def acyclic_def dest: rtrancl_into_trancl2)

lemma no_issue_acyclic:
  assumes d: "ids_distinct (current_items items)"
    and "draftWorkItemDependencyIssue items onlyItem = None"
  shows "acyclic (edges (current_items items))"
proof -
  let ?c = "current_items items"
  have "visitAll ?c ?c [] = None"
    using assms(2) by (simp add: draftWorkItemDependencyIssue_def Let_def split: option.splits)
  with visitAll_correct [OF d order_refl, of "[]"] obtain V where
    V: "settled ?c V" "wi_id ` set ?c \<subseteq> V" by (auto simp: settled_def)
  have "(x, x) \<notin> (edges ?c)\<^sup>+" for x
  proof
    assume x: "(x, x) \<in> (edges ?c)\<^sup>+"
    then obtain y where "(x, y) \<in> edges ?c" by (meson tranclD)
    then have "x \<in> V" using V(2) by (auto simp: edges_def dest: by_id_Some)
    with V(1) x show False by (simp add: settled_def)
  qed
  then show ?thesis by (simp add: acyclic_def)
qed

subsection \<open>The dependency gate\<close>

definition status_name :: "work_item_status \<Rightarrow> string" where
  "status_name s = (case s of WI_Open \<Rightarrow> ''open'' | WI_Accepted \<Rightarrow> ''accepted'' | WI_Retired \<Rightarrow> ''retired'')"

definition unmetDependencies ::
    "(string \<Rightarrow> string \<Rightarrow> plan_item option) \<Rightarrow> plan_item \<Rightarrow> (string \<times> string) list" where
  "unmetDependencies getWorkItem item =
     concat (map (\<lambda>d. case getWorkItem (wi_taskId item) d of
         None \<Rightarrow> [(d, ''missing'')]
       | Some dependency \<Rightarrow>
           if wi_status dependency = WI_Accepted then [] else [(d, status_name (wi_status dependency))])
       (wi_dependsOn item))"

definition assertWorkItemDependenciesCompleted ::
    "(string \<Rightarrow> string \<Rightarrow> plan_item option) \<Rightarrow> plan_item \<Rightarrow> unit result" where
  "assertWorkItemDependenciesCompleted getWorkItem item =
     (let unmet = unmetDependencies getWorkItem item
      in if unmet \<noteq> [] then Inl (GateErr (wi_id item) unmet) else Inr ())"

lemma gate_ok:
  "assertWorkItemDependenciesCompleted get item = Inr () \<longleftrightarrow>
     (\<forall>d \<in> set (wi_dependsOn item). \<exists>i. get (wi_taskId item) d = Some i \<and> wi_status i = WI_Accepted)"
  by (auto simp: assertWorkItemDependenciesCompleted_def unmetDependencies_def Let_def
      split: option.splits if_splits)

subsection \<open>Activation of a Draft\<close>

record draft_item = plan_item +
  di_executionGroups :: nat  \<comment> \<open>the number of groups and of candidates\<close>
  di_candidates :: nat
  di_currentExecutionGroupId :: "string option"
  di_workspaceDisposition :: "string option"

record draft_task =
  dt_id :: string
  dt_status :: string
  dt_hasWorkspaceIdentity :: bool
  dt_cwd :: "string option"
  dt_projectIds :: "string list"  \<comment> \<open>of the project bindings\<close>

record project_row =
  pr_id :: string
  pr_status :: string

record session_owner =
  so_scope :: string
  so_taskId :: "string option"
  so_roleName :: string
  so_pid :: int

record draft_store =
  st_runs :: "(string \<times> string) list"  \<comment> \<open>id and purpose of the Runs of the Task\<close>
  st_sessionOwners :: "session_owner list"
  st_roleSessionSets :: "string list"  \<comment> \<open>the role of the owner\<close>
  st_durableJobs :: nat
  st_managedWorkspaces :: nat
  st_reviewRounds :: nat
  st_integrationAttempts :: nat
  st_changeSets :: nat
  st_workItems :: "draft_item list"
  st_roles :: "string list"
  st_getProject :: "string \<Rightarrow> project_row option"

definition SYSTEM_LEADER_ROLE :: string where
  "SYSTEM_LEADER_ROLE = ''leader''"

definition item_executed :: "draft_item \<Rightarrow> bool" where
  "item_executed i \<longleftrightarrow> di_executionGroups i > 0 \<or> di_currentExecutionGroupId i \<noteq> None
     \<or> di_candidates i > 0 \<or> di_workspaceDisposition i \<noteq> None
     \<or> wi_status i \<noteq> WI_Open \<and> wi_status i \<noteq> WI_Retired"

definition firstDraftExecutionFact :: "draft_store \<Rightarrow> draft_task \<Rightarrow> string option" where
  "firstDraftExecutionFact store task =
     (if dt_hasWorkspaceIdentity task \<or> dt_cwd task \<noteq> None then Some ''Task workspace''
      else case find (\<lambda>r. snd r \<noteq> ''planning'') (st_runs store) of
        Some run \<Rightarrow> Some (''AgentRun '' @ fst run @ ''/'' @ snd run)
      | None \<Rightarrow>
      case find (\<lambda>o'. so_scope o' = ''task'' \<and> so_taskId o' = Some (dt_id task)
                     \<and> so_roleName o' \<noteq> SYSTEM_LEADER_ROLE) (st_sessionOwners store) of
        Some o' \<Rightarrow> Some (''Host process ('' @ int_str (so_pid o') @ '')'')
      | None \<Rightarrow>
      case find (\<lambda>r. r \<noteq> SYSTEM_LEADER_ROLE) (st_roleSessionSets store) of
        Some r \<Rightarrow> Some (''Role Session ('' @ r @ '')'')
      | None \<Rightarrow>
        if st_durableJobs store > 0 then Some ''DurableJob''
        else if st_managedWorkspaces store > 0 then Some ''managed Workspace''
        else if st_reviewRounds store > 0 then Some ''ReviewRound''
        else if st_integrationAttempts store > 0 then Some ''Integration Attempt''
        else if st_changeSets store > 0 then Some ''ChangeSet''
        else map_option (\<lambda>i. ''Work Item execution ('' @ wi_id i @ '')'')
               (find item_executed (st_workItems store)))"

definition assertDraftTaskExecutionFree :: "draft_store \<Rightarrow> draft_task \<Rightarrow> unit result" where
  "assertDraftTaskExecutionFree store task =
     (if dt_status task \<noteq> ''draft'' then throw ''Task is not a Draft''
      else case firstDraftExecutionFact store task of
             Some _ \<Rightarrow> throw ''Draft Task has execution facts''
           | None \<Rightarrow> Inr ())"

text \<open>\<open>draftPlanFacts\<close>: the ids of the bound Projects, each found and active.\<close>

definition boundProject :: "draft_store \<Rightarrow> string \<Rightarrow> string result" where
  "boundProject store projectId =
     (case st_getProject store projectId of
        None \<Rightarrow> throw ''Task Project not found''
      | Some project \<Rightarrow>
          if pr_status project \<noteq> ''active'' then throw ''Task Project is not active''
          else Inr (pr_id project))"

definition draftPlanFacts :: "draft_store \<Rightarrow> draft_task \<Rightarrow> string list result" where
  "draftPlanFacts store task = traverse (boundProject store) (dt_projectIds task)"

definition validateWorkItemReferences :: "string list \<Rightarrow> string list \<Rightarrow> plan_item \<Rightarrow> unit result" where
  "validateWorkItemReferences roleNames projects item =
     (if (case wi_assignee item of None \<Rightarrow> False | Some r \<Rightarrow> r \<notin> set roleNames)
        then throw ''Work Item assignee Role not found''
      else if list_ex (\<lambda>p. p \<notin> set projects) (wi_writeProjectIds item)
        then throw ''Work Item writable Project is not bound''
      else if list_ex (\<lambda>b. br_projectId b \<notin> set (wi_writeProjectIds item))
                (case wi_baseRefs item of None \<Rightarrow> [] | Some bs \<Rightarrow> bs)
        then throw ''Work Item base-ref Project is not writable''
      else Inr ())"

definition plan_items :: "draft_item list \<Rightarrow> plan_item list" where
  "plan_items = map plan_item.truncate"

definition validateDraftWorkItemEdit :: "draft_store \<Rightarrow> draft_task \<Rightarrow> draft_item \<Rightarrow> unit result" where
  "validateDraftWorkItemEdit store task candidate =
     andThen (assertDraftTaskExecutionFree store task) (\<lambda>_.
     let workItems = plan_items (map (\<lambda>i. if wi_id i = wi_id candidate then candidate else i) (st_workItems store))
     in andThen (draftPlanFacts store task) (\<lambda>projects.
        andThen (validateWorkItemReferences (st_roles store) projects (plan_item.truncate candidate)) (\<lambda>_.
          assertDraftWorkItemDependencyGraph workItems (Some (plan_item.truncate candidate)))))"

definition validateDraftTaskForActivation :: "draft_store \<Rightarrow> draft_task \<Rightarrow> unit result" where
  "validateDraftTaskForActivation store task =
     andThen (assertDraftTaskExecutionFree store task) (\<lambda>_.
     andThen (draftPlanFacts store task) (\<lambda>projects.
     let current = current_items (plan_items (st_workItems store))
     in andThen (traverse (validateWorkItemReferences (st_roles store) projects) current) (\<lambda>_.
          assertDraftWorkItemDependencyGraph current None)))"

lemma current_idem [simp]: "current_items (current_items items) = current_items items"
  by (simp add: current_items_def)

lemma graph_ok:
  assumes "ids_distinct (current_items items)"
  shows "assertDraftWorkItemDependencyGraph items None = Inr () \<longleftrightarrow>
    (\<forall>i \<in> set (current_items items). \<forall>d \<in> set (wi_dependsOn i). by_id (current_items items) d \<noteq> None)
    \<and> acyclic (edges (current_items items))"
proof -
  have iff: "draftWorkItemDependencyIssue items None = None \<longleftrightarrow>
    (\<forall>i \<in> set (current_items items). \<forall>d \<in> set (wi_dependsOn i). by_id (current_items items) d \<noteq> None)
    \<and> acyclic (edges (current_items items))" (is "?none \<longleftrightarrow> ?miss \<and> ?ac")
  proof
    assume n: ?none
    then have "missing_dependency (current_items items) (current_items items) = None"
      by (auto simp: draftWorkItemDependencyIssue_def Let_def split: option.splits)
    with no_issue_acyclic [OF assms n] show "?miss \<and> ?ac" by (auto simp: missing_None)
  next
    assume r: "?miss \<and> ?ac"
    show ?none
    proof (rule ccontr)
      assume "\<not> ?none"
      then obtain issue where "draftWorkItemDependencyIssue items None = Some issue" by blast
      from issue_sound [OF assms this] r show False by (fastforce dest: cycle_not_acyclic)
    qed
  qed
  show ?thesis
    unfolding iff [symmetric]
    by (auto simp: assertDraftWorkItemDependencyGraph_def split: option.splits dependency_issue.splits)
qed

lemma by_id_current:
  assumes "ids_distinct items" and "by_id (current_items items) d = Some j"
  shows "by_id items d = Some j \<and> wi_status j \<noteq> WI_Retired"
proof -
  have "j \<in> set (current_items items)" "wi_id j = d" using by_id_Some [OF assms(2)] by simp_all
  then have "j \<in> set items" "wi_status j \<noteq> WI_Retired" by (simp_all add: current_items_def)
  with by_id_mem [OF assms(1)] \<open>wi_id j = d\<close> show ?thesis by auto
qed

subsection \<open>Properties\<close>

definition sample_item :: "string \<Rightarrow> work_item_status \<Rightarrow> string list \<Rightarrow> plan_item" where
  "sample_item i status deps = \<lparr>wi_id = i, wi_taskId = ''task-1'', wi_status = status, wi_dependsOn = deps,
     wi_assignee = None, wi_writeProjectIds = [], wi_baseRefs = None\<rparr>"

definition sample_plan :: "plan_item list" where
  "sample_plan = [sample_item ''work-item-1'' WI_Accepted [], sample_item ''work-item-2'' WI_Open [''work-item-1''],
     sample_item ''work-item-3'' WI_Open [''work-item-2'', ''work-item-1'']]"

text \<open>
  C19.  The depth-first search decides the dependency graph: for Work Items with distinct ids the
  check passes exactly when every dependency of an item that is not retired is itself such an item
  and the dependency graph is acyclic.
\<close>

theorem draft_graph_decides:
  assumes "ids_distinct (current_items items)"
  shows "assertDraftWorkItemDependencyGraph items None = Inr () \<longleftrightarrow>
    (\<forall>i \<in> set (current_items items). \<forall>d \<in> set (wi_dependsOn i). by_id (current_items items) d \<noteq> None)
    \<and> acyclic (edges (current_items items))"
  by (rule graph_ok [OF assms])

theorem draft_graph_decides_witness:
  "acyclic (edges (current_items sample_plan))"
proof -
  have d: "ids_distinct (current_items sample_plan)" by code_simp
  have "assertDraftWorkItemDependencyGraph sample_plan None = Inr ()" by code_simp
  with draft_graph_decides [OF d] show ?thesis by simp
qed

text \<open>
  A reported issue is real: a missing dependency is a dependency of a checked item that no
  current item has as its id, and a reported cycle edge is an edge of the graph whose end leads
  back to its start.
\<close>

theorem draft_issue_sound:
  assumes "ids_distinct (current_items items)"
    and "draftWorkItemDependencyIssue items onlyItem = Some issue"
  shows "(\<exists>i dep. issue = MissingOrRetired (wi_id i) dep \<and> dep \<in> set (wi_dependsOn i)
            \<and> by_id (current_items items) dep = None
            \<and> i \<in> set (case onlyItem of None \<Rightarrow> current_items items | Some item \<Rightarrow> [item]))
       \<or> (\<exists>w d. issue = DependencyCycle w d \<and> (w, d) \<in> edges (current_items items)
            \<and> (d, w) \<in> (edges (current_items items))\<^sup>*)"
  using issue_sound [OF assms] by (simp add: on_cycle_def)

theorem draft_issue_sound_witness:
  "(''b'', ''a'') \<in> edges [sample_item ''a'' WI_Open [''b''], sample_item ''b'' WI_Open [''a'']]"
proof -
  let ?items = "[sample_item ''a'' WI_Open [''b''], sample_item ''b'' WI_Open [''a'']]"
  have c: "current_items ?items = ?items" by code_simp
  have d: "ids_distinct (current_items ?items)" by code_simp
  have "draftWorkItemDependencyIssue ?items None = Some (DependencyCycle ''b'' ''a'')" by code_simp
  from draft_issue_sound [OF d this] show ?thesis unfolding c by auto
qed

text \<open>
  C21.  A valid plan never blocks: if the dependency check of the Work Items of a Task passes and
  some item is still open, then some open item passes the dependency gate, its dependencies
  existing and being accepted.
\<close>

theorem valid_plan_makes_progress:
  assumes "ids_distinct items" and "assertDraftWorkItemDependencyGraph items None = Inr ()"
    and "\<And>i d. i \<in> set items \<Longrightarrow> getWorkItem (wi_taskId i) d = by_id items d"
    and "\<exists>i \<in> set items. wi_status i = WI_Open"
  shows "\<exists>i \<in> set items. wi_status i = WI_Open
     \<and> assertWorkItemDependenciesCompleted getWorkItem i = Inr ()"
proof -
  let ?c = "current_items items"
  have dc: "ids_distinct ?c" using assms(1) by (simp add: ids_distinct_def current_items_def distinct_map_filter)
  from assms(2) [unfolded graph_ok [OF dc]] have miss: "\<forall>i \<in> set ?c. \<forall>d \<in> set (wi_dependsOn i). by_id ?c d \<noteq> None"
    and ac: "acyclic (edges ?c)" by simp_all
  have "edges ?c \<subseteq> wi_id ` set ?c \<times> wi_id ` set ?c" by (auto simp: edges_def dest!: by_id_Some)
  then have "finite (edges ?c)" by (rule finite_subset) simp
  with ac have wf: "wf ((edges ?c)\<inverse>)" by (rule finite_acyclic_wf_converse [rotated])
  obtain i where i: "i \<in> set items" "wi_status i = WI_Open" using assms(4) by blast
  let ?Q = "{wi_id j |j. j \<in> set items \<and> wi_status j = WI_Open}"
  from wfE_min [OF wf, of "wi_id i" ?Q] i obtain z where "z \<in> ?Q"
    and zmin: "\<And>y. (y, z) \<in> (edges ?c)\<inverse> \<Longrightarrow> y \<notin> ?Q" by blast
  then obtain j where j: "j \<in> set items" "wi_status j = WI_Open" "z = wi_id j" by blast
  then have jc: "j \<in> set ?c" by (simp add: current_items_def)
  have "\<exists>k. getWorkItem (wi_taskId j) d = Some k \<and> wi_status k = WI_Accepted" if d: "d \<in> set (wi_dependsOn j)" for d
  proof -
    from miss jc d obtain k where k: "by_id ?c d = Some k" by blast
    have bk: "by_id items d = Some k" "wi_status k \<noteq> WI_Retired" using by_id_current [OF assms(1) k] by simp_all
    have "(z, d) \<in> edges ?c" using by_id_mem [OF dc jc] d k j(3) by (auto simp: edges_def)
    then have "d \<notin> ?Q" using zmin by blast
    then have "wi_status k \<noteq> WI_Open" using by_id_Some [OF bk(1)] by blast
    with bk assms(3) [OF j(1)] show ?thesis by (cases "wi_status k") auto
  qed
  with j show ?thesis unfolding gate_ok by blast
qed

theorem valid_plan_makes_progress_witness:
  "\<exists>i \<in> set sample_plan. wi_status i = WI_Open
     \<and> assertWorkItemDependenciesCompleted (\<lambda>_. by_id sample_plan) i = Inr ()"
proof (rule valid_plan_makes_progress)
  show "ids_distinct sample_plan" by code_simp
  show "assertDraftWorkItemDependencyGraph sample_plan None = Inr ()" by code_simp
  show "\<exists>i \<in> set sample_plan. wi_status i = WI_Open" by code_simp
qed simp

end
