(* ===== verification/Operation_Facts.thy ===== *)
theory Operation_Facts
  imports Yui_Validation
begin

section \<open>The evidence of an operation\<close>

text \<open>
  \<open>src/kernel/operationFacts.ts\<close>: what an operation was asked to do and what has been observed of its
  effects, embedded in the record of its owner (a durable job, an activation request).  The lemmas
  show that recording evidence is monotone (the effect only rises, references are only added) and
  idempotent.
\<close>

subsection \<open>kernel/operationFacts.ts\<close>

datatype effect = EffectNone | EffectPossible | EffectConfirmed

fun effect_rank :: "effect \<Rightarrow> nat" where
  "effect_rank EffectNone = 0"
| "effect_rank EffectPossible = 1"
| "effect_rank EffectConfirmed = 2"

record implementation_ref =
  impl_id :: string
  impl_generation :: string

record operation_facts =
  of_requestId :: string
  of_inputDigest :: string
  of_actorId :: string
  of_authorityRef :: string
  of_targetId :: string
  of_capability :: string
  of_implementation :: implementation_ref
  of_effect :: effect
  of_receiptRefs :: "string list"
  of_partialResultRefs :: "string list"

record evidence =
  ev_effect :: "effect option"
  ev_receiptRefs :: "string list option"
  ev_partialResultRefs :: "string list option"

definition is_sha256_hex :: "string \<Rightarrow> bool" where
  "is_sha256_hex s \<longleftrightarrow> length s = 64 \<and> list_all is_hex_lower s"

definition validateOperationFacts :: "operation_facts \<Rightarrow> unit result" where
  "validateOperationFacts facts = all_ok
     [refuse (list_ex (\<lambda>v. js_trim v = [] \<or> NUL \<in> set v)
        [of_requestId facts, of_actorId facts, of_authorityRef facts, of_targetId facts, of_capability facts,
         impl_id (of_implementation facts), impl_generation (of_implementation facts)])
        ''Operation identity is invalid.'',
      refuse (\<not> is_sha256_hex (of_inputDigest facts)) ''Operation input digest is invalid.'',
      refuse (list_ex (\<lambda>ref. js_trim ref = []) (of_receiptRefs facts)
              \<or> list_ex (\<lambda>ref. js_trim ref = []) (of_partialResultRefs facts))
        ''Operation evidence references are invalid.'']"

text \<open>\<open>[...new Set([...xs, ...ys])]\<close>\<close>

definition set_union :: "string list \<Rightarrow> string list \<Rightarrow> string list" where
  "set_union xs ys = appendUnique [] (xs @ ys) (\<lambda>ref. ref)"

definition or_empty :: "string list option \<Rightarrow> string list" where
  "or_empty x = (case x of None \<Rightarrow> [] | Some xs \<Rightarrow> xs)"

definition recordOperationEvidence :: "operation_facts \<Rightarrow> evidence \<Rightarrow> operation_facts result" where
  "recordOperationEvidence facts evidence =
     (let next = facts\<lparr>
        of_effect := (case ev_effect evidence of
            None \<Rightarrow> of_effect facts
          | Some e \<Rightarrow> if effect_rank e > effect_rank (of_effect facts) then e else of_effect facts),
        of_receiptRefs := set_union (of_receiptRefs facts) (or_empty (ev_receiptRefs evidence)),
        of_partialResultRefs := set_union (of_partialResultRefs facts) (or_empty (ev_partialResultRefs evidence))\<rparr>
      in andThen (validateOperationFacts next) (\<lambda>_. Inr next))"

subsection \<open>Evidence accumulates\<close>

lemma appendUnique_suffix:
  "\<exists>zs. appendUnique xs ys (\<lambda>x. x) = xs @ zs \<and> distinct zs \<and> set xs \<inter> set zs = {}"
proof (induction ys arbitrary: xs)
  case (Cons y ys)
  show ?case
  proof (cases "y \<in> set xs")
    case True
    with Cons show ?thesis by simp
  next
    case False
    from Cons [of "xs @ [y]"] obtain zs where
      "appendUnique (xs @ [y]) ys (\<lambda>x. x) = (xs @ [y]) @ zs \<and> distinct zs \<and> set (xs @ [y]) \<inter> set zs = {}"
      by blast
    with False show ?thesis by (intro exI [of _ "y # zs"]) auto
  qed
qed simp

lemma appendUnique_known: "set ks \<subseteq> set xs \<Longrightarrow> appendUnique xs (ks @ ys) (\<lambda>x. x) = appendUnique xs ys (\<lambda>x. x)"
  by (induction ks) auto

lemma appendUnique_start: "distinct (zs @ xs) \<Longrightarrow> appendUnique zs (xs @ ys) (\<lambda>x. x) = appendUnique (zs @ xs) ys (\<lambda>x. x)"
  by (induction xs arbitrary: zs) auto

lemma set_union_distinct: "distinct xs \<Longrightarrow> set_union xs ys = appendUnique xs ys (\<lambda>x. x)"
  using appendUnique_start [of "[]" xs ys] by (simp add: set_union_def)

lemma set_union_absorb: "distinct xs \<Longrightarrow> set_union xs (set_union xs ys) = set_union xs ys"
proof -
  assume d: "distinct xs"
  obtain zs where zs: "appendUnique xs ys (\<lambda>x. x) = xs @ zs" "distinct zs" "set xs \<inter> set zs = {}"
    using appendUnique_suffix [of xs ys] by metis
  have "appendUnique xs (xs @ zs) (\<lambda>x. x) = xs @ zs"
    using zs(2,3) by (simp add: appendUnique_known appendUnique_fresh)
  with d zs(1) show ?thesis by (simp add: set_union_distinct)
qed

lemma set_union_self: "distinct xs \<Longrightarrow> set_union xs xs = xs"
  using appendUnique_known [of xs xs "[]"] by (simp add: set_union_distinct)

lemma set_union_props: "distinct (set_union xs ys)" "set (set_union xs ys) = set xs \<union> set ys"
  using appendUnique_distinct [of "\<lambda>x. x" "[]" "xs @ ys"] appendUnique_set_id [of "[]" "xs @ ys"]
  by (simp_all add: set_union_def)

definition facts_ok :: "operation_facts \<Rightarrow> bool" where
  "facts_ok f \<longleftrightarrow> distinct (of_receiptRefs f) \<and> distinct (of_partialResultRefs f)"

definition as_evidence :: "operation_facts \<Rightarrow> evidence" where
  \<comment> \<open>the facts of a record, passed where evidence is expected\<close>
  "as_evidence f = \<lparr>ev_effect = Some (of_effect f), ev_receiptRefs = Some (of_receiptRefs f),
     ev_partialResultRefs = Some (of_partialResultRefs f)\<rparr>"

text \<open>What recording evidence may change: the effect only rises, references are only added.\<close>

definition facts_le :: "operation_facts \<Rightarrow> operation_facts \<Rightarrow> bool" where
  "facts_le f g \<longleftrightarrow>
     of_requestId g = of_requestId f \<and> of_inputDigest g = of_inputDigest f \<and> of_actorId g = of_actorId f
     \<and> of_authorityRef g = of_authorityRef f \<and> of_targetId g = of_targetId f
     \<and> of_capability g = of_capability f \<and> of_implementation g = of_implementation f
     \<and> effect_rank (of_effect f) \<le> effect_rank (of_effect g)
     \<and> set (of_receiptRefs f) \<subseteq> set (of_receiptRefs g)
     \<and> set (of_partialResultRefs f) \<subseteq> set (of_partialResultRefs g)"

lemma effect_rank_inj: "effect_rank a = effect_rank b \<longleftrightarrow> a = b"
  by (cases a; cases b) auto

definition recorded :: "operation_facts \<Rightarrow> evidence \<Rightarrow> operation_facts" where
  "recorded f e = f\<lparr>
        of_effect := (case ev_effect e of
            None \<Rightarrow> of_effect f
          | Some x \<Rightarrow> if effect_rank x > effect_rank (of_effect f) then x else of_effect f),
        of_receiptRefs := set_union (of_receiptRefs f) (or_empty (ev_receiptRefs e)),
        of_partialResultRefs := set_union (of_partialResultRefs f) (or_empty (ev_partialResultRefs e))\<rparr>"

lemma record_eq: "recordOperationEvidence f e = Inr g \<longleftrightarrow> validateOperationFacts (recorded f e) = Inr () \<and> g = recorded f e"
  unfolding recordOperationEvidence_def recorded_def [symmetric] Let_def by auto

lemma recorded_ok: "facts_ok (recorded f e)"
  by (simp add: recorded_def facts_ok_def set_union_props)

lemma recorded_le: "facts_le f (recorded f e)"
  by (simp add: recorded_def facts_le_def set_union_props split: option.splits)

lemma recorded_again: "facts_ok f \<Longrightarrow> recorded f (as_evidence (recorded f e)) = recorded f e"
  by (cases "ev_effect e") (simp_all add: recorded_def as_evidence_def or_empty_def facts_ok_def set_union_absorb)

lemma recorded_self: "facts_ok f \<Longrightarrow> recorded f (as_evidence f) = f"
  by (simp add: recorded_def as_evidence_def or_empty_def facts_ok_def set_union_self)

lemma record_evidence:
  assumes "facts_ok f" and "recordOperationEvidence f e = Inr g"
  shows "facts_ok g" and "facts_le f g" and "recordOperationEvidence f (as_evidence g) = Inr g"
  using assms by (simp_all add: record_eq recorded_ok recorded_le recorded_again)

lemma record_self:
  assumes "facts_ok f" and "validateOperationFacts f = Inr ()"
  shows "recordOperationEvidence f (as_evidence f) = Inr f"
  using assms by (simp add: record_eq recorded_self)

end
