(* ===== verification/Durable_Job.thy ===== *)
theory Durable_Job
  imports Operation_Facts
begin

section \<open>Durable jobs\<close>

text \<open>
  \<open>src/job/durableJob.ts\<close>.  A job is a record of what was
  asked, what has been observed of its effects, and its place in the state machine from queued over
  running to a terminal status; every operation validates the record it gets and the record it
  returns.  \<open>validDurableJobTransition\<close> is the check the storage applies to every update: the main
  lemma is that each operation only ever produces updates that it accepts, so that no update of the
  controller is refused, and that evidence only accumulates.

  SHA-256 is a parameter (\<open>sha256\<close>, of the runtime's crypto module).  The environment of a job is
  the list of its entries; the comparison of the code, which sorts the keys, is equality of the
  entries as sets.
\<close>

subsection \<open>The job record\<close>

datatype job_status = Job_Queued | Job_Running | Job_Succeeded | Job_Failed | Job_TimedOut | Job_Cancelled | Job_Unknown

datatype job_owner = OwnerAttempt string | OwnerWorkItem string | OwnerTask

type_synonym env_map = "(string \<times> string) list"

record job_step =
  js_name :: string
  js_command :: string
  js_argv :: "string list option"
  js_cwd :: "string option"
  js_env :: "env_map option"
  js_timeoutMs :: "int option"

record step_result =
  sr_name :: string
  sr_exitCode :: "int option"
  sr_signal :: "string option"
  sr_timedOut :: bool
  sr_durationMs :: int
  sr_logPath :: string
  sr_head :: string

record job_checkpoint =
  cp_completedSteps :: "step_result list"
  cp_updatedAt :: string

datatype evidence_source = FromExitArtifact | FromCheckpoint

record job_result =
  jr_outcome :: job_status
  jr_exitCode :: "int option"
  jr_signal :: "string option"
  jr_failedStep :: "string option"
  jr_unknownReason :: "string option"
  jr_evidenceSource :: "evidence_source option"
  jr_steps :: "step_result list"

record job_process =
  proc_pid :: int
  proc_startIdentity :: string

record durable_job =
  job_id :: string
  job_taskId :: string
  job_owner :: job_owner
  job_projectId :: string
  job_head :: string
  job_workspace :: string
  job_env :: env_map
  job_steps :: "job_step list"
  job_idempotencyKey :: string
  job_operation :: operation_facts
  job_status :: job_status
  job_artifactsLocator :: string
  job_createdAt :: string
  job_startedAt :: "string option"
  job_heartbeatAt :: "string option"
  job_terminalAt :: "string option"
  job_process :: "job_process option"
  job_checkpoint :: "job_checkpoint option"
  job_result :: "job_result option"
  job_retryOf :: "string option"
  job_cancelRequestedAt :: "string option"
  job_wakeupNotified :: "bool option"
  job_acknowledgedAt :: "string option"
  job_updatedAt :: string

definition isDurableJobTerminal :: "job_status \<Rightarrow> bool" where
  "isDurableJobTerminal s \<longleftrightarrow> s \<in> {Job_Succeeded, Job_Failed, Job_TimedOut, Job_Cancelled, Job_Unknown}"

subsection \<open>Validation\<close>

definition validateDurableJobOwner :: "job_owner \<Rightarrow> string \<Rightarrow> unit result" where
  "validateDurableJobOwner owner taskId =
     (case owner of
        OwnerAttempt i \<Rightarrow> skip (validateTaskRecordReference taskId i IntegrationAttemptKind)
      | OwnerWorkItem i \<Rightarrow> skip (validateTaskRecordReference taskId i WorkItemKind)
      | OwnerTask \<Rightarrow> Inr ())"

definition validateEnvMap :: "env_map \<Rightarrow> unit result" where
  "validateEnvMap env = all_ok (concat (map (\<lambda>(key, value).
     [refuse (key = [] \<or> CHR ''='' \<in> set key \<or> NUL \<in> set key) ''DurableJob env key is invalid'',
      refuse (NUL \<in> set value) ''DurableJob env value is invalid'']) env))"

definition validateStepResult :: "step_result \<Rightarrow> unit result" where
  "validateStepResult step = all_ok
     [skip (requireText (sr_name step) ''DurableJob step result name''),
      whenSome (sr_exitCode step) (\<lambda>c. refuse (\<not> safe_integer c \<or> c < 0) ''DurableJob step exitCode is invalid''),
      skip (requirePositiveInteger (sr_durationMs step) ''DurableJob step durationMs''),
      skip (requireText (sr_logPath step) ''DurableJob step logPath''),
      skip (requireCommit (sr_head step) ''DurableJob step head'')]"

definition normalizeDurableJobResult :: "job_result \<Rightarrow> job_result result" where
  "normalizeDurableJobResult r = checked r
     ([refuse (\<not> isDurableJobTerminal (jr_outcome r)) ''DurableJob result outcome must be terminal'',
       whenSome (jr_exitCode r) (\<lambda>c. refuse (\<not> safe_integer c \<or> c < 0) ''DurableJob result exitCode is invalid.''),
       whenSome (jr_failedStep r) (\<lambda>s. skip (requireText s ''DurableJob result failedStep'')),
       whenSome (jr_unknownReason r) (\<lambda>s. skip (requireText s ''DurableJob result unknownReason''))]
      @ map validateStepResult (jr_steps r))"

definition starts_with :: "string \<Rightarrow> string \<Rightarrow> bool" where
  "starts_with p s \<longleftrightarrow> take (length p) s = p"

fun has_infix :: "string \<Rightarrow> string \<Rightarrow> bool" where
  \<comment> \<open>\<open>s.includes(p)\<close>\<close>
  "has_infix p [] = (p = [])"
| "has_infix p (c # s) = (starts_with p (c # s) \<or> has_infix p s)"

definition validateStep :: "job_step \<Rightarrow> unit result" where
  "validateStep step = all_ok
     [skip (requireText (js_command step) ''DurableJob step command''),
      whenSome (js_argv step) (\<lambda>argv. all_ok
        (refuse (argv = []) ''DurableJob step argv must be a non-empty array''
         # map (\<lambda>v. skip (requireText v ''DurableJob step argv'')) argv)),
      whenSome (js_cwd step) (\<lambda>cwd. all_ok
        [skip (requireText cwd ''DurableJob step cwd''),
         refuse (\<not> starts_with ''/'' cwd) ''DurableJob step cwd must be absolute'']),
      whenSome (js_env step) validateEnvMap,
      whenSome (js_timeoutMs step) (\<lambda>t. skip (requirePositiveInteger t ''DurableJob step timeout''))]"

text \<open>The loop over the steps, with the set of names seen so far.\<close>

fun validateSteps :: "string list \<Rightarrow> job_step list \<Rightarrow> unit result" where
  "validateSteps names [] = Inr ()"
| "validateSteps names (step # steps) =
     andThen (requireText (js_name step) ''DurableJob step name'') (\<lambda>name.
       if name \<in> set names then throw ''DurableJob step names must be unique''
       else andThen (validateStep step) (\<lambda>_. validateSteps (name # names) steps))"

definition validateDurableJob :: "durable_job \<Rightarrow> durable_job result" where
  "validateDurableJob job = checked job
     [validateOperationFacts (job_operation job),
      skip (validateTaskRecordReference (job_taskId job) (job_id job) DurableJobKind),
      validateDurableJobOwner (job_owner job) (job_taskId job),
      skip (requireIdentity (job_projectId job) ''DurableJob project id''),
      skip (requireCommit (job_head job) ''DurableJob head''),
      skip (requireText (job_workspace job) ''DurableJob workspace''),
      refuse (\<not> starts_with ''/'' (job_workspace job)) ''DurableJob workspace must be an absolute path.'',
      validateEnvMap (job_env job),
      refuse (job_steps job = []) ''DurableJob requires at least one step.'',
      validateSteps [] (job_steps job),
      skip (requireText (job_idempotencyKey job) ''DurableJob idempotency key''),
      refuse (\<not> is_sha256_hex (job_idempotencyKey job)) ''DurableJob idempotency key is invalid.'',
      skip (requireText (job_artifactsLocator job) ''DurableJob artifacts locator''),
      refuse (starts_with ''/'' (job_artifactsLocator job) \<or> has_infix ''..'' (job_artifactsLocator job))
        ''DurableJob artifacts locator must be a home-relative path.'',
      skip (requireTimestamp (job_createdAt job) ''DurableJob createdAt''),
      skip (requireTimestamp (job_updatedAt job) ''DurableJob updatedAt''),
      whenSome (job_startedAt job) (\<lambda>t. skip (requireTimestamp t ''DurableJob startedAt'')),
      whenSome (job_heartbeatAt job) (\<lambda>t. skip (requireTimestamp t ''DurableJob heartbeatAt'')),
      whenSome (job_terminalAt job) (\<lambda>t. skip (requireTimestamp t ''DurableJob terminalAt'')),
      whenSome (job_process job) (\<lambda>p. all_ok
        [skip (requirePositiveInteger (proc_pid p) ''DurableJob process pid''),
         skip (requireText (proc_startIdentity p) ''DurableJob process startIdentity'')]),
      whenSome (job_checkpoint job) (\<lambda>c. all_ok
        (skip (requireTimestamp (cp_updatedAt c) ''DurableJob checkpoint updatedAt'')
         # map validateStepResult (cp_completedSteps c))),
      whenSome (job_result job) (\<lambda>r. skip (normalizeDurableJobResult r)),
      whenSome (job_retryOf job) (\<lambda>i. skip (validateTaskRecordReference (job_taskId job) i DurableJobKind)),
      whenSome (job_cancelRequestedAt job) (\<lambda>t. skip (requireTimestamp t ''DurableJob cancelRequestedAt'')),
      whenSome (job_acknowledgedAt job) (\<lambda>t. skip (requireTimestamp t ''DurableJob acknowledgedAt'')),
      (if isDurableJobTerminal (job_status job)
       then skip (requireTimestamp (case job_terminalAt job of None \<Rightarrow> [] | Some t \<Rightarrow> t) ''DurableJob terminalAt'')
       else Inr ()),
      refuse (job_status job = Job_Queued \<and> job_startedAt job \<noteq> None)
        ''A queued DurableJob must not have startedAt.'',
      refuse (job_status job = Job_Running \<and> job_startedAt job = None)
        ''A running DurableJob must have startedAt.'']"

subsection \<open>Operations\<close>

definition startDurableJob :: "durable_job \<Rightarrow> job_process \<Rightarrow> date \<Rightarrow> durable_job result" where
  "startDurableJob job process now =
     andThen (validateDurableJob job) (\<lambda>_.
     if job_status job \<noteq> Job_Queued then throw ''DurableJob can only start from queued'' else
     andThen (toISOString now) (\<lambda>timestamp.
     andThen (recordOperationEvidence (job_operation job)
        \<lparr>ev_effect = Some EffectConfirmed,
         ev_receiptRefs = Some [job_artifactsLocator job @ ''/start.json''],
         ev_partialResultRefs = None\<rparr>) (\<lambda>operation.
       validateDurableJob (job\<lparr>
         job_status := Job_Running, job_operation := operation, job_process := Some process,
         job_startedAt := Some timestamp, job_heartbeatAt := Some timestamp,
         job_updatedAt := timestamp\<rparr>))))"

definition touchDurableJobHeartbeat :: "durable_job \<Rightarrow> date \<Rightarrow> durable_job result" where
  "touchDurableJobHeartbeat job now =
     andThen (validateDurableJob job) (\<lambda>_.
     if job_status job \<noteq> Job_Running then throw ''DurableJob heartbeat only applies to running jobs'' else
     andThen (toISOString now) (\<lambda>timestamp.
       validateDurableJob (job\<lparr>job_heartbeatAt := Some timestamp, job_updatedAt := timestamp\<rparr>)))"

definition completeDurableJob :: "durable_job \<Rightarrow> job_result \<Rightarrow> date \<Rightarrow> durable_job result" where
  "completeDurableJob job res now =
     andThen (validateDurableJob job) (\<lambda>_.
     if job_status job \<noteq> Job_Running then throw ''DurableJob can only complete from running'' else
     if \<not> isDurableJobTerminal (jr_outcome res) then throw ''DurableJob result outcome must be terminal'' else
     andThen (toISOString now) (\<lambda>timestamp.
     andThen (recordOperationEvidence (job_operation job)
        \<lparr>ev_effect = None,
         ev_receiptRefs = Some (case jr_evidenceSource res of
            None \<Rightarrow> []
          | Some FromCheckpoint \<Rightarrow> [job_artifactsLocator job @ ''/checkpoint.json'']
          | Some FromExitArtifact \<Rightarrow> [job_artifactsLocator job @ ''/exit.json'']),
         ev_partialResultRefs = Some (map sr_logPath (jr_steps res))\<rparr>) (\<lambda>operation.
     andThen (normalizeDurableJobResult res) (\<lambda>normalized.
       validateDurableJob (job\<lparr>
         job_status := jr_outcome res, job_operation := operation, job_result := Some normalized,
         job_terminalAt := Some timestamp, job_updatedAt := timestamp\<rparr>)))))"

definition rejectQueuedDurableJob :: "durable_job \<Rightarrow> string \<Rightarrow> date \<Rightarrow> durable_job result" where
  "rejectQueuedDurableJob job reason now =
     andThen (validateDurableJob job) (\<lambda>_.
     if job_status job \<noteq> Job_Queued \<or> of_effect (job_operation job) \<noteq> EffectNone
       then throw ''Only an unattempted queued Job can be rejected.'' else
     andThen (toISOString now) (\<lambda>timestamp.
     andThen (requireText reason ''DurableJob rejection reason'') (\<lambda>text.
       validateDurableJob (job\<lparr>
         job_status := Job_Failed,
         job_result := Some \<lparr>jr_outcome = Job_Failed, jr_exitCode = None, jr_signal = None,
           jr_failedStep = None, jr_unknownReason = Some text, jr_evidenceSource = None, jr_steps = []\<rparr>,
         job_terminalAt := Some timestamp, job_updatedAt := timestamp\<rparr>))))"

definition markDurableJobUnknown ::
    "durable_job \<Rightarrow> string \<Rightarrow> step_result list \<Rightarrow> date \<Rightarrow> durable_job result" where
  "markDurableJobUnknown job unknownReason completedSteps now =
     andThen (validateDurableJob job) (\<lambda>_.
     if job_status job \<noteq> Job_Running
        \<and> \<not> (job_status job = Job_Queued \<and> of_effect (job_operation job) \<noteq> EffectNone)
       then throw ''DurableJob can only be marked unknown after an attempted effect'' else
     andThen (toISOString now) (\<lambda>timestamp.
     andThen (recordOperationEvidence (job_operation job)
        \<lparr>ev_effect = None, ev_receiptRefs = None,
         ev_partialResultRefs = Some (map sr_logPath completedSteps)\<rparr>) (\<lambda>operation.
     andThen (requireText unknownReason ''DurableJob unknown reason'') (\<lambda>text.
       validateDurableJob (job\<lparr>
         job_status := Job_Unknown, job_operation := operation,
         job_result := Some \<lparr>jr_outcome = Job_Unknown, jr_exitCode = None, jr_signal = None,
           jr_failedStep = None, jr_unknownReason = Some text, jr_evidenceSource = None,
           jr_steps = completedSteps\<rparr>,
         job_terminalAt := Some timestamp, job_updatedAt := timestamp\<rparr>)))))"

definition requestDurableJobCancel :: "durable_job \<Rightarrow> date \<Rightarrow> durable_job result" where
  "requestDurableJobCancel job now =
     andThen (validateDurableJob job) (\<lambda>_.
     if isDurableJobTerminal (job_status job) then Inr job else
     if job_cancelRequestedAt job \<noteq> None then Inr job else
     andThen (toISOString now) (\<lambda>timestamp.
       validateDurableJob (job\<lparr>job_cancelRequestedAt := Some timestamp, job_updatedAt := timestamp\<rparr>)))"

definition cancelQueuedDurableJob :: "durable_job \<Rightarrow> date \<Rightarrow> durable_job result" where
  "cancelQueuedDurableJob job now =
     andThen (validateDurableJob job) (\<lambda>_.
     if job_status job \<noteq> Job_Queued then throw ''DurableJob can only cancel-queued from queued'' else
     andThen (toISOString now) (\<lambda>timestamp.
       validateDurableJob (job\<lparr>
         job_status := Job_Cancelled,
         job_result := Some \<lparr>jr_outcome = Job_Cancelled, jr_exitCode = None, jr_signal = None,
           jr_failedStep = None, jr_unknownReason = None, jr_evidenceSource = None, jr_steps = []\<rparr>,
         job_terminalAt := Some timestamp, job_updatedAt := timestamp\<rparr>)))"

definition markDurableJobWakeupNotified :: "durable_job \<Rightarrow> date \<Rightarrow> durable_job result" where
  "markDurableJobWakeupNotified job now =
     andThen (validateDurableJob job) (\<lambda>_.
     if \<not> isDurableJobTerminal (job_status job)
       then throw ''DurableJob wakeup notification requires a terminal job.'' else
     if job_wakeupNotified job = Some True then Inr job else
     andThen (toISOString now) (\<lambda>timestamp.
       validateDurableJob (job\<lparr>job_wakeupNotified := Some True, job_updatedAt := timestamp\<rparr>)))"

definition acknowledgeUnknownDurableJob :: "durable_job \<Rightarrow> date \<Rightarrow> durable_job result" where
  "acknowledgeUnknownDurableJob job now =
     andThen (validateDurableJob job) (\<lambda>_.
     if job_status job \<noteq> Job_Unknown
       then throw ''DurableJob can only acknowledge from unknown-needs-attention'' else
     if job_acknowledgedAt job \<noteq> None then Inr job else
     andThen (toISOString now) (\<lambda>timestamp.
       validateDurableJob (job\<lparr>job_acknowledgedAt := Some timestamp, job_updatedAt := timestamp\<rparr>)))"

datatype job_op =
    StartJob job_process
  | TouchJob
  | CompleteJob job_result
  | RejectJob string
  | MarkUnknown string "step_result list"
  | RequestCancel
  | CancelQueued
  | NotifyWakeup
  | AcknowledgeUnknown

fun job_step_op :: "durable_job \<Rightarrow> job_op \<times> date \<Rightarrow> durable_job result" where
  "job_step_op job (StartJob p, now) = startDurableJob job p now"
| "job_step_op job (TouchJob, now) = touchDurableJobHeartbeat job now"
| "job_step_op job (CompleteJob r, now) = completeDurableJob job r now"
| "job_step_op job (RejectJob s, now) = rejectQueuedDurableJob job s now"
| "job_step_op job (MarkUnknown s rs, now) = markDurableJobUnknown job s rs now"
| "job_step_op job (RequestCancel, now) = requestDurableJobCancel job now"
| "job_step_op job (CancelQueued, now) = cancelQueuedDurableJob job now"
| "job_step_op job (NotifyWakeup, now) = markDurableJobWakeupNotified job now"
| "job_step_op job (AcknowledgeUnknown, now) = acknowledgeUnknownDurableJob job now"

subsection \<open>The transition check\<close>

definition same_env :: "env_map \<Rightarrow> env_map \<Rightarrow> bool" where
  "same_env a b \<longleftrightarrow> set a = set b"

definition same_step :: "job_step \<Rightarrow> job_step \<Rightarrow> bool" where
  "same_step a b \<longleftrightarrow> js_name a = js_name b \<and> js_command a = js_command b \<and> js_argv a = js_argv b
     \<and> js_cwd a = js_cwd b \<and> js_timeoutMs a = js_timeoutMs b
     \<and> rel_option same_env (js_env a) (js_env b)"

fun allowed_status :: "durable_job \<Rightarrow> durable_job \<Rightarrow> job_status list" where
  "allowed_status before after =
     (if job_status before = Job_Queued then
        [Job_Queued, Job_Running, Job_Cancelled, Job_Unknown]
        @ (if of_effect (job_operation before) = EffectNone \<and> of_effect (job_operation after) = EffectNone
           then [Job_Failed] else [])
      else if job_status before = Job_Running then
        [Job_Running, Job_Succeeded, Job_Failed, Job_TimedOut, Job_Cancelled, Job_Unknown]
      else [])"

definition identity_changed :: "durable_job \<Rightarrow> durable_job \<Rightarrow> bool" where
  "identity_changed before after \<longleftrightarrow>
     job_id before \<noteq> job_id after \<or> job_taskId before \<noteq> job_taskId after
     \<or> job_projectId before \<noteq> job_projectId after \<or> job_head before \<noteq> job_head after
     \<or> job_workspace before \<noteq> job_workspace after
     \<or> job_idempotencyKey before \<noteq> job_idempotencyKey after
     \<or> job_artifactsLocator before \<noteq> job_artifactsLocator after
     \<or> job_createdAt before \<noteq> job_createdAt after
     \<or> job_owner before \<noteq> job_owner after
     \<or> \<not> same_env (job_env before) (job_env after)
     \<or> \<not> list_all2 same_step (job_steps before) (job_steps after)
     \<or> of_requestId (job_operation before) \<noteq> of_requestId (job_operation after)
     \<or> of_inputDigest (job_operation before) \<noteq> of_inputDigest (job_operation after)
     \<or> of_actorId (job_operation before) \<noteq> of_actorId (job_operation after)
     \<or> of_authorityRef (job_operation before) \<noteq> of_authorityRef (job_operation after)
     \<or> of_targetId (job_operation before) \<noteq> of_targetId (job_operation after)
     \<or> of_capability (job_operation before) \<noteq> of_capability (job_operation after)
     \<or> of_implementation (job_operation before) \<noteq> of_implementation (job_operation after)"

text \<open>A throw of \<open>recordOperationEvidence\<close> is a throw of the check.\<close>

definition validDurableJobTransition :: "durable_job \<Rightarrow> durable_job \<Rightarrow> bool result" where
  "validDurableJobTransition before after =
     (if identity_changed before after then Inr False else
      andThen (recordOperationEvidence (job_operation before) (as_evidence (job_operation after))) (\<lambda>merged.
        if merged \<noteq> job_operation after then Inr False
        else if isDurableJobTerminal (job_status before) then
          Inr (job_status before = job_status after
               \<and> job_result before = job_result after
               \<and> job_operation before = job_operation after
               \<and> job_terminalAt before = job_terminalAt after
               \<and> (job_wakeupNotified before = job_wakeupNotified after
                  \<or> job_wakeupNotified before \<noteq> Some True \<and> job_wakeupNotified after = Some True)
               \<and> (job_acknowledgedAt before = job_acknowledgedAt after
                  \<or> job_acknowledgedAt before = None \<and> job_acknowledgedAt after \<noteq> None))
        else Inr (job_status after \<in> set (allowed_status before after))))"

subsection \<open>Creation\<close>

record job_request =
  jq_requestId :: string
  jq_actorId :: string
  jq_authorityRef :: string
  jq_inputDigest :: string

record job_input =
  ji_id :: string
  ji_taskId :: string
  ji_owner :: job_owner
  ji_projectId :: string
  ji_head :: string
  ji_workspace :: string
  ji_env :: env_map
  ji_steps :: "job_step list"
  ji_artifactsLocator :: string
  ji_retryOf :: "string option"
  ji_operation :: "job_request option"

definition opt_field :: "string \<Rightarrow> ('a \<Rightarrow> json) \<Rightarrow> 'a option \<Rightarrow> fields" where
  "opt_field k f x = (case x of None \<Rightarrow> [] | Some v \<Rightarrow> [(k, f v)])"

definition env_json :: "env_map \<Rightarrow> json" where
  "env_json env = JObj (map (\<lambda>(k, v). (k, JStr v)) env)"

definition owner_json :: "job_owner \<Rightarrow> json" where
  "owner_json owner =
     (case owner of
        OwnerAttempt i \<Rightarrow> JObj [(''kind'', JStr ''integration-attempt''), (''integrationAttemptId'', JStr i)]
      | OwnerWorkItem i \<Rightarrow> JObj [(''kind'', JStr ''work-item''), (''workItemId'', JStr i)]
      | OwnerTask \<Rightarrow> JObj [(''kind'', JStr ''task'')])"

definition step_json :: "job_step \<Rightarrow> json" where
  "step_json s = JObj
     ([(''name'', JStr (js_name s)), (''command'', JStr (js_command s))]
      @ opt_field ''argv'' jstrs (js_argv s) @ opt_field ''cwd'' JStr (js_cwd s)
      @ opt_field ''env'' env_json (js_env s) @ opt_field ''timeoutMs'' JInt (js_timeoutMs s))"

text \<open>\<open>sha256\<close> is the hexadecimal digest of a string, \<open>le\<close> the order of \<open>localeCompare\<close>.\<close>

definition durableJobIdempotencyKey ::
    "(string \<Rightarrow> string) \<Rightarrow> (string \<Rightarrow> string \<Rightarrow> bool) \<Rightarrow> job_owner \<Rightarrow> string \<Rightarrow> string \<Rightarrow> job_step list
       \<Rightarrow> string \<Rightarrow> env_map \<Rightarrow> string" where
  "durableJobIdempotencyKey sha256 le owner projectId head steps workspace env =
     sha256 (canonicalJson le (JObj
       [(''owner'', owner_json owner), (''projectId'', JStr projectId), (''head'', JStr head),
        (''steps'', JArr (map step_json steps)), (''workspace'', JStr workspace), (''env'', env_json env)]))"

definition retryDurableJobIdempotencyKey :: "(string \<Rightarrow> string) \<Rightarrow> string \<Rightarrow> string \<Rightarrow> string" where
  "retryDurableJobIdempotencyKey sha256 previousKey previousJobId =
     sha256 (previousKey @ ''|retry-of|'' @ previousJobId)"

definition createDurableJob ::
    "(string \<Rightarrow> string) \<Rightarrow> (string \<Rightarrow> string \<Rightarrow> bool) \<Rightarrow> job_input \<Rightarrow> date \<Rightarrow> durable_job result" where
  "createDurableJob sha256 le i now =
     andThen (toISOString now) (\<lambda>timestamp.
     let base = durableJobIdempotencyKey sha256 le (ji_owner i) (ji_projectId i) (ji_head i) (ji_steps i)
                  (ji_workspace i) (ji_env i);
         contentKey = (case ji_retryOf i of
            None \<Rightarrow> base | Some previous \<Rightarrow> retryDurableJobIdempotencyKey sha256 base previous);
         key = (case ji_operation i of
            None \<Rightarrow> contentKey
          | Some r \<Rightarrow> sha256 (jsonStringify (JArr [JStr (jq_actorId r), JStr (jq_requestId r)])));
         from_request = (\<lambda>f d. case ji_operation i of None \<Rightarrow> d | Some r \<Rightarrow> f r)
     in validateDurableJob
       \<lparr>job_id = ji_id i, job_taskId = ji_taskId i, job_owner = ji_owner i, job_projectId = ji_projectId i,
        job_head = ji_head i, job_workspace = ji_workspace i, job_env = ji_env i, job_steps = ji_steps i,
        job_idempotencyKey = key,
        job_operation = \<lparr>of_requestId = from_request jq_requestId key,
          of_inputDigest = from_request jq_inputDigest key,
          of_actorId = from_request jq_actorId ''internal:job'',
          of_authorityRef = from_request jq_authorityRef ''internal:job'',
          of_targetId = ji_workspace i, of_capability = ''job.start'',
          of_implementation = \<lparr>impl_id = ''yui:job-runner'', impl_generation = ''1''\<rparr>,
          of_effect = EffectNone, of_receiptRefs = [], of_partialResultRefs = []\<rparr>,
        job_status = Job_Queued, job_artifactsLocator = ji_artifactsLocator i,
        job_createdAt = timestamp, job_startedAt = None, job_heartbeatAt = None, job_terminalAt = None,
        job_process = None, job_checkpoint = None, job_result = None, job_retryOf = ji_retryOf i,
        job_cancelRequestedAt = None, job_wakeupNotified = None, job_acknowledgedAt = None,
        job_updatedAt = timestamp\<rparr>)"

subsection \<open>Every operation is a transition the storage accepts\<close>

interpretation job: record_validator validateDurableJob
  by unfold_locales (simp add: validateDurableJob_def)

definition job_valid :: "durable_job \<Rightarrow> bool" where
  "job_valid job \<longleftrightarrow> isOk (validateDurableJob job)"

lemma validateDurableJob_eq [simp]: "validateDurableJob job = Inr job' \<longleftrightarrow> job_valid job \<and> job' = job"
  using job.returns_self [of job job'] job.ok_eq [of job] by (auto simp: job_valid_def)

lemma job_valid_facts: "job_valid job \<Longrightarrow> validateOperationFacts (job_operation job) = Inr ()"
  by (auto simp: job_valid_def validateDurableJob_def isOk_iff)

lemma job_valid_started: "job_valid job \<Longrightarrow> job_status job = Job_Running \<Longrightarrow> job_startedAt job \<noteq> None"
  by (simp add: job_valid_def validateDurableJob_def)

text \<open>
  The invariant of the jobs the operations produce: references are never repeated, a running job
  has a confirmed effect and a process, a terminal job has the result of its status.
\<close>

definition job_inv :: "durable_job \<Rightarrow> bool" where
  "job_inv job \<longleftrightarrow> facts_ok (job_operation job) \<and> job_valid job
     \<and> (job_status job = Job_Running \<longrightarrow> of_effect (job_operation job) = EffectConfirmed \<and> job_process job \<noteq> None)
     \<and> (if isDurableJobTerminal (job_status job)
        then (\<exists>r. job_result job = Some r \<and> jr_outcome r = job_status job) else job_result job = None)"

lemma same_env_refl [simp]: "same_env e e"
  by (simp add: same_env_def)

lemma same_step_refl [simp]: "same_step s s"
  by (simp add: same_step_def option.rel_refl)

lemma same_steps_refl [simp]: "list_all2 same_step xs xs"
  by (simp add: list_all2_same)

definition job_frame :: "durable_job \<Rightarrow> durable_job \<Rightarrow> bool" where
  \<comment> \<open>the fields no operation ever touches\<close>
  "job_frame a b \<longleftrightarrow>
     job_id b = job_id a \<and> job_taskId b = job_taskId a \<and> job_projectId b = job_projectId a
     \<and> job_head b = job_head a \<and> job_workspace b = job_workspace a
     \<and> job_idempotencyKey b = job_idempotencyKey a \<and> job_artifactsLocator b = job_artifactsLocator a
     \<and> job_createdAt b = job_createdAt a \<and> job_owner b = job_owner a \<and> job_env b = job_env a
     \<and> job_steps b = job_steps a \<and> job_retryOf b = job_retryOf a"

text \<open>What a history of operations may do to a job.\<close>

definition job_le :: "durable_job \<Rightarrow> durable_job \<Rightarrow> bool" where
  "job_le a b \<longleftrightarrow> job_frame a b \<and> facts_le (job_operation a) (job_operation b)
     \<and> (isDurableJobTerminal (job_status a) \<longrightarrow>
          job_status b = job_status a \<and> job_result b = job_result a
          \<and> job_operation b = job_operation a \<and> job_terminalAt b = job_terminalAt a)
     \<and> (job_status b = Job_Queued \<longrightarrow> job_status a = Job_Queued)"
definition job_change :: "durable_job \<Rightarrow> durable_job \<Rightarrow> bool" where
  "job_change a b \<longleftrightarrow> job_frame a b
     \<and> recordOperationEvidence (job_operation a) (as_evidence (job_operation b)) = Inr (job_operation b)
     \<and> (if isDurableJobTerminal (job_status a)
        then job_status b = job_status a \<and> job_result b = job_result a
             \<and> job_operation b = job_operation a \<and> job_terminalAt b = job_terminalAt a
             \<and> (job_wakeupNotified b = job_wakeupNotified a \<or> job_wakeupNotified b = Some True)
             \<and> (job_acknowledgedAt b = job_acknowledgedAt a
                \<or> job_acknowledgedAt a = None \<and> job_acknowledgedAt b \<noteq> None)
        else job_status b \<in> set (allowed_status a b))"

lemma change_facts: "job_change a b \<Longrightarrow> facts_le (job_operation a) (job_operation b)"
  unfolding job_change_def record_eq by (metis recorded_le)

lemma change_accepted:
  assumes c: "job_change a b"
  shows "validDurableJobTransition a b = Inr True"
proof -
  have "\<not> identity_changed a b"
    using c change_facts [OF c] by (simp add: identity_changed_def job_change_def job_frame_def facts_le_def)
  with c show ?thesis
    by (auto simp: validDurableJobTransition_def job_change_def)
qed

lemma change_le: "job_change a b \<Longrightarrow> job_le a b"
  using change_facts [of a b] by (auto simp: job_change_def job_le_def split: if_splits)

lemma job_self: "job_inv a \<Longrightarrow> recordOperationEvidence (job_operation a) (as_evidence (job_operation a)) = Inr (job_operation a)"
  by (simp add: job_inv_def record_self job_valid_facts)

lemma job_recorded:
  "job_inv a \<Longrightarrow> recordOperationEvidence (job_operation a) e = Inr g
     \<Longrightarrow> facts_ok g \<and> recordOperationEvidence (job_operation a) (as_evidence g) = Inr g"
  using record_evidence by (auto simp: job_inv_def)

lemma not_terminal [simp]: "\<not> isDurableJobTerminal Job_Queued" "\<not> isDurableJobTerminal Job_Running"
  by (simp_all add: isDurableJobTerminal_def)

lemma terminal [simp]: "isDurableJobTerminal Job_Unknown" "isDurableJobTerminal Job_Failed"
    "isDurableJobTerminal Job_Cancelled"
  by (simp_all add: isDurableJobTerminal_def)

lemma inv_facts: "job_inv a \<Longrightarrow> facts_ok (job_operation a)"
  by (simp add: job_inv_def)

lemma inv_unfinished: "job_inv a \<Longrightarrow> \<not> isDurableJobTerminal (job_status a) \<Longrightarrow> job_result a = None"
  by (simp add: job_inv_def)

lemma start_change:
  assumes "job_inv a" and "startDurableJob a p now = Inr b"
  shows "job_change a b \<and> job_inv b"
proof -
  from assms obtain g where g: "recordOperationEvidence (job_operation a)
      \<lparr>ev_effect = Some EffectConfirmed, ev_receiptRefs = Some [job_artifactsLocator a @ ''/start.json''],
       ev_partialResultRefs = None\<rparr> = Inr g"
    and st: "job_status a = Job_Queued"
    and b: "b = a\<lparr>job_status := Job_Running, job_operation := g, job_process := Some p,
         job_startedAt := Some (iso_string now), job_heartbeatAt := Some (iso_string now),
         job_updatedAt := iso_string now\<rparr>" and v: "job_valid b"
    by (auto simp: startDurableJob_def)
  from g have "of_effect g = EffectConfirmed"
    by (cases "of_effect (job_operation a)") (auto simp: record_eq recorded_def)
  with job_recorded [OF assms(1) g] v st inv_unfinished [OF assms(1)] show ?thesis
    by (simp add: job_change_def job_inv_def b job_frame_def)
qed

lemma touch_change:
  assumes "job_inv a" and "touchDurableJobHeartbeat a now = Inr b"
  shows "job_change a b \<and> job_inv b"
  using assms job_self [OF assms(1)]
  by (auto simp: touchDurableJobHeartbeat_def job_change_def job_inv_def job_frame_def)

lemma complete_change:
  assumes "job_inv a" and "completeDurableJob a r now = Inr b"
  shows "job_change a b \<and> job_inv b"
proof -
  from assms obtain g e where g: "recordOperationEvidence (job_operation a) e = Inr g"
    and st: "job_status a = Job_Running" and t: "isDurableJobTerminal (jr_outcome r)"
    and b: "b = a\<lparr>job_status := jr_outcome r, job_operation := g, job_result := Some r,
         job_terminalAt := Some (iso_string now), job_updatedAt := iso_string now\<rparr>" and v: "job_valid b"
    by (auto simp: completeDurableJob_def normalizeDurableJobResult_def)
  from job_recorded [OF assms(1) g] v st t show ?thesis
    by (auto simp: job_change_def job_inv_def b job_frame_def isDurableJobTerminal_def)
qed

lemma reject_change:
  assumes "job_inv a" and "rejectQueuedDurableJob a reason now = Inr b"
  shows "job_change a b \<and> job_inv b"
  using assms job_self [OF assms(1)] inv_facts [OF assms(1)]
  by (auto simp: rejectQueuedDurableJob_def job_change_def job_inv_def job_frame_def)

lemma unknown_change:
  assumes "job_inv a" and "markDurableJobUnknown a reason steps now = Inr b"
  shows "job_change a b \<and> job_inv b"
proof -
  from assms obtain g e where g: "recordOperationEvidence (job_operation a) e = Inr g"
    and st: "job_status a = Job_Running \<or> job_status a = Job_Queued"
    and b: "b = a\<lparr>job_status := Job_Unknown, job_operation := g,
         job_result := Some \<lparr>jr_outcome = Job_Unknown, jr_exitCode = None, jr_signal = None,
           jr_failedStep = None, jr_unknownReason = Some (js_trim reason), jr_evidenceSource = None,
           jr_steps = steps\<rparr>,
         job_terminalAt := Some (iso_string now), job_updatedAt := iso_string now\<rparr>" and v: "job_valid b"
    by (auto simp: markDurableJobUnknown_def)
  from job_recorded [OF assms(1) g] v st show ?thesis
    by (auto simp: job_change_def job_inv_def b job_frame_def)
qed

lemma unchanged_change: "job_inv a \<Longrightarrow> job_change a a"
  by (cases "job_status a") (simp_all add: job_change_def job_frame_def job_self isDurableJobTerminal_def)

lemma cancel_request_change:
  assumes "job_inv a" and "requestDurableJobCancel a now = Inr b"
  shows "job_change a b \<and> job_inv b"
proof (cases "isDurableJobTerminal (job_status a) \<or> job_cancelRequestedAt a \<noteq> None")
  case True
  with assms have "b = a" by (auto simp: requestDurableJobCancel_def split: if_splits)
  with assms unchanged_change show ?thesis by simp
next
  case False
  with assms job_self [OF assms(1)] inv_facts [OF assms(1)] show ?thesis
    by (cases "job_status a")
       (auto simp: requestDurableJobCancel_def job_change_def job_inv_def job_frame_def isDurableJobTerminal_def)
qed

lemma cancel_queued_change:
  assumes "job_inv a" and "cancelQueuedDurableJob a now = Inr b"
  shows "job_change a b \<and> job_inv b"
  using assms job_self [OF assms(1)] inv_facts [OF assms(1)]
  by (auto simp: cancelQueuedDurableJob_def job_change_def job_inv_def job_frame_def)

lemma notify_change:
  assumes "job_inv a" and "markDurableJobWakeupNotified a now = Inr b"
  shows "job_change a b \<and> job_inv b"
proof (cases "job_wakeupNotified a = Some True")
  case True
  with assms have "b = a" by (auto simp: markDurableJobWakeupNotified_def)
  with assms unchanged_change show ?thesis by simp
next
  case False
  with assms job_self [OF assms(1)] inv_facts [OF assms(1)] show ?thesis
    by (auto simp: markDurableJobWakeupNotified_def job_change_def job_inv_def job_frame_def)
qed

lemma acknowledge_change:
  assumes "job_inv a" and "acknowledgeUnknownDurableJob a now = Inr b"
  shows "job_change a b \<and> job_inv b"
proof (cases "job_acknowledgedAt a = None")
  case False
  with assms have "b = a" by (auto simp: acknowledgeUnknownDurableJob_def)
  with assms unchanged_change show ?thesis by simp
next
  case True
  with assms job_self [OF assms(1)] inv_facts [OF assms(1)] show ?thesis
    by (auto simp: acknowledgeUnknownDurableJob_def job_change_def job_inv_def job_frame_def)
qed

lemmas op_changes = start_change touch_change complete_change reject_change unknown_change
  cancel_request_change cancel_queued_change notify_change acknowledge_change

lemma job_step_change:
  assumes "job_inv a" and "job_step_op a e = Inr b"
  shows "job_change a b \<and> job_inv b"
proof (cases e)
  case (Pair op now)
  with assms show ?thesis by (cases op) (auto dest: op_changes)
qed

lemma facts_le_trans: "facts_le f g \<Longrightarrow> facts_le g h \<Longrightarrow> facts_le f h"
  by (auto simp: facts_le_def)

lemma job_le_trans:
  assumes ab: "job_le a b" and bc: "job_le b c"
  shows "job_le a c"
proof -
  have "job_frame a c" using ab bc by (simp add: job_le_def job_frame_def)
  moreover have "facts_le (job_operation a) (job_operation c)"
    using ab bc unfolding job_le_def by (blast intro: facts_le_trans)
  moreover have "isDurableJobTerminal (job_status a) \<Longrightarrow>
      job_status c = job_status a \<and> job_result c = job_result a
      \<and> job_operation c = job_operation a \<and> job_terminalAt c = job_terminalAt a"
    using ab bc unfolding job_le_def by metis
  moreover have "job_status c = Job_Queued \<Longrightarrow> job_status a = Job_Queued"
    using ab bc unfolding job_le_def by metis
  ultimately show ?thesis unfolding job_le_def by blast
qed

lemma job_le_refl: "job_le a a"
  by (simp add: job_le_def job_frame_def facts_le_def)

interpretation durable_job: step_order job_step_op job_inv job_le
proof
  fix a b c e
  show "job_inv a \<Longrightarrow> job_step_op a e = Inr b \<Longrightarrow> job_inv b"
    by (drule job_step_change) auto
  show "job_le a a" by (rule job_le_refl)
  show "job_le a b \<Longrightarrow> job_le b c \<Longrightarrow> job_le a c" by (rule job_le_trans)
  show "job_inv a \<Longrightarrow> job_step_op a e = Inr b \<Longrightarrow> job_le a b"
    by (drule job_step_change) (auto intro: change_le)
qed

lemma created_job_inv:
  assumes "createDurableJob sha256 le i now = Inr job"
  shows "job_inv job \<and> job_status job = Job_Queued \<and> of_effect (job_operation job) = EffectNone"
  using assms by (auto simp: createDurableJob_def Let_def job_inv_def facts_ok_def)


subsection \<open>A concrete job\<close>

definition sample_sha :: "string \<Rightarrow> string" where
  "sample_sha s = replicate 64 (CHR ''a'')"

definition sample_le :: "string \<Rightarrow> string \<Rightarrow> bool" where
  "sample_le a b = True"

definition sample_input :: job_input where
  "sample_input = \<lparr>ji_id = ''job-1'', ji_taskId = ''t'', ji_owner = OwnerTask, ji_projectId = ''p'',
     ji_head = replicate 40 (CHR ''b''), ji_workspace = ''/w'', ji_env = [],
     ji_steps = [\<lparr>js_name = ''build'', js_command = ''make'', js_argv = None, js_cwd = None,
       js_env = None, js_timeoutMs = None\<rparr>],
     ji_artifactsLocator = ''jobs/job-1'', ji_retryOf = None, ji_operation = None\<rparr>"

definition sample_created :: durable_job where
  "sample_created = \<lparr>job_id = ''job-1'', job_taskId = ''t'', job_owner = OwnerTask, job_projectId = ''p'',
     job_head = replicate 40 (CHR ''b''), job_workspace = ''/w'', job_env = [],
     job_steps = ji_steps sample_input, job_idempotencyKey = replicate 64 (CHR ''a''),
     job_operation = \<lparr>of_requestId = replicate 64 (CHR ''a''), of_inputDigest = replicate 64 (CHR ''a''),
       of_actorId = ''internal:job'', of_authorityRef = ''internal:job'', of_targetId = ''/w'',
       of_capability = ''job.start'',
       of_implementation = \<lparr>impl_id = ''yui:job-runner'', impl_generation = ''1''\<rparr>,
       of_effect = EffectNone, of_receiptRefs = [], of_partialResultRefs = []\<rparr>,
     job_status = Job_Queued, job_artifactsLocator = ''jobs/job-1'',
     job_createdAt = ''1970-01-01T00:00:00.000Z'', job_startedAt = None, job_heartbeatAt = None,
     job_terminalAt = None, job_process = None, job_checkpoint = None, job_result = None,
     job_retryOf = None, job_cancelRequestedAt = None, job_wakeupNotified = None,
     job_acknowledgedAt = None, job_updatedAt = ''1970-01-01T00:00:00.000Z''\<rparr>"

definition sample_process :: job_process where
  "sample_process = \<lparr>proc_pid = 7, proc_startIdentity = ''s''\<rparr>"

definition sample_running :: durable_job where
  "sample_running = sample_created\<lparr>job_status := Job_Running,
     job_operation := (job_operation sample_created)\<lparr>of_effect := EffectConfirmed,
       of_receiptRefs := [''jobs/job-1/start.json'']\<rparr>,
     job_process := Some sample_process, job_startedAt := Some ''1970-01-01T00:00:00.001Z'',
     job_heartbeatAt := Some ''1970-01-01T00:00:00.001Z'', job_updatedAt := ''1970-01-01T00:00:00.001Z''\<rparr>"

lemma sample_create: "createDurableJob sample_sha sample_le sample_input 0 = Inr sample_created"
  by code_simp

lemma sample_start: "job_step_op sample_created (StartJob sample_process, 1) = Inr sample_running"
  by code_simp

definition sample_unknown :: durable_job where
  "sample_unknown = sample_running\<lparr>job_status := Job_Unknown,
     job_result := Some \<lparr>jr_outcome = Job_Unknown, jr_exitCode = None, jr_signal = None,
       jr_failedStep = None, jr_unknownReason = Some ''gone'', jr_evidenceSource = None, jr_steps = []\<rparr>,
     job_terminalAt := Some ''1970-01-01T00:00:00.002Z'', job_updatedAt := ''1970-01-01T00:00:00.002Z''\<rparr>"

lemma sample_mark: "job_step_op sample_running (MarkUnknown ''gone'' [], 2) = Inr sample_unknown"
  by code_simp

lemma created_history:
  assumes "createDurableJob sha256 le i now = Inr job0" and "run_steps job_step_op job0 ops = Inr job"
  shows "job_inv job"
  using durable_job.run_inv created_job_inv assms by blast

subsection \<open>Properties\<close>

text \<open>
  C22. For every job made by \<open>createDurableJob\<close> and every history of operations on it, each further
  operation that returns produces a record that the storage accepts as a transition of the
  persisted one (\<open>validDurableJobTransition\<close> neither throws nor answers false) and as a valid record:
  no operation of \<open>durableJob.ts\<close> produces an update that \<open>saveDurableJob\<close> refuses as a transition.
\<close>

theorem job_updates_accepted:
  assumes "createDurableJob sha256 le i now = Inr job0"
    and "run_steps job_step_op job0 ops = Inr job"
    and "job_step_op job op = Inr job'"
  shows "validDurableJobTransition job job' = Inr True \<and> validateDurableJob job' = Inr job'"
  using job_step_change [OF created_history [OF assms(1,2)] assms(3)]
  by (auto simp: job_inv_def dest: change_accepted)

theorem job_updates_accepted_witness:
  "validDurableJobTransition sample_running sample_unknown = Inr True
     \<and> validateDurableJob sample_unknown = Inr sample_unknown"
  by (rule job_updates_accepted [OF sample_create _ sample_mark, of "[(StartJob sample_process, 1)]"])
     (simp_all add: sample_start sample_mark del: job_step_op.simps)

text \<open>
  C23. Evidence only accumulates and terminal jobs are frozen: along any history of operations the
  effect of a job never falls, receipts and partial results are never dropped, the identity of the
  operation never changes, and once a job is terminal its status, result, evidence and time of
  termination are final.
\<close>

theorem job_history_monotone:
  assumes "createDurableJob sha256 le i now = Inr job0"
    and "run_steps job_step_op job0 ops = Inr job"
    and "run_steps job_step_op job later = Inr job'"
  shows "effect_rank (of_effect (job_operation job)) \<le> effect_rank (of_effect (job_operation job'))
    \<and> set (of_receiptRefs (job_operation job)) \<subseteq> set (of_receiptRefs (job_operation job'))
    \<and> set (of_partialResultRefs (job_operation job)) \<subseteq> set (of_partialResultRefs (job_operation job'))
    \<and> of_requestId (job_operation job') = of_requestId (job_operation job)
    \<and> (isDurableJobTerminal (job_status job) \<longrightarrow>
         job_status job' = job_status job \<and> job_result job' = job_result job
         \<and> job_operation job' = job_operation job \<and> job_terminalAt job' = job_terminalAt job)"
  using durable_job.run_le [OF created_history [OF assms(1,2)] assms(3)]
  unfolding job_le_def facts_le_def by blast

theorem job_history_monotone_witness:
  "effect_rank (of_effect (job_operation sample_unknown)) \<ge> 2
     \<and> ''jobs/job-1/start.json'' \<in> set (of_receiptRefs (job_operation sample_unknown))"
proof -
  have run: "run_steps job_step_op sample_created [(StartJob sample_process, 1)] = Inr sample_running"
    "run_steps job_step_op sample_running [(MarkUnknown ''gone'' [], 2)] = Inr sample_unknown"
    by (simp_all add: sample_start sample_mark del: job_step_op.simps)
  have "of_effect (job_operation sample_running) = EffectConfirmed"
    "of_receiptRefs (job_operation sample_running) = [''jobs/job-1/start.json'']"
    by (simp_all add: sample_running_def)
  with job_history_monotone [OF sample_create run] show ?thesis by auto
qed

text \<open>
  Status, result and evidence agree in every job the operations produce: a terminal job carries
  a result whose outcome is its status, a job that is not terminal carries none, and a running job
  has a start time, a process and a confirmed effect.
\<close>

theorem job_status_agrees:
  assumes "createDurableJob sha256 le i now = Inr job0"
    and "run_steps job_step_op job0 ops = Inr job"
  shows "(if isDurableJobTerminal (job_status job)
          then (\<exists>r. job_result job = Some r \<and> jr_outcome r = job_status job) else job_result job = None)
    \<and> (job_status job = Job_Running \<longrightarrow>
         job_startedAt job \<noteq> None \<and> job_process job \<noteq> None
         \<and> of_effect (job_operation job) = EffectConfirmed)"
  using created_history [OF assms] job_valid_started [of job] by (simp add: job_inv_def)

theorem job_status_agrees_witness:
  "isDurableJobTerminal (job_status sample_unknown)
     \<and> (\<exists>r. job_result sample_unknown = Some r \<and> jr_outcome r = job_status sample_unknown)"
proof -
  have "run_steps job_step_op sample_created [(StartJob sample_process, 1), (MarkUnknown ''gone'' [], 2)]
      = Inr sample_unknown"
    by (simp add: sample_start sample_mark del: job_step_op.simps)
  moreover have "job_status sample_unknown = Job_Unknown" by (simp add: sample_unknown_def)
  ultimately show ?thesis
    using job_status_agrees [OF sample_create] by fastforce
qed

end
