(* ===== verification/Job_Supervisor.thy ===== *)
theory Job_Supervisor
  imports Mailbox_Store Durable_Job
begin

section \<open>The job supervisor\<close>

text \<open>
  \<open>src/controller/jobSupervisor.ts\<close>, with the \<open>durable_jobs\<close> table of \<open>src/storage/sqliteStore.ts\<close>
  and the transaction \<open>transitionDurableJob\<close> of \<open>src/controller/fileSchedulerStoreAdapter.ts\<close>.  A
  reconcile pass looks at every queued or running job: it starts a runner, adopts one that is
  running, records its result or its loss, and wakes the Leader in the transaction that makes the
  job terminal.

  What the ports answer during a pass (files left by the runner, processes, authorization) is the
  record \<open>job_ports\<close>, one per job; what they are asked to do is the list of effects \<open>su_effects\<close>, in
  order.  A method may throw after some of its effects: it returns the state it reached together
  with the outcome.  Failures of the ports themselves (I/O errors) are not modelled.
\<close>

subsection \<open>The jobs table\<close>

record ctl_store =
  st_jobs :: "durable_job list"
  st_mail :: mailbox_rows
  st_tasks :: "string list"

definition has_key :: "string \<Rightarrow> string \<Rightarrow> durable_job \<Rightarrow> bool" where
  "has_key taskId jobId job \<longleftrightarrow> job_taskId job = taskId \<and> job_id job = jobId"

definition getDurableJob :: "ctl_store \<Rightarrow> string \<Rightarrow> string \<Rightarrow> durable_job option" where
  "getDurableJob store taskId jobId = find (has_key taskId jobId) (st_jobs store)"

text \<open>\<open>INSERT ... ON CONFLICT(task_id, job_id) DO UPDATE\<close>.\<close>

definition put_job :: "durable_job \<Rightarrow> durable_job list \<Rightarrow> durable_job list" where
  "put_job job jobs =
     (if list_ex (has_key (job_taskId job) (job_id job)) jobs
      then map (\<lambda>j. if has_key (job_taskId job) (job_id job) j then job else j) jobs
      else jobs @ [job])"

definition saveDurableJob :: "ctl_store \<Rightarrow> string \<Rightarrow> durable_job \<Rightarrow> ctl_store result" where
  "saveDurableJob store taskId job =
     (if job_taskId job \<noteq> taskId then throw ''DurableJob belongs to another Task'' else
      andThen (validateDurableJob job) (\<lambda>_.
      if taskId \<notin> set (st_tasks store) then throw ''Task not found'' else
      andThen (case getDurableJob store taskId (job_id job) of
           None \<Rightarrow> Inr ()
         | Some existing \<Rightarrow>
             if date_less (job_updatedAt job) (job_updatedAt existing)
             then throw ''DurableJob updatedAt cannot move backwards''
             else andThen (validDurableJobTransition existing job) (\<lambda>ok.
                    if \<not> ok then throw ''DurableJob transition is invalid'' else Inr ())) (\<lambda>_.
        Inr (store\<lparr>st_jobs := put_job job (st_jobs store)\<rparr>))))"

definition listActiveDurableJobs :: "(string \<Rightarrow> string \<Rightarrow> bool) \<Rightarrow> ctl_store \<Rightarrow> durable_job list" where
  \<comment> \<open>\<open>le\<close> is \<open>numericCompare\<close>, the collation of the runtime\<close>
  "listActiveDurableJobs le store =
     sort_by (\<lambda>a b. le (job_taskId a @ ''/'' @ job_id a) (job_taskId b @ ''/'' @ job_id b))
       (filter (\<lambda>j. job_status j = Job_Queued \<or> job_status j = Job_Running) (st_jobs store))"

definition no_metadata :: signal_metadata where
  "no_metadata = \<lparr>meta_source = None, meta_dedupeKey = None, meta_factRevision = None\<rparr>"

definition enqueueWakeup ::
    "ctl_store \<Rightarrow> string \<Rightarrow> date \<Rightarrow> (string \<times> entity_ref list) option \<Rightarrow> ctl_store result" where
  "enqueueWakeup store taskId now wakeup =
     (case wakeup of
        None \<Rightarrow> Inr store
      | Some (reason, refs) \<Rightarrow>
          andThen (enqueueWork getWorkMailbox saveWorkMailbox (st_mail store)
              (RoleTarget taskId ''leader'') reason (AtDate now) refs no_metadata) (\<lambda>(_, mail).
            Inr (store\<lparr>st_mail := mail\<rparr>)))"

text \<open>One transaction: a throw of any part leaves no store.\<close>

definition transitionDurableJob ::
    "ctl_store \<Rightarrow> string \<Rightarrow> string \<Rightarrow> (durable_job \<Rightarrow> durable_job result) \<Rightarrow> date
       \<Rightarrow> (string \<times> entity_ref list) option \<Rightarrow> (durable_job option \<times> ctl_store) result" where
  "transitionDurableJob store taskId jobId transition now wakeup =
     (case getDurableJob store taskId jobId of
        None \<Rightarrow> Inr (None, store)
      | Some current \<Rightarrow>
          andThen (transition current) (\<lambda>next.
          andThen (saveDurableJob store taskId next) (\<lambda>saved.
          andThen (enqueueWakeup saved taskId now wakeup) (\<lambda>store'.
            Inr (Some next, store')))))"

subsection \<open>Ports and effects\<close>

record job_exit =
  ex_outcome :: job_status
  ex_exitCode :: "int option"
  ex_signal :: "string option"
  ex_failedStep :: "string option"
  ex_steps :: "step_result list"

record job_ports =
  pt_startMarker :: "job_process option"
  pt_readyFile :: "job_process option"
  pt_exitJson :: "job_exit option"
  pt_checkpoint :: "job_checkpoint option"
  pt_heartbeatMtime :: "date option"
  pt_startIdentity :: "int \<Rightarrow> string option"
  pt_isAlive :: "int \<Rightarrow> bool"
  pt_authorizeStart :: "durable_job \<Rightarrow> unit result"
  pt_authorizeInTransaction :: "durable_job \<Rightarrow> unit result"
  pt_spawned :: "int \<times> string option"

datatype sup_signal = SIGTERM | SIGKILL

datatype sup_effect =
    WriteSpec string string
  | WriteStartMarker string string job_process
  | SpawnRunner string string
  | WriteCancelFence string string
  | SignalIfOwned job_process sup_signal
  | TerminalEvent string string job_status job_status  \<comment> \<open>status, outcome\<close>
  | WakeTask string
  | ReportError err

record sup_state =
  su_store :: ctl_store
  su_sigkillAt :: "string \<Rightarrow> date option"
  su_effects :: "sup_effect list"

type_synonym 'a sup_outcome = "sup_state \<times> 'a result"

definition HEARTBEAT_STALE_MS :: int where "HEARTBEAT_STALE_MS = 2 * 60000"
definition SIGKILL_GRACE_MS :: int where "SIGKILL_GRACE_MS = 30000"

definition does :: "sup_state \<Rightarrow> sup_effect list \<Rightarrow> sup_state" where
  "does s es = s\<lparr>su_effects := su_effects s @ es\<rparr>"

fun thenDo :: "'a sup_outcome \<Rightarrow> ('a \<Rightarrow> sup_state \<Rightarrow> 'b sup_outcome) \<Rightarrow> 'b sup_outcome" where
  "thenDo (s, Inl e) f = (s, Inl e)"
| "thenDo (s, Inr x) f = f x s"

definition transition ::
    "durable_job \<Rightarrow> (durable_job \<Rightarrow> durable_job result) \<Rightarrow> date \<Rightarrow> (string \<times> entity_ref list) option
       \<Rightarrow> sup_state \<Rightarrow> durable_job option sup_outcome" where
  "transition job f now wakeup s =
     (case transitionDurableJob (su_store s) (job_taskId job) (job_id job) f now wakeup of
        Inl e \<Rightarrow> (s, Inl e)
      | Inr (r, store) \<Rightarrow> (s\<lparr>su_store := store\<rparr>, Inr r))"

definition wakeupRefs :: "durable_job \<Rightarrow> entity_ref list" where
  "wakeupRefs job = TaskRef (job_taskId job)
     # (case job_owner job of OwnerWorkItem i \<Rightarrow> [OwnedRef WorkItemRef (job_taskId job) i] | _ \<Rightarrow> [])"

definition job_finished :: "durable_job \<Rightarrow> (string \<times> entity_ref list) option" where
  \<comment> \<open>\<open>{ reason: wakeReason("job-finished"), refs: wakeupRefs(job) }\<close>\<close>
  "job_finished job = Some (''job-finished'', wakeupRefs job)"

definition deliverTerminalEvent :: "durable_job option \<Rightarrow> sup_state \<Rightarrow> sup_state" where
  "deliverTerminalEvent found s =
     (case found of
        None \<Rightarrow> s
      | Some job \<Rightarrow>
          if \<not> isDurableJobTerminal (job_status job) then s
          else does s [TerminalEvent (job_taskId job) (job_id job) (job_status job)
                 (case job_result job of None \<Rightarrow> job_status job | Some r \<Rightarrow> jr_outcome r)])"

text \<open>The transitions that end a job mark the wakeup and deliver the notice.\<close>

definition finish ::
    "durable_job \<Rightarrow> (durable_job \<Rightarrow> durable_job result) \<Rightarrow> date \<Rightarrow> sup_state \<Rightarrow> unit sup_outcome" where
  "finish job f now s =
     thenDo (transition job (\<lambda>current. andThen (f current) (\<lambda>ended. markDurableJobWakeupNotified ended now))
               now (job_finished job) s)
       (\<lambda>terminal s'. (deliverTerminalEvent terminal s', Inr ()))"

definition spawnedProcessFromEvidence :: "job_ports \<Rightarrow> job_process option" where
  "spawnedProcessFromEvidence pt =
     (case pt_readyFile pt of
        Some ready \<Rightarrow> Some ready
      | None \<Rightarrow>
          (case pt_startMarker pt of
             Some marker \<Rightarrow> if proc_startIdentity marker \<noteq> ''pending'' then Some marker else None
           | None \<Rightarrow> None))"

definition sigkillKey :: "durable_job \<Rightarrow> string" where
  "sigkillKey job = job_taskId job @ ''/'' @ job_id job"

subsection \<open>Harvesting the outcome\<close>

definition recordEvidenceAt :: "evidence \<Rightarrow> date \<Rightarrow> durable_job \<Rightarrow> durable_job result" where
  \<comment> \<open>\<open>{ ...current, operation: recordOperationEvidence(...), updatedAt: now.toISOString() }\<close>\<close>
  "recordEvidenceAt e now current =
     andThen (recordOperationEvidence (job_operation current) e) (\<lambda>operation.
     andThen (toISOString now) (\<lambda>timestamp.
       Inr (current\<lparr>job_operation := operation, job_updatedAt := timestamp\<rparr>)))"

definition exit_evidence :: "job_exit \<Rightarrow> durable_job \<Rightarrow> evidence" where
  "exit_evidence exit current =
     \<lparr>ev_effect = Some EffectConfirmed,
      ev_receiptRefs = Some [job_artifactsLocator current @ ''/exit.json''],
      ev_partialResultRefs = Some (map sr_logPath (filter (\<lambda>r. js_trim (sr_logPath r) \<noteq> []) (ex_steps exit)))\<rparr>"

definition exit_result :: "job_exit \<Rightarrow> job_result" where
  "exit_result exit =
     \<lparr>jr_outcome = ex_outcome exit, jr_exitCode = ex_exitCode exit, jr_signal = ex_signal exit,
      jr_failedStep = ex_failedStep exit, jr_unknownReason = None,
      jr_evidenceSource = Some FromExitArtifact, jr_steps = ex_steps exit\<rparr>"

definition invalid_output :: job_result where
  "invalid_output =
     \<lparr>jr_outcome = Job_Failed, jr_exitCode = None, jr_signal = None, jr_failedStep = None,
      jr_unknownReason = Some ''runner output is invalid; original receipt is retained'',
      jr_evidenceSource = None, jr_steps = []\<rparr>"

definition completeFromExit :: "job_exit \<Rightarrow> date \<Rightarrow> durable_job \<Rightarrow> durable_job result" where
  "completeFromExit exit now current =
     (case completeDurableJob current (exit_result exit) now of
        Inr ended \<Rightarrow> Inr ended
      | Inl _ \<Rightarrow> completeDurableJob current invalid_output now)"

definition forgetSigkill :: "durable_job \<Rightarrow> sup_state \<Rightarrow> sup_state" where
  "forgetSigkill job s = s\<lparr>su_sigkillAt := (su_sigkillAt s)(sigkillKey job := None)\<rparr>"

definition harvestExit :: "durable_job \<Rightarrow> job_exit \<Rightarrow> date \<Rightarrow> sup_state \<Rightarrow> unit sup_outcome" where
  "harvestExit job exit now s =
     thenDo (transition job (\<lambda>current. recordEvidenceAt (exit_evidence exit current) now current) now None s)
       (\<lambda>_ s1. thenDo (finish job (completeFromExit exit now) now s1)
         (\<lambda>_ s2. (forgetSigkill job s2, Inr ())))"

definition find_step :: "step_result list \<Rightarrow> string \<Rightarrow> step_result option" where
  "find_step steps name = find (\<lambda>r. sr_name r = name) steps"

definition failing :: "step_result \<Rightarrow> bool" where
  "failing r \<longleftrightarrow> sr_timedOut r \<or> sr_exitCode r \<noteq> Some 0 \<or> sr_signal r \<noteq> None"

fun order_steps :: "step_result list \<Rightarrow> job_step list \<Rightarrow> step_result list option" where
  "order_steps results [] = Some []"
| "order_steps results (planned # rest) =
     (case find_step results (js_name planned) of
        None \<Rightarrow> None
      | Some r \<Rightarrow> map_option (\<lambda>rs. r # rs) (order_steps results rest))"

definition proveOutcomeFromCheckpoint :: "durable_job \<Rightarrow> job_checkpoint \<Rightarrow> job_result option" where
  \<comment> \<open>with \<open>evidenceSource: "checkpoint"\<close>, which the caller adds\<close>
  "proveOutcomeFromCheckpoint job checkpoint =
     (let results = cp_completedSteps checkpoint
      in if \<not> distinct (map sr_name results) then None
         else if length results \<noteq> length (job_steps job) then None
         else (case order_steps results (job_steps job) of
           None \<Rightarrow> None
         | Some ordered \<Rightarrow> Some (case find failing ordered of
             None \<Rightarrow> \<lparr>jr_outcome = Job_Succeeded, jr_exitCode = Some 0, jr_signal = None, jr_failedStep = None,
               jr_unknownReason = None, jr_evidenceSource = Some FromCheckpoint, jr_steps = ordered\<rparr>
           | Some r \<Rightarrow> \<lparr>jr_outcome = (if sr_timedOut r then Job_TimedOut else Job_Failed),
               jr_exitCode = sr_exitCode r, jr_signal = sr_signal r, jr_failedStep = Some (sr_name r),
               jr_unknownReason = None, jr_evidenceSource = Some FromCheckpoint, jr_steps = ordered\<rparr>)))"

definition handleDeadProcess :: "durable_job \<Rightarrow> job_ports \<Rightarrow> date \<Rightarrow> sup_state \<Rightarrow> unit sup_outcome" where
  "handleDeadProcess job pt now s =
     thenDo (case Option.bind (pt_checkpoint pt) (proveOutcomeFromCheckpoint job) of
         Some proven \<Rightarrow> finish job (\<lambda>current. completeDurableJob current proven now) now s
       | None \<Rightarrow> finish job (\<lambda>current. markDurableJobUnknown current
             ''runner process exited without writing exit.json''
             (case pt_checkpoint pt of None \<Rightarrow> [] | Some c \<Rightarrow> cp_completedSteps c) now) now s)
       (\<lambda>_ s'. (forgetSigkill job s', Inr ()))"

definition process_alive :: "job_ports \<Rightarrow> job_process \<Rightarrow> bool" where
  "process_alive pt p \<longleftrightarrow> pt_startIdentity pt (proc_pid p) = Some (proc_startIdentity p) \<and> pt_isAlive pt (proc_pid p)"

definition adoptAndContinue ::
    "durable_job \<Rightarrow> job_process \<Rightarrow> job_ports \<Rightarrow> date \<Rightarrow> sup_state \<Rightarrow> unit sup_outcome" where
  "adoptAndContinue job p pt now s =
     thenDo (transition job (\<lambda>current. startDurableJob current p now) now None s) (\<lambda>_ s1.
       (case pt_exitJson pt of
          Some exit \<Rightarrow> harvestExit job exit now s1
        | None \<Rightarrow> if \<not> process_alive pt p then handleDeadProcess job pt now s1 else (s1, Inr ())))"

subsection \<open>Starting a runner\<close>

definition rejectStart :: "durable_job \<Rightarrow> err \<Rightarrow> date \<Rightarrow> sup_state \<Rightarrow> unit sup_outcome" where
  "rejectStart job error now s =
     (case error of
        CoreJobErr message \<Rightarrow> finish job (\<lambda>current. rejectQueuedDurableJob current message now) now s
      | _ \<Rightarrow> (s, Inl error))"

definition attemptStart :: "job_ports \<Rightarrow> date \<Rightarrow> durable_job \<Rightarrow> durable_job result" where
  "attemptStart pt now current =
     (if job_status current \<noteq> Job_Queued \<or> of_effect (job_operation current) \<noteq> EffectNone
      then throw ''Job already attempted; inspect the original request.''
      else andThen (pt_authorizeInTransaction pt current) (\<lambda>_.
        recordEvidenceAt \<lparr>ev_effect = Some EffectPossible, ev_receiptRefs = None, ev_partialResultRefs = None\<rparr>
          now current))"

definition spawn_effects :: "durable_job \<Rightarrow> job_ports \<Rightarrow> sup_effect list" where
  "spawn_effects job pt =
     (let (pid, identity) = pt_spawned pt
      in [WriteStartMarker (job_taskId job) (job_id job) \<lparr>proc_pid = 0, proc_startIdentity = ''pending''\<rparr>,
          SpawnRunner (job_taskId job) (job_id job),
          WriteStartMarker (job_taskId job) (job_id job)
            \<lparr>proc_pid = pid, proc_startIdentity = (case identity of None \<Rightarrow> int_str pid | Some i \<Rightarrow> i)\<rparr>,
          WakeTask (job_taskId job)])"

definition startJob :: "durable_job \<Rightarrow> job_ports \<Rightarrow> date \<Rightarrow> sup_state \<Rightarrow> unit sup_outcome" where
  "startJob job pt now s =
     (case pt_authorizeStart pt job of
        Inl e \<Rightarrow> rejectStart job e now s
      | Inr _ \<Rightarrow>
          (case transition job (attemptStart pt now) now None (does s [WriteSpec (job_taskId job) (job_id job)]) of
             (s1, Inl e) \<Rightarrow> rejectStart job e now s1
           | (s1, Inr None) \<Rightarrow> (s1, Inr ())
           | (s1, Inr (Some _)) \<Rightarrow> (does s1 (spawn_effects job pt), Inr ())))"

definition reconcileQueued :: "durable_job \<Rightarrow> job_ports \<Rightarrow> date \<Rightarrow> sup_state \<Rightarrow> unit sup_outcome" where
  "reconcileQueued job pt now s =
     (let spawned = spawnedProcessFromEvidence pt;
          s1 = (if job_cancelRequestedAt job = None then s
                else does s (WriteCancelFence (job_taskId job) (job_id job)
                       # (case spawned of None \<Rightarrow> [] | Some p \<Rightarrow> [SignalIfOwned p SIGTERM])))
      in (case spawned of
            Some p \<Rightarrow> adoptAndContinue job p pt now s1
          | None \<Rightarrow>
              if of_effect (job_operation job) \<noteq> EffectNone then
                finish job (\<lambda>current. markDurableJobUnknown current
                    ''runner acceptance is unknown; inspect the original request''
                    (case job_checkpoint current of None \<Rightarrow> [] | Some c \<Rightarrow> cp_completedSteps c) now) now s1
              else if job_cancelRequestedAt job \<noteq> None then
                finish job (\<lambda>current. cancelQueuedDurableJob current now) now s1
              else if pt_startMarker pt \<noteq> None then
                (s1, throw ''Job start marker contradicts its unattempted operation.'')
              else startJob job pt now s1))"

subsection \<open>Supervising a running job\<close>

definition heartbeat_step ::
    "durable_job \<Rightarrow> job_ports \<Rightarrow> date \<Rightarrow> sup_state \<Rightarrow> unit sup_outcome" where
  "heartbeat_step job pt now s =
     (case pt_heartbeatMtime pt of
        None \<Rightarrow> (s, Inr ())
      | Some mtime \<Rightarrow>
          let s1 = (case job_process job of
                Some p \<Rightarrow>
                  if now - mtime > HEARTBEAT_STALE_MS
                  then (let s' = does s [SignalIfOwned p SIGTERM] in
                          if su_sigkillAt s' (sigkillKey job) = None
                          then s'\<lparr>su_sigkillAt := (su_sigkillAt s')(sigkillKey job \<mapsto> now + SIGKILL_GRACE_MS)\<rparr>
                          else s')
                  else s
              | None \<Rightarrow> s);
              later = (case job_heartbeatAt job of
                None \<Rightarrow> mtime > 0
              | Some t \<Rightarrow> (case date_parse t of None \<Rightarrow> False | Some beat \<Rightarrow> mtime > beat))
          in if later
             then thenDo (transition job (\<lambda>current. touchDurableJobHeartbeat current mtime) now None s1)
                    (\<lambda>_ s2. (s2, Inr ()))
             else (s1, Inr ()))"

definition sigkill_step :: "durable_job \<Rightarrow> date \<Rightarrow> sup_state \<Rightarrow> sup_state" where
  "sigkill_step job now s =
     (case (su_sigkillAt s (sigkillKey job), job_process job) of
        (Some t, Some p) \<Rightarrow> if now \<ge> t then forgetSigkill job (does s [SignalIfOwned p SIGKILL]) else s
      | _ \<Rightarrow> s)"

definition superviseRunning :: "durable_job \<Rightarrow> job_ports \<Rightarrow> date \<Rightarrow> sup_state \<Rightarrow> unit sup_outcome" where
  "superviseRunning job pt now s =
     (case pt_exitJson pt of
        Some exit \<Rightarrow> harvestExit job exit now s
      | None \<Rightarrow>
          let s1 = (case (job_cancelRequestedAt job, job_process job) of
                (Some _, Some p) \<Rightarrow> does s [WriteCancelFence (job_taskId job) (job_id job), SignalIfOwned p SIGTERM]
              | _ \<Rightarrow> s)
          in if (case job_process job of None \<Rightarrow> False | Some p \<Rightarrow> \<not> process_alive pt p)
             then handleDeadProcess job pt now s1
             else thenDo (heartbeat_step job pt now s1) (\<lambda>_ s2. (sigkill_step job now s2, Inr ())))"

definition reconcileJob :: "durable_job \<Rightarrow> job_ports \<Rightarrow> date \<Rightarrow> sup_state \<Rightarrow> unit sup_outcome" where
  "reconcileJob job pt now s =
     (if job_status job = Job_Queued then reconcileQueued job pt now s
      else if job_status job = Job_Running then superviseRunning job pt now s
      else (s, Inr ()))"

fun reconcileJobs :: "durable_job list \<Rightarrow> (durable_job \<Rightarrow> job_ports) \<Rightarrow> date \<Rightarrow> sup_state \<Rightarrow> sup_state" where
  "reconcileJobs [] ports now s = s"
| "reconcileJobs (job # jobs) ports now s =
     (case reconcileJob job (ports job) now s of
        (s', Inl e) \<Rightarrow> reconcileJobs jobs ports now (does s' [ReportError e])
      | (s', Inr _) \<Rightarrow> reconcileJobs jobs ports now s')"

definition reconcile ::
    "(string \<Rightarrow> string \<Rightarrow> bool) \<Rightarrow> (durable_job \<Rightarrow> job_ports) \<Rightarrow> date \<Rightarrow> sup_state \<Rightarrow> sup_state" where
  "reconcile le ports now s = reconcileJobs (listActiveDurableJobs le (su_store s)) ports now s"

subsection \<open>The table\<close>

lemma get_put [simp]:
  "getDurableJob (store\<lparr>st_jobs := put_job job (st_jobs store)\<rparr>) t i
     = (if has_key t i job then Some job else getDurableJob store t i)"
proof -
  have found: "find (has_key t i) (map (\<lambda>j. if has_key (job_taskId job) (job_id job) j then job else j) js)
      = (if has_key t i job then Some job else find (has_key t i) js)"
    if "has_key t i job \<longrightarrow> list_ex (has_key (job_taskId job) (job_id job)) js" for js
    using that by (induction js) (auto simp: has_key_def)
  have append: "find (has_key t i) (js @ [job]) = (if has_key t i job then Some job else find (has_key t i) js)"
    if "\<not> list_ex (has_key (job_taskId job) (job_id job)) js" for js
    using that by (induction js) (auto simp: has_key_def)
  show ?thesis
    unfolding getDurableJob_def put_job_def using found append by simp
qed

lemma has_key_self [simp]: "has_key (job_taskId j) (job_id j) j"
  by (simp add: has_key_def)

lemma get_has_key: "getDurableJob store t i = Some j \<Longrightarrow> job_taskId j = t \<and> job_id j = i"
  by (auto simp: getDurableJob_def has_key_def find_Some_iff)

lemma save_cases:
  assumes "saveDurableJob store t job = Inr store'"
  shows "job_taskId job = t" and "job_valid job" and "store' = store\<lparr>st_jobs := put_job job (st_jobs store)\<rparr>"
    and "getDurableJob store t (job_id job) = Some a \<Longrightarrow> validDurableJobTransition a job = Inr True"
  using assms by (auto simp: saveDurableJob_def split: if_splits)

lemma accepted_rank:
  assumes "validDurableJobTransition a b = Inr True"
  shows "effect_rank (of_effect (job_operation a)) \<le> effect_rank (of_effect (job_operation b))"
proof -
  have "recordOperationEvidence (job_operation a) (as_evidence (job_operation b)) = Inr (job_operation b)"
    using assms by (auto simp: validDurableJobTransition_def split: if_splits)
  then have "job_operation b = recorded (job_operation a) (as_evidence (job_operation b))"
    unfolding record_eq by simp
  then show ?thesis using recorded_le unfolding facts_le_def by metis
qed

text \<open>Rows stay, and the effect of a row never falls.\<close>

definition rows_le :: "ctl_store \<Rightarrow> ctl_store \<Rightarrow> bool" where
  "rows_le a b \<longleftrightarrow> (\<forall>t i j. getDurableJob a t i = Some j \<longrightarrow>
     (\<exists>j'. getDurableJob b t i = Some j'
        \<and> effect_rank (of_effect (job_operation j)) \<le> effect_rank (of_effect (job_operation j'))))"

lemma rows_le_refl [simp]: "rows_le a a"
  by (auto simp: rows_le_def)

lemma rows_le_trans: "rows_le a b \<Longrightarrow> rows_le b c \<Longrightarrow> rows_le a c"
  unfolding rows_le_def by (meson order_trans)

lemma rows_le_mail [simp]: "rows_le a (b\<lparr>st_mail := m\<rparr>) \<longleftrightarrow> rows_le a b"
  by (simp add: rows_le_def getDurableJob_def)

lemma save_rows_le: "saveDurableJob store t job = Inr store' \<Longrightarrow> rows_le store store'"
  using save_cases(1,3,4) [of store t job store'] accepted_rank [of _ job]
  by (auto simp: rows_le_def has_key_def)

lemma transition_cases:
  assumes "transitionDurableJob store t i f now w = Inr (r, store')"
  obtains (Absent) "getDurableJob store t i = None" and "r = None" and "store' = store"
  | (Saved) current nxt saved where "getDurableJob store t i = Some current" and "f current = Inr nxt"
      and "r = Some nxt" and "saveDurableJob store t nxt = Inr saved" and "enqueueWakeup saved t now w = Inr store'"
  using assms by (auto simp: transitionDurableJob_def split: option.splits)

lemma enqueueWakeup_jobs:
  "enqueueWakeup a t now w = Inr b \<Longrightarrow> st_jobs b = st_jobs a \<and> st_tasks b = st_tasks a"
  by (auto simp: enqueueWakeup_def split: option.splits)

lemma enqueueWakeup_get:
  "enqueueWakeup a t now w = Inr b \<Longrightarrow> getDurableJob b t' i = getDurableJob a t' i"
  by (simp add: getDurableJob_def enqueueWakeup_jobs)

lemma enqueueWakeup_mail:
  "enqueueWakeup a t now None = Inr b \<longleftrightarrow> b = a"
  "enqueueWakeup a t now (Some (reason, refs)) = Inr b \<longleftrightarrow>
     (\<exists>m mail. enqueueWork getWorkMailbox saveWorkMailbox (st_mail a) (RoleTarget t ''leader'') reason
        (AtDate now) refs no_metadata = Inr (m, mail) \<and> b = a\<lparr>st_mail := mail\<rparr>)"
  by (auto simp: enqueueWakeup_def)

lemma save_mail: "saveDurableJob store t job = Inr store' \<Longrightarrow> st_mail store' = st_mail store"
  using save_cases(3) by fastforce

lemma save_job_get:
  "saveDurableJob store t job = Inr store' \<Longrightarrow>
     getDurableJob store' t' i = (if has_key t' i job then Some job else getDurableJob store t' i)"
  using save_cases(3) by fastforce

lemma transition_rows_le:
  "transitionDurableJob store t i f now w = Inr (r, store') \<Longrightarrow> rows_le store store'"
proof (erule transition_cases)
  fix nxt saved
  assume "saveDurableJob store t nxt = Inr saved" and "enqueueWakeup saved t now w = Inr store'"
  then show ?thesis using save_rows_le by (simp add: rows_le_def enqueueWakeup_get)
qed simp

subsection \<open>A runner is spawned at most once\<close>

definition spawns :: "string \<Rightarrow> string \<Rightarrow> sup_effect list \<Rightarrow> nat" where
  "spawns t i es = length (filter (\<lambda>e. e = SpawnRunner t i) es)"

lemma spawns_append [simp]: "spawns t i (xs @ ys) = spawns t i xs + spawns t i ys"
  by (simp add: spawns_def)

text \<open>A part of a pass that spawns nothing and keeps the rows.\<close>

definition quiet :: "sup_state \<Rightarrow> sup_state \<Rightarrow> bool" where
  "quiet s s' \<longleftrightarrow> rows_le (su_store s) (su_store s')
     \<and> (\<forall>t i. spawns t i (su_effects s') = spawns t i (su_effects s))"

named_theorems quiet_intros

lemma quiet_refl [quiet_intros]: "quiet s s"
  by (simp add: quiet_def)

lemma quiet_trans: "quiet a b \<Longrightarrow> quiet b c \<Longrightarrow> quiet a c"
  unfolding quiet_def by (metis rows_le_trans)

lemma quiet_does [quiet_intros]:
  "(\<And>t i. SpawnRunner t i \<notin> set es) \<Longrightarrow> quiet s s' \<Longrightarrow> quiet s (does s' es)"
  by (auto simp: quiet_def does_def spawns_def filter_empty_conv)

lemma quiet_sigkill [quiet_intros]: "quiet s s' \<Longrightarrow> quiet s (s'\<lparr>su_sigkillAt := k\<rparr>)"
  by (simp add: quiet_def)

lemma quiet_then [quiet_intros]:
  "quiet r (fst p) \<Longrightarrow> (\<And>x s. quiet r s \<Longrightarrow> quiet r (fst (f x s))) \<Longrightarrow> quiet r (fst (thenDo p f))"
  by (cases p; cases "snd p") auto

lemma quiet_transition [quiet_intros]: "quiet r s \<Longrightarrow> quiet r (fst (transition job f now w s))"
  by (rule quiet_trans) (auto simp: transition_def quiet_def dest: transition_rows_le split: sum.splits)

lemma quiet_deliver [quiet_intros]: "quiet r s \<Longrightarrow> quiet r (deliverTerminalEvent found s)"
  by (auto simp: deliverTerminalEvent_def intro!: quiet_intros split: option.splits)

lemma quiet_finish [quiet_intros]: "quiet r s \<Longrightarrow> quiet r (fst (finish job f now s))"
  by (auto simp: finish_def intro!: quiet_intros)

lemma quiet_forget [quiet_intros]: "quiet r s \<Longrightarrow> quiet r (forgetSigkill job s)"
  by (auto simp: forgetSigkill_def intro!: quiet_intros)

lemma quiet_harvest [quiet_intros]: "quiet r s \<Longrightarrow> quiet r (fst (harvestExit job exit now s))"
  by (auto simp: harvestExit_def intro!: quiet_intros)

lemma quiet_dead [quiet_intros]: "quiet r s \<Longrightarrow> quiet r (fst (handleDeadProcess job pt now s))"
  by (auto simp: handleDeadProcess_def intro!: quiet_intros split: option.splits)

lemma quiet_adopt [quiet_intros]: "quiet r s \<Longrightarrow> quiet r (fst (adoptAndContinue job p pt now s))"
  by (auto simp: adoptAndContinue_def intro!: quiet_intros split: option.splits)

lemma quiet_reject [quiet_intros]: "quiet r s \<Longrightarrow> quiet r (fst (rejectStart job e now s))"
  by (auto simp: rejectStart_def intro!: quiet_intros split: err.splits)

lemma quiet_heartbeat [quiet_intros]: "quiet r s \<Longrightarrow> quiet r (fst (heartbeat_step job pt now s))"
  by (auto simp: heartbeat_step_def Let_def intro!: quiet_intros split: option.splits)

lemma quiet_kill_step [quiet_intros]: "quiet r s \<Longrightarrow> quiet r (sigkill_step job now s)"
  by (auto simp: sigkill_step_def intro!: quiet_intros split: option.splits)

lemma quiet_supervise: "quiet r s \<Longrightarrow> quiet r (fst (superviseRunning job pt now s))"
  by (auto simp: superviseRunning_def Let_def intro!: quiet_intros split: option.splits)

text \<open>Only \<open>startJob\<close> spawns, and only for a row without an effect, which then has one.\<close>

definition spawn_inv :: "sup_state \<Rightarrow> bool" where
  "spawn_inv s \<longleftrightarrow> (\<forall>t i. spawns t i (su_effects s) \<le> 1
     \<and> (spawns t i (su_effects s) = 1 \<longrightarrow>
          (\<exists>j. getDurableJob (su_store s) t i = Some j \<and> of_effect (job_operation j) \<noteq> EffectNone)))"

lemma rank_none: "effect_rank e = 0 \<longleftrightarrow> e = EffectNone"
  by (cases e) auto

lemma quiet_spawn_inv: "quiet s s' \<Longrightarrow> spawn_inv s \<Longrightarrow> spawn_inv s'"
  unfolding quiet_def spawn_inv_def rows_le_def rank_none [symmetric] by (metis le_0_eq)

lemma attemptStart_row:
  "attemptStart pt now current = Inr nxt \<Longrightarrow>
     of_effect (job_operation current) = EffectNone \<and> of_effect (job_operation nxt) = EffectPossible
     \<and> job_taskId nxt = job_taskId current \<and> job_id nxt = job_id current"
  by (auto simp: attemptStart_def recordEvidenceAt_def record_eq recorded_def split: if_splits)

lemma start_spawn_inv:
  assumes inv: "spawn_inv s"
  shows "spawn_inv (fst (startJob job pt now s))"
proof -
  let ?s0 = "does s [WriteSpec (job_taskId job) (job_id job)]"
  have q0: "quiet s ?s0" by (intro quiet_intros) auto
  have quiet: "spawn_inv s'" if "quiet s s'" for s' using quiet_spawn_inv [OF that inv] .
  obtain s1 r where tr: "transition job (attemptStart pt now) now None ?s0 = (s1, r)" by fastforce
  then have q1: "quiet s s1" using quiet_transition [OF q0] by (metis fst_conv)
  show ?thesis
  proof (cases "pt_authorizeStart pt job")
    case (Inl e)
    then show ?thesis by (auto simp: startJob_def intro!: quiet quiet_intros)
  next
    case (Inr u)
    show ?thesis
    proof (cases r)
      case (Inl e)
      with tr Inr q1 show ?thesis by (auto simp: startJob_def intro!: quiet quiet_intros)
    next
      case r: (Inr found)
      show ?thesis
      proof (cases found)
        case None
        with tr Inr r q1 show ?thesis by (simp add: startJob_def quiet)
      next
        case (Some nxt)
        with tr r have "transitionDurableJob (su_store ?s0) (job_taskId job) (job_id job) (attemptStart pt now)
            now None = Inr (Some nxt, su_store s1)" and eff: "su_effects s1 = su_effects ?s0"
          by (auto simp: transition_def split: sum.splits)
        then obtain current saved where cur: "getDurableJob (su_store s) (job_taskId job) (job_id job) = Some current"
          and n: "attemptStart pt now current = Inr nxt"
          and sv: "saveDurableJob (su_store s) (job_taskId job) nxt = Inr saved" and st: "su_store s1 = saved"
          by (elim transition_cases) (auto simp: does_def enqueueWakeup_mail)
        note row = attemptStart_row [OF n] get_has_key [OF cur]
        have key: "has_key (job_taskId job) (job_id job) nxt" using row by (simp add: has_key_def)
        have zero: "spawns (job_taskId job) (job_id job) (su_effects s) = 0"
          using inv cur row unfolding spawn_inv_def by (metis le_neq_implies_less less_one option.inject)
        have new: "getDurableJob (su_store s1) (job_taskId job) (job_id job) = Some nxt"
          using save_job_get [OF sv] key by (simp add: st)
        have inv1: "spawn_inv s1" by (rule quiet [OF q1])
        have sp: "spawns t i (spawn_effects job pt)
            = (if t = job_taskId job \<and> i = job_id job then 1 else 0)" for t i
          by (auto simp: spawn_effects_def spawns_def split: prod.splits)
        have "spawns t i (su_effects s1) = spawns t i (su_effects s)" for t i
          by (simp add: eff does_def) (simp add: spawns_def)
        with inv1 zero new row sp have "spawn_inv (does s1 (spawn_effects job pt))"
          by (auto simp: spawn_inv_def does_def)
        with tr Inr r Some show ?thesis by (simp add: startJob_def)
      qed
    qed
  qed
qed

lemma reconcile_job_spawn_inv: "spawn_inv s \<Longrightarrow> spawn_inv (fst (reconcileJob job pt now s))"
proof -
  assume inv: "spawn_inv s"
  have q: "spawn_inv s'" if "quiet s s'" for s' using quiet_spawn_inv [OF that inv] .
  have d: "quiet s (does s (WriteCancelFence t i # (case x of None \<Rightarrow> [] | Some p \<Rightarrow> [SignalIfOwned p SIGTERM])))"
    for t i x by (intro quiet_intros) (auto split: option.splits)
  show ?thesis
    unfolding reconcileJob_def reconcileQueued_def Let_def
    by (auto simp: inv intro!: q quiet_intros quiet_supervise start_spawn_inv d split: option.splits)
qed

lemma reconcile_jobs_spawn_inv: "spawn_inv s \<Longrightarrow> spawn_inv (reconcileJobs jobs ports now s)"
proof (induction jobs arbitrary: s)
  case (Cons job jobs)
  have r: "spawn_inv (does s' [ReportError e])" if "spawn_inv s'" for s' e
    using that by (rule quiet_spawn_inv [rotated]) (auto intro!: quiet_intros)
  obtain s' out where "reconcileJob job (ports job) now s = (s', out)" by fastforce
  moreover from this have "spawn_inv s'" using reconcile_job_spawn_inv [OF Cons.prems] by (metis fst_conv)
  ultimately show ?case using Cons.IH r by (auto split: sum.splits)
qed simp

text \<open>
  What happens around the supervisor: passes, and writes of other commands, which reach the jobs
  only through \<open>saveDurableJob\<close> and the mailboxes in any way.
\<close>

datatype sup_event =
    Pass "durable_job \<Rightarrow> job_ports" date
  | SaveJob string durable_job
  | MailWrite mailbox_rows

fun sup_step :: "(string \<Rightarrow> string \<Rightarrow> bool) \<Rightarrow> sup_state \<Rightarrow> sup_event \<Rightarrow> sup_state result" where
  "sup_step le s (Pass ports now) = Inr (reconcile le ports now s)"
| "sup_step le s (SaveJob taskId job) =
     andThen (saveDurableJob (su_store s) taskId job) (\<lambda>store. Inr (s\<lparr>su_store := store\<rparr>))"
| "sup_step le s (MailWrite rows) = Inr (s\<lparr>su_store := (su_store s)\<lparr>st_mail := rows\<rparr>\<rparr>)"

interpretation supervisor: step_machine "sup_step le" spawn_inv for le
proof
  fix s e s'
  assume inv: "spawn_inv s" and step: "sup_step le s e = Inr s'"
  show "spawn_inv s'"
  proof (cases e)
    case (Pass ports now)
    with inv step show ?thesis by (auto simp: reconcile_def reconcile_jobs_spawn_inv)
  next
    case (SaveJob t j)
    with step have "quiet s s'" by (auto simp: quiet_def dest: save_rows_le)
    with inv show ?thesis by (blast intro: quiet_spawn_inv)
  next
    case (MailWrite m)
    with step have "quiet s s'" by (auto simp: quiet_def)
    with inv show ?thesis by (blast intro: quiet_spawn_inv)
  qed
qed

subsection \<open>A job that ends wakes its Leader\<close>

definition job_row :: "durable_job \<Rightarrow> sup_state \<Rightarrow> durable_job option" where
  "job_row job s = getDurableJob (su_store s) (job_taskId job) (job_id job)"

definition still_open :: "durable_job \<Rightarrow> sup_state \<Rightarrow> sup_state \<Rightarrow> bool" where
  "still_open job s s' \<longleftrightarrow> st_mail (su_store s') = st_mail (su_store s)
     \<and> (\<forall>a. job_row job s = Some a \<longrightarrow> \<not> isDurableJobTerminal (job_status a) \<longrightarrow>
          (\<exists>b. job_row job s' = Some b \<and> \<not> isDurableJobTerminal (job_status b)))"

definition woken :: "durable_job \<Rightarrow> date \<Rightarrow> sup_state \<Rightarrow> sup_state \<Rightarrow> bool" where
  "woken job now s s' \<longleftrightarrow> (\<exists>b m. job_row job s' = Some b \<and> isDurableJobTerminal (job_status b)
     \<and> job_wakeupNotified b = Some True
     \<and> enqueueWork getWorkMailbox saveWorkMailbox (st_mail (su_store s)) (RoleTarget (job_taskId job) ''leader'')
         ''job-finished'' (AtDate now) (wakeupRefs job) no_metadata = Inr (m, st_mail (su_store s'))
     \<and> (\<exists>out. TerminalEvent (job_taskId job) (job_id job) (job_status b) out \<in> set (su_effects s')))"

definition ends_well :: "durable_job \<Rightarrow> date \<Rightarrow> sup_state \<Rightarrow> sup_state \<Rightarrow> bool" where
  "ends_well job now s s' \<longleftrightarrow>
     (\<forall>a. job_row job s = Some a \<longrightarrow> \<not> isDurableJobTerminal (job_status a) \<longrightarrow>
        still_open job s s' \<or> woken job now s s')"

definition keeps_key :: "(durable_job \<Rightarrow> durable_job result) \<Rightarrow> bool" where
  "keeps_key f \<longleftrightarrow> (\<forall>c n. f c = Inr n \<longrightarrow> job_id n = job_id c \<and> job_taskId n = job_taskId c)"

definition keeps_open :: "(durable_job \<Rightarrow> durable_job result) \<Rightarrow> bool" where
  "keeps_open f \<longleftrightarrow> (\<forall>c n. f c = Inr n \<longrightarrow> \<not> isDurableJobTerminal (job_status c)
     \<longrightarrow> \<not> isDurableJobTerminal (job_status n))"

named_theorems ends_intros

lemma still_open_refl: "still_open job s s"
  by (simp add: still_open_def)

lemma ends_refl [ends_intros]: "ends_well job now s s"
  by (simp add: ends_well_def still_open_refl)

lemma ends_trans:
  assumes "still_open job a b" and "ends_well job now b c"
  shows "ends_well job now a c"
  unfolding ends_well_def
proof (intro allI impI)
  fix j
  assume j: "job_row job a = Some j" "\<not> isDurableJobTerminal (job_status j)"
  with assms(1) obtain j' where j': "job_row job b = Some j'" "\<not> isDurableJobTerminal (job_status j')"
    and mail: "st_mail (su_store b) = st_mail (su_store a)" by (auto simp: still_open_def)
  with assms(2) consider "still_open job b c" | "woken job now b c" by (auto simp: ends_well_def)
  then show "still_open job a c \<or> woken job now a c"
  proof cases
    case 1
    then have "\<exists>k. job_row job c = Some k \<and> \<not> isDurableJobTerminal (job_status k)"
      "st_mail (su_store c) = st_mail (su_store b)"
      using j' by (auto simp: still_open_def)
    with mail have "still_open job a c" by (simp add: still_open_def)
    then show ?thesis ..
  next
    case 2
    then show ?thesis unfolding woken_def mail by blast
  qed
qed

text \<open>Steps that leave the store alone and only add effects.\<close>

definition same_store :: "sup_state \<Rightarrow> sup_state \<Rightarrow> bool" where
  "same_store s s' \<longleftrightarrow> su_store s' = su_store s \<and> set (su_effects s) \<subseteq> set (su_effects s')"

lemma same_store_simps [simp]:
  "same_store s s" "same_store s (does s' es) \<longleftrightarrow> su_store s' = su_store s \<and> set (su_effects s) \<subseteq> set (su_effects s') \<union> set es"
  "same_store s (s'\<lparr>su_sigkillAt := k\<rparr>) \<longleftrightarrow> same_store s s'"
  by (auto simp: same_store_def does_def)

lemma same_store_open: "same_store s s' \<Longrightarrow> still_open job s s'"
  by (simp add: same_store_def still_open_def job_row_def)

lemma ends_then_same:
  assumes "ends_well job now s s1" and "same_store s1 s2"
  shows "ends_well job now s s2"
proof -
  have "still_open job s s1 \<Longrightarrow> still_open job s s2" "woken job now s s1 \<Longrightarrow> woken job now s s2"
    using assms(2) by (auto simp: same_store_def still_open_def woken_def job_row_def)
  with assms(1) show ?thesis by (auto simp: ends_well_def)
qed

lemma transition_open:
  assumes t: "transition job f now None s = (s', r)" and "keeps_key f" and "keeps_open f"
  shows "still_open job s s'"
proof (cases r)
  case (Inl e)
  with t have "s' = s" by (auto simp: transition_def split: sum.splits)
  then show ?thesis by (simp add: still_open_refl)
next
  case (Inr found)
  with t have tr: "transitionDurableJob (su_store s) (job_taskId job) (job_id job) f now None
      = Inr (found, su_store s')"
    by (auto simp: transition_def split: sum.splits)
  then show ?thesis
  proof (cases rule: transition_cases)
    case Absent
    then show ?thesis by (simp add: still_open_def job_row_def)
  next
    case (Saved current nxt saved)
    then have "su_store s' = saved" by (simp add: enqueueWakeup_mail)
    moreover have "has_key (job_taskId job) (job_id job) nxt"
      using Saved(1,2) assms(2) get_has_key by (auto simp: keeps_key_def has_key_def)
    ultimately show ?thesis
      using Saved assms(3) save_job_get [OF Saved(4)] save_mail [OF Saved(4)]
      by (auto simp: still_open_def job_row_def keeps_open_def)
  qed
qed

lemma notified:
  "markDurableJobWakeupNotified j now = Inr n \<Longrightarrow>
     isDurableJobTerminal (job_status n) \<and> job_wakeupNotified n = Some True
     \<and> job_id n = job_id j \<and> job_taskId n = job_taskId j"
  by (auto simp: markDurableJobWakeupNotified_def split: if_splits)

lemma finish_ends [ends_intros]:
  assumes key: "keeps_key f"
  shows "ends_well job now s (fst (finish job f now s))"
proof -
  let ?g = "\<lambda>current. andThen (f current) (\<lambda>ended. markDurableJobWakeupNotified ended now)"
  obtain s1 r where t: "transition job ?g now (job_finished job) s = (s1, r)" by fastforce
  show ?thesis
  proof (cases r)
    case (Inl e)
    with t have "s1 = s" by (auto simp: transition_def split: sum.splits)
    with t Inl show ?thesis by (simp add: finish_def ends_refl)
  next
    case (Inr found)
    with t have tr: "transitionDurableJob (su_store s) (job_taskId job) (job_id job) ?g now (job_finished job)
        = Inr (found, su_store s1)"
      by (auto simp: transition_def split: sum.splits)
    then show ?thesis
    proof (cases rule: transition_cases)
      case Absent
      then show ?thesis by (simp add: ends_well_def job_row_def)
    next
      case (Saved current nxt saved)
      then obtain ended where e: "f current = Inr ended" "markDurableJobWakeupNotified ended now = Inr nxt" by auto
      note n = notified [OF e(2)]
      have k: "job_taskId nxt = job_taskId job \<and> job_id nxt = job_id job"
        using n key e(1) get_has_key [OF Saved(1)] by (auto simp: keeps_key_def)
      then have row: "job_row job s1 = Some nxt"
        using save_job_get [OF Saved(4)] Saved(5) by (simp add: job_row_def enqueueWakeup_get has_key_def)
      have mail: "\<exists>m. enqueueWork getWorkMailbox saveWorkMailbox (st_mail (su_store s))
          (RoleTarget (job_taskId job) ''leader'') ''job-finished'' (AtDate now) (wakeupRefs job) no_metadata
          = Inr (m, st_mail (su_store s1))"
        using Saved(5) by (auto simp: job_finished_def enqueueWakeup_mail save_mail [OF Saved(4)])
      let ?s2 = "deliverTerminalEvent (Some nxt) s1"
      have "su_store ?s2 = su_store s1" and
        "\<exists>out. TerminalEvent (job_taskId job) (job_id job) (job_status nxt) out \<in> set (su_effects ?s2)"
        using n k by (auto simp: deliverTerminalEvent_def does_def)
      then have "woken job now s ?s2" using row mail n unfolding woken_def job_row_def by auto
      with t Inr Saved(3) show ?thesis by (simp add: finish_def ends_well_def)
    qed
  qed
qed

lemma complete_key: "completeDurableJob c r now = Inr n \<Longrightarrow> job_id n = job_id c \<and> job_taskId n = job_taskId c"
  by (auto simp: completeDurableJob_def split: if_splits)

lemma closures_keep_key [ends_intros]:
  "keeps_key (recordEvidenceAt e now)" "keeps_key (\<lambda>c. recordEvidenceAt (g c) now c)"
  "keeps_key (\<lambda>c. startDurableJob c p now)" "keeps_key (\<lambda>c. touchDurableJobHeartbeat c now)"
  "keeps_key (attemptStart pt now)" "keeps_key (\<lambda>c. completeDurableJob c r now)"
  "keeps_key (\<lambda>c. markDurableJobUnknown c reason (h c) now)" "keeps_key (\<lambda>c. cancelQueuedDurableJob c now)"
  "keeps_key (\<lambda>c. rejectQueuedDurableJob c reason now)" "keeps_key (completeFromExit exit now)"
  by (auto simp: keeps_key_def recordEvidenceAt_def startDurableJob_def touchDurableJobHeartbeat_def
      attemptStart_def markDurableJobUnknown_def cancelQueuedDurableJob_def rejectQueuedDurableJob_def
      completeFromExit_def dest: complete_key split: if_splits sum.splits)

lemma closures_keep_open:
  "keeps_open (recordEvidenceAt e now)" "keeps_open (\<lambda>c. recordEvidenceAt (g c) now c)"
  "keeps_open (\<lambda>c. startDurableJob c p now)" "keeps_open (\<lambda>c. touchDurableJobHeartbeat c now)"
  "keeps_open (attemptStart pt now)"
  by (auto simp: keeps_open_def recordEvidenceAt_def startDurableJob_def touchDurableJobHeartbeat_def
      attemptStart_def split: if_splits)

text \<open>A transition that ends nothing, then the rest of the method.\<close>

lemma ends_transition [ends_intros]:
  assumes "keeps_key f" and "keeps_open f" and "\<And>found s1. ends_well job now s1 (fst (g found s1))"
  shows "ends_well job now s (fst (thenDo (transition job f now' None s) g))"
proof -
  obtain s1 r where t: "transition job f now' None s = (s1, r)" by fastforce
  then have o: "still_open job s s1" using transition_open assms(1,2) by blast
  show ?thesis
  proof (cases r)
    case (Inl e)
    with t o show ?thesis by (auto intro: ends_trans ends_refl)
  next
    case (Inr found)
    with t o assms(3) show ?thesis by (auto intro: ends_trans)
  qed
qed

lemma ends_then [ends_intros]:
  assumes "ends_well job now s (fst p)" and "\<And>x s1. same_store s1 (fst (g x s1))"
  shows "ends_well job now s (fst (thenDo p g))"
  using assms ends_then_same by (cases p; cases "snd p") auto

lemma ends_does: "ends_well job now (does s es) s' \<Longrightarrow> ends_well job now s s'"
  by (rule ends_trans [OF same_store_open]) simp_all

lemma forget_same [simp]: "same_store s (forgetSigkill job s)"
  by (simp add: forgetSigkill_def)

lemma ends_harvest [ends_intros]: "ends_well job now s (fst (harvestExit job exit now s))"
  unfolding harvestExit_def
  by (intro ends_transition [OF closures_keep_key(2) closures_keep_open(2)]
      ends_then [OF finish_ends [OF closures_keep_key(10)]]) simp

lemma ends_dead [ends_intros]: "ends_well job now s (fst (handleDeadProcess job pt now s))"
  by (auto simp: handleDeadProcess_def intro!: ends_intros split: option.splits)

lemma ends_adopt: "ends_well job now s (fst (adoptAndContinue job p pt now s))"
  unfolding adoptAndContinue_def
  by (rule ends_transition [OF closures_keep_key(3) closures_keep_open(3)])
     (auto intro: ends_harvest ends_dead ends_refl split: option.splits)

lemma ends_reject: "ends_well job now s (fst (rejectStart job e now s))"
  by (auto simp: rejectStart_def intro!: ends_intros split: err.splits)

lemma ends_start: "ends_well job now s (fst (startJob job pt now s))"
proof (cases "pt_authorizeStart pt job")
  case (Inl e)
  then show ?thesis by (simp add: startJob_def ends_reject)
next
  case (Inr u)
  obtain s1 r where t: "transition job (attemptStart pt now) now None
      (does s [WriteSpec (job_taskId job) (job_id job)]) = (s1, r)" by fastforce
  then have o: "still_open job (does s [WriteSpec (job_taskId job) (job_id job)]) s1"
    using transition_open closures_keep_key(5) closures_keep_open(5) by blast
  have "ends_well job now s1 (does s1 (spawn_effects job pt))"
    by (rule ends_then_same [OF ends_refl]) auto
  then have "ends_well job now s1 (fst (startJob job pt now s))" if "r = Inr (Some x)" for x
    using Inr t that by (simp add: startJob_def)
  moreover have "ends_well job now s1 (fst (startJob job pt now s))" if "r = Inr None"
    using Inr t that by (simp add: startJob_def ends_refl)
  moreover have "ends_well job now s1 (fst (startJob job pt now s))" if "r = Inl e" for e
    using Inr t that by (simp add: startJob_def ends_reject)
  ultimately have "ends_well job now s1 (fst (startJob job pt now s))"
    by (cases r; cases "projr r") auto
  with o show ?thesis by (blast intro: ends_does ends_trans)
qed

lemma sigkill_same [simp]: "same_store s (sigkill_step job now s)"
  by (auto simp: sigkill_step_def forgetSigkill_def split: option.splits)

lemma ends_heartbeat: "ends_well job now s (fst (heartbeat_step job pt now s))"
proof -
  have touch: "ends_well job now s (fst (thenDo (transition job (\<lambda>c. touchDurableJobHeartbeat c m) now None s1)
      (\<lambda>_ s2. (s2, Inr ()))))" if "same_store s s1" for s1 m
    by (rule ends_trans [OF same_store_open [OF that]],
        rule ends_transition [OF closures_keep_key(4) closures_keep_open(4)]) (simp add: ends_refl)
  show ?thesis
    by (auto simp: heartbeat_step_def Let_def intro: touch ends_then_same [OF ends_refl] split: option.splits)
qed

lemma ends_supervise: "ends_well job now s (fst (superviseRunning job pt now s))"
proof -
  have beat: "ends_well job now s1 (fst (thenDo (heartbeat_step job pt now s1)
      (\<lambda>_ s2. (sigkill_step job now s2, Inr ()))))" for s1
    by (intro ends_then ends_heartbeat) simp
  show ?thesis
    unfolding superviseRunning_def Let_def
    by (auto intro: ends_harvest ends_dead beat ends_does split: option.splits)
qed

lemma ends_queued: "ends_well job now s (fst (reconcileQueued job pt now s))"
proof -
  have alone: "ends_well job now s (does s es)" for es
    by (rule ends_then_same [OF ends_refl]) simp
  show ?thesis
    unfolding reconcileQueued_def Let_def
    by (auto intro: ends_adopt ends_start finish_ends [OF closures_keep_key(7)] finish_ends [OF closures_keep_key(8)]
        ends_refl ends_does alone split: option.splits)
qed

lemma reconcile_job_ends: "ends_well job now s (fst (reconcileJob job pt now s))"
  by (simp add: reconcileJob_def ends_queued ends_supervise ends_refl)

end
