(* ===== verification/Supervisor_Progress.thy ===== *)
theory Supervisor_Progress
  imports Job_Supervisor
begin

section \<open>The supervisor makes progress\<close>

text \<open>
  What a pass of the supervisor achieves: a runner that left its exit artifact is always harvested,
  whatever the artifact says, and the Leader is woken; an outcome proved from a checkpoint covers
  every planned step; at most one runner is spawned per job.  The last property shows the one place
  where a pass cannot proceed: a heartbeat older than the last write of the job makes every pass
  throw before the deadline of the SIGKILL is looked at.
\<close>

subsection \<open>Waking the Leader succeeds\<close>

lemma createWorkMailbox_ok: "copyTarget t = Inr t' \<Longrightarrow> isOk (createWorkMailbox t)"
  by (simp add: createWorkMailbox_def)

lemma enqueue_ok:
  assumes m: "mailbox_inv m" and s: "header_ok s" "revision_ok s" "sig_dedupeKey s = None"
    and refs: "traverse copyRef (sig_refs s) = Inr refs"
  shows "isOk (enqueueSignal m s)"
proof -
  obtain key where key: "signalKey s (nextSequence m) = Inr key" using s(3) by (simp add: signalKey_def)
  show ?thesis
  proof (cases "mailboxContainsDedupeKey m key")
    case True
    with s key have "enqueueSignal m s = Inr m" unfolding enqueue_eq [OF m] by auto
    then show ?thesis by simp
  next
    case False
    with s key refs have "enqueueSignal m s = Inr (enqueued m (signal_batch s (nextSequence m) key refs))"
      unfolding enqueue_eq [OF m] by auto
    then show ?thesis by simp
  qed
qed

lemma wakeup_ok:
  assumes rows: "rows_inv rows" and t: "copyTarget t = Inr t'" and refs: "traverse copyRef refs = Inr refs'"
    and r: "text_ok reason" and now: "valid_date now"
  shows "isOk (enqueueWork getWorkMailbox saveWorkMailbox rows t reason (AtDate now) refs no_metadata)"
proof -
  obtain found where f: "getWorkMailbox rows t = Inr found" using t by (simp add: getWorkMailbox_eq [OF rows])
  obtain m where m: "(case found of Some m \<Rightarrow> Inr m | None \<Rightarrow> createWorkMailbox t) = Inr m"
    using createWorkMailbox_ok [OF t] by (cases found) (auto simp: isOk_iff)
  have mi: "mailbox_inv m"
    using m rows.get_inv [OF rows, of t] f created_inv by (cases found) auto
  let ?s = "\<lparr>sig_reason = reason, sig_refs = refs, sig_occurredAt = iso_string now, sig_source = None,
      sig_dedupeKey = None, sig_factRevision = None\<rparr>"
  have "header_ok ?s" using r now by (simp add: header_ok_def text_ok_iso js_trim_iso is_date_iso) (code_simp)
  then have "isOk (enqueueSignal m ?s)" using refs by (intro enqueue_ok [OF mi]) (simp_all add: revision_ok_def)
  then obtain q where q: "enqueueSignal m ?s = Inr q" by (auto simp: isOk_iff)
  have "mailbox_inv q" using mailbox_step_inv [OF mi, of "Enqueue ?s" q] q by simp
  then obtain rows' where "saveWorkMailbox rows q = Inr rows'" using rows.save_ok [OF rows] by blast
  with f m q now show ?thesis by (simp add: enqueueWork_def queue_timestamp_def no_metadata_def)
qed

lemma job_valid_wakeup:
  assumes "job_valid job"
  shows "isOk (copyTarget (RoleTarget (job_taskId job) ''leader''))"
    and "isOk (traverse copyRef (wakeupRefs job))"
proof -
  have ref: "record_ref_ok (job_taskId job) (job_id job) DurableJobKind"
    using assms by (auto simp: job_valid_def validateDurableJob_def isOk_iff)
  then have t: "text_ok (job_taskId job)" by (simp add: record_ref_ok_def identity_ok_def)
  have "text_ok ''leader''" by code_simp
  with t show "isOk (copyTarget (RoleTarget (job_taskId job) ''leader''))" by (simp add: isOk_iff)
  have "validateDurableJobOwner (job_owner job) (job_taskId job) = Inr ()"
    using assms by (auto simp: job_valid_def validateDurableJob_def isOk_iff)
  with t show "isOk (traverse copyRef (wakeupRefs job))"
    by (auto simp: wakeupRefs_def validateDurableJobOwner_def isOk_iff split: job_owner.splits)
qed

subsection \<open>Writing an accepted update succeeds\<close>

lemma save_ok:
  assumes "getDurableJob store (job_taskId b) (job_id b) = Some a" and "job_change a b" and "job_valid b"
    and "job_taskId b \<in> set (st_tasks store)" and "\<not> date_less (job_updatedAt b) (job_updatedAt a)"
  shows "saveDurableJob store (job_taskId b) b = Inr (store\<lparr>st_jobs := put_job b (st_jobs store)\<rparr>)"
  using assms change_accepted [OF assms(2)] by (simp add: saveDurableJob_def)

definition row_ready :: "durable_job \<Rightarrow> date \<Rightarrow> sup_state \<Rightarrow> durable_job \<Rightarrow> bool" where
  \<comment> \<open>the row of the job is \<open>a\<close>, in order, not written later than \<open>now\<close>, and its mailbox can be written\<close>
  "row_ready job now s a \<longleftrightarrow> job_row job s = Some a \<and> job_inv a \<and> \<not> isDurableJobTerminal (job_status a)
     \<and> \<not> date_less (iso_string now) (job_updatedAt a) \<and> valid_date now
     \<and> rows_inv (st_mail (su_store s)) \<and> job_taskId a \<in> set (st_tasks (su_store s))
     \<and> wakeupRefs job = wakeupRefs a"

lemma row_ready_keys: "row_ready job now s a \<Longrightarrow> job_taskId a = job_taskId job \<and> job_id a = job_id job"
  by (auto simp: row_ready_def job_row_def dest: get_has_key)

lemma change_frame: "job_change a b \<Longrightarrow> job_taskId b = job_taskId a \<and> job_id b = job_id a \<and> job_owner b = job_owner a"
  by (simp add: job_change_def job_frame_def)

lemma not_later_now: "valid_date now \<Longrightarrow> \<not> date_less (iso_string now) (iso_string now)"
  by (simp add: date_less_def date_parse_iso)

lemma transition_saved:
  assumes r: "row_ready job now s a" and f: "f a = Inr b" and c: "job_change a b" "job_inv b"
    and open_b: "\<not> isDurableJobTerminal (job_status b)" and t: "job_updatedAt b = iso_string now"
  obtains s' where "transition job f now None s = (s', Inr (Some b))" and "row_ready job now s' b"
    and "st_mail (su_store s') = st_mail (su_store s)"
proof -
  note k = row_ready_keys [OF r] and fr = change_frame [OF c(1)]
  have row: "getDurableJob (su_store s) (job_taskId b) (job_id b) = Some a"
    using r k fr by (simp add: row_ready_def job_row_def)
  have sv: "saveDurableJob (su_store s) (job_taskId b) b
      = Inr ((su_store s)\<lparr>st_jobs := put_job b (st_jobs (su_store s))\<rparr>)"
    using r c k fr t by (intro save_ok [OF row c(1)]) (simp_all add: row_ready_def job_inv_def)
  have refs: "wakeupRefs b = wakeupRefs a" using fr by (simp add: wakeupRefs_def split: job_owner.split)
  let ?s' = "s\<lparr>su_store := (su_store s)\<lparr>st_jobs := put_job b (st_jobs (su_store s))\<rparr>\<rparr>"
  have "transition job f now None s = (?s', Inr (Some b))"
    using row f sv k fr by (simp add: transition_def transitionDurableJob_def enqueueWakeup_def)
  moreover have "row_ready job now ?s' b"
    using r k fr c open_b t not_later_now refs by (simp add: row_ready_def job_row_def has_key_def)
  ultimately show ?thesis using that by simp
qed

lemma isOk_timestamp [simp]: "isOk (requireTimestamp v l) \<longleftrightarrow> is_date v"
  by (simp add: isOk_iff)

lemma notify_valid:
  "job_valid j \<Longrightarrow> valid_date now \<Longrightarrow>
     job_valid (j\<lparr>job_wakeupNotified := w, job_updatedAt := iso_string now\<rparr>)"
  by (simp add: job_valid_def validateDurableJob_def is_date_iso split: if_split_asm)

lemma get_mail [simp]: "getDurableJob (store\<lparr>st_mail := m\<rparr>) t i = getDurableJob store t i"
  by (simp add: getDurableJob_def)

lemma row_deliver [simp]: "job_row job (deliverTerminalEvent found s) = job_row job s"
  by (simp add: job_row_def deliverTerminalEvent_def does_def split: option.split)

lemma notify_ended:
  assumes "job_inv ended" and "isDurableJobTerminal (job_status ended)" and "valid_date now"
    and "job_updatedAt ended = iso_string now"
  obtains b where "markDurableJobWakeupNotified ended now = Inr b" and "job_status b = job_status ended"
    and "job_result b = job_result ended" and "job_operation b = job_operation ended"
    and "job_updatedAt b = iso_string now" and "job_valid b" and "job_frame ended b"
    and "job_wakeupNotified b = Some True" and "job_terminalAt b = job_terminalAt ended"
proof -
  let ?b = "if job_wakeupNotified ended = Some True then ended
    else ended\<lparr>job_wakeupNotified := Some True, job_updatedAt := iso_string now\<rparr>"
  have "markDurableJobWakeupNotified ended now = Inr ?b"
    using assms notify_valid [of ended now "Some True"]
    by (auto simp: markDurableJobWakeupNotified_def job_inv_def)
  then show ?thesis
    using assms notify_valid [of ended now "Some True"]
    by (intro that [of ?b]) (auto simp: job_inv_def job_frame_def)
qed

lemma finish_ok:
  assumes r: "row_ready job now s a" and f: "f a = Inr ended" and c: "job_change a ended" "job_inv ended"
    and ends: "isDurableJobTerminal (job_status ended)" and t: "job_updatedAt ended = iso_string now"
  obtains s' b where "finish job f now s = (s', Inr ())" and "job_row job s' = Some b"
    and "job_status b = job_status ended" and "job_result b = job_result ended"
    and "job_operation b = job_operation ended" and "job_wakeupNotified b = Some True"
proof -
  have now: "valid_date now" and openA: "\<not> isDurableJobTerminal (job_status a)" using r by (simp_all add: row_ready_def)
  obtain b where b: "markDurableJobWakeupNotified ended now = Inr b" "job_status b = job_status ended"
    "job_result b = job_result ended" "job_operation b = job_operation ended"
    "job_updatedAt b = iso_string now" "job_valid b" "job_frame ended b" "job_wakeupNotified b = Some True"
    by (rule notify_ended [OF c(2) ends now t])
  have "job_change a b"
    using c(1) b openA by (simp add: job_change_def job_frame_def del: allowed_status.simps)
      (simp split: if_splits)
  note fr = change_frame [OF this] and k = row_ready_keys [OF r]
  have row: "getDurableJob (su_store s) (job_taskId b) (job_id b) = Some a"
    using r k fr by (simp add: row_ready_def job_row_def)
  let ?store = "(su_store s)\<lparr>st_jobs := put_job b (st_jobs (su_store s))\<rparr>"
  have sv: "saveDurableJob (su_store s) (job_taskId b) b = Inr ?store"
    using r b fr by (intro save_ok [OF row \<open>job_change a b\<close>]) (simp_all add: row_ready_def)
  have "job_valid a" using r by (simp add: row_ready_def job_inv_def)
  then obtain t' refs' where "copyTarget (RoleTarget (job_taskId job) ''leader'') = Inr t'"
    "traverse copyRef (wakeupRefs job) = Inr refs'"
    using job_valid_wakeup [of a] r k unfolding isOk_iff row_ready_def by auto
  moreover have "text_ok ''job-finished''" by code_simp
  ultimately obtain m mail where mail: "enqueueWork getWorkMailbox saveWorkMailbox (st_mail ?store)
      (RoleTarget (job_taskId job) ''leader'') ''job-finished'' (AtDate now) (wakeupRefs job) no_metadata = Inr (m, mail)"
    using wakeup_ok [OF _ _ _ _ now] r unfolding isOk_iff row_ready_def by fastforce
  let ?s' = "s\<lparr>su_store := ?store\<lparr>st_mail := mail\<rparr>\<rparr>"
  have tr: "transition job (\<lambda>current. andThen (f current) (\<lambda>ended. markDurableJobWakeupNotified ended now))
      now (job_finished job) s = (?s', Inr (Some b))"
    using row f b(1) sv mail k fr
    by (simp add: transition_def transitionDurableJob_def enqueueWakeup_def job_finished_def)
  have "job_row job (deliverTerminalEvent (Some b) ?s') = Some b"
    using k fr unfolding row_deliver by (simp add: job_row_def has_key_def)
  with tr b show ?thesis by (intro that [of "deliverTerminalEvent (Some b) ?s'" b]) (simp_all add: finish_def)
qed

subsection \<open>Harvesting an exit artifact\<close>

lemma recorded_valid:
  assumes "validateOperationFacts f = Inr ()"
    and "\<forall>r \<in> set (or_empty (ev_receiptRefs e)) \<union> set (or_empty (ev_partialResultRefs e)). js_trim r \<noteq> []"
  shows "validateOperationFacts (recorded f e) = Inr ()"
  using assms by (auto simp: validateOperationFacts_def recorded_def list_ex_iff set_union_props)

lemma js_trim_nonblank: "c \<in> set s \<Longrightarrow> \<not> is_ws c \<Longrightarrow> js_trim s \<noteq> []"
proof -
  assume "c \<in> set s" and "\<not> is_ws c"
  then have ne: "dropWhile is_ws s \<noteq> []" by (auto simp: dropWhile_eq_Nil_conv)
  then have "\<not> is_ws (hd (dropWhile is_ws s))" by (rule hd_dropWhile)
  with ne show ?thesis unfolding js_trim_def by (auto simp del: dropWhile_eq_Nil_conv simp: dropWhile_eq_Nil_conv [of _ "rev _"])
qed

lemma job_valid_facts_iff:
  "job_valid (j\<lparr>job_operation := g, job_updatedAt := iso_string now\<rparr>) \<longleftrightarrow>
     job_valid (j\<lparr>job_operation := job_operation j\<rparr>) \<and> validateOperationFacts g = Inr ()"
  if "job_valid j" "valid_date now"
  using that by (simp add: job_valid_def validateDurableJob_def is_date_iso isOk_iff [of "validateOperationFacts g"]
      split: if_split_asm)

text \<open>The evidence of the exit artifact can be recorded on every running row.\<close>

lemma evidence_recorded:
  assumes a: "job_inv a" "job_status a = Job_Running" and now: "valid_date now"
  obtains b where "recordEvidenceAt (exit_evidence exit a) now a = Inr b" and "job_change a b" and "job_inv b"
    and "job_status b = Job_Running" and "job_updatedAt b = iso_string now"
    and "job_artifactsLocator a @ ''/exit.json'' \<in> set (of_receiptRefs (job_operation b))"
proof -
  let ?e = "exit_evidence exit a"
  let ?g = "recorded (job_operation a) ?e"
  have va: "job_valid a" using a by (simp add: job_inv_def)
  have "js_trim (job_artifactsLocator a @ ''/exit.json'') \<noteq> []"
    by (rule js_trim_nonblank [of "CHR ''j''"]) (simp_all add: is_ws_def)
  then have g: "validateOperationFacts ?g = Inr ()"
    using job_valid_facts [OF va] by (intro recorded_valid) (auto simp: exit_evidence_def or_empty_def)
  then have rec: "recordOperationEvidence (job_operation a) ?e = Inr ?g" by (simp add: record_eq)
  let ?b = "a\<lparr>job_operation := ?g, job_updatedAt := iso_string now\<rparr>"
  have vb: "job_valid ?b" using va now g by (simp add: job_valid_facts_iff)
  have "of_effect ?g = EffectConfirmed"
    using a by (simp add: recorded_def exit_evidence_def job_inv_def)
  then have inv: "job_inv ?b" using a vb job_recorded [OF a(1) rec] by (simp add: job_inv_def)
  have "job_change a ?b"
    using a job_recorded [OF a(1) rec] by (simp add: job_change_def job_frame_def)
  moreover have "recordEvidenceAt ?e now a = Inr ?b" using now rec by (simp add: recordEvidenceAt_def)
  moreover have "job_artifactsLocator a @ ''/exit.json'' \<in> set (of_receiptRefs ?g)"
    by (simp add: recorded_def exit_evidence_def or_empty_def set_union_props)
  ultimately show ?thesis using inv a(2) by (intro that [of ?b]) simp_all
qed

lemma invalid_output_completes:
  assumes a: "job_inv a" "job_status a = Job_Running" and now: "valid_date now"
  shows "isOk (completeDurableJob a invalid_output now)"
proof -
  let ?e = "\<lparr>ev_effect = None, ev_receiptRefs = Some [], ev_partialResultRefs = Some []\<rparr>"
  have va: "job_valid a" using a by (simp add: job_inv_def)
  have g: "validateOperationFacts (recorded (job_operation a) ?e) = Inr ()"
    using job_valid_facts [OF va] by (intro recorded_valid) (simp_all add: or_empty_def)
  have n: "normalizeDurableJobResult invalid_output = Inr invalid_output" by code_simp
  have "job_valid (a\<lparr>job_status := Job_Failed, job_operation := recorded (job_operation a) ?e,
      job_result := Some invalid_output, job_terminalAt := Some (iso_string now), job_updatedAt := iso_string now\<rparr>)"
    using va now a(2) g n
    by (simp add: job_valid_def validateDurableJob_def is_date_iso isOk_iff [of "validateOperationFacts _"]
        isOk_iff [of "normalizeDurableJobResult invalid_output"] split: if_split_asm)
  with va now a(2) g n show ?thesis
    by (simp add: completeDurableJob_def record_eq invalid_output_def isOk_iff)
qed

lemma complete_result:
  "completeDurableJob a r now = Inr b \<Longrightarrow>
     job_result b = Some r \<and> job_updatedAt b = iso_string now \<and> isDurableJobTerminal (job_status b)
     \<and> job_status b = jr_outcome r \<and> facts_le (job_operation a) (job_operation b)"
  by (auto simp: completeDurableJob_def normalizeDurableJobResult_def record_eq recorded_le)

lemma completeFromExit_ok:
  assumes a: "job_inv a" "job_status a = Job_Running" and now: "valid_date now"
  obtains b r where "completeFromExit exit now a = Inr b" and "job_change a b" and "job_inv b"
    and "job_result b = Some r" and "job_status b = jr_outcome r" and "isDurableJobTerminal (job_status b)"
    and "job_updatedAt b = iso_string now" and "r = exit_result exit \<or> r = invalid_output"
    and "facts_le (job_operation a) (job_operation b)"
proof (cases "completeDurableJob a (exit_result exit) now")
  case (Inr b)
  with complete_change [OF a(1) this] complete_result [OF this] show ?thesis
    by (intro that [of b "exit_result exit"]) (auto simp: completeFromExit_def)
next
  case (Inl e)
  obtain b where b: "completeDurableJob a invalid_output now = Inr b"
    using invalid_output_completes [OF assms] by (auto simp: isOk_iff)
  with Inl complete_change [OF a(1) b] complete_result [OF b] show ?thesis
    by (intro that [of b invalid_output]) (auto simp: completeFromExit_def)
qed

lemma row_forget [simp]: "job_row job (forgetSigkill job' s) = job_row job s"
  by (simp add: job_row_def forgetSigkill_def)

lemma harvest_ok:
  assumes r: "row_ready job now s a" and st: "job_status a = Job_Running"
  obtains s' b res where "harvestExit job exit now s = (s', Inr ())" and "job_row job s' = Some b"
    and "job_result b = Some res" and "job_status b = jr_outcome res" and "isDurableJobTerminal (job_status b)"
    and "res = exit_result exit \<or> res = invalid_output"
    and "job_artifactsLocator a @ ''/exit.json'' \<in> set (of_receiptRefs (job_operation b))"
    and "job_wakeupNotified b = Some True"
proof -
  have a: "job_inv a" and now: "valid_date now" using r by (simp_all add: row_ready_def)
  obtain a1 where e: "recordEvidenceAt (exit_evidence exit a) now a = Inr a1" "job_change a a1" "job_inv a1"
    "job_status a1 = Job_Running" "job_updatedAt a1 = iso_string now"
    and ref: "job_artifactsLocator a @ ''/exit.json'' \<in> set (of_receiptRefs (job_operation a1))"
    by (rule evidence_recorded [OF a st now])
  obtain s1 where t: "transition job (\<lambda>current. recordEvidenceAt (exit_evidence exit current) now current) now None s
      = (s1, Inr (Some a1))" and r1: "row_ready job now s1 a1"
    by (rule transition_saved [OF r, of "\<lambda>current. recordEvidenceAt (exit_evidence exit current) now current" a1])
       (simp_all add: e)
  obtain b res where b: "completeFromExit exit now a1 = Inr b" "job_change a1 b" "job_inv b"
    "job_result b = Some res" "job_status b = jr_outcome res" "isDurableJobTerminal (job_status b)"
    "job_updatedAt b = iso_string now" "res = exit_result exit \<or> res = invalid_output"
    "facts_le (job_operation a1) (job_operation b)"
    by (rule completeFromExit_ok [OF e(3,4) now])
  obtain s2 c where c: "finish job (completeFromExit exit now) now s1 = (s2, Inr ())" "job_row job s2 = Some c"
    "job_status c = job_status b" "job_result c = job_result b" "job_operation c = job_operation b"
    "job_wakeupNotified c = Some True"
    by (rule finish_ok [where f = "completeFromExit exit now", OF r1 b(1,2,3,6,7)])
  have "harvestExit job exit now s = (forgetSigkill job s2, Inr ())"
    by (simp add: harvestExit_def t c(1))
  with b c ref show ?thesis by (intro that [of "forgetSigkill job s2" c res]) (auto simp: facts_le_def)
qed

subsection \<open>Outcomes proved from a checkpoint\<close>

lemma validateSteps_distinct:
  "validateSteps names steps = Inr () \<Longrightarrow>
     distinct (map js_name steps) \<and> (\<forall>x \<in> set steps. js_trim (js_name x) \<notin> set names)"
proof (induction steps arbitrary: names)
  case (Cons x steps)
  then have "js_trim (js_name x) \<notin> set names" and "validateSteps (js_trim (js_name x) # names) steps = Inr ()"
    by (auto split: if_splits)
  with Cons.IH [of "js_trim (js_name x) # names"] show ?case by auto
qed simp

lemma job_valid_steps: "job_valid job \<Longrightarrow> distinct (map js_name (job_steps job))"
  using validateSteps_distinct [of "[]" "job_steps job"]
  by (auto simp: job_valid_def validateDurableJob_def isOk_iff)

lemma order_steps_names:
  "order_steps results planned = Some ordered \<Longrightarrow>
     map sr_name ordered = map js_name planned \<and> set ordered \<subseteq> set results"
  by (induction planned arbitrary: ordered) (auto simp: find_step_def find_Some_iff split: option.splits)

lemma order_steps_all:
  assumes o: "order_steps results planned = Some ordered" and d: "distinct (map js_name planned)"
    and l: "length results = length planned"
  shows "set ordered = set results"
proof -
  note n = order_steps_names [OF o]
  from n have "length ordered = length planned" using map_eq_imp_length_eq by blast
  moreover have "distinct ordered" using n d by (metis distinct_map)
  ultimately have "card (set ordered) = length results" using l by (simp add: distinct_card)
  then show ?thesis using n card_length [of results] by (intro card_seteq) auto
qed

lemma find_failing: "find failing rs = Some r \<Longrightarrow> r \<in> set rs \<and> failing r"
  by (auto simp: find_Some_iff)

subsection \<open>A concrete supervisor\<close>

definition sample_sup :: sup_state where
  "sample_sup = \<lparr>su_store = \<lparr>st_jobs = [sample_running], st_mail = (\<lambda>_. None), st_tasks = [''t'']\<rparr>,
     su_sigkillAt = (\<lambda>_. None), su_effects = []\<rparr>"

definition sample_exit :: job_exit where
  "sample_exit = \<lparr>ex_outcome = Job_Succeeded, ex_exitCode = Some 0, ex_signal = None, ex_failedStep = None,
     ex_steps = []\<rparr>"

definition sample_ports :: job_ports where
  "sample_ports = \<lparr>pt_startMarker = None, pt_readyFile = None, pt_exitJson = Some sample_exit,
     pt_checkpoint = None, pt_heartbeatMtime = None, pt_startIdentity = (\<lambda>_. None), pt_isAlive = (\<lambda>_. False),
     pt_authorizeStart = (\<lambda>_. Inr ()), pt_authorizeInTransaction = (\<lambda>_. Inr ()), pt_spawned = (9, None)\<rparr>"

lemma sample_running_inv: "job_inv sample_running"
  using created_history [OF sample_create, of "[(StartJob sample_process, 1)]"] sample_start by simp

lemma sample_running_row:
  "getDurableJob (su_store sample_sup) (job_taskId sample_running) (job_id sample_running) = Some sample_running"
  by (simp add: sample_sup_def getDurableJob_def)

lemma sample_running_facts:
  "job_status sample_running = Job_Running" "job_updatedAt sample_running = ''1970-01-01T00:00:00.001Z''"
  "job_heartbeatAt sample_running = Some ''1970-01-01T00:00:00.001Z''"
  "job_process sample_running = Some sample_process" "job_taskId sample_running = ''t''"
  by (simp_all add: sample_running_def sample_created_def)

lemma sample_not_later: "\<not> date_less (iso_string 2) ''1970-01-01T00:00:00.001Z''"
  by code_simp

lemma sample_ready: "row_ready sample_running 2 sample_sup sample_running"
  using sample_running_inv sample_running_row sample_not_later
  by (simp add: row_ready_def job_row_def sample_running_facts isDurableJobTerminal_def valid_date_def)
     (simp add: sample_sup_def rows_inv_def)

subsection \<open>Properties\<close>

text \<open>
  C25. No respawn: whatever the passes of the supervisor find (any ports, at any times), however they
  are interleaved with other writers that save jobs through \<open>saveDurableJob\<close> or change mailboxes, the
  supervisor spawns at most one runner for a job.
\<close>

theorem runner_spawned_once:
  assumes "su_effects s = []" and "run_steps (sup_step le) s events = Inr s'"
  shows "length (filter (\<lambda>e. e = SpawnRunner taskId jobId) (su_effects s')) \<le> 1"
proof -
  have "spawn_inv s" using assms(1) by (simp add: spawn_inv_def spawns_def)
  then have "spawn_inv s'" using supervisor.run_inv assms(2) by blast
  then show ?thesis by (simp add: spawn_inv_def spawns_def)
qed

theorem runner_spawned_once_witness:
  "\<exists>s'. run_steps (sup_step sample_le) sample_sup [Pass (\<lambda>_. sample_ports) 1, Pass (\<lambda>_. sample_ports) 2] = Inr s'
     \<and> length (filter (\<lambda>e. e = SpawnRunner ''t'' ''job-1'') (su_effects s')) \<le> 1"
proof -
  obtain s' where r: "run_steps (sup_step sample_le) sample_sup
      [Pass (\<lambda>_. sample_ports) 1, Pass (\<lambda>_. sample_ports) 2] = Inr s'" by simp
  have "su_effects sample_sup = []" by (simp add: sample_sup_def)
  from runner_spawned_once [OF this r] r show ?thesis by blast
qed

text \<open>
  C26. The Leader is woken by the transaction that ends a job: if the row of a job was not terminal
  before a pass and is terminal after it, then the row says that the wakeup was enqueued, the mailbox
  table is the one in which \<open>job-finished\<close> was enqueued for the Leader of the Task, and a terminal
  notice with the status of the row was delivered, also when the pass itself threw.
\<close>

theorem ended_job_wakes_leader:
  assumes "getDurableJob (su_store s) (job_taskId job) (job_id job) = Some before"
    and "\<not> isDurableJobTerminal (job_status before)"
    and "reconcileJob job ports now s = (s', outcome)"
    and "getDurableJob (su_store s') (job_taskId job) (job_id job) = Some after"
    and "isDurableJobTerminal (job_status after)"
  shows "job_wakeupNotified after = Some True
    \<and> (\<exists>m. enqueueWork getWorkMailbox saveWorkMailbox (st_mail (su_store s))
          (RoleTarget (job_taskId job) ''leader'') ''job-finished'' (AtDate now) (wakeupRefs job) no_metadata
          = Inr (m, st_mail (su_store s')))
    \<and> (\<exists>out. TerminalEvent (job_taskId job) (job_id job) (job_status after) out \<in> set (su_effects s'))"
proof -
  have "ends_well job now s s'" using reconcile_job_ends assms(3) by (metis fst_conv)
  with assms show ?thesis by (auto simp: ends_well_def still_open_def woken_def job_row_def)
qed

theorem ended_job_wakes_leader_witness:
  "\<exists>s' after. reconcileJob sample_running sample_ports 2 sample_sup = (s', Inr ())
     \<and> getDurableJob (su_store s') ''t'' (job_id sample_running) = Some after \<and> job_wakeupNotified after = Some True"
proof -
  obtain s' b res where h: "harvestExit sample_running sample_exit 2 sample_sup = (s', Inr ())"
    "job_row sample_running s' = Some b" "isDurableJobTerminal (job_status b)"
    by (rule harvest_ok [OF sample_ready sample_running_facts(1), of sample_exit]) auto
  have p: "reconcileJob sample_running sample_ports 2 sample_sup = (s', Inr ())"
    using h(1) by (simp add: reconcileJob_def superviseRunning_def sample_running_facts sample_ports_def)
  have o: "\<not> isDurableJobTerminal (job_status sample_running)" by (simp add: sample_running_facts)
  from ended_job_wakes_leader [OF sample_running_row o p h(2) [unfolded job_row_def] h(3)] p h(2)
  show ?thesis by (auto simp: job_row_def sample_running_facts)
qed

text \<open>
  C27. A runner that has finished is harvested: for a running job whose snapshot is the current row,
  written no later than \<open>now\<close>, a pass that finds the exit artifact returns, and leaves a terminal row
  with the result of the artifact, or with the failure \<open>invalid_output\<close> when the artifact is not a
  valid result; in both cases the receipt of the artifact is kept and the Leader is woken.
\<close>

theorem finished_runner_harvested:
  assumes "getDurableJob (su_store s) (job_taskId job) (job_id job) = Some job"
    and "job_inv job" and "job_status job = Job_Running" and "pt_exitJson ports = Some exit"
    and "valid_date now" and "\<not> date_less (iso_string now) (job_updatedAt job)"
    and "rows_inv (st_mail (su_store s))" and "job_taskId job \<in> set (st_tasks (su_store s))"
  shows "\<exists>s' row res. reconcileJob job ports now s = (s', Inr ())
    \<and> getDurableJob (su_store s') (job_taskId job) (job_id job) = Some row
    \<and> isDurableJobTerminal (job_status row) \<and> job_result row = Some res \<and> job_status row = jr_outcome res
    \<and> (res = exit_result exit \<or> res = invalid_output)
    \<and> job_artifactsLocator job @ ''/exit.json'' \<in> set (of_receiptRefs (job_operation row))
    \<and> job_wakeupNotified row = Some True"
proof -
  have "row_ready job now s job" using assms by (simp add: row_ready_def job_row_def)
  then obtain s' row res where "harvestExit job exit now s = (s', Inr ())" and "job_row job s' = Some row"
    and "isDurableJobTerminal (job_status row)" and "job_result row = Some res" and "job_status row = jr_outcome res"
    and "res = exit_result exit \<or> res = invalid_output"
    and "job_artifactsLocator job @ ''/exit.json'' \<in> set (of_receiptRefs (job_operation row))"
    and "job_wakeupNotified row = Some True"
    by (rule harvest_ok [where job = job and now = now and s = s and a = job and exit = exit, OF _ assms(3)])
  moreover from this(1) have "reconcileJob job ports now s = (s', Inr ())"
    using assms(3,4) by (simp add: reconcileJob_def superviseRunning_def)
  ultimately show ?thesis unfolding job_row_def by blast
qed

theorem finished_runner_harvested_witness:
  "\<exists>s' row. reconcileJob sample_running sample_ports 2 sample_sup = (s', Inr ())
     \<and> getDurableJob (su_store s') (job_taskId sample_running) (job_id sample_running) = Some row
     \<and> isDurableJobTerminal (job_status row)"
proof -
  have "pt_exitJson sample_ports = Some sample_exit" "valid_date 2" "rows_inv (st_mail (su_store sample_sup))"
    "job_taskId sample_running \<in> set (st_tasks (su_store sample_sup))"
    "\<not> date_less (iso_string 2) (job_updatedAt sample_running)"
    using sample_ready sample_not_later
    by (simp_all add: sample_ports_def row_ready_def sample_running_facts)
  from finished_runner_harvested [OF sample_running_row sample_running_inv sample_running_facts(1) this(1,2,5,3,4)]
  show ?thesis by blast
qed

text \<open>
  C28. No false pass: an outcome proved from the checkpoint of a dead runner rests on exactly one
  result per planned step, in the order of the plan and all taken from the checkpoint; it is a
  success if and only if no step failed, was killed or timed out, and otherwise names a failing step.
\<close>

theorem checkpoint_proof_sound:
  assumes "job_valid job" and "proveOutcomeFromCheckpoint job checkpoint = Some r"
  shows "map sr_name (jr_steps r) = map js_name (job_steps job)
    \<and> set (jr_steps r) = set (cp_completedSteps checkpoint)
    \<and> (jr_outcome r = Job_Succeeded \<longleftrightarrow>
         \<not> (\<exists>x \<in> set (cp_completedSteps checkpoint). sr_timedOut x \<or> sr_exitCode x \<noteq> Some 0 \<or> sr_signal x \<noteq> None))
    \<and> (jr_outcome r \<noteq> Job_Succeeded \<longrightarrow>
         (\<exists>x \<in> set (cp_completedSteps checkpoint). jr_failedStep r = Some (sr_name x) \<and> failing x))"
proof -
  from assms(2) obtain ordered where o: "order_steps (cp_completedSteps checkpoint) (job_steps job) = Some ordered"
    and l: "length (cp_completedSteps checkpoint) = length (job_steps job)" and r: "jr_steps r = ordered"
    and res: "jr_outcome r = (case find failing ordered of None \<Rightarrow> Job_Succeeded
          | Some x \<Rightarrow> if sr_timedOut x then Job_TimedOut else Job_Failed)"
      "jr_failedStep r = map_option sr_name (find failing ordered)"
    by (auto simp: proveOutcomeFromCheckpoint_def Let_def split: if_splits option.splits)
  have s: "set ordered = set (cp_completedSteps checkpoint)"
    by (rule order_steps_all [OF o job_valid_steps [OF assms(1)] l])
  show ?thesis
  proof (cases "find failing ordered")
    case None
    then have "\<forall>x \<in> set ordered. \<not> failing x" by (auto simp: find_None_iff)
    moreover have "jr_outcome r = Job_Succeeded" using res(1) None by simp
    ultimately show ?thesis using order_steps_names [OF o] r s by (auto simp: failing_def)
  next
    case (Some x)
    then show ?thesis using order_steps_names [OF o] r res s find_failing [OF Some] by (auto simp: failing_def)
  qed
qed

theorem checkpoint_proof_sound_witness:
  "\<exists>r. proveOutcomeFromCheckpoint sample_running
       \<lparr>cp_completedSteps = [\<lparr>sr_name = ''build'', sr_exitCode = Some 2, sr_signal = None, sr_timedOut = False,
          sr_durationMs = 5, sr_logPath = ''build.log'', sr_head = replicate 40 (CHR ''b'')\<rparr>],
        cp_updatedAt = ''1970-01-01T00:00:00.002Z''\<rparr> = Some r \<and> jr_outcome r \<noteq> Job_Succeeded"
proof -
  let ?cp = "\<lparr>cp_completedSteps = [\<lparr>sr_name = ''build'', sr_exitCode = Some 2, sr_signal = None, sr_timedOut = False,
          sr_durationMs = 5, sr_logPath = ''build.log'', sr_head = replicate 40 (CHR ''b'')\<rparr>],
        cp_updatedAt = ''1970-01-01T00:00:00.002Z''\<rparr>"
  have "proveOutcomeFromCheckpoint sample_running ?cp \<noteq> None"
    by (simp add: proveOutcomeFromCheckpoint_def sample_running_def sample_created_def sample_input_def
        find_step_def failing_def)
  then obtain r where r: "proveOutcomeFromCheckpoint sample_running ?cp = Some r" by blast
  have v: "job_valid sample_running" using sample_running_inv by (simp add: job_inv_def)
  from checkpoint_proof_sound [OF v r] r show ?thesis by fastforce
qed

lemma recorded_heartbeat_escalates:
  assumes "job_status job = Job_Running" and "job_process job = Some p" and "process_alive ports p"
    and "pt_exitJson ports = None" and "pt_heartbeatMtime ports = Some mtime"
    and "job_heartbeatAt job = Some beat" and "date_parse beat = Some recorded_at" and "mtime \<le> recorded_at"
    and "su_sigkillAt s (sigkillKey job) = Some deadline" and "deadline \<le> now"
  shows "\<exists>s'. reconcileJob job ports now s = (s', Inr ()) \<and> SignalIfOwned p SIGKILL \<in> set (su_effects s')"
  using assms
  by (auto simp: reconcileJob_def superviseRunning_def heartbeat_step_def sigkill_step_def does_def forgetSigkill_def Let_def
      split: option.splits)

text \<open>
  C29. The escalation to SIGKILL can be blocked: if the last heartbeat of a live runner without an exit
  artifact is newer than the recorded one but older than the last write of the job (a cancellation, say,
  requested after the runner wedged), then the heartbeat write moves \<open>updatedAt\<close> backwards, is refused, and
  the pass throws before it looks at the deadline: it sends no SIGKILL, however late it is, and the row stays.
  A heartbeat that is recorded already is not written again, and such a pass escalates (\<open>recorded_heartbeat_escalates\<close>).
\<close>

theorem heartbeat_write_blocks_kill:
  assumes "getDurableJob (su_store s) (job_taskId job) (job_id job) = Some job"
    and "job_status job = Job_Running" and "job_process job = Some p" and "process_alive ports p"
    and "pt_exitJson ports = None" and "pt_heartbeatMtime ports = Some mtime"
    and "job_heartbeatAt job = Some beat" and "date_parse beat = Some recorded_at" and "recorded_at < mtime"
    and "date_parse (job_updatedAt job) = Some written" and "mtime < written" and "valid_date mtime"
  shows "\<exists>s' e es. reconcileJob job ports now s = (s', Inl e) \<and> su_store s' = su_store s
    \<and> su_effects s' = su_effects s @ es \<and> (\<forall>q. SignalIfOwned q SIGKILL \<notin> set es)"
proof -
  have refused: "\<exists>e. transitionDurableJob store (job_taskId job) (job_id job)
      (\<lambda>current. touchDurableJobHeartbeat current mtime) now None = Inl e"
    if "store = su_store s" for store
  proof (cases "touchDurableJobHeartbeat job mtime")
    case (Inl e)
    with assms(1) that show ?thesis by (simp add: transitionDurableJob_def)
  next
    case (Inr nxt)
    then have n: "job_taskId nxt = job_taskId job" "job_id nxt = job_id job" "job_valid nxt"
      "job_updatedAt nxt = iso_string mtime"
      by (auto simp: touchDurableJobHeartbeat_def split: if_splits)
    have "date_less (job_updatedAt nxt) (job_updatedAt job)"
      using assms(10-12) by (simp add: n(4) date_less_def date_parse_iso)
    moreover have "validateDurableJob nxt = Inr nxt" using n(3) by simp
    ultimately show ?thesis using n assms(1) that Inr
      by (simp add: transitionDurableJob_def saveDurableJob_def throw_def del: validateDurableJob_eq)
  qed
  let ?s1 = "case job_cancelRequestedAt job of None \<Rightarrow> s
      | Some _ \<Rightarrow> does s [WriteCancelFence (job_taskId job) (job_id job), SignalIfOwned p SIGTERM]"
  have pass: "reconcileJob job ports now s
      = thenDo (heartbeat_step job ports now ?s1) (\<lambda>_ s2. (sigkill_step job now s2, Inr ()))"
    using assms(2-5) by (simp add: reconcileJob_def superviseRunning_def split: option.split)
  have s1: "su_store ?s1 = su_store s" and e1: "\<exists>es. su_effects ?s1 = su_effects s @ es
      \<and> (\<forall>q. SignalIfOwned q SIGKILL \<notin> set es)"
    by (simp_all add: does_def split: option.split)
  define s2 where "s2 = (if now - mtime > HEARTBEAT_STALE_MS
      then (let s' = does ?s1 [SignalIfOwned p SIGTERM] in
              if su_sigkillAt s' (sigkillKey job) = None
              then s'\<lparr>su_sigkillAt := (su_sigkillAt s')(sigkillKey job \<mapsto> now + SIGKILL_GRACE_MS)\<rparr> else s')
      else ?s1)"
  have beat: "heartbeat_step job ports now ?s1
      = thenDo (transition job (\<lambda>current. touchDurableJobHeartbeat current mtime) now None s2) (\<lambda>_ s2. (s2, Inr ()))"
    unfolding s2_def heartbeat_step_def using assms(3,6-9) by simp
  have s2: "su_store s2 = su_store s" "\<exists>es. su_effects s2 = su_effects ?s1 @ es
      \<and> (\<forall>q. SignalIfOwned q SIGKILL \<notin> set es)"
    unfolding s2_def Let_def using s1 by (simp_all add: does_def)
  obtain e where "transition job (\<lambda>current. touchDurableJobHeartbeat current mtime) now None s2 = (s2, Inl e)"
    using refused [OF s2(1)] by (auto simp: transition_def)
  with beat pass have "reconcileJob job ports now s = (s2, Inl e)" by simp
  with s2 e1 show ?thesis by fastforce
qed

theorem heartbeat_write_blocks_kill_witness:
  "\<exists>s' e. reconcileJob (sample_running\<lparr>job_updatedAt := ''1970-01-01T00:00:09.000Z''\<rparr>)
        (sample_ports\<lparr>pt_exitJson := None, pt_heartbeatMtime := Some 5000, pt_startIdentity := (\<lambda>_. Some ''s''),
           pt_isAlive := (\<lambda>_. True)\<rparr>) 8640000
        (sample_sup\<lparr>su_store := (su_store sample_sup)\<lparr>st_jobs :=
           [sample_running\<lparr>job_updatedAt := ''1970-01-01T00:00:09.000Z''\<rparr>]\<rparr>\<rparr>) = (s', Inl e)
     \<and> SignalIfOwned sample_process SIGKILL \<notin> set (su_effects s')"
proof -
  let ?job = "sample_running\<lparr>job_updatedAt := ''1970-01-01T00:00:09.000Z''\<rparr>"
  let ?ports = "sample_ports\<lparr>pt_exitJson := None, pt_heartbeatMtime := Some 5000,
      pt_startIdentity := (\<lambda>_. Some ''s''), pt_isAlive := (\<lambda>_. True)\<rparr>"
  let ?s = "sample_sup\<lparr>su_store := (su_store sample_sup)\<lparr>st_jobs := [?job]\<rparr>\<rparr>"
  have row: "getDurableJob (su_store ?s) (job_taskId ?job) (job_id ?job) = Some ?job"
    by (simp add: getDurableJob_def has_key_def)
  have facts: "job_status ?job = Job_Running" "job_process ?job = Some sample_process"
    "process_alive ?ports sample_process" "pt_exitJson ?ports = None" "pt_heartbeatMtime ?ports = Some 5000"
    "job_heartbeatAt ?job = Some ''1970-01-01T00:00:00.001Z''" "su_effects ?s = []"
    by (simp_all add: sample_running_facts process_alive_def sample_process_def sample_sup_def)
  have dates: "date_parse ''1970-01-01T00:00:00.001Z'' = Some 1" "date_parse ''1970-01-01T00:00:09.000Z'' = Some 9000"
    by code_simp+
  have "date_parse (job_updatedAt ?job) = Some 9000" using dates(2) by simp
  from heartbeat_write_blocks_kill [OF row facts(1-6) dates(1) _ this, of 8640000] facts(7)
  show ?thesis by (auto simp: valid_date_def)
qed

end
