(* ===== verification/Capability_Grant.thy ===== *)
theory Capability_Grant
  imports Yui_Validation
begin

section \<open>Capability grants\<close>

text \<open>
  \<open>src/grant/capabilityGrant.ts\<close>: a grant lets a release workflow perform named actions, within
  bounds on the parameters, the number of uses, the time and the irreversibility, until it is
  revoked.  \<open>checkGrant\<close> is the authorization decision, \<open>recordGrantUse\<close> and \<open>revokeGrant\<close> are the
  two operations on the record.

  An object used as a dictionary (\<open>parameterBounds\<close>, \<open>params\<close>) is the list of its entries in
  enumeration order; a lookup of a key that an ordinary object inherits (\<open>toString\<close>) is not modelled.
\<close>

subsection \<open>Data\<close>

datatype irreversibility = Irr_None | Irr_Reversible | Irr_Irreversible

fun irreversibility_rank :: "irreversibility \<Rightarrow> nat" where
  "irreversibility_rank Irr_None = 0"
| "irreversibility_rank Irr_Reversible = 1"
| "irreversibility_rank Irr_Irreversible = 2"

record grant_repository =
  gr_owner :: string
  gr_name :: string

record grant_scope =
  sc_taskId :: "string option"
  sc_projectIds :: "string list option"
  sc_repositories :: "grant_repository list option"
  sc_packages :: "string list option"
  sc_homePath :: "string option"

type_synonym bounds = "(string \<times> string list) list"

record capability_grant =
  gt_id :: string
  gt_taskId :: string
  gt_granter :: string
  gt_scope :: grant_scope
  gt_actions :: "string list"
  gt_parameterBounds :: bounds
  gt_expiresAt :: "string option"
  gt_maxUses :: "int option"
  gt_usesUsed :: int
  gt_useReservations :: "string list"
  gt_irreversibilityCeiling :: irreversibility
  gt_revokedAt :: "string option"
  gt_revokedBy :: "string option"
  gt_createdAt :: string
  gt_updatedAt :: string

record grant_request =
  rq_action :: string
  rq_params :: "(string \<times> string) list option"
  rq_irreversibility :: "irreversibility option"

record grant_input =
  gi_granter :: string
  gi_scope :: "grant_scope option"
  gi_actions :: "string list"
  gi_parameterBounds :: "bounds option"
  gi_expiresAt :: "string option"
  gi_maxUses :: "int option"
  gi_irreversibilityCeiling :: "irreversibility option"

datatype grant_decision = Allowed | Denied string

subsection \<open>Normalization and validation\<close>

definition normalizeCeiling :: "irreversibility option \<Rightarrow> irreversibility" where
  "normalizeCeiling value = (case value of None \<Rightarrow> Irr_None | Some c \<Rightarrow> c)"

definition unique_texts :: "string list \<Rightarrow> string \<Rightarrow> string \<Rightarrow> string list result" where
  \<comment> \<open>\<open>values.map(requireText)\<close>, then the test that the normalized values are unique\<close>
  "unique_texts values label duplicate =
     andThen (traverse (\<lambda>v. requireText v label) values) (\<lambda>normalized.
       if \<not> distinct normalized then throw duplicate else Inr normalized)"

definition normalizeActions :: "string list \<Rightarrow> string list result" where
  "normalizeActions actions =
     (if actions = [] then throw ''Capability grant actions must be a non-empty array.''
      else unique_texts actions ''Capability grant action'' ''Capability grant actions must be unique.'')"

text \<open>\<open>object[key] = value\<close>: an assignment to a key that is already there keeps its place.\<close>

fun assign :: "'k \<Rightarrow> 'v \<Rightarrow> ('k \<times> 'v) list \<Rightarrow> ('k \<times> 'v) list" where
  "assign k v [] = [(k, v)]"
| "assign k v ((k', v') # rest) = (if k = k' then (k, v) # rest else (k', v') # assign k v rest)"

fun normalizeBounds :: "bounds \<Rightarrow> bounds \<Rightarrow> bounds result" where
  "normalizeBounds normalized [] = Inr normalized"
| "normalizeBounds normalized ((name, values) # rest) =
     andThen (requireIdentity name ''Capability grant parameter'') (\<lambda>key.
       if values = [] then throw ''Capability grant parameter bound must list allowed values''
       else andThen (unique_texts values ''Capability grant parameter value''
                       ''Capability grant parameter bound values must be unique'') (\<lambda>allowed.
         normalizeBounds (assign key allowed normalized) rest))"

definition normalizeParameterBounds :: "bounds option \<Rightarrow> bounds result" where
  "normalizeParameterBounds found = (case found of None \<Rightarrow> Inr [] | Some entries \<Rightarrow> normalizeBounds [] entries)"

definition normalizeScopeIdentities :: "string list \<Rightarrow> string \<Rightarrow> string list result" where
  "normalizeScopeIdentities values label =
     andThen (traverse (\<lambda>v. requireIdentity v label) values) (\<lambda>normalized.
       if \<not> distinct normalized then throw (label @ '' ids must be unique.'') else Inr normalized)"

definition normalizeScopeText :: "string list \<Rightarrow> string \<Rightarrow> string list result" where
  "normalizeScopeText values label = unique_texts values label (label @ ''s must be unique.'')"

definition repository_key :: "grant_repository \<Rightarrow> string" where
  "repository_key r = gr_owner r @ ''/'' @ gr_name r"

definition normalizeRepository :: "grant_repository \<Rightarrow> grant_repository result" where
  "normalizeRepository r =
     andThen (requireText (gr_owner r) ''Capability grant scope repository owner'') (\<lambda>owner.
     andThen (requireText (gr_name r) ''Capability grant scope repository name'') (\<lambda>name.
       Inr \<lparr>gr_owner = owner, gr_name = name\<rparr>))"

definition normalizeRepositories :: "grant_repository list \<Rightarrow> grant_repository list result" where
  "normalizeRepositories repositories =
     andThen (traverse normalizeRepository repositories) (\<lambda>normalized.
       if \<not> distinct (map repository_key normalized)
       then throw ''Capability grant scope repositories must be unique.'' else Inr normalized)"

definition some_items :: "'a list option \<Rightarrow> bool" where
  "some_items xs \<longleftrightarrow> (case xs of None \<Rightarrow> False | Some ys \<Rightarrow> ys \<noteq> [])"

definition hasScopeSelector :: "grant_scope \<Rightarrow> bool" where
  "hasScopeSelector scope \<longleftrightarrow> sc_taskId scope \<noteq> None \<or> some_items (sc_projectIds scope)
     \<or> some_items (sc_repositories scope) \<or> some_items (sc_packages scope) \<or> sc_homePath scope \<noteq> None"

definition validateScope :: "grant_scope \<Rightarrow> unit result" where
  "validateScope scope = all_ok
     [whenSome (sc_taskId scope) (\<lambda>t. skip (requireIdentity t ''Capability grant scope taskId'')),
      whenSome (sc_projectIds scope) (\<lambda>ps. skip (normalizeScopeIdentities ps ''Capability grant scope Project'')),
      whenSome (sc_repositories scope) (\<lambda>rs. skip (normalizeRepositories rs)),
      whenSome (sc_packages scope) (\<lambda>ps. skip (normalizeScopeText ps ''Capability grant scope package'')),
      whenSome (sc_homePath scope) (\<lambda>h. skip (requireText h ''Capability grant scope homePath'')),
      refuse (\<not> hasScopeSelector scope \<and> sc_taskId scope = None)
        ''Capability grant scope requires at least one selector'']"

definition task_scope :: "string \<Rightarrow> grant_scope" where
  "task_scope taskId = \<lparr>sc_taskId = Some taskId, sc_projectIds = None, sc_repositories = None,
     sc_packages = None, sc_homePath = None\<rparr>"

definition nonempty_field :: "('a list \<Rightarrow> 'a list result) \<Rightarrow> 'a list option \<Rightarrow> 'a list option result" where
  \<comment> \<open>\<open>x === undefined || x.length === 0 ? {} : { x: f(x) }\<close>\<close>
  "nonempty_field f x = (case x of None \<Rightarrow> Inr None
     | Some [] \<Rightarrow> Inr None
     | Some xs \<Rightarrow> andThen (f xs) (\<lambda>ys. Inr (Some ys)))"

definition normalizeScope :: "grant_scope option \<Rightarrow> string \<Rightarrow> grant_scope result" where
  "normalizeScope found taskId =
     (case found of
        None \<Rightarrow> Inr (task_scope taskId)
      | Some scope \<Rightarrow>
          andThen (validateScope scope) (\<lambda>_.
          andThen (optionally (\<lambda>t. requireIdentity t ''Capability grant scope taskId'') (sc_taskId scope)) (\<lambda>task.
          andThen (nonempty_field (\<lambda>ps. normalizeScopeIdentities ps ''Capability grant scope Project'')
                     (sc_projectIds scope)) (\<lambda>projects.
          andThen (nonempty_field normalizeRepositories (sc_repositories scope)) (\<lambda>repositories.
          andThen (nonempty_field (\<lambda>ps. normalizeScopeText ps ''Capability grant scope package'')
                     (sc_packages scope)) (\<lambda>packages.
          andThen (optionally (\<lambda>h. requireText h ''Capability grant scope homePath'') (sc_homePath scope)) (\<lambda>home.
            let normalized = \<lparr>sc_taskId = task, sc_projectIds = projects, sc_repositories = repositories,
                  sc_packages = packages, sc_homePath = home\<rparr>
            in Inr (if hasScopeSelector normalized then normalized else task_scope taskId))))))))"

definition validateCapabilityGrant :: "capability_grant \<Rightarrow> capability_grant result" where
  "validateCapabilityGrant grant = checked grant
     [skip (validateTaskRecordReference (gt_taskId grant) (gt_id grant) CapabilityGrantKind),
      skip (requireIdentity (gt_taskId grant) ''Task id''),
      skip (requireText (gt_granter grant) ''Capability grant granter''),
      validateScope (gt_scope grant),
      skip (normalizeActions (gt_actions grant)),
      skip (normalizeParameterBounds (Some (gt_parameterBounds grant))),
      whenSome (gt_expiresAt grant) (\<lambda>t. skip (requireTimestamp t ''Capability grant expiresAt'')),
      whenSome (gt_maxUses grant) (\<lambda>n. skip (requirePositiveInteger n ''Capability grant maxUses'')),
      refuse (\<not> safe_integer (gt_usesUsed grant) \<or> gt_usesUsed grant < 0)
        ''Capability grant usesUsed must be a non-negative integer.'',
      whenSome (gt_maxUses grant) (\<lambda>n. refuse (gt_usesUsed grant > n)
        ''Capability grant usesUsed cannot exceed maxUses.''),
      refuse (list_ex (\<lambda>key. key = []) (gt_useReservations grant))
        ''Capability grant useReservations must be non-empty strings.'',
      refuse (\<not> distinct (gt_useReservations grant)) ''Capability grant useReservations must be unique.'',
      refuse (int (length (gt_useReservations grant)) > gt_usesUsed grant)
        ''Capability grant useReservations cannot outnumber usesUsed.'',
      refuse ((gt_revokedAt grant = None) \<noteq> (gt_revokedBy grant = None))
        ''Capability grant revocation requires both revokedAt and revokedBy.'',
      whenSome (gt_revokedAt grant) (\<lambda>t. skip (requireTimestamp t ''Capability grant revokedAt'')),
      (if gt_revokedAt grant \<noteq> None
       then whenSome (gt_revokedBy grant) (\<lambda>by. skip (requireText by ''Capability grant revokedBy'')) else Inr ()),
      skip (requireTimestamp (gt_createdAt grant) ''Capability grant createdAt''),
      skip (requireTimestamp (gt_updatedAt grant) ''Capability grant updatedAt'')]"

subsection \<open>Operations\<close>

definition createCapabilityGrant :: "string \<Rightarrow> string \<Rightarrow> grant_input \<Rightarrow> date \<Rightarrow> capability_grant result" where
  "createCapabilityGrant i taskId input now =
     andThen (toISOString now) (\<lambda>timestamp.
     andThen (validateTaskRecordReference taskId i CapabilityGrantKind) (\<lambda>(_, local_id).
     andThen (requireIdentity taskId ''Task id'') (\<lambda>task.
     andThen (requireText (gi_granter input) ''Capability grant granter'') (\<lambda>granter.
     andThen (normalizeScope (gi_scope input) taskId) (\<lambda>scope.
     andThen (normalizeActions (gi_actions input)) (\<lambda>actions.
     andThen (normalizeParameterBounds (gi_parameterBounds input)) (\<lambda>parameters.
     andThen (optionally (\<lambda>t. requireTimestamp t ''Capability grant expiresAt'') (gi_expiresAt input)) (\<lambda>expires.
     andThen (optionally (\<lambda>n. requirePositiveInteger n ''Capability grant maxUses'') (gi_maxUses input)) (\<lambda>uses.
       validateCapabilityGrant
         \<lparr>gt_id = local_id, gt_taskId = task, gt_granter = granter, gt_scope = scope, gt_actions = actions,
          gt_parameterBounds = parameters, gt_expiresAt = expires, gt_maxUses = uses, gt_usesUsed = 0,
          gt_useReservations = [], gt_irreversibilityCeiling = normalizeCeiling (gi_irreversibilityCeiling input),
          gt_revokedAt = None, gt_revokedBy = None, gt_createdAt = timestamp, gt_updatedAt = timestamp\<rparr>)))))))))"

text \<open>The loop over the entries of \<open>parameterBounds\<close>: the first refusal, if any.\<close>

fun refusedParameter :: "(string \<times> string) list option \<Rightarrow> bounds \<Rightarrow> string option" where
  "refusedParameter params [] = None"
| "refusedParameter params ((name, allowed) # rest) =
     (case Option.bind params (\<lambda>ps. map_of ps name) of
        None \<Rightarrow> Some ''grant-parameter-missing''
      | Some value \<Rightarrow>
          if value \<notin> set allowed then Some ''grant-parameter-value-not-allowed''
          else refusedParameter params rest)"

definition expired :: "capability_grant \<Rightarrow> date \<Rightarrow> bool" where
  \<comment> \<open>\<open>now.getTime() > Date.parse(grant.expiresAt)\<close>\<close>
  "expired grant now \<longleftrightarrow> (case Option.bind (gt_expiresAt grant) date_parse of None \<Rightarrow> False | Some t \<Rightarrow> now > t)"

definition exhausted :: "capability_grant \<Rightarrow> bool" where
  "exhausted grant \<longleftrightarrow> (case gt_maxUses grant of None \<Rightarrow> False | Some n \<Rightarrow> gt_usesUsed grant \<ge> n)"

definition checkGrant :: "capability_grant \<Rightarrow> grant_request \<Rightarrow> date \<Rightarrow> bool \<Rightarrow> grant_decision result" where
  "checkGrant grant request now skipUsesCheck =
     andThen (validateCapabilityGrant grant) (\<lambda>_. Inr
       (if gt_revokedAt grant \<noteq> None then Denied ''grant-revoked''
        else if expired grant now then Denied ''grant-expired''
        else if \<not> skipUsesCheck \<and> exhausted grant then Denied ''grant-uses-exhausted''
        else if rq_action request \<notin> set (gt_actions grant) then Denied ''grant-action-not-allowed''
        else (case refusedParameter (rq_params request) (gt_parameterBounds grant) of
            Some reason \<Rightarrow> Denied reason
          | None \<Rightarrow>
              if irreversibility_rank (case rq_irreversibility request of None \<Rightarrow> Irr_None | Some r \<Rightarrow> r)
                 > irreversibility_rank (gt_irreversibilityCeiling grant)
              then Denied ''grant-irreversibility-exceeds-ceiling'' else Allowed)))"

definition recordGrantUse :: "capability_grant \<Rightarrow> date \<Rightarrow> string option \<Rightarrow> capability_grant result" where
  "recordGrantUse grant now reservationKey =
     andThen (validateCapabilityGrant grant) (\<lambda>_.
       if exhausted grant then throw ''Capability grant is exhausted''
       else andThen (toISOString now) (\<lambda>timestamp.
         validateCapabilityGrant (grant\<lparr>
           gt_usesUsed := gt_usesUsed grant + 1,
           gt_useReservations := gt_useReservations grant @ (case reservationKey of None \<Rightarrow> [] | Some k \<Rightarrow> [k]),
           gt_updatedAt := timestamp\<rparr>)))"

definition revokeGrant :: "capability_grant \<Rightarrow> string \<Rightarrow> date \<Rightarrow> capability_grant result" where
  "revokeGrant grant revokedBy now =
     andThen (validateCapabilityGrant grant) (\<lambda>_.
       if gt_revokedAt grant \<noteq> None then Inr grant
       else andThen (requireText revokedBy ''Capability grant revokedBy'') (\<lambda>actor.
         andThen (toISOString now) (\<lambda>timestamp.
           validateCapabilityGrant (grant\<lparr>gt_revokedAt := Some timestamp, gt_revokedBy := Some actor,
             gt_updatedAt := timestamp\<rparr>))))"

datatype grant_op = UseGrant "string option" | RevokeGrant string

fun grant_step :: "capability_grant \<Rightarrow> grant_op \<times> date \<Rightarrow> capability_grant result" where
  "grant_step grant (UseGrant key, now) = recordGrantUse grant now key"
| "grant_step grant (RevokeGrant by, now) = revokeGrant grant by now"

subsection \<open>The record and its operations\<close>

interpretation grant: record_validator validateCapabilityGrant
  by unfold_locales (simp add: validateCapabilityGrant_def)

definition grant_valid :: "capability_grant \<Rightarrow> bool" where
  "grant_valid grant \<longleftrightarrow> isOk (validateCapabilityGrant grant)"

lemma validateCapabilityGrant_eq [simp]:
  "validateCapabilityGrant grant = Inr grant' \<longleftrightarrow> grant_valid grant \<and> grant' = grant"
  using grant.returns_self [of grant grant'] grant.ok_eq [of grant] by (auto simp: grant_valid_def)

lemma grant_bounds:
  "grant_valid g \<Longrightarrow> 0 \<le> gt_usesUsed g \<and> int (length (gt_useReservations g)) \<le> gt_usesUsed g
     \<and> distinct (gt_useReservations g) \<and> (\<forall>n. gt_maxUses g = Some n \<longrightarrow> gt_usesUsed g \<le> n)"
  by (auto simp: grant_valid_def validateCapabilityGrant_def)

definition grant_le :: "capability_grant \<Rightarrow> capability_grant \<Rightarrow> bool" where
  \<comment> \<open>what a history may change\<close>
  "grant_le a b \<longleftrightarrow>
     gt_id b = gt_id a \<and> gt_taskId b = gt_taskId a \<and> gt_granter b = gt_granter a \<and> gt_scope b = gt_scope a
     \<and> gt_actions b = gt_actions a \<and> gt_parameterBounds b = gt_parameterBounds a
     \<and> gt_expiresAt b = gt_expiresAt a \<and> gt_maxUses b = gt_maxUses a
     \<and> gt_irreversibilityCeiling b = gt_irreversibilityCeiling a \<and> gt_createdAt b = gt_createdAt a
     \<and> gt_usesUsed a \<le> gt_usesUsed b \<and> (\<exists>ks. gt_useReservations b = gt_useReservations a @ ks)
     \<and> (gt_revokedAt a \<noteq> None \<longrightarrow> gt_revokedAt b = gt_revokedAt a \<and> gt_revokedBy b = gt_revokedBy a)"

lemma use_eq:
  "recordGrantUse g now key = Inr g' \<longleftrightarrow>
     grant_valid g \<and> \<not> exhausted g \<and> valid_date now \<and> grant_valid g'
     \<and> g' = g\<lparr>gt_usesUsed := gt_usesUsed g + 1,
              gt_useReservations := gt_useReservations g @ (case key of None \<Rightarrow> [] | Some k \<Rightarrow> [k]),
              gt_updatedAt := iso_string now\<rparr>"
  by (auto simp: recordGrantUse_def)

lemma revoke_cases:
  assumes "revokeGrant g by now = Inr g'"
  shows "grant_valid g'" and "gt_revokedAt g' \<noteq> None" and "grant_le g g'"
    and "gt_usesUsed g' = gt_usesUsed g" and "gt_useReservations g' = gt_useReservations g"
    and "gt_revokedAt g \<noteq> None \<Longrightarrow> g' = g"
  using assms by (auto simp: revokeGrant_def grant_le_def split: if_splits)

lemma grant_step_le: "grant_step g e = Inr g' \<Longrightarrow> grant_valid g' \<and> grant_le g g'"
proof (cases e)
  case (Pair op now)
  assume "grant_step g e = Inr g'"
  with Pair show ?thesis
    by (cases op) (auto simp: use_eq grant_le_def dest: revoke_cases(1,3))
qed

lemma grant_le_trans: "grant_le a b \<Longrightarrow> grant_le b c \<Longrightarrow> grant_le a c"
  unfolding grant_le_def by auto

interpretation capability_grant: step_order grant_step grant_valid grant_le
proof
  show "grant_le a a" for a by (simp add: grant_le_def)
  show "grant_le a b \<Longrightarrow> grant_le b c \<Longrightarrow> grant_le a c" for a b c by (rule grant_le_trans)
qed (auto dest: grant_step_le)

lemma created_grant:
  assumes "createCapabilityGrant i taskId input now = Inr g"
  shows "grant_valid g" and "gt_usesUsed g = 0" and "gt_useReservations g = []" and "gt_revokedAt g = None"
  using assms by (auto simp: createCapabilityGrant_def)

subsection \<open>Uses of a history\<close>

fun use_keys :: "(grant_op \<times> date) list \<Rightarrow> string option list" where
  "use_keys [] = []"
| "use_keys ((UseGrant key, _) # ops) = key # use_keys ops"
| "use_keys ((RevokeGrant _, _) # ops) = use_keys ops"

lemma run_uses:
  "run_steps grant_step g ops = Inr g' \<Longrightarrow>
     gt_usesUsed g' = gt_usesUsed g + int (length (use_keys ops))
     \<and> gt_useReservations g' = gt_useReservations g @ concat (map (case_option [] (\<lambda>k. [k])) (use_keys ops))"
proof (induction ops arbitrary: g rule: use_keys.induct)
  case (2 key now ops)
  then obtain h where "recordGrantUse g now key = Inr h" and "run_steps grant_step h ops = Inr g'" by auto
  with 2 show ?case by (auto simp: use_eq)
next
  case (3 actor now ops)
  then obtain h where "revokeGrant g actor now = Inr h" and "run_steps grant_step h ops = Inr g'" by auto
  with 3 show ?case by (auto dest: revoke_cases(4,5))
qed simp

lemma refusedParameter_None:
  "refusedParameter params bs = None \<longleftrightarrow>
     (\<forall>(name, allowed) \<in> set bs. \<exists>v. Option.bind params (\<lambda>ps. map_of ps name) = Some v \<and> v \<in> set allowed)"
  by (induction bs rule: refusedParameter.induct) (auto split: option.splits)

subsection \<open>Properties\<close>

definition sample_grant_input :: grant_input where
  "sample_grant_input = \<lparr>gi_granter = ''user'', gi_scope = None, gi_actions = ['' publish ''],
     gi_parameterBounds = Some [(''env'', [''prod''])], gi_expiresAt = None, gi_maxUses = Some 2,
     gi_irreversibilityCeiling = Some Irr_Reversible\<rparr>"

definition sample_grant :: capability_grant where
  "sample_grant = \<lparr>gt_id = ''capability-grant-1'', gt_taskId = ''t'', gt_granter = ''user'',
     gt_scope = task_scope ''t'', gt_actions = [''publish''], gt_parameterBounds = [(''env'', [''prod''])],
     gt_expiresAt = None, gt_maxUses = Some 2, gt_usesUsed = 0, gt_useReservations = [],
     gt_irreversibilityCeiling = Irr_Reversible, gt_revokedAt = None, gt_revokedBy = None,
     gt_createdAt = ''1970-01-01T00:00:00.000Z'', gt_updatedAt = ''1970-01-01T00:00:00.000Z''\<rparr>"

lemma sample_grant_created: "createCapabilityGrant ''capability-grant-1'' ''t'' sample_grant_input 0 = Inr sample_grant"
  by code_simp

lemma sample_grant_use:
  "recordGrantUse sample_grant 1 (Some ''w/1#1'')
     = Inr (sample_grant\<lparr>gt_usesUsed := 1, gt_useReservations := [''w/1#1''],
              gt_updatedAt := ''1970-01-01T00:00:00.001Z''\<rparr>)"
  by code_simp

text \<open>
  C30. Uses are counted exactly and never exceed the limit: after any history of uses and revocations
  that return, the counter of a grant is the number of recorded uses, the reservation keys are those
  of the uses in their order and without repetition, and a limit \<open>maxUses\<close> bounds the number of uses.
\<close>

theorem grant_uses_counted:
  assumes "createCapabilityGrant i taskId input now = Inr g" and "run_steps grant_step g ops = Inr g'"
  shows "gt_usesUsed g' = int (length (use_keys ops))
    \<and> gt_useReservations g' = concat (map (case_option [] (\<lambda>k. [k])) (use_keys ops))
    \<and> distinct (gt_useReservations g')
    \<and> (\<forall>n. gt_maxUses g = Some n \<longrightarrow> int (length (use_keys ops)) \<le> n)"
proof -
  have "grant_valid g'" and "grant_le g g'"
    using capability_grant.run_inv capability_grant.run_le assms(2) created_grant(1) [OF assms(1)] by blast+
  with run_uses [OF assms(2)] created_grant(2,3) [OF assms(1)] grant_bounds [of g'] show ?thesis
    by (auto simp: grant_le_def)
qed

theorem grant_uses_counted_witness:
  "gt_usesUsed (sample_grant\<lparr>gt_usesUsed := 1, gt_useReservations := [''w/1#1''],
     gt_updatedAt := ''1970-01-01T00:00:00.001Z''\<rparr>) = int (length (use_keys [(UseGrant (Some ''w/1#1''), 1)]))"
  by (rule grant_uses_counted [OF sample_grant_created, THEN conjunct1]) (simp add: sample_grant_use)

text \<open>
  C31. The decision of \<open>checkGrant\<close> is exact: on a valid grant it never throws, and it allows a request
  if and only if the grant is not revoked and not expired, has a use left (unless the caller skips
  that check for a step already charged), lists the action, every bounded parameter is given with one
  of its allowed values, and the irreversibility is within the ceiling.
\<close>

theorem check_grant_exact:
  assumes "validateCapabilityGrant g = Inr g"
  shows "isOk (checkGrant g request now skipUses)
    \<and> (checkGrant g request now skipUses = Inr Allowed \<longleftrightarrow>
        gt_revokedAt g = None
        \<and> (\<forall>s t. gt_expiresAt g = Some s \<longrightarrow> date_parse s = Some t \<longrightarrow> now \<le> t)
        \<and> (skipUses \<or> (\<forall>n. gt_maxUses g = Some n \<longrightarrow> gt_usesUsed g < n))
        \<and> rq_action request \<in> set (gt_actions g)
        \<and> (\<forall>(name, allowed) \<in> set (gt_parameterBounds g).
              \<exists>v. Option.bind (rq_params request) (\<lambda>ps. map_of ps name) = Some v \<and> v \<in> set allowed)
        \<and> irreversibility_rank (case rq_irreversibility request of None \<Rightarrow> Irr_None | Some r \<Rightarrow> r)
            \<le> irreversibility_rank (gt_irreversibilityCeiling g))"
proof -
  have e: "\<not> expired g now \<longleftrightarrow> (\<forall>s t. gt_expiresAt g = Some s \<longrightarrow> date_parse s = Some t \<longrightarrow> now \<le> t)"
    by (cases "gt_expiresAt g") (auto simp: expired_def split: option.splits)
  have x: "\<not> exhausted g \<longleftrightarrow> (\<forall>n. gt_maxUses g = Some n \<longrightarrow> gt_usesUsed g < n)"
    by (auto simp: exhausted_def split: option.splits)
  show ?thesis
    unfolding e [symmetric] x [symmetric] refusedParameter_None [symmetric]
    using assms by (auto simp: checkGrant_def split: option.splits)
qed

theorem check_grant_exact_witness:
  "checkGrant sample_grant \<lparr>rq_action = ''publish'', rq_params = Some [(''env'', ''prod'')], rq_irreversibility = None\<rparr>
     5 False = Inr Allowed"
proof -
  have "validateCapabilityGrant sample_grant = Inr sample_grant"
    using created_grant(1) [OF sample_grant_created] by simp
  from check_grant_exact [OF this] show ?thesis by (simp add: sample_grant_def)
qed

text \<open>
  C32. Revocation is final and idempotent: once \<open>revokeGrant\<close> has returned, every later history keeps
  the original revocation, the terms of the grant never change, revoking again returns the record as
  it is, and every request is denied as revoked.
\<close>

theorem revocation_final:
  assumes "revokeGrant g actor now = Inr g1" and "run_steps grant_step g1 ops = Inr g2"
  shows "gt_revokedAt g2 = gt_revokedAt g1 \<and> gt_revokedBy g2 = gt_revokedBy g1
    \<and> gt_scope g2 = gt_scope g1 \<and> gt_actions g2 = gt_actions g1 \<and> gt_parameterBounds g2 = gt_parameterBounds g1
    \<and> revokeGrant g2 other later = Inr g2
    \<and> checkGrant g2 request later skipUses = Inr (Denied ''grant-revoked'')"
proof -
  have "grant_valid g2" and "grant_le g1 g2"
    using capability_grant.run_inv capability_grant.run_le assms(2) revoke_cases(1) [OF assms(1)] by blast+
  with revoke_cases(2) [OF assms(1)] show ?thesis
    by (auto simp: grant_le_def revokeGrant_def checkGrant_def)
qed

theorem revocation_final_witness:
  "\<exists>g1 g2. revokeGrant sample_grant ''admin'' 1 = Inr g1 \<and> run_steps grant_step g1 [(RevokeGrant ''other'', 2)] = Inr g2
     \<and> checkGrant g2 \<lparr>rq_action = ''publish'', rq_params = None, rq_irreversibility = None\<rparr> 3 True
         = Inr (Denied ''grant-revoked'')"
proof -
  have "isOk (revokeGrant sample_grant ''admin'' 1)" by code_simp
  then obtain g1 where g1: "revokeGrant sample_grant ''admin'' 1 = Inr g1" by (auto simp: isOk_iff)
  then have "run_steps grant_step g1 [(RevokeGrant ''other'', 2)] = Inr g1"
    using revoke_cases(1,2) [OF g1] by (simp add: revokeGrant_def)
  with revocation_final [OF g1 this] g1 show ?thesis by blast
qed

end
