(* ===== verification/Integration_Attempt.thy ===== *)
theory Integration_Attempt
  imports Yui_Validation
begin

section \<open>Integration attempts and the integration queue\<close>

text \<open>
  \<open>src/integration/integrationAttempt.ts\<close>, \<open>src/integration/checkResult.ts\<close> and
  \<open>src/integration/integrationQueueEntry.ts\<close>: the record of one attempt to integrate a result into
  the target branch of a Task (its checks, its conflict, the decision of the Task control about the
  conflict, the commit), and the entry of the serialized merge queue of a Task.  A field the source
  declares with \<open>?\<close> is an option; \<open>field_patch\<close> is a field of a patch object that is absent or
  present (with a value or \<open>undefined\<close>).
\<close>

subsection \<open>integration/checkResult.ts\<close>

datatype check_outcome = Passed | Failed | Skipped

record check_result =
  cr_name :: string
  cr_outcome :: check_outcome
  cr_details :: "string option"
  cr_logPath :: "string option"

definition is_letter :: "char \<Rightarrow> bool" where
  "is_letter c \<longleftrightarrow> is_alnum c \<and> \<not> is_digit c"

definition is_separator :: "char \<Rightarrow> bool" where
  "is_separator c \<longleftrightarrow> c = CHR ''/'' \<or> c = CHR 0x5C"

definition absolute_path :: "string \<Rightarrow> bool" where
  \<comment> \<open>\<open>/^(?:[A-Za-z]:[\\/]|[\\/])/\<close>\<close>
  "absolute_path s \<longleftrightarrow>
     (case s of
        [] \<Rightarrow> False
      | c # rest \<Rightarrow> is_separator c
          \<or> (is_letter c \<and> take 1 rest = '':'' \<and> list_ex is_separator (take 1 (drop 1 rest))))"

text \<open>\<open>path.split(/[\\/]/)\<close>: the segments between separators.\<close>

fun segments :: "string \<Rightarrow> string list" where
  "segments [] = [[]]"
| "segments (c # s) =
     (if is_separator c then [] # segments s
      else (case segments s of [] \<Rightarrow> [[c]] | w # ws \<Rightarrow> (c # w) # ws))"

definition requireRelativePath :: "string \<Rightarrow> string \<Rightarrow> string result" where
  "requireRelativePath value label =
     andThen (requireText value label) (\<lambda>normalized.
       if absolute_path normalized \<or> ''..'' \<in> set (segments normalized)
       then throw (label @ '' must be relative.'')
       else Inr (map (\<lambda>c. if c = CHR 0x5C then CHR ''/'' else c) normalized))"

definition normalizeCheckResult :: "check_result \<Rightarrow> check_result result" where
  "normalizeCheckResult check =
     andThen (requireText (cr_name check) ''Check name'') (\<lambda>name.
     andThen (optionally (\<lambda>d. requireText d ''Check details'') (cr_details check)) (\<lambda>details.
     andThen (optionally (\<lambda>p. requireRelativePath p ''Check log path'') (cr_logPath check)) (\<lambda>logPath.
       Inr \<lparr>cr_name = name, cr_outcome = cr_outcome check, cr_details = details, cr_logPath = logPath\<rparr>)))"

subsection \<open>The record of an attempt\<close>

datatype integration_status =
  Int_Running | Int_Blocked | Int_Validating | Int_Committed | Int_Superseded | Int_Failed

record conflict_report =
  cf_affectedPaths :: "string list"
  cf_summary :: string

datatype resolution_action = Manual_Resolution | Reject

record resolution_decision =
  rd_action :: resolution_action
  rd_rationale :: string
  rd_decidedBy :: task_actor
  rd_decidedAt :: string

datatype integration_strategy = FF | Cherry_Pick | Merge | Manual

datatype integration_source =
    WorkItemSource string string string integration_strategy
    \<comment> \<open>work item, start commit, result commit, strategy\<close>
  | UpstreamSource string string string
    \<comment> \<open>branch, remote commit, Task base commit; the strategy is rebase\<close>
  | HistoricalSource "string list"

record integration_attempt =
  ia_id :: string
  ia_taskId :: string
  ia_projectId :: string
  ia_targetRef :: string
  ia_source :: integration_source
  ia_beforeCommit :: string
  ia_afterCommit :: "string option"
  ia_summary :: "string option"
  ia_checkCommands :: "string list"
  ia_candidateCommit :: "string option"
  ia_gatePlanDigest :: "string option"
  ia_gateToolchainDigest :: "string option"
  ia_jobId :: "string option"
  ia_status :: integration_status
  ia_conflict :: "conflict_report option"
  ia_resolution :: "resolution_decision option"
  ia_checks :: "check_result list option"
  ia_createdAt :: string
  ia_updatedAt :: string
  ia_endedAt :: "string option"

definition normalizeConflictReport :: "conflict_report \<Rightarrow> conflict_report result" where
  "normalizeConflictReport report =
     andThen (normalizedUniqueText (cf_affectedPaths report) ''Conflict path'') (\<lambda>affectedPaths.
     andThen (requireText (cf_summary report) ''Conflict summary'') (\<lambda>summary.
       Inr \<lparr>cf_affectedPaths = affectedPaths, cf_summary = summary\<rparr>))"

fun historicalIds :: "string \<Rightarrow> string list \<Rightarrow> string list \<Rightarrow> unit result" where
  "historicalIds taskId seen [] = Inr ()"
| "historicalIds taskId seen (changeSetId # rest) =
     andThen (validateTaskRecordReference taskId changeSetId ChangeSetKind) (\<lambda>_.
       if changeSetId \<in> set seen then throw ''Historical Integration ChangeSet is duplicated''
       else historicalIds taskId (changeSetId # seen) rest)"

fun validateIntegrationSource :: "string \<Rightarrow> integration_source \<Rightarrow> unit result" where
  "validateIntegrationSource taskId (WorkItemSource workItemId startCommit resultCommit strategy) = all_ok
     [skip (validateTaskRecordReference taskId workItemId WorkItemKind),
      skip (requireCommit startCommit ''WorkItem Integration start commit''),
      skip (requireCommit resultCommit ''WorkItem Integration result commit'')]"
| "validateIntegrationSource taskId (UpstreamSource branch remoteCommit taskBaseCommit) = all_ok
     [skip (requireText branch ''Upstream branch''),
      skip (requireCommit remoteCommit ''Upstream remote commit''),
      skip (requireCommit taskBaseCommit ''Upstream Task base commit'')]"
| "validateIntegrationSource taskId (HistoricalSource changeSetIds) = all_ok
     [refuse (changeSetIds = []) ''Historical Integration source requires ChangeSet ids.'',
      historicalIds taskId [] changeSetIds]"

definition integration_terminal :: "integration_status \<Rightarrow> bool" where
  "integration_terminal s \<longleftrightarrow> s = Int_Committed \<or> s = Int_Superseded \<or> s = Int_Failed"

definition manual_source :: "integration_source \<Rightarrow> bool" where
  "manual_source source = (case source of WorkItemSource _ _ _ strategy \<Rightarrow> strategy = Manual | _ \<Rightarrow> False)"

definition resolved_manually :: "integration_attempt \<Rightarrow> bool" where
  "resolved_manually attempt \<longleftrightarrow> map_option rd_action (ia_resolution attempt) = Some Manual_Resolution"

definition validateCommitted :: "integration_attempt \<Rightarrow> unit result" where
  "validateCommitted attempt = all_ok
     [skip (requireCommit (text_or_empty (ia_afterCommit attempt)) ''Committed Integration after commit''),
      skip (requireText (text_or_empty (ia_summary attempt)) ''Committed Integration summary''),
      refuse (ia_candidateCommit attempt \<noteq> ia_afterCommit attempt)
        ''Committed Integration candidate and afterCommit must match.'',
      refuse (manual_source (ia_source attempt) \<and> \<not> resolved_manually attempt)
        ''Committed manual Integration requires a Task-control resolution decision.'']"

definition validateResolution :: "resolution_decision \<Rightarrow> unit result" where
  "validateResolution resolution = all_ok
     [skip (requireText (rd_rationale resolution) ''Resolution rationale''),
      skip (requireTimestamp (rd_decidedAt resolution) ''Resolution decidedAt'')]"

definition validateIntegrationAttempt :: "integration_attempt \<Rightarrow> integration_attempt result" where
  "validateIntegrationAttempt attempt = checked attempt
     [skip (validateTaskRecordReference (ia_taskId attempt) (ia_id attempt) IntegrationAttemptKind),
      skip (requireIdentity (ia_projectId attempt) ''Project id''),
      skip (requireText (ia_targetRef attempt) ''Integration target ref''),
      skip (requireCommit (ia_beforeCommit attempt) ''Integration before commit''),
      validateIntegrationSource (ia_taskId attempt) (ia_source attempt),
      skip (normalizedUniqueText (ia_checkCommands attempt) ''Integration check command''),
      whenSome (ia_candidateCommit attempt) (\<lambda>c. skip (requireCommit c ''Integration candidate commit'')),
      whenSome (ia_afterCommit attempt) (\<lambda>c. skip (requireCommit c ''Integration after commit'')),
      whenSome (ia_summary attempt) (\<lambda>s. skip (requireText s ''Integration summary'')),
      (if ia_status attempt = Int_Committed then validateCommitted attempt else Inr ()),
      whenSome (ia_jobId attempt) (\<lambda>j. skip (validateTaskRecordReference (ia_taskId attempt) j DurableJobKind)),
      whenSome (ia_conflict attempt) (\<lambda>r. skip (normalizeConflictReport r)),
      refuse (ia_status attempt = Int_Blocked \<and> ia_conflict attempt = None)
        ''A blocked Integration needs a ConflictReport.'',
      whenSome (ia_resolution attempt) validateResolution,
      whenSome (ia_checks attempt) (\<lambda>cs. skip (traverse normalizeCheckResult cs)),
      skip (requireTimestamp (ia_createdAt attempt) ''Integration Attempt createdAt''),
      skip (requireTimestamp (ia_updatedAt attempt) ''Integration Attempt updatedAt''),
      (if integration_terminal (ia_status attempt)
       then skip (requireTimestamp (text_or_empty (ia_endedAt attempt)) ''Integration Attempt endedAt'') else Inr ())]"

subsection \<open>Operations on an attempt\<close>

record integration_input =
  ii_id :: string
  ii_taskId :: string
  ii_projectId :: string
  ii_targetRef :: string
  ii_source :: integration_source
  ii_beforeCommit :: string
  ii_checkCommands :: "string list option"

definition createIntegrationAttempt :: "integration_input \<Rightarrow> date \<Rightarrow> integration_attempt result" where
  "createIntegrationAttempt input now =
     andThen (toISOString now) (\<lambda>timestamp.
     andThen (normalizedUniqueText (case ii_checkCommands input of None \<Rightarrow> [] | Some cs \<Rightarrow> cs)
                ''Integration check command'') (\<lambda>checkCommands.
       validateIntegrationAttempt
         \<lparr>ia_id = ii_id input, ia_taskId = ii_taskId input, ia_projectId = ii_projectId input,
          ia_targetRef = ii_targetRef input, ia_source = ii_source input,
          ia_beforeCommit = ii_beforeCommit input, ia_afterCommit = None, ia_summary = None,
          ia_checkCommands = checkCommands, ia_candidateCommit = None, ia_gatePlanDigest = None,
          ia_gateToolchainDigest = None, ia_jobId = None, ia_status = Int_Running, ia_conflict = None,
          ia_resolution = None, ia_checks = None, ia_createdAt = timestamp, ia_updatedAt = timestamp,
          ia_endedAt = None\<rparr>))"

definition recordIntegrationCheckJob :: "integration_attempt \<Rightarrow> string \<Rightarrow> date \<Rightarrow> integration_attempt result" where
  "recordIntegrationCheckJob attempt jobId now =
     andThen (validateIntegrationAttempt attempt) (\<lambda>_.
       if ia_status attempt \<noteq> Int_Running then throw ''Integration check job can only bind a running attempt''
       else if ia_jobId attempt \<noteq> None then throw ''Integration check job is already recorded''
       else andThen (validateTaskRecordReference (ia_taskId attempt) jobId DurableJobKind) (\<lambda>_.
         andThen (toISOString now) (\<lambda>timestamp.
           validateIntegrationAttempt (attempt\<lparr>ia_jobId := Some jobId, ia_updatedAt := timestamp\<rparr>))))"

definition requireResolutionDecision ::
    "integration_attempt \<Rightarrow> conflict_report \<Rightarrow> date \<Rightarrow> integration_attempt result" where
  "requireResolutionDecision attempt report now =
     andThen (validateIntegrationAttempt attempt) (\<lambda>_.
       if ia_status attempt \<noteq> Int_Running
          \<and> \<not> (ia_status attempt = Int_Blocked \<and> resolved_manually attempt)
       then throw ''Integration cannot request a decision''
       else andThen (normalizeConflictReport report) (\<lambda>conflict.
         andThen (toISOString now) (\<lambda>timestamp.
           validateIntegrationAttempt (attempt\<lparr>ia_status := Int_Blocked, ia_conflict := Some conflict,
             ia_resolution := None, ia_endedAt := None, ia_updatedAt := timestamp\<rparr>))))"

definition recordResolutionDecision ::
    "integration_attempt \<Rightarrow> resolution_action \<Rightarrow> string \<Rightarrow> task_actor \<Rightarrow> date \<Rightarrow> integration_attempt result" where
  "recordResolutionDecision attempt action rationale decidedBy now =
     andThen (validateIntegrationAttempt attempt) (\<lambda>_.
       if ia_status attempt \<noteq> Int_Blocked \<or> ia_conflict attempt = None
       then throw ''Integration has no pending semantic decision.''
       else andThen (toISOString now) (\<lambda>timestamp.
         andThen (requireText rationale ''Resolution rationale'') (\<lambda>reason.
           validateIntegrationAttempt (attempt\<lparr>
             ia_status := (if action = Reject then Int_Failed else Int_Blocked),
             ia_resolution := Some \<lparr>rd_action = action, rd_rationale = reason,
               rd_decidedBy = decidedBy, rd_decidedAt = timestamp\<rparr>,
             ia_updatedAt := timestamp,
             ia_endedAt := (if action = Reject then Some timestamp else ia_endedAt attempt)\<rparr>))))"

datatype 'a field_patch = Absent | Present "'a option"

definition patched :: "'a field_patch \<Rightarrow> 'a option \<Rightarrow> 'a option" where
  "patched p old = (case p of Absent \<Rightarrow> old | Present v \<Rightarrow> v)"

record attempt_patch =
  ap_candidateCommit :: "string field_patch"
  ap_status :: "integration_status option"
  ap_conflict :: "conflict_report field_patch"
  ap_checks :: "check_result list field_patch"
  ap_gatePlanDigest :: "string field_patch"
  ap_gateToolchainDigest :: "string field_patch"
  ap_afterCommit :: "string field_patch"
  ap_summary :: "string field_patch"

definition updateIntegrationAttempt :: "integration_attempt \<Rightarrow> attempt_patch \<Rightarrow> date \<Rightarrow> integration_attempt result" where
  "updateIntegrationAttempt attempt patch now =
     andThen (validateIntegrationAttempt attempt) (\<lambda>_.
       let status = (case ap_status patch of None \<Rightarrow> ia_status attempt | Some s \<Rightarrow> s);
           terminal = integration_terminal status
       in andThen (toISOString now) (\<lambda>timestamp.
         let updated = attempt\<lparr>
               ia_candidateCommit := patched (ap_candidateCommit patch) (ia_candidateCommit attempt),
               ia_conflict := patched (ap_conflict patch) (ia_conflict attempt),
               ia_checks := patched (ap_checks patch) (ia_checks attempt),
               ia_gatePlanDigest := patched (ap_gatePlanDigest patch) (ia_gatePlanDigest attempt),
               ia_gateToolchainDigest := patched (ap_gateToolchainDigest patch) (ia_gateToolchainDigest attempt),
               ia_afterCommit := patched (ap_afterCommit patch) (ia_afterCommit attempt),
               ia_summary := patched (ap_summary patch) (ia_summary attempt),
               ia_status := status,
               ia_updatedAt := timestamp,
               ia_endedAt := (if terminal then Some timestamp else ia_endedAt attempt)\<rparr>
         in if \<not> terminal \<and> ia_endedAt updated \<noteq> None
            then validateIntegrationAttempt (updated\<lparr>ia_endedAt := None\<rparr>)
            else validateIntegrationAttempt updated))"

definition supersedeIntegration :: "integration_attempt \<Rightarrow> string \<Rightarrow> date \<Rightarrow> integration_attempt result" where
  "supersedeIntegration attempt reason now =
     andThen (validateIntegrationAttempt attempt) (\<lambda>_.
       if ia_status attempt \<noteq> Int_Committed then throw ''Integration cannot be superseded''
       else andThen (toISOString now) (\<lambda>timestamp.
         andThen (requireText reason ''Supersede reason'') (\<lambda>details.
           validateIntegrationAttempt (attempt\<lparr>
             ia_status := Int_Superseded,
             ia_checks := Some ((case ia_checks attempt of None \<Rightarrow> [] | Some cs \<Rightarrow> cs)
               @ [\<lparr>cr_name = ''superseded'', cr_outcome = Failed, cr_details = Some details, cr_logPath = None\<rparr>]),
             ia_updatedAt := timestamp, ia_endedAt := Some timestamp\<rparr>))))"

datatype attempt_op =
    RecordCheckJob string
  | RequestDecision conflict_report
  | RecordDecision resolution_action string task_actor
  | UpdateAttempt attempt_patch
  | SupersedeAttempt string

fun attempt_step :: "integration_attempt \<Rightarrow> attempt_op \<times> date \<Rightarrow> integration_attempt result" where
  "attempt_step a (RecordCheckJob jobId, now) = recordIntegrationCheckJob a jobId now"
| "attempt_step a (RequestDecision report, now) = requireResolutionDecision a report now"
| "attempt_step a (RecordDecision action rationale actor, now) = recordResolutionDecision a action rationale actor now"
| "attempt_step a (UpdateAttempt patch, now) = updateIntegrationAttempt a patch now"
| "attempt_step a (SupersedeAttempt reason, now) = supersedeIntegration a reason now"

subsection \<open>What the operations keep\<close>

interpretation integration: record_validator validateIntegrationAttempt
  by unfold_locales (simp add: validateIntegrationAttempt_def)

definition attempt_valid :: "integration_attempt \<Rightarrow> bool" where
  "attempt_valid a \<longleftrightarrow> isOk (validateIntegrationAttempt a)"

lemma validateIntegrationAttempt_eq [simp]:
  "validateIntegrationAttempt a = Inr b \<longleftrightarrow> attempt_valid a \<and> b = a"
  using integration.returns_self [of a b] integration.ok_eq [of a] by (auto simp: attempt_valid_def)

definition attempt_inv :: "integration_attempt \<Rightarrow> bool" where
  \<comment> \<open>valid, and \<open>endedAt\<close> is set exactly on a terminal attempt\<close>
  "attempt_inv a \<longleftrightarrow> attempt_valid a \<and> (ia_endedAt a \<noteq> None \<longleftrightarrow> integration_terminal (ia_status a))"

definition attempt_le :: "integration_attempt \<Rightarrow> integration_attempt \<Rightarrow> bool" where
  "attempt_le a b \<longleftrightarrow>
     ia_id b = ia_id a \<and> ia_taskId b = ia_taskId a \<and> ia_projectId b = ia_projectId a
     \<and> ia_targetRef b = ia_targetRef a \<and> ia_source b = ia_source a \<and> ia_beforeCommit b = ia_beforeCommit a
     \<and> ia_checkCommands b = ia_checkCommands a \<and> ia_createdAt b = ia_createdAt a
     \<and> (ia_jobId a \<noteq> None \<longrightarrow> ia_jobId b = ia_jobId a)"

lemmas attempt_ops = recordIntegrationCheckJob_def requireResolutionDecision_def
  recordResolutionDecision_def updateIntegrationAttempt_def supersedeIntegration_def

lemma attempt_step_le: "attempt_step a e = Inr b \<Longrightarrow> attempt_le a b"
  by (induction a e rule: attempt_step.induct)
    (auto simp: attempt_ops attempt_le_def Let_def split: if_split_asm)

lemma attempt_step_inv: "attempt_inv a \<Longrightarrow> attempt_step a e = Inr b \<Longrightarrow> attempt_inv b"
  by (induction a e rule: attempt_step.induct)
    (auto simp: attempt_ops attempt_inv_def integration_terminal_def Let_def split: if_split_asm)

interpretation integration_attempt: step_order attempt_step attempt_inv attempt_le
proof
  show "attempt_le a a" for a by (simp add: attempt_le_def)
  show "attempt_le a b \<Longrightarrow> attempt_le b c \<Longrightarrow> attempt_le a c" for a b c by (auto simp: attempt_le_def)
qed (blast intro: attempt_step_inv attempt_step_le)+

lemma created_attempt:
  assumes "createIntegrationAttempt input now = Inr a"
  shows "attempt_inv a" and "ia_resolution a = None" and "ia_jobId a = None" and "ia_status a = Int_Running"
    and "ia_source a = ii_source input"
  using assms by (auto simp: createIntegrationAttempt_def attempt_inv_def integration_terminal_def)

lemma committed_fields:
  assumes "attempt_valid a" and "ia_status a = Int_Committed"
  shows "\<exists>c s. ia_afterCommit a = Some c \<and> ia_candidateCommit a = Some c \<and> ia_summary a = Some s
    \<and> is_commit (js_lower (js_trim c)) \<and> text_ok s" and "manual_source (ia_source a) \<Longrightarrow> resolved_manually a"
  using assms
  by (auto simp: attempt_valid_def validateIntegrationAttempt_def validateCommitted_def requireCommit_ok)

lemma valid_blocked:
  "attempt_valid a \<Longrightarrow> ia_status a = Int_Blocked \<Longrightarrow> ia_conflict a \<noteq> None"
  by (auto simp: attempt_valid_def validateIntegrationAttempt_def)

text \<open>Where a decision on the record comes from.\<close>

definition decision_of :: "resolution_decision \<Rightarrow> attempt_op \<times> date \<Rightarrow> bool" where
  "decision_of d e \<longleftrightarrow> (\<exists>rationale now. e = (RecordDecision (rd_action d) rationale (rd_decidedBy d), now)
     \<and> rd_rationale d = js_trim rationale \<and> rd_decidedAt d = iso_string now)"

lemma step_resolution:
  "attempt_step a e = Inr b \<Longrightarrow> ia_resolution b = Some d \<Longrightarrow> ia_resolution a = Some d \<or> decision_of d e"
  by (induction a e rule: attempt_step.induct)
    (auto simp: attempt_ops Let_def decision_of_def split: if_split_asm)

lemma run_resolution:
  "run_steps attempt_step a es = Inr b \<Longrightarrow> ia_resolution b = Some d \<Longrightarrow>
     ia_resolution a = Some d \<or> (\<exists>e \<in> set es. decision_of d e)"
proof (induction es arbitrary: a)
  case (Cons e es)
  then obtain c where "attempt_step a e = Inr c" "run_steps attempt_step c es = Inr b" by auto
  with Cons show ?case by (auto dest: step_resolution)
qed simp

text \<open>The way of a conflict: a decision is requested, taken, and the result is committed.\<close>

interpretation conflict_norm: normalizer normalizeConflictReport
  by unfold_locales (auto simp: normalizeConflictReport_def dest: unique_text.norm_idem text_ok_trim)

lemma valid_request:
  "attempt_valid a \<Longrightarrow> valid_date t \<Longrightarrow> normalizeConflictReport r = Inr c \<Longrightarrow>
     attempt_valid (a\<lparr>ia_status := Int_Blocked, ia_conflict := Some c, ia_resolution := None,
       ia_endedAt := None, ia_updatedAt := iso_string t\<rparr>)"
  using conflict_norm.norm_idem [of r c]
  by (auto simp: attempt_valid_def validateIntegrationAttempt_def integration_terminal_def is_date_iso)

lemma valid_decision:
  "attempt_valid a \<Longrightarrow> ia_status a = Int_Blocked \<Longrightarrow> valid_date t \<Longrightarrow> text_ok r \<Longrightarrow>
     attempt_valid (a\<lparr>ia_status := Int_Blocked, ia_resolution := Some \<lparr>rd_action = Manual_Resolution,
       rd_rationale = js_trim r, rd_decidedBy = actor, rd_decidedAt = iso_string t\<rparr>, ia_updatedAt := iso_string t\<rparr>)"
  by (auto simp: attempt_valid_def validateIntegrationAttempt_def integration_terminal_def is_date_iso
      validateResolution_def text_ok_trim)

lemma valid_commit:
  "attempt_valid a \<Longrightarrow> resolved_manually a \<Longrightarrow> valid_date t \<Longrightarrow> commit_text_ok c \<Longrightarrow> text_ok s \<Longrightarrow>
     attempt_valid (a\<lparr>ia_candidateCommit := Some c, ia_afterCommit := Some c, ia_summary := Some s,
       ia_status := Int_Committed, ia_updatedAt := iso_string t, ia_endedAt := Some (iso_string t)\<rparr>)"
  by (auto simp: attempt_valid_def validateIntegrationAttempt_def integration_terminal_def is_date_iso
      validateCommitted_def requireCommit_ok commit_text_ok_def resolved_manually_def)

definition no_patch :: attempt_patch where
  "no_patch = \<lparr>ap_candidateCommit = Absent, ap_status = None, ap_conflict = Absent, ap_checks = Absent,
     ap_gatePlanDigest = Absent, ap_gateToolchainDigest = Absent, ap_afterCommit = Absent, ap_summary = Absent\<rparr>"

definition commit_patch :: "string \<Rightarrow> string \<Rightarrow> attempt_patch" where
  "commit_patch c s = no_patch\<lparr>ap_candidateCommit := Present (Some c), ap_status := Some Int_Committed,
     ap_afterCommit := Present (Some c), ap_summary := Present (Some s)\<rparr>"

definition conflict_run :: "conflict_report \<Rightarrow> string \<Rightarrow> task_actor \<Rightarrow> string \<Rightarrow> string \<Rightarrow> (attempt_op \<times> date) list" where
  "conflict_run report rationale actor c s =
     [(RequestDecision report, 1), (RecordDecision Manual_Resolution rationale actor, 2),
      (UpdateAttempt (commit_patch c s), 3)]"

lemma conflict_run_commits:
  assumes "attempt_valid a" and "ia_status a = Int_Running" and "normalizeConflictReport report = Inr r"
    and "text_ok rationale" and "commit_text_ok c" and "text_ok s"
  shows "\<exists>b. run_steps attempt_step a (conflict_run report rationale actor c s) = Inr b
    \<and> ia_status b = Int_Committed"
proof -
  have t: "valid_date 1" "valid_date 2" "valid_date 3" by (simp_all add: valid_date_def)
  note a1 = valid_request [OF assms(1) t(1) assms(3)]
  note a2 = valid_decision [OF a1 _ t(2) assms(4), of actor, simplified]
  note a3 = valid_commit [OF a2 _ t(3) assms(5,6), simplified]
  show ?thesis
    using assms(1-4) t a1 a2 a3
    by (simp add: conflict_run_def attempt_ops commit_patch_def no_patch_def patched_def
        integration_terminal_def resolved_manually_def Let_def)
qed

subsection \<open>integration/integrationQueueEntry.ts\<close>

datatype queue_status = Q_Queued | Q_Running | Q_Conflicted | Q_Committed | Q_Superseded

record queue_entry =
  qe_id :: string
  qe_taskId :: string
  qe_projectId :: string
  qe_changeSetId :: string
  qe_targetRef :: string
  qe_status :: queue_status
  qe_checkCommands :: "string list"
  qe_targetBefore :: "string option"
  qe_targetAfter :: "string option"
  qe_integrationAttemptId :: "string option"
  qe_conflictSummary :: "string option"
  qe_affectedPaths :: "string list option"
  qe_evidenceRefs :: "string list"
  qe_supersedeReason :: "string option"
  qe_createdAt :: string
  qe_updatedAt :: string
  qe_endedAt :: "string option"

definition queue_ended :: "queue_status \<Rightarrow> bool" where
  "queue_ended s \<longleftrightarrow> s = Q_Committed \<or> s = Q_Superseded"

definition validateIntegrationQueueEntry :: "queue_entry \<Rightarrow> queue_entry result" where
  "validateIntegrationQueueEntry entry = checked entry
     [skip (validateTaskRecordReference (qe_taskId entry) (qe_id entry) IntegrationQueueKind),
      skip (validateTaskRecordReference (qe_taskId entry) (qe_changeSetId entry) ChangeSetKind),
      skip (requireIdentity (qe_projectId entry) ''Project id''),
      skip (requireText (qe_targetRef entry) ''Integration queue target ref''),
      skip (normalizedUniqueText (qe_checkCommands entry) ''Integration queue check command''),
      skip (normalizedUniqueText (qe_evidenceRefs entry) ''Integration queue evidence''),
      whenSome (qe_targetBefore entry) (\<lambda>c. skip (requireCommit c ''Integration queue targetBefore'')),
      whenSome (qe_targetAfter entry) (\<lambda>c. skip (requireCommit c ''Integration queue targetAfter'')),
      whenSome (qe_integrationAttemptId entry) (\<lambda>i. skip (normalizedUniqueIdentities [i] ''Integration attempt id'')),
      whenSome (qe_conflictSummary entry) (\<lambda>t. skip (requireText t ''Integration queue conflict summary'')),
      whenSome (qe_affectedPaths entry) (\<lambda>ps. skip (normalizedUniqueText ps ''Integration queue affected path'')),
      whenSome (qe_supersedeReason entry) (\<lambda>t. skip (requireText t ''Integration queue supersede reason'')),
      skip (requireTimestamp (qe_createdAt entry) ''Integration queue entry createdAt''),
      skip (requireTimestamp (qe_updatedAt entry) ''Integration queue entry updatedAt''),
      (if queue_ended (qe_status entry)
       then skip (requireTimestamp (text_or_empty (qe_endedAt entry)) ''Integration queue entry endedAt'') else Inr ()),
      (if qe_status entry = Q_Committed
       then skip (requireCommit (text_or_empty (qe_targetAfter entry)) ''Integration queue targetAfter'') else Inr ()),
      (if qe_status entry = Q_Running
       then skip (requireCommit (text_or_empty (qe_targetBefore entry)) ''Integration queue targetBefore'') else Inr ())]"

record queue_input =
  qi_id :: string
  qi_taskId :: string
  qi_projectId :: string
  qi_changeSetId :: string
  qi_targetRef :: string
  qi_checkCommands :: "string list option"
  qi_evidenceRefs :: "string list option"

definition createIntegrationQueueEntry :: "queue_input \<Rightarrow> date \<Rightarrow> queue_entry result" where
  "createIntegrationQueueEntry input now =
     andThen (toISOString now) (\<lambda>timestamp.
     andThen (normalizedUniqueText (case qi_checkCommands input of None \<Rightarrow> [] | Some cs \<Rightarrow> cs)
                ''Integration queue check command'') (\<lambda>checkCommands.
     andThen (normalizedUniqueText (case qi_evidenceRefs input of None \<Rightarrow> [] | Some rs \<Rightarrow> rs)
                ''Integration queue evidence'') (\<lambda>evidenceRefs.
       validateIntegrationQueueEntry
         \<lparr>qe_id = qi_id input, qe_taskId = qi_taskId input, qe_projectId = qi_projectId input,
          qe_changeSetId = qi_changeSetId input, qe_targetRef = qi_targetRef input, qe_status = Q_Queued,
          qe_checkCommands = checkCommands, qe_targetBefore = None, qe_targetAfter = None,
          qe_integrationAttemptId = None, qe_conflictSummary = None, qe_affectedPaths = None,
          qe_evidenceRefs = evidenceRefs, qe_supersedeReason = None,
          qe_createdAt = timestamp, qe_updatedAt = timestamp, qe_endedAt = None\<rparr>)))"

definition createConvergedIntegrationQueueEntry ::
    "queue_input \<Rightarrow> string \<Rightarrow> string \<Rightarrow> string option \<Rightarrow> date \<Rightarrow> queue_entry result" where
  "createConvergedIntegrationQueueEntry input targetHead proof_ref attemptId now =
     andThen (toISOString now) (\<lambda>timestamp.
       validateIntegrationQueueEntry
         \<lparr>qe_id = qi_id input, qe_taskId = qi_taskId input, qe_projectId = qi_projectId input,
          qe_changeSetId = qi_changeSetId input, qe_targetRef = qi_targetRef input, qe_status = Q_Committed,
          qe_checkCommands = [], qe_targetBefore = Some targetHead, qe_targetAfter = Some targetHead,
          qe_integrationAttemptId = attemptId, qe_conflictSummary = None, qe_affectedPaths = None,
          qe_evidenceRefs = [proof_ref], qe_supersedeReason = None,
          qe_createdAt = timestamp, qe_updatedAt = timestamp, qe_endedAt = Some timestamp\<rparr>)"

definition markIntegrationQueueRunning :: "queue_entry \<Rightarrow> string \<Rightarrow> date \<Rightarrow> queue_entry result" where
  "markIntegrationQueueRunning entry targetBefore now =
     andThen (validateIntegrationQueueEntry entry) (\<lambda>_.
       if qe_status entry \<notin> {Q_Queued, Q_Conflicted} then throw ''Integration queue entry cannot run''
       else andThen (toISOString now) (\<lambda>timestamp.
         validateIntegrationQueueEntry (entry\<lparr>qe_conflictSummary := None, qe_status := Q_Running,
           qe_targetBefore := Some targetBefore, qe_updatedAt := timestamp\<rparr>)))"

definition recordIntegrationQueueAttempt :: "queue_entry \<Rightarrow> string \<Rightarrow> date \<Rightarrow> queue_entry result" where
  "recordIntegrationQueueAttempt entry attemptId now =
     andThen (validateIntegrationQueueEntry entry) (\<lambda>_.
       if qe_status entry \<noteq> Q_Running then throw ''Integration queue entry is not running''
       else andThen (toISOString now) (\<lambda>timestamp.
         validateIntegrationQueueEntry (entry\<lparr>qe_integrationAttemptId := Some attemptId,
           qe_updatedAt := timestamp\<rparr>)))"

definition markIntegrationQueueBlocked :: "queue_entry \<Rightarrow> string \<Rightarrow> date \<Rightarrow> queue_entry result" where
  "markIntegrationQueueBlocked entry conflictSummary now =
     andThen (validateIntegrationQueueEntry entry) (\<lambda>_.
       if qe_status entry \<noteq> Q_Running then throw ''Integration queue entry is not running''
       else andThen (requireText conflictSummary ''Integration queue conflict summary'') (\<lambda>summary.
         andThen (toISOString now) (\<lambda>timestamp.
           validateIntegrationQueueEntry (entry\<lparr>qe_status := Q_Conflicted,
             qe_conflictSummary := Some summary, qe_updatedAt := timestamp\<rparr>))))"

definition markIntegrationQueueCommitted :: "queue_entry \<Rightarrow> string \<Rightarrow> date \<Rightarrow> queue_entry result" where
  "markIntegrationQueueCommitted entry targetAfter now =
     andThen (validateIntegrationQueueEntry entry) (\<lambda>_.
       if qe_status entry \<noteq> Q_Running \<and> qe_status entry \<noteq> Q_Conflicted
       then throw ''Integration queue entry cannot commit''
       else andThen (toISOString now) (\<lambda>timestamp.
         validateIntegrationQueueEntry (entry\<lparr>qe_status := Q_Committed, qe_targetAfter := Some targetAfter,
           qe_updatedAt := timestamp, qe_endedAt := Some timestamp\<rparr>)))"

definition markIntegrationQueueRequeued :: "queue_entry \<Rightarrow> date \<Rightarrow> queue_entry result" where
  "markIntegrationQueueRequeued entry now =
     andThen (validateIntegrationQueueEntry entry) (\<lambda>_.
       if qe_status entry \<noteq> Q_Conflicted then throw ''Integration queue entry cannot requeue''
       else andThen (toISOString now) (\<lambda>timestamp.
         validateIntegrationQueueEntry (entry\<lparr>qe_status := Q_Queued, qe_updatedAt := timestamp\<rparr>)))"

definition merged_paths :: "queue_entry \<Rightarrow> string list \<Rightarrow> string list" where
  \<comment> \<open>\<open>[...new Set([...previous, ...affectedPaths])].sort()\<close>, in the order of the code units\<close>
  "merged_paths entry affectedPaths =
     (let previous = appendUnique [] (case qe_affectedPaths entry of None \<Rightarrow> [] | Some ps \<Rightarrow> ps) (\<lambda>p. p)
      in sort (appendUnique previous affectedPaths (\<lambda>p. p)))"

definition recordIntegrationQueueAffectedPaths :: "queue_entry \<Rightarrow> string list \<Rightarrow> date \<Rightarrow> queue_entry result" where
  "recordIntegrationQueueAffectedPaths entry affectedPaths now =
     andThen (validateIntegrationQueueEntry entry) (\<lambda>_.
       if qe_status entry \<noteq> Q_Queued then throw ''Integration queue entry cannot recompute overlap''
       else andThen (toISOString now) (\<lambda>timestamp.
         validateIntegrationQueueEntry (entry\<lparr>qe_affectedPaths := Some (merged_paths entry affectedPaths),
           qe_updatedAt := timestamp\<rparr>)))"

definition markIntegrationQueueSuperseded :: "queue_entry \<Rightarrow> string \<Rightarrow> date \<Rightarrow> queue_entry result" where
  "markIntegrationQueueSuperseded entry reason now =
     andThen (validateIntegrationQueueEntry entry) (\<lambda>_.
       if qe_status entry \<notin> {Q_Queued, Q_Conflicted} then throw ''Integration queue entry cannot be superseded''
       else andThen (toISOString now) (\<lambda>timestamp.
         andThen (requireText reason ''Integration queue supersede reason'') (\<lambda>why.
           validateIntegrationQueueEntry (entry\<lparr>qe_status := Q_Superseded, qe_supersedeReason := Some why,
             qe_updatedAt := timestamp, qe_endedAt := Some timestamp\<rparr>))))"

datatype queue_op =
    QueueRun string
  | QueueAttempt string
  | QueueBlock string
  | QueueCommit string
  | QueueRequeue
  | QueueAffected "string list"
  | QueueSupersede string

fun queue_step :: "queue_entry \<Rightarrow> queue_op \<times> date \<Rightarrow> queue_entry result" where
  "queue_step q (QueueRun targetBefore, now) = markIntegrationQueueRunning q targetBefore now"
| "queue_step q (QueueAttempt attemptId, now) = recordIntegrationQueueAttempt q attemptId now"
| "queue_step q (QueueBlock summary, now) = markIntegrationQueueBlocked q summary now"
| "queue_step q (QueueCommit targetAfter, now) = markIntegrationQueueCommitted q targetAfter now"
| "queue_step q (QueueRequeue, now) = markIntegrationQueueRequeued q now"
| "queue_step q (QueueAffected paths, now) = recordIntegrationQueueAffectedPaths q paths now"
| "queue_step q (QueueSupersede reason, now) = markIntegrationQueueSuperseded q reason now"

subsection \<open>The lifecycle of a queue entry\<close>

text \<open>
  The specification of the queue: from which status an operation is possible and where it leads, and
  what it asks of its argument.
\<close>

fun lifecycle :: "queue_status \<Rightarrow> queue_op \<Rightarrow> queue_status option" where
  "lifecycle Q_Queued (QueueRun _) = Some Q_Running"
| "lifecycle Q_Queued (QueueAffected _) = Some Q_Queued"
| "lifecycle Q_Queued (QueueSupersede _) = Some Q_Superseded"
| "lifecycle Q_Running (QueueAttempt _) = Some Q_Running"
| "lifecycle Q_Running (QueueBlock _) = Some Q_Conflicted"
| "lifecycle Q_Running (QueueCommit _) = Some Q_Committed"
| "lifecycle Q_Conflicted (QueueRun _) = Some Q_Running"
| "lifecycle Q_Conflicted (QueueCommit _) = Some Q_Committed"
| "lifecycle Q_Conflicted QueueRequeue = Some Q_Queued"
| "lifecycle Q_Conflicted (QueueSupersede _) = Some Q_Superseded"
| "lifecycle _ _ = None"

fun queue_args_ok :: "queue_entry \<Rightarrow> queue_op \<Rightarrow> bool" where
  "queue_args_ok q (QueueRun targetBefore) = commit_text_ok targetBefore"
| "queue_args_ok q (QueueAttempt attemptId) = identity_ok attemptId"
| "queue_args_ok q (QueueBlock summary) = text_ok summary"
| "queue_args_ok q (QueueCommit targetAfter) = commit_text_ok targetAfter"
| "queue_args_ok q QueueRequeue = True"
| "queue_args_ok q (QueueAffected paths) =
     (let merged = merged_paths q paths in list_all text_ok merged \<and> distinct (map js_trim merged))"
| "queue_args_ok q (QueueSupersede reason) = text_ok reason"

definition queue_valid :: "queue_entry \<Rightarrow> bool" where
  "queue_valid q \<longleftrightarrow> isOk (validateIntegrationQueueEntry q)"

interpretation queue_entry: record_validator validateIntegrationQueueEntry
  by unfold_locales (simp add: validateIntegrationQueueEntry_def)

lemma validateIntegrationQueueEntry_eq [simp]:
  "validateIntegrationQueueEntry q = Inr r \<longleftrightarrow> queue_valid q \<and> r = q"
  using queue_entry.returns_self [of q r] queue_entry.ok_eq [of q] by (auto simp: queue_valid_def)

lemma valid_queue_fields:
  assumes "queue_valid q"
  shows "qe_status q = Q_Running \<Longrightarrow> \<exists>c. qe_targetBefore q = Some c \<and> commit_text_ok c"
    and "qe_status q = Q_Committed \<Longrightarrow> \<exists>c. qe_targetAfter q = Some c \<and> commit_text_ok c"
    and "queue_ended (qe_status q) \<Longrightarrow> \<exists>t. qe_endedAt q = Some t \<and> is_date t"
  using assms by (auto simp: queue_valid_def validateIntegrationQueueEntry_def commit_text_ok_def requireCommit_ok)

text \<open>Which updates keep an entry valid.\<close>

lemma queue_valid_run:
  "queue_valid q \<Longrightarrow> valid_date t \<Longrightarrow> queue_valid (q\<lparr>qe_conflictSummary := None, qe_status := Q_Running,
     qe_targetBefore := Some c, qe_updatedAt := iso_string t\<rparr>) \<longleftrightarrow> commit_text_ok c"
  by (auto simp: queue_valid_def validateIntegrationQueueEntry_def commit_text_ok_def requireCommit_ok
      queue_ended_def is_date_iso)

lemma queue_valid_attempt:
  "queue_valid q \<Longrightarrow> valid_date t \<Longrightarrow>
     queue_valid (q\<lparr>qe_integrationAttemptId := Some i, qe_updatedAt := iso_string t\<rparr>) \<longleftrightarrow> identity_ok i"
  by (auto simp: queue_valid_def validateIntegrationQueueEntry_def uniqueIdentity_ok is_date_iso)

lemma queue_valid_block:
  "queue_valid q \<Longrightarrow> valid_date t \<Longrightarrow> text_ok s \<Longrightarrow> queue_valid (q\<lparr>qe_status := Q_Conflicted,
     qe_conflictSummary := Some (js_trim s), qe_updatedAt := iso_string t\<rparr>)"
  by (auto simp: queue_valid_def validateIntegrationQueueEntry_def queue_ended_def is_date_iso text_ok_trim)

lemma queue_valid_commit:
  "queue_valid q \<Longrightarrow> valid_date t \<Longrightarrow> queue_valid (q\<lparr>qe_status := Q_Committed, qe_targetAfter := Some c,
     qe_updatedAt := iso_string t, qe_endedAt := Some (iso_string t)\<rparr>) \<longleftrightarrow> commit_text_ok c"
  by (auto simp: queue_valid_def validateIntegrationQueueEntry_def commit_text_ok_def requireCommit_ok
      queue_ended_def is_date_iso)

lemma queue_valid_requeue:
  "queue_valid q \<Longrightarrow> valid_date t \<Longrightarrow> queue_valid (q\<lparr>qe_status := Q_Queued, qe_updatedAt := iso_string t\<rparr>)"
  by (auto simp: queue_valid_def validateIntegrationQueueEntry_def queue_ended_def is_date_iso)

lemma queue_valid_affected:
  "queue_valid q \<Longrightarrow> valid_date t \<Longrightarrow> queue_valid (q\<lparr>qe_affectedPaths := Some ps, qe_updatedAt := iso_string t\<rparr>)
     \<longleftrightarrow> list_all text_ok ps \<and> distinct (map js_trim ps)"
  by (auto simp: queue_valid_def validateIntegrationQueueEntry_def uniqueText_ok is_date_iso)

lemma queue_valid_supersede:
  "queue_valid q \<Longrightarrow> valid_date t \<Longrightarrow> text_ok s \<Longrightarrow> queue_valid (q\<lparr>qe_status := Q_Superseded,
     qe_supersedeReason := Some (js_trim s), qe_updatedAt := iso_string t, qe_endedAt := Some (iso_string t)\<rparr>)"
  by (auto simp: queue_valid_def validateIntegrationQueueEntry_def queue_ended_def is_date_iso text_ok_trim)

lemmas queue_valid_updates = queue_valid_run queue_valid_attempt queue_valid_block queue_valid_commit
  queue_valid_requeue queue_valid_affected queue_valid_supersede

lemmas queue_ops = markIntegrationQueueRunning_def recordIntegrationQueueAttempt_def
  markIntegrationQueueBlocked_def markIntegrationQueueCommitted_def markIntegrationQueueRequeued_def
  recordIntegrationQueueAffectedPaths_def markIntegrationQueueSuperseded_def

lemma valid_queue_ok [simp]: "isOk (validateIntegrationQueueEntry q) \<longleftrightarrow> queue_valid q"
  by (simp add: queue_valid_def)

lemma queue_step_ok:
  assumes "queue_valid q"
  shows "isOk (queue_step q (op, now)) \<longleftrightarrow>
    lifecycle (qe_status q) op \<noteq> None \<and> queue_args_ok q op \<and> valid_date now"
  using assms
  by (cases op; cases "qe_status q") (auto simp: queue_ops queue_valid_updates Let_def)

lemma queue_step_status:
  "queue_step q (op, now) = Inr r \<Longrightarrow> queue_valid r \<and> lifecycle (qe_status q) op = Some (qe_status r)"
  by (cases op; cases "qe_status q") (auto simp: queue_ops)

subsection \<open>Properties\<close>

definition sha :: "char \<Rightarrow> string" where
  "sha c = replicate 40 c"

definition sample_integration_input :: integration_input where
  "sample_integration_input = \<lparr>ii_id = ''integration-1'', ii_taskId = ''t'', ii_projectId = ''p'',
     ii_targetRef = ''main'', ii_source = WorkItemSource ''work-item-1'' (sha CHR ''a'') (sha CHR ''b'') Manual,
     ii_beforeCommit = sha CHR ''a'', ii_checkCommands = None\<rparr>"

definition sample_attempt :: integration_attempt where
  "sample_attempt = \<lparr>ia_id = ''integration-1'', ia_taskId = ''t'', ia_projectId = ''p'', ia_targetRef = ''main'',
     ia_source = WorkItemSource ''work-item-1'' (sha CHR ''a'') (sha CHR ''b'') Manual,
     ia_beforeCommit = sha CHR ''a'', ia_afterCommit = None, ia_summary = None, ia_checkCommands = [],
     ia_candidateCommit = None, ia_gatePlanDigest = None, ia_gateToolchainDigest = None, ia_jobId = None,
     ia_status = Int_Running, ia_conflict = None, ia_resolution = None, ia_checks = None,
     ia_createdAt = iso_string 0, ia_updatedAt = iso_string 0, ia_endedAt = None\<rparr>"

lemma sample_attempt_valid: "attempt_valid sample_attempt"
  unfolding attempt_valid_def by code_simp

lemma sample_attempt_created: "createIntegrationAttempt sample_integration_input 0 = Inr sample_attempt"
  using sample_attempt_valid
  by (simp add: createIntegrationAttempt_def sample_integration_input_def normalizedUniqueText_def
      valid_date_def sample_attempt_def)

definition sample_integration_run :: "(attempt_op \<times> date) list" where
  "sample_integration_run = conflict_run \<lparr>cf_affectedPaths = [''a.ts''], cf_summary = ''both changed''\<rparr>
     ''merge by hand'' By_Operator (sha CHR ''c'') ''landed''"

lemma sample_integration_commits:
  "\<exists>b. run_steps attempt_step sample_attempt sample_integration_run = Inr b \<and> ia_status b = Int_Committed"
proof -
  have "isOk (normalizeConflictReport \<lparr>cf_affectedPaths = [''a.ts''], cf_summary = ''both changed''\<rparr>)"
    by code_simp
  then obtain r where r: "normalizeConflictReport \<lparr>cf_affectedPaths = [''a.ts''], cf_summary = ''both changed''\<rparr> = Inr r"
    by (auto simp: isOk_iff)
  have "text_ok ''merge by hand''" "commit_text_ok (sha CHR ''c'')" "text_ok ''landed''"
    by code_simp+
  moreover have "ia_status sample_attempt = Int_Running" by (simp add: sample_attempt_def)
  ultimately show ?thesis
    unfolding sample_integration_run_def using conflict_run_commits [OF sample_attempt_valid _ r] by blast
qed

text \<open>
  C33. Every integration attempt reached by its operations passes the validation of the persisted
  record, carries an end time exactly when its status is terminal, keeps its identity, source, target
  and base commit, and never changes the check job once one is bound.
\<close>

theorem integration_history:
  assumes "createIntegrationAttempt input now = Inr a" and "run_steps attempt_step a ops = Inr b"
    and "run_steps attempt_step b ops' = Inr c"
  shows "validateIntegrationAttempt b = Inr b
    \<and> (ia_endedAt b \<noteq> None \<longleftrightarrow> integration_terminal (ia_status b))
    \<and> (ia_status b = Int_Blocked \<longrightarrow> ia_conflict b \<noteq> None)
    \<and> ia_id b = ia_id a \<and> ia_source b = ii_source input \<and> ia_targetRef b = ia_targetRef a
    \<and> ia_beforeCommit b = ia_beforeCommit a
    \<and> (\<forall>job. ia_jobId b = Some job \<longrightarrow> ia_jobId c = Some job)"
proof -
  note a = created_attempt [OF assms(1)]
  have b: "attempt_inv b" and ab: "attempt_le a b"
    using integration_attempt.run_inv integration_attempt.run_le a(1) assms(2) by blast+
  moreover have "attempt_le b c" using integration_attempt.run_le b assms(3) by blast
  ultimately show ?thesis
    using a(5) valid_blocked [of b] by (auto simp: attempt_inv_def attempt_le_def)
qed

theorem integration_history_witness:
  "\<exists>b. run_steps attempt_step sample_attempt sample_integration_run = Inr b
     \<and> validateIntegrationAttempt b = Inr b \<and> ia_endedAt b \<noteq> None"
proof -
  obtain b where b: "run_steps attempt_step sample_attempt sample_integration_run = Inr b"
    and c: "ia_status b = Int_Committed"
    using sample_integration_commits by blast
  have "run_steps attempt_step b [] = Inr b" by simp
  from integration_history [OF sample_attempt_created b this] b c show ?thesis
    by (auto simp: integration_terminal_def)
qed

text \<open>
  C34. No manual integration is committed without a decision of the Task control: when a history that
  starts at the creation ends in a committed attempt, its candidate and its final commit are the same
  valid commit and it has a summary; and when its strategy is manual, the history contains the
  recording of a manual-resolution decision, and the record names the actor, the rationale and the
  time of that very call.
\<close>

theorem manual_commit_needs_decision:
  assumes "createIntegrationAttempt input now = Inr a" and "run_steps attempt_step a ops = Inr b"
    and "ia_status b = Int_Committed"
  shows "(\<exists>c s. ia_afterCommit b = Some c \<and> ia_candidateCommit b = Some c \<and> is_commit (js_lower (js_trim c))
      \<and> ia_summary b = Some s \<and> text_ok s)
    \<and> (manual_source (ii_source input) \<longrightarrow>
        (\<exists>d rationale time. ia_resolution b = Some d \<and> rd_action d = Manual_Resolution
          \<and> (RecordDecision Manual_Resolution rationale (rd_decidedBy d), time) \<in> set ops
          \<and> rd_rationale d = js_trim rationale \<and> rd_decidedAt d = iso_string time))"
proof -
  note a = created_attempt [OF assms(1)]
  have b: "attempt_inv b" and ab: "attempt_le a b"
    using integration_attempt.run_inv integration_attempt.run_le a(1) assms(2) by blast+
  then have valid: "attempt_valid b" and source: "ia_source b = ii_source input"
    using a(5) by (auto simp: attempt_inv_def attempt_le_def)
  have "\<exists>d rationale time. ia_resolution b = Some d \<and> rd_action d = Manual_Resolution
      \<and> (RecordDecision Manual_Resolution rationale (rd_decidedBy d), time) \<in> set ops
      \<and> rd_rationale d = js_trim rationale \<and> rd_decidedAt d = iso_string time"
    if "manual_source (ii_source input)"
  proof -
    have "resolved_manually b" using committed_fields(2) [OF valid assms(3)] that source by simp
    then obtain d where d: "ia_resolution b = Some d" "rd_action d = Manual_Resolution"
      by (auto simp: resolved_manually_def)
    with run_resolution [OF assms(2) d(1)] a(2) show ?thesis by (auto simp: decision_of_def)
  qed
  with committed_fields(1) [OF valid assms(3)] show ?thesis by blast
qed

theorem manual_commit_needs_decision_witness:
  "\<exists>b d. run_steps attempt_step sample_attempt sample_integration_run = Inr b \<and> ia_resolution b = Some d
     \<and> rd_action d = Manual_Resolution"
proof -
  obtain b where b: "run_steps attempt_step sample_attempt sample_integration_run = Inr b"
    and c: "ia_status b = Int_Committed"
    using sample_integration_commits by blast
  have "manual_source (ii_source sample_integration_input)"
    by (simp add: sample_integration_input_def manual_source_def)
  with manual_commit_needs_decision [OF sample_attempt_created b c] b show ?thesis by blast
qed

definition sample_queue_entry :: queue_entry where
  "sample_queue_entry = \<lparr>qe_id = ''integration-queue-1'', qe_taskId = ''t'', qe_projectId = ''p'',
     qe_changeSetId = ''change-set-1'', qe_targetRef = ''main'', qe_status = Q_Queued, qe_checkCommands = [],
     qe_targetBefore = None, qe_targetAfter = None, qe_integrationAttemptId = None, qe_conflictSummary = None,
     qe_affectedPaths = None, qe_evidenceRefs = [], qe_supersedeReason = None,
     qe_createdAt = ''1970-01-01T00:00:00.000Z'', qe_updatedAt = ''1970-01-01T00:00:00.000Z'', qe_endedAt = None\<rparr>"

lemma sample_queue_valid: "queue_valid sample_queue_entry"
  unfolding queue_valid_def by code_simp

lemma sample_queue_status: "qe_status sample_queue_entry = Q_Queued"
  by (simp add: sample_queue_entry_def)

text \<open>
  C35. The lifecycle of a queue entry is exactly the specified one: on a valid entry an operation
  returns if and only if the lifecycle has a step for it from the current status and its argument is
  well formed; the entry it returns is valid and has the status the lifecycle gives.  So a running
  entry names the commit it started from, a committed one the commit it landed as, and a committed or
  superseded entry refuses every operation.
\<close>

theorem queue_lifecycle_exact:
  assumes "validateIntegrationQueueEntry q = Inr q" and "valid_date now"
  shows "(isOk (queue_step q (op, now)) \<longleftrightarrow> lifecycle (qe_status q) op \<noteq> None \<and> queue_args_ok q op)
    \<and> (\<forall>r. queue_step q (op, now) = Inr r \<longrightarrow>
        validateIntegrationQueueEntry r = Inr r \<and> lifecycle (qe_status q) op = Some (qe_status r)
        \<and> (qe_status r = Q_Running \<longrightarrow> (\<exists>c. qe_targetBefore r = Some c \<and> commit_text_ok c))
        \<and> (qe_status r = Q_Committed \<longrightarrow> (\<exists>c. qe_targetAfter r = Some c \<and> commit_text_ok c)))
    \<and> (queue_ended (qe_status q) \<longrightarrow> \<not> isOk (queue_step q (op, now)))"
proof -
  have q: "queue_valid q" using assms(1) by simp
  have "lifecycle (qe_status q) op = None" if "queue_ended (qe_status q)"
    using that by (cases op) (auto simp: queue_ended_def)
  with queue_step_ok [OF q, of op now] queue_step_status [of q op now] valid_queue_fields(1,2) assms(2)
  show ?thesis by auto
qed

theorem queue_lifecycle_exact_witness:
  "isOk (queue_step sample_queue_entry (QueueRun (sha CHR ''a''), 5))
     \<and> \<not> isOk (queue_step sample_queue_entry (QueueRequeue, 5))"
proof -
  have q: "validateIntegrationQueueEntry sample_queue_entry = Inr sample_queue_entry"
    using sample_queue_valid by simp
  have d: "valid_date 5" by (simp add: valid_date_def)
  have c: "commit_text_ok (sha CHR ''a'')" by code_simp
  note exact = queue_lifecycle_exact [OF q d, THEN conjunct1]
  show ?thesis
    unfolding exact sample_queue_status lifecycle.simps queue_args_ok.simps using c by blast
qed

end
