(* ===== verification/Task_Activation.thy ===== *)
theory Task_Activation
  imports Operation_Facts
begin

section \<open>Activation requests and Task events\<close>

text \<open>
  \<open>src/task/taskActivation.ts\<close> and \<open>src/event/taskEvent.ts\<close>: the durable request to start the delivery of
  a Draft Task, its four dispositions, and the events that record what became of a request.  A request
  records intent and evidence; a cancelled or adopted one is final, a failed one may be adopted by a
  later attempt.  SHA-256 is a parameter; the payload of an event is the list of its entries.
\<close>

subsection \<open>event/taskEvent.ts\<close>

record task_event =
  te_id :: string
  te_taskId :: string
  te_type :: string
  te_payload :: "(string \<times> string) list"
  te_createdAt :: string

fun normalizePayload :: "(string \<times> string) list \<Rightarrow> (string \<times> string) list \<Rightarrow> (string \<times> string) list result" where
  "normalizePayload normalized [] = Inr normalized"
| "normalizePayload normalized ((key, v) # rest) =
     andThen (requireText key ''Task event payload key'') (\<lambda>k.
       if k \<in> {''__proto__'', ''prototype'', ''constructor''} then throw ''Task event payload key is invalid''
       else if k \<in> set (map fst normalized) then throw ''Task event payload key is duplicated''
       else if NUL \<in> set v then throw ''Task event payload value is invalid''
       else normalizePayload (normalized @ [(k, v)]) rest)"

definition createTaskEvent ::
    "string \<Rightarrow> string \<Rightarrow> string \<Rightarrow> (string \<times> string) list \<Rightarrow> date \<Rightarrow> task_event result" where
  "createTaskEvent i taskId type payload now =
     andThen (requireText i ''Task event id'') (\<lambda>event_id.
     andThen (requireText taskId ''Task event Task id'') (\<lambda>task.
     andThen (requireText type ''Task event type'') (\<lambda>kind.
     andThen (normalizePayload [] payload) (\<lambda>entries.
     andThen (toISOString now) (\<lambda>timestamp.
     andThen (validateTaskRecordReference task event_id EventKind) (\<lambda>_.
       Inr \<lparr>te_id = event_id, te_taskId = task, te_type = kind, te_payload = entries,
            te_createdAt = timestamp\<rparr>))))))"

definition appendTaskEvent :: "task_event list \<Rightarrow> task_event \<Rightarrow> task_event list result" where
  "appendTaskEvent history event =
     (if list_ex (\<lambda>existing. te_id existing = te_id event) history then throw ''Task event already exists''
      else Inr (history @ [event]))"

subsection \<open>Environment plans\<close>

datatype plan_access = Plan_Read | Plan_Write

datatype environment_plan = Plan_Empty | Plan_Scratch | Plan_Local string plan_access

fun access_text :: "plan_access \<Rightarrow> string" where
  "access_text Plan_Read = ''read''"
| "access_text Plan_Write = ''write''"

fun canonicalEnvironmentPlan :: "environment_plan \<Rightarrow> environment_plan result" where
  "canonicalEnvironmentPlan Plan_Empty = Inr Plan_Empty"
| "canonicalEnvironmentPlan Plan_Scratch = Inr Plan_Scratch"
| "canonicalEnvironmentPlan (Plan_Local resourceId access) =
     andThen (requireIdentity resourceId ''Environment plan resource'') (\<lambda>r. Inr (Plan_Local r access))"

fun describeEnvironmentPlan :: "environment_plan \<Rightarrow> string" where
  "describeEnvironmentPlan Plan_Empty = ''empty''"
| "describeEnvironmentPlan Plan_Scratch = ''scratch''"
| "describeEnvironmentPlan (Plan_Local resourceId access) =
     ''local '' @ resourceId @ '' ('' @ access_text access @ '')''"

fun plan_json :: "environment_plan \<Rightarrow> json" where
  "plan_json Plan_Empty = JObj [(''kind'', JStr ''empty'')]"
| "plan_json Plan_Scratch = JObj [(''kind'', JStr ''scratch'')]"
| "plan_json (Plan_Local resourceId access) =
     JObj [(''kind'', JStr ''local''), (''resourceId'', JStr resourceId), (''access'', JStr (access_text access))]"

subsection \<open>The request\<close>

datatype start_mode = Immediate | After_Planning_Turn

datatype activation_disposition = Act_Pending | Act_Adopted | Act_Cancelled | Act_Failed

record activation_request =
  ar_operation :: operation_facts
  ar_startMode :: start_mode
  ar_afterPlanningRun :: "string option"
  ar_environmentPlan :: environment_plan
  ar_disposition :: activation_disposition
  ar_preparationId :: "string option"
  ar_outcome :: "string option"
  ar_requestedAt :: string
  ar_updatedAt :: string

record activation_input =
  ai_requestId :: string
  ai_actorId :: string
  ai_authorityRef :: string
  ai_startMode :: start_mode
  ai_afterPlanningRun :: "string option"
  ai_environmentPlan :: environment_plan

definition TASK_ACTIVATION_IMPLEMENTATION :: implementation_ref where
  "TASK_ACTIVATION_IMPLEMENTATION = \<lparr>impl_id = ''yui:task-activation'', impl_generation = ''1''\<rparr>"

definition TASK_ACTIVATION_CAPABILITY :: string where
  "TASK_ACTIVATION_CAPABILITY = ''task.activate''"

fun start_mode_text :: "start_mode \<Rightarrow> string" where
  "start_mode_text Immediate = ''immediate''"
| "start_mode_text After_Planning_Turn = ''after-planning-turn''"

definition requireOutcome :: "string \<Rightarrow> string result" where
  "requireOutcome value =
     (if NUL \<in> set value then throw ''Activation outcome is invalid.''
      else let normalized = js_trim value in
        if normalized = [] then throw ''Activation outcome is required.'' else Inr (take 2000 normalized))"

definition requestIdOf :: "activation_request \<Rightarrow> string" where
  "requestIdOf request = of_requestId (ar_operation request)"

definition validateTaskActivationRequest :: "activation_request \<Rightarrow> activation_request result" where
  "validateTaskActivationRequest request = checked request
     [validateOperationFacts (ar_operation request),
      refuse (of_capability (ar_operation request) \<noteq> TASK_ACTIVATION_CAPABILITY)
        ''Activation request capability is invalid.'',
      refuse ((ar_startMode request = After_Planning_Turn) \<noteq> (ar_afterPlanningRun request \<noteq> None))
        ''Activation deferral must name exactly the planning Turn it waits for.'',
      whenSome (ar_afterPlanningRun request) (\<lambda>r. skip (requireIdentity r ''Activation planning Turn'')),
      refuse (ar_disposition request = Act_Adopted \<and> of_effect (ar_operation request) \<noteq> EffectConfirmed)
        ''An adopted activation must record a confirmed effect.'',
      whenSome (ar_preparationId request) (\<lambda>p. all_ok
        [skip (requireIdentity p ''Activation preparation''),
         refuse (ar_disposition request \<noteq> Act_Adopted)
           ''Only an adopted activation records the preparation it consumed.'']),
      whenSome (ar_outcome request) (\<lambda>t. skip (requireOutcome t)),
      skip (canonicalEnvironmentPlan (ar_environmentPlan request)),
      skip (requireTimestamp (ar_requestedAt request) ''Activation requestedAt''),
      skip (requireTimestamp (ar_updatedAt request) ''Activation updatedAt''),
      refuse (date_less (ar_updatedAt request) (ar_requestedAt request))
        ''Activation updatedAt cannot precede requestedAt.'']"

definition taskActivationInputDigest ::
    "(string \<Rightarrow> string) \<Rightarrow> string \<Rightarrow> start_mode \<Rightarrow> string option \<Rightarrow> environment_plan \<Rightarrow> string result" where
  "taskActivationInputDigest sha256 taskId startMode afterPlanningRun environmentPlan =
     andThen (canonicalEnvironmentPlan environmentPlan) (\<lambda>plan.
       Inr (sha256 (jsonStringify (JArr [JStr taskId, JStr (start_mode_text startMode),
         (case afterPlanningRun of None \<Rightarrow> JNull | Some r \<Rightarrow> JStr r), plan_json plan]))))"

definition createTaskActivationRequest ::
    "(string \<Rightarrow> string) \<Rightarrow> string \<Rightarrow> activation_input \<Rightarrow> date \<Rightarrow> activation_request result" where
  "createTaskActivationRequest sha256 taskId input now =
     (if ai_startMode input = After_Planning_Turn \<and> ai_afterPlanningRun input = None
      then throw ''A deferred activation request must name its planning Turn.''
      else if ai_startMode input \<noteq> After_Planning_Turn \<and> ai_afterPlanningRun input \<noteq> None
      then throw ''An immediate activation request cannot defer to a planning Turn.''
      else andThen (toISOString now) (\<lambda>timestamp.
        andThen (taskActivationInputDigest sha256 taskId (ai_startMode input) (ai_afterPlanningRun input)
                   (ai_environmentPlan input)) (\<lambda>digest.
        andThen (canonicalEnvironmentPlan (ai_environmentPlan input)) (\<lambda>plan.
          validateTaskActivationRequest
            \<lparr>ar_operation = \<lparr>of_requestId = ai_requestId input, of_inputDigest = digest,
               of_actorId = ai_actorId input, of_authorityRef = ai_authorityRef input, of_targetId = taskId,
               of_capability = TASK_ACTIVATION_CAPABILITY, of_implementation = TASK_ACTIVATION_IMPLEMENTATION,
               of_effect = EffectNone, of_receiptRefs = [], of_partialResultRefs = []\<rparr>,
             ar_startMode = ai_startMode input, ar_afterPlanningRun = ai_afterPlanningRun input,
             ar_environmentPlan = plan, ar_disposition = Act_Pending, ar_preparationId = None, ar_outcome = None,
             ar_requestedAt = timestamp, ar_updatedAt = timestamp\<rparr>))))"

definition adoptTaskActivationRequest ::
    "activation_request \<Rightarrow> string option \<Rightarrow> string list option \<Rightarrow> date \<Rightarrow> activation_request result" where
  "adoptTaskActivationRequest request preparationId receiptRefs now =
     (if ar_disposition request = Act_Adopted then Inr request
      else if ar_disposition request \<noteq> Act_Pending \<and> ar_disposition request \<noteq> Act_Failed
      then throw ''Activation request is not adoptable''
      else andThen (recordOperationEvidence (ar_operation request)
             \<lparr>ev_effect = Some EffectConfirmed, ev_receiptRefs = receiptRefs, ev_partialResultRefs = None\<rparr>) (\<lambda>operation.
        andThen (toISOString now) (\<lambda>timestamp.
          validateTaskActivationRequest (request\<lparr>
            ar_operation := operation, ar_disposition := Act_Adopted,
            ar_preparationId := (case preparationId of None \<Rightarrow> ar_preparationId request | Some p \<Rightarrow> Some p),
            ar_updatedAt := timestamp\<rparr>))))"

definition failTaskActivationRequest ::
    "activation_request \<Rightarrow> string \<Rightarrow> date \<Rightarrow> evidence \<Rightarrow> activation_request result" where
  "failTaskActivationRequest request outcome now evidence =
     (if ar_disposition request = Act_Adopted then throw ''Adopted activation cannot be reported as failed''
      else if ar_disposition request = Act_Cancelled then Inr request
      else andThen (recordOperationEvidence (ar_operation request) evidence) (\<lambda>operation.
        andThen (requireOutcome outcome) (\<lambda>why.
        andThen (toISOString now) (\<lambda>timestamp.
          validateTaskActivationRequest (request\<lparr>
            ar_operation := operation, ar_disposition := Act_Failed, ar_outcome := Some why,
            ar_updatedAt := timestamp\<rparr>)))))"

definition recordTaskActivationEvidence ::
    "activation_request \<Rightarrow> evidence \<Rightarrow> date \<Rightarrow> activation_request result" where
  "recordTaskActivationEvidence request evidence now =
     andThen (recordOperationEvidence (ar_operation request) evidence) (\<lambda>operation.
       if operation = ar_operation request then Inr request
       else andThen (toISOString now) (\<lambda>timestamp.
         validateTaskActivationRequest (request\<lparr>ar_operation := operation, ar_updatedAt := timestamp\<rparr>)))"

definition cancelTaskActivationRequest ::
    "activation_request \<Rightarrow> string \<Rightarrow> date \<Rightarrow> activation_request result" where
  "cancelTaskActivationRequest request outcome now =
     (if ar_disposition request = Act_Adopted then throw ''Adopted activation cannot be cancelled''
      else if ar_disposition request = Act_Cancelled then Inr request
      else andThen (requireOutcome outcome) (\<lambda>why.
        andThen (toISOString now) (\<lambda>timestamp.
          validateTaskActivationRequest (request\<lparr>
            ar_disposition := Act_Cancelled, ar_outcome := Some why, ar_updatedAt := timestamp\<rparr>))))"

subsection \<open>The outcome recorded in the events\<close>

definition EV_REQUESTED :: string where "EV_REQUESTED = ''task.activation-requested''"
definition EV_CANCELLED :: string where "EV_CANCELLED = ''task.activation-cancelled''"
definition EV_ADOPTED :: string where "EV_ADOPTED = ''task.activation-adopted''"
definition EV_FAILED :: string where "EV_FAILED = ''task.activation-failed''"

record settled_fact =
  sf_disposition :: activation_disposition
  sf_outcome :: "string option"

fun settledActivationFromEvents :: "task_event list \<Rightarrow> string \<Rightarrow> settled_fact option" where
  "settledActivationFromEvents [] requestId = None"
| "settledActivationFromEvents (event # events) requestId =
     (if map_of (te_payload event) ''requestId'' \<noteq> Some requestId
      then settledActivationFromEvents events requestId
      else if te_type event = EV_CANCELLED
      then Some \<lparr>sf_disposition = Act_Cancelled, sf_outcome = map_of (te_payload event) ''reason''\<rparr>
      else if te_type event = EV_ADOPTED
      then Some \<lparr>sf_disposition = Act_Adopted, sf_outcome = None\<rparr>
      else settledActivationFromEvents events requestId)"

subsection \<open>What an operation on a request changes\<close>

interpretation activation: record_validator validateTaskActivationRequest
  by unfold_locales (simp add: validateTaskActivationRequest_def)

definition request_valid :: "activation_request \<Rightarrow> bool" where
  "request_valid r \<longleftrightarrow> isOk (validateTaskActivationRequest r)"

lemma validateTaskActivationRequest_eq [simp]:
  "validateTaskActivationRequest r = Inr r' \<longleftrightarrow> request_valid r \<and> r' = r"
  using activation.returns_self [of r r'] activation.ok_eq [of r] by (auto simp: request_valid_def)

definition request_settled :: "activation_request \<Rightarrow> bool" where
  "request_settled r \<longleftrightarrow> ar_disposition r = Act_Cancelled \<or> ar_disposition r = Act_Adopted"

definition request_le :: "activation_request \<Rightarrow> activation_request \<Rightarrow> bool" where
  \<comment> \<open>the same request later: its identity and inputs stay, its effect only rises, an outcome is final\<close>
  "request_le a b \<longleftrightarrow> requestIdOf b = requestIdOf a
     \<and> of_inputDigest (ar_operation b) = of_inputDigest (ar_operation a)
     \<and> of_targetId (ar_operation b) = of_targetId (ar_operation a)
     \<and> ar_environmentPlan b = ar_environmentPlan a \<and> ar_afterPlanningRun b = ar_afterPlanningRun a
     \<and> effect_rank (of_effect (ar_operation a)) \<le> effect_rank (of_effect (ar_operation b))
     \<and> set (of_receiptRefs (ar_operation a)) \<subseteq> set (of_receiptRefs (ar_operation b))
     \<and> set (of_partialResultRefs (ar_operation a)) \<subseteq> set (of_partialResultRefs (ar_operation b))
     \<and> (request_settled a \<longrightarrow> ar_disposition b = ar_disposition a)"

lemma request_le_refl [simp]: "request_le a a"
  by (simp add: request_le_def)

lemma request_le_trans: "request_le a b \<Longrightarrow> request_le b c \<Longrightarrow> request_le a c"
  unfolding request_le_def request_settled_def by (metis order_trans)

lemma request_le_id: "request_le a b \<Longrightarrow> requestIdOf b = requestIdOf a"
  by (simp add: request_le_def)

lemma recorded_request:
  "recordOperationEvidence (ar_operation r) e = Inr f \<Longrightarrow> \<not> request_settled r \<or> d = ar_disposition r \<Longrightarrow>
     request_le r (r\<lparr>ar_operation := f, ar_disposition := d, ar_preparationId := p, ar_outcome := t, ar_updatedAt := u\<rparr>)"
  using recorded_le [of "ar_operation r" e]
  by (auto simp: record_eq request_le_def requestIdOf_def facts_le_def request_settled_def)

lemma adopt_request:
  assumes "adoptTaskActivationRequest r p refs now = Inr r'"
  shows "request_le r r'" and "ar_disposition r' = Act_Adopted" and "ar_disposition r \<noteq> Act_Cancelled"
    and "request_valid r \<Longrightarrow> request_valid r'"
  using assms recorded_request [where r = r and d = Act_Adopted and t = "ar_outcome r"]
  by (auto simp: adoptTaskActivationRequest_def request_settled_def split: if_splits)

lemma fail_request:
  assumes "failTaskActivationRequest r why now e = Inr r'"
  shows "request_le r r'" and "request_valid r \<Longrightarrow> request_valid r'"
    and "ar_disposition r' = Act_Failed \<or> (r' = r \<and> ar_disposition r = Act_Cancelled)"
  using assms recorded_request [where r = r and d = Act_Failed and p = "ar_preparationId r"]
  by (auto simp: failTaskActivationRequest_def request_settled_def split: if_splits)

lemma evidence_request:
  assumes "recordTaskActivationEvidence r e now = Inr r'"
  shows "request_le r r'" and "ar_disposition r' = ar_disposition r" and "request_valid r \<Longrightarrow> request_valid r'"
  using assms recorded_request [where r = r and d = "ar_disposition r" and p = "ar_preparationId r" and t = "ar_outcome r"]
  by (auto simp: recordTaskActivationEvidence_def split: if_splits)

lemma cancel_request:
  assumes "cancelTaskActivationRequest r why now = Inr r'"
  shows "request_le r r'" and "ar_disposition r' = Act_Cancelled" and "request_valid r \<Longrightarrow> request_valid r'"
    and "ar_disposition r \<noteq> Act_Adopted"
  using assms
  by (auto simp: cancelTaskActivationRequest_def request_le_def requestIdOf_def request_settled_def split: if_splits)

lemma created_request:
  assumes "createTaskActivationRequest sha taskId input now = Inr r"
  shows "request_valid r" and "ar_disposition r = Act_Pending" and "requestIdOf r = ai_requestId input"
    and "of_targetId (ar_operation r) = taskId" and "of_effect (ar_operation r) = EffectNone"
  using assms by (auto simp: createTaskActivationRequest_def requestIdOf_def split: if_splits)

lemma settled_from_append:
  "settledActivationFromEvents (es @ fs) i =
     (case settledActivationFromEvents es i of None \<Rightarrow> settledActivationFromEvents fs i | Some x \<Rightarrow> Some x)"
  by (induction es i rule: settledActivationFromEvents.induct) auto

end
