(* ===== verification/Task_Record.thy ===== *)
theory Task_Record
  imports Task_Activation
begin

section \<open>The Task record and its lifecycle\<close>

text \<open>
  \<open>src/task/task.ts\<close> and \<open>src/repository/taskWorkspaceIdentity.ts\<close>: the aggregate a Leader works on, its
  bindings to Projects with the commits they stand at, the identity of its workspace, its activation
  requests, and its lifecycle from draft over active to completed or cancelled and archived.

  The field \<open>tk_retirementIsolation\<close> is \<open>true\<close> or absent; in a metadata update a field is absent
  (\<open>None\<close>), \<open>null\<close> (\<open>Some None\<close>) or a value.  The length of a text in UTF-8 counts one byte for a
  character below 128 and two for the others.
\<close>

subsection \<open>repository/taskWorkspaceIdentity.ts\<close>

record workspace_identity =
  wid_homeId :: string
  wid_taskId :: string
  wid_token :: string
  wid_generatedAt :: string
  wid_entropy :: string

definition byte_length :: "string \<Rightarrow> nat" where
  "byte_length s = sum_list (map (\<lambda>c. if code c < 128 then 1 else 2) s)"

definition encoded_part :: "string \<Rightarrow> string" where
  "encoded_part part = nat_str (byte_length part) @ '':'' @ part"

definition lengthPrefixedEncoding :: "string list \<Rightarrow> string" where
  "lengthPrefixedEncoding parts = join_with [CHR 0x0A] (map encoded_part parts)"

definition requireIdentityPart :: "string \<Rightarrow> string \<Rightarrow> string result" where
  "requireIdentityPart value label =
     (if NUL \<in> set value then throw (label @ '' is invalid.'')
      else let trimmed = js_trim value in
        if trimmed = [] then throw (label @ '' is required.'')
        else if CHR ''/'' \<in> set trimmed \<or> CHR 0x5C \<in> set trimmed
        then throw (label @ '' must not contain a path separator.'')
        else Inr trimmed)"

definition deriveTaskWorkspaceToken ::
    "(string \<Rightarrow> string) \<Rightarrow> string \<Rightarrow> string \<Rightarrow> string \<Rightarrow> string \<Rightarrow> string" where
  "deriveTaskWorkspaceToken sha256 homeId taskId generatedAt entropy =
     take 8 (sha256 (lengthPrefixedEncoding
       [''yui-task-workspace-identity/v1'', homeId, taskId, generatedAt, entropy]))"

definition is_token :: "string \<Rightarrow> bool" where
  "is_token s \<longleftrightarrow> length s = 8 \<and> list_all is_hex_lower s"

definition validateTaskWorkspaceIdentity :: "(string \<Rightarrow> string) \<Rightarrow> workspace_identity \<Rightarrow> workspace_identity result" where
  "validateTaskWorkspaceIdentity sha256 identity =
     andThen (requireIdentityPart (wid_homeId identity) ''Home id'') (\<lambda>homeId.
     andThen (requireIdentityPart (wid_taskId identity) ''Task id'') (\<lambda>taskId.
       checked identity
         [refuse (\<not> is_date (wid_generatedAt identity)) ''Task workspace identity generatedAt is invalid.'',
          refuse (\<not> (length (wid_entropy identity) = 32 \<and> list_all is_hex_lower (wid_entropy identity)))
            ''Task workspace identity entropy is invalid.'',
          refuse (\<not> is_token (wid_token identity)) ''Task workspace identity token is invalid.'',
          refuse (deriveTaskWorkspaceToken sha256 homeId taskId (wid_generatedAt identity) (wid_entropy identity)
                  \<noteq> wid_token identity)
            ''Task workspace identity token does not match its persisted fields.'']))"

definition generateTaskWorkspaceIdentity ::
    "(string \<Rightarrow> string) \<Rightarrow> string \<Rightarrow> string \<Rightarrow> date \<Rightarrow> string \<Rightarrow> workspace_identity result" where
  \<comment> \<open>\<open>entropy\<close> is the hexadecimal text of the random bytes\<close>
  "generateTaskWorkspaceIdentity sha256 home task now entropy =
     andThen (requireIdentityPart home ''Home id'') (\<lambda>homeId.
     andThen (requireIdentityPart task ''Task id'') (\<lambda>taskId.
     andThen (toISOString now) (\<lambda>generatedAt.
       validateTaskWorkspaceIdentity sha256
         \<lparr>wid_homeId = homeId, wid_taskId = taskId,
          wid_token = deriveTaskWorkspaceToken sha256 homeId taskId generatedAt entropy,
          wid_generatedAt = generatedAt, wid_entropy = entropy\<rparr>)))"

definition taskWorkspaceRefSegmentFromIdentity :: "(string \<Rightarrow> string) \<Rightarrow> workspace_identity \<Rightarrow> string result" where
  "taskWorkspaceRefSegmentFromIdentity sha256 identity =
     andThen (validateTaskWorkspaceIdentity sha256 identity) (\<lambda>valid.
       Inr (wid_taskId valid @ ''-'' @ wid_token valid))"

definition ref_segment_ok :: "string \<Rightarrow> bool" where
  \<comment> \<open>\<open>/^(task-[0-9]+)-[a-f0-9]{8}$/\<close>\<close>
  "ref_segment_ok s \<longleftrightarrow>
     (let n = length s; digits = drop 5 (take (n - 9) s) in
        n > 14 \<and> take 5 s = ''task-'' \<and> list_all is_digit digits
        \<and> s ! (n - 9) = CHR ''-'' \<and> list_all is_hex_lower (drop (n - 8) s))"

definition taskMainBranch :: "string \<Rightarrow> string result" where
  "taskMainBranch refSegment =
     (if \<not> ref_segment_ok refSegment then throw ''Task workspace ref segment is invalid''
      else Inr (''yui/'' @ refSegment @ ''/main''))"

definition ref_char_bad :: "char \<Rightarrow> bool" where
  \<comment> \<open>\<open>/[~^:?*[\]\s]/\<close>\<close>
  "ref_char_bad c \<longleftrightarrow> c \<in> set ''~^:?*[]'' \<or> is_ws c"

fun has_dotdot :: "string \<Rightarrow> bool" where
  "has_dotdot (a # b # s) = (a = CHR ''.'' \<and> b = CHR ''.'' \<or> has_dotdot (b # s))"
| "has_dotdot _ = False"

definition taskDerivedBranch :: "string \<Rightarrow> string \<Rightarrow> string result" where
  "taskDerivedBranch refSegment member =
     (if \<not> ref_segment_ok refSegment then throw ''Task workspace ref segment is invalid''
      else let memberSegment = js_trim member in
        if memberSegment = [] \<or> list_ex ref_char_bad memberSegment \<or> has_dotdot memberSegment
           \<or> take 1 memberSegment = ''-''
        then throw ''Task workspace member is invalid''
        else Inr (''yui/'' @ refSegment @ ''/'' @ memberSegment))"

definition taskIntegrationBranch :: "string \<Rightarrow> string \<Rightarrow> string result" where
  "taskIntegrationBranch refSegment integrationId = taskDerivedBranch refSegment (''integration/'' @ integrationId)"

definition taskArchiveRef :: "string \<Rightarrow> string \<Rightarrow> string result" where
  "taskArchiveRef homeId sourceRef =
     andThen (requireIdentityPart homeId ''Home id'') (\<lambda>i.
       let ref = js_trim sourceRef in
         if take 5 ref \<noteq> ''refs/'' \<or> has_dotdot ref \<or> list_ex ref_char_bad ref
         then throw ''Archive source ref is invalid''
         else Inr (''refs/yui/archive/'' @ i @ ''/'' @ drop 5 ref))"

subsection \<open>The Task\<close>

datatype task_priority = Prio_Low | Prio_Medium | Prio_High | Prio_Urgent

datatype task_status = Task_Draft | Task_Active | Task_Completed | Task_Cancelled | Task_Archived

datatype execution_state = Exec_Enabled | Exec_Stopped

record project_binding =
  pb_projectId :: string
  pb_directory :: string
  pb_baseRef :: string
  pb_baseCommit :: "string option"
  pb_currentCommit :: "string option"

record task_metadata =
  tm_type :: "string option"
  tm_description :: "string option"
  tm_priority :: "task_priority option"
  tm_tags :: "string list option"
  tm_dueAt :: "string option"
  tm_projectBindings :: "project_binding list option"
  tm_cwd :: "string option"

record metadata_update =
  mu_title :: "string option"
  mu_type :: "string option option"
  mu_description :: "string option option"
  mu_priority :: "task_priority option option"
  mu_tags :: "string list option option"
  mu_dueAt :: "string option option"
  mu_projectBindings :: "project_binding list option"
  mu_cwd :: "string option"

record task =
  tk_id :: string
  tk_title :: string
  tk_type :: "string option"
  tk_description :: "string option"
  tk_priority :: "task_priority option"
  tk_tags :: "string list option"
  tk_dueAt :: "string option"
  tk_projectBindings :: "project_binding list"
  tk_cwd :: "string option"
  tk_workspaceIdentity :: "workspace_identity option"
  tk_status :: task_status
  tk_executionState :: execution_state
  tk_activationRequest :: "activation_request option"
  tk_settledActivationRequests :: "activation_request list option"
  tk_completedAt :: "string option"
  tk_completedBy :: "task_actor option"
  tk_completionSummary :: "string option"
  tk_completionArtifactRefs :: "string list option"
  tk_retiredAt :: "string option"
  tk_retiredBy :: "task_actor option"
  tk_retirementSummary :: "string option"
  tk_retirementIsolation :: bool
  tk_replacementTaskId :: "string option"
  tk_archivedAt :: "string option"
  tk_archivedBy :: "task_actor option"
  tk_archiveReason :: "string option"
  tk_archiveSummary :: "string option"
  tk_createdAt :: string
  tk_updatedAt :: string

definition MAX_SETTLED_ACTIVATION_REQUESTS :: nat where
  "MAX_SETTLED_ACTIVATION_REQUESTS = 16"

definition isSettledActivationRequest :: "activation_request \<Rightarrow> bool" where
  "isSettledActivationRequest request \<longleftrightarrow>
     ar_disposition request = Act_Cancelled \<or> ar_disposition request = Act_Adopted"

fun normalizeBindings ::
    "string list \<Rightarrow> string list \<Rightarrow> project_binding list \<Rightarrow> project_binding list result" where
  "normalizeBindings projectIds directories [] = Inr []"
| "normalizeBindings projectIds directories (binding # rest) =
     andThen (requireIdentity (pb_projectId binding) ''Project id'') (\<lambda>projectId.
     andThen (requireIdentity (pb_directory binding) ''Project directory'') (\<lambda>directory.
     andThen (requireText (pb_baseRef binding) ''Task base ref'') (\<lambda>baseRef.
     andThen (optionally (\<lambda>c. requireCommit c ''Task Project base commit'') (pb_baseCommit binding)) (\<lambda>baseCommit.
     andThen (optionally (\<lambda>c. requireCommit c ''Task Project current commit'') (pb_currentCommit binding)) (\<lambda>currentCommit.
       if (baseCommit = None) \<noteq> (currentCommit = None)
       then throw ''Task Project commit metadata must include both baseCommit and currentCommit''
       else if projectId \<in> set projectIds then throw ''Task Project is duplicated''
       else if directory \<in> set directories then throw ''Task Project directory is duplicated''
       else andThen (normalizeBindings (projectId # projectIds) (directory # directories) rest) (\<lambda>normalized.
         Inr (\<lparr>pb_projectId = projectId, pb_directory = directory, pb_baseRef = baseRef,
               pb_baseCommit = baseCommit, pb_currentCommit = currentCommit\<rparr> # normalized)))))))"

definition normalizeProjectBindings :: "project_binding list \<Rightarrow> project_binding list result" where
  "normalizeProjectBindings bindings = normalizeBindings [] [] bindings"

definition cloneMetadata :: "task_metadata \<Rightarrow> task_metadata result" where
  "cloneMetadata metadata =
     andThen (optionally (\<lambda>t. requireIdentity t ''Task type'') (tm_type metadata)) (\<lambda>type.
     andThen (normalizeProjectBindings (case tm_projectBindings metadata of None \<Rightarrow> [] | Some bs \<Rightarrow> bs)) (\<lambda>bindings.
     andThen (optionally (\<lambda>c. requireText c ''Task workspace'') (tm_cwd metadata)) (\<lambda>cwd.
       Inr (metadata\<lparr>tm_type := type, tm_projectBindings := Some bindings, tm_cwd := cwd\<rparr>))))"

definition createTask :: "string \<Rightarrow> string \<Rightarrow> date \<Rightarrow> task_metadata \<Rightarrow> task result" where
  "createTask i title now metadata =
     andThen (toISOString now) (\<lambda>timestamp.
     andThen (requireIdentity i ''Task id'') (\<lambda>task_id.
     andThen (requireText title ''Task title'') (\<lambda>name.
     andThen (cloneMetadata metadata) (\<lambda>meta. Inr
       \<lparr>tk_id = task_id, tk_title = name, tk_type = tm_type meta, tk_description = tm_description meta,
        tk_priority = tm_priority meta, tk_tags = tm_tags meta, tk_dueAt = tm_dueAt meta,
        tk_projectBindings = (case tm_projectBindings meta of None \<Rightarrow> [] | Some bs \<Rightarrow> bs), tk_cwd = tm_cwd meta,
        tk_workspaceIdentity = None, tk_status = Task_Draft, tk_executionState = Exec_Enabled,
        tk_activationRequest = None, tk_settledActivationRequests = None, tk_completedAt = None,
        tk_completedBy = None, tk_completionSummary = None, tk_completionArtifactRefs = None,
        tk_retiredAt = None, tk_retiredBy = None, tk_retirementSummary = None, tk_retirementIsolation = False,
        tk_replacementTaskId = None, tk_archivedAt = None, tk_archivedBy = None, tk_archiveReason = None,
        tk_archiveSummary = None, tk_createdAt = timestamp, tk_updatedAt = timestamp\<rparr>))))"

subsection \<open>Validation\<close>

definition task_timestamp :: "string \<Rightarrow> string \<Rightarrow> unit result" where
  \<comment> \<open>the \<open>requireTimestamp\<close> of this file\<close>
  "task_timestamp value label = refuse (\<not> is_date value) (label @ '' is invalid.'')"

fun validateSettled ::
    "string \<Rightarrow> string option \<Rightarrow> string list \<Rightarrow> activation_request list \<Rightarrow> unit result" where
  \<comment> \<open>the loop over the settled requests of the Task \<open>i\<close> whose slot holds \<open>current\<close>\<close>
  "validateSettled i current seen [] = Inr ()"
| "validateSettled i current seen (entry # rest) =
     andThen (validateTaskActivationRequest entry) (\<lambda>request.
       if of_targetId (ar_operation request) \<noteq> i
       then throw ''Task settled activation request belongs to another Task''
       else if \<not> isSettledActivationRequest request
       then throw ''Task settled activation history retains only terminal requests''
       else if requestIdOf request \<in> set seen \<or> Some (requestIdOf request) = current
       then throw ''Task activation request is duplicated''
       else validateSettled i current (requestIdOf request # seen) rest)"

definition validateActivation :: "task \<Rightarrow> unit result" where
  "validateActivation task = all_ok
     [whenSome (tk_activationRequest task) (\<lambda>r.
        andThen (validateTaskActivationRequest r) (\<lambda>request.
          refuse (of_targetId (ar_operation request) \<noteq> tk_id task)
            ''Task activation request belongs to another Task'')),
      whenSome (tk_settledActivationRequests task) (\<lambda>settled. all_ok
        [refuse (length settled > MAX_SETTLED_ACTIVATION_REQUESTS)
           ''Task settled activation requests exceed the bounded limit.'',
         validateSettled (tk_id task) (map_option requestIdOf (tk_activationRequest task)) [] settled])]"

definition has_any_completion :: "task \<Rightarrow> bool" where
  "has_any_completion task \<longleftrightarrow>
     tk_completedAt task \<noteq> None \<or> tk_completedBy task \<noteq> None \<or> tk_completionSummary task \<noteq> None"

definition has_all_completion :: "task \<Rightarrow> bool" where
  "has_all_completion task \<longleftrightarrow>
     tk_completedAt task \<noteq> None \<and> tk_completedBy task \<noteq> None \<and> tk_completionSummary task \<noteq> None"

definition has_any_retirement :: "task \<Rightarrow> bool" where
  "has_any_retirement task \<longleftrightarrow> tk_retiredAt task \<noteq> None \<or> tk_retiredBy task \<noteq> None
     \<or> tk_retirementSummary task \<noteq> None \<or> tk_replacementTaskId task \<noteq> None"

definition has_any_archive :: "task \<Rightarrow> bool" where
  "has_any_archive task \<longleftrightarrow> tk_archivedAt task \<noteq> None \<or> tk_archivedBy task \<noteq> None
     \<or> tk_archiveReason task \<noteq> None \<or> tk_archiveSummary task \<noteq> None"

definition validateCompletion :: "task \<Rightarrow> unit result" where
  "validateCompletion task = all_ok
     [refuse (has_any_completion task \<and> \<not> has_all_completion task)
        ''Task completion metadata must include completedAt, completedBy, and completionSummary.'',
      (if has_all_completion task then all_ok
         [task_timestamp (text_or_empty (tk_completedAt task)) ''Task completedAt'',
          skip (requireText (text_or_empty (tk_completionSummary task)) ''Task completion summary'')]
       else Inr ()),
      refuse (tk_status task = Task_Completed \<and> \<not> has_all_completion task)
        ''A completed Task requires completedAt, completedBy, and completionSummary.'',
      refuse (tk_status task \<in> {Task_Draft, Task_Active, Task_Cancelled} \<and> has_any_completion task)
        ''Task completion metadata is invalid for the status.'']"

definition validateRetirement :: "task \<Rightarrow> unit result" where
  "validateRetirement task =
     (if tk_status task = Task_Cancelled \<or> (tk_status task = Task_Archived \<and> has_any_retirement task) then all_ok
        [refuse (tk_retiredAt task = None \<or> tk_retiredBy task = None \<or> tk_retirementSummary task = None)
           ''A retired Task requires retiredAt, retiredBy, and retirementSummary.'',
         task_timestamp (text_or_empty (tk_retiredAt task)) ''Task retiredAt'',
         skip (requireText (text_or_empty (tk_retirementSummary task)) ''Task retirement summary''),
         whenSome (tk_replacementTaskId task) (\<lambda>r.
           andThen (requireIdentity r ''Replacement Task id'') (\<lambda>replacement.
             refuse (replacement = tk_id task) ''A Task cannot replace itself.''))]
      else refuse (has_any_retirement task) ''Task retirement metadata is invalid for the status.'')"

definition validateArchive :: "task \<Rightarrow> unit result" where
  "validateArchive task =
     (if tk_status task = Task_Archived then all_ok
        [refuse (tk_archivedAt task = None \<or> tk_archivedBy task = None)
           ''An archived Task requires archivedAt and archivedBy.'',
         task_timestamp (text_or_empty (tk_archivedAt task)) ''Task archivedAt'',
         whenSome (tk_archiveReason task) (\<lambda>t. skip (requireText t ''Task archive reason'')),
         whenSome (tk_archiveSummary task) (\<lambda>t. skip (requireText t ''Task archive summary'')),
         refuse (has_all_completion task = has_any_retirement task)
           ''An archived Task must preserve exactly one completion or retirement outcome.'']
      else refuse (has_any_archive task) ''Task archive metadata is invalid for the status.'')"

definition validateTask :: "(string \<Rightarrow> string) \<Rightarrow> task \<Rightarrow> task result" where
  "validateTask sha256 task = checked task
     [skip (requireIdentity (tk_id task) ''Task id''),
      skip (requireText (tk_title task) ''Task title''),
      whenSome (tk_type task) (\<lambda>t. skip (requireIdentity t ''Task type'')),
      task_timestamp (tk_createdAt task) ''Task createdAt'',
      task_timestamp (tk_updatedAt task) ''Task updatedAt'',
      whenSome (tk_completionArtifactRefs task)
        (\<lambda>refs. all_ok (map (\<lambda>ref. skip (requireText ref ''Task completion artifact ref'')) refs)),
      refuse (date_less (tk_updatedAt task) (tk_createdAt task)) ''Task updatedAt cannot precede createdAt.'',
      whenSome (tk_workspaceIdentity task) (\<lambda>w.
        andThen (validateTaskWorkspaceIdentity sha256 w) (\<lambda>identity.
          refuse (wid_taskId identity \<noteq> tk_id task) ''Task workspace identity belongs to another Task'')),
      validateActivation task,
      whenSome (tk_description task) (\<lambda>d. skip (requireText d ''Task description'')),
      whenSome (tk_tags task) (\<lambda>tags. all_ok (map (\<lambda>tag. skip (requireText tag ''Task tag'')) tags)),
      whenSome (tk_dueAt task) (\<lambda>t. task_timestamp t ''Task dueAt''),
      skip (normalizeProjectBindings (tk_projectBindings task)),
      whenSome (tk_cwd task) (\<lambda>c. skip (requireText c ''Task workspace'')),
      validateCompletion task,
      validateRetirement task,
      validateArchive task]"

subsection \<open>Operations\<close>

definition bindTaskWorkspaceIdentity ::
    "(string \<Rightarrow> string) \<Rightarrow> task \<Rightarrow> workspace_identity \<Rightarrow> date \<Rightarrow> task result" where
  "bindTaskWorkspaceIdentity sha256 task identity now =
     andThen (validateTask sha256 task) (\<lambda>_.
     andThen (validateTaskWorkspaceIdentity sha256 identity) (\<lambda>valid.
       if wid_taskId valid \<noteq> tk_id task then throw ''Task workspace identity belongs to another Task''
       else (case tk_workspaceIdentity task of
           Some w \<Rightarrow> andThen (validateTaskWorkspaceIdentity sha256 w) (\<lambda>existing.
             if wid_token existing \<noteq> wid_token valid \<or> wid_generatedAt existing \<noteq> wid_generatedAt valid
                \<or> wid_homeId existing \<noteq> wid_homeId valid
             then throw ''Task workspace identity is already bound and immutable''
             else Inr task)
         | None \<Rightarrow> andThen (toISOString now) (\<lambda>timestamp.
             validateTask sha256 (task\<lparr>tk_workspaceIdentity := Some valid, tk_updatedAt := timestamp\<rparr>)))))"

definition retained_requests :: "task \<Rightarrow> activation_request \<Rightarrow> activation_request list" where
  \<comment> \<open>the settled history once \<open>valid\<close> is put into the slot\<close>
  "retained_requests task valid =
     (let displaced = (case tk_activationRequest task of
            None \<Rightarrow> []
          | Some existing \<Rightarrow>
              if requestIdOf existing \<noteq> requestIdOf valid \<and> isSettledActivationRequest existing
              then [existing] else []);
          settled = (case tk_settledActivationRequests task of None \<Rightarrow> [] | Some rs \<Rightarrow> rs)
      in slice_last MAX_SETTLED_ACTIVATION_REQUESTS
           (filter (\<lambda>r. requestIdOf r \<noteq> requestIdOf valid) (settled @ displaced)))"

definition setTaskActivationRequest ::
    "(string \<Rightarrow> string) \<Rightarrow> task \<Rightarrow> activation_request \<Rightarrow> date \<Rightarrow> task result" where
  "setTaskActivationRequest sha256 task request now =
     andThen (validateTask sha256 task) (\<lambda>_.
     andThen (validateTaskActivationRequest request) (\<lambda>valid.
       if of_targetId (ar_operation valid) \<noteq> tk_id task then throw ''Activation request belongs to another Task''
       else if (case tk_activationRequest task of None \<Rightarrow> False
                | Some existing \<Rightarrow> requestIdOf existing = requestIdOf valid
                    \<and> of_inputDigest (ar_operation existing) \<noteq> of_inputDigest (ar_operation valid))
       then throw ''Activation requestId was already used for different inputs.''
       else let retained = retained_requests task valid
         in andThen (toISOString now) (\<lambda>timestamp.
              validateTask sha256 (task\<lparr>tk_activationRequest := Some valid,
                tk_settledActivationRequests :=
                  (if retained = [] then tk_settledActivationRequests task else Some retained),
                tk_updatedAt := timestamp\<rparr>))))"

definition recordSettledEvidence ::
    "(string \<Rightarrow> string) \<Rightarrow> task \<Rightarrow> string \<Rightarrow> evidence \<Rightarrow> date \<Rightarrow> task result" where
  "recordSettledEvidence sha256 task requestId evidence now =
     (case tk_settledActivationRequests task of
        None \<Rightarrow> throw ''Activation request not found on Task''
      | Some settled \<Rightarrow>
          if \<not> list_ex (\<lambda>r. requestIdOf r = requestId) settled
          then throw ''Activation request not found on Task''
          else andThen (traverse (\<lambda>r. if requestIdOf r = requestId
                                       then recordTaskActivationEvidence r evidence now else Inr r) settled) (\<lambda>updated.
            andThen (toISOString now) (\<lambda>timestamp.
              validateTask sha256 (task\<lparr>tk_settledActivationRequests := Some updated, tk_updatedAt := timestamp\<rparr>))))"

definition recordTaskActivationRequestEvidence ::
    "(string \<Rightarrow> string) \<Rightarrow> task \<Rightarrow> string \<Rightarrow> evidence \<Rightarrow> date \<Rightarrow> task result" where
  "recordTaskActivationRequestEvidence sha256 task requestId evidence now =
     (case tk_activationRequest task of
        Some current \<Rightarrow>
          if requestIdOf current = requestId
          then andThen (recordTaskActivationEvidence current evidence now) (\<lambda>updated.
            if updated = current then Inr task
            else andThen (toISOString now) (\<lambda>timestamp.
              validateTask sha256 (task\<lparr>tk_activationRequest := Some updated, tk_updatedAt := timestamp\<rparr>)))
          else recordSettledEvidence sha256 task requestId evidence now
      | None \<Rightarrow> recordSettledEvidence sha256 task requestId evidence now)"

definition activateTask :: "task \<Rightarrow> date \<Rightarrow> task result" where
  "activateTask task now =
     (case tk_status task of
        Task_Archived \<Rightarrow> throw ''Cannot activate archived Task''
      | Task_Completed \<Rightarrow> throw ''Cannot activate completed Task''
      | Task_Cancelled \<Rightarrow> throw ''Cannot activate cancelled Task''
      | Task_Active \<Rightarrow> Inr task
      | Task_Draft \<Rightarrow> andThen (toISOString now) (\<lambda>timestamp.
          Inr (task\<lparr>tk_status := Task_Active, tk_updatedAt := timestamp\<rparr>)))"

definition retireTask ::
    "(string \<Rightarrow> string) \<Rightarrow> task \<Rightarrow> task_actor \<Rightarrow> string \<Rightarrow> string option \<Rightarrow> bool \<Rightarrow> date \<Rightarrow> task result" where
  "retireTask sha256 task actor summaryText replacement isolated now =
     andThen (validateTask sha256 task) (\<lambda>_.
     andThen (requireText summaryText ''Task retirement summary'') (\<lambda>summary.
     andThen (whenSome replacement (\<lambda>r.
       andThen (requireIdentity r ''Replacement Task id'') (\<lambda>replacementTaskId.
         refuse (replacementTaskId = tk_id task) ''A Task cannot replace itself.''))) (\<lambda>_.
       if tk_status task = Task_Cancelled then
         (if tk_retiredBy task = Some actor \<and> tk_retirementSummary task = Some summary
             \<and> tk_replacementTaskId task = replacement
          then Inr task else throw ''Task already has an explicit retirement'')
       else if tk_status task = Task_Archived \<or> tk_status task = Task_Completed
       then throw ''Task cannot be retired''
       else andThen (toISOString now) (\<lambda>timestamp.
         validateTask sha256 (task\<lparr>
           tk_status := Task_Cancelled, tk_retiredAt := Some timestamp, tk_retiredBy := Some actor,
           tk_retirementSummary := Some summary,
           tk_retirementIsolation := (isolated \<or> tk_retirementIsolation task),
           tk_replacementTaskId := (case replacement of None \<Rightarrow> tk_replacementTaskId task | Some r \<Rightarrow> Some r),
           tk_updatedAt := timestamp\<rparr>)))))"

definition completeTask ::
    "task \<Rightarrow> date \<Rightarrow> task_actor \<Rightarrow> string \<Rightarrow> string list option \<Rightarrow> task result" where
  "completeTask task now actor summary artifactRefs =
     (if tk_status task = Task_Completed then Inr task
      else if tk_status task \<noteq> Task_Active then throw ''Only an active Task can be completed''
      else andThen (toISOString now) (\<lambda>timestamp.
        andThen (requireText summary ''Task completion summary'') (\<lambda>text.
        andThen (optionally (\<lambda>refs. traverse (\<lambda>ref. requireText ref ''Artifact ref'') refs) artifactRefs) (\<lambda>refs.
          Inr (task\<lparr>tk_status := Task_Completed, tk_completedAt := Some timestamp,
            tk_completedBy := Some actor, tk_completionSummary := Some text,
            tk_completionArtifactRefs := (case refs of None \<Rightarrow> tk_completionArtifactRefs task | Some rs \<Rightarrow> Some rs),
            tk_updatedAt := timestamp\<rparr>)))))"

definition without_outcome :: "task \<Rightarrow> task" where
  \<comment> \<open>the rest of the destructuring that drops the completion and the retirement\<close>
  "without_outcome task = task\<lparr>tk_completedAt := None, tk_completedBy := None, tk_completionSummary := None,
     tk_completionArtifactRefs := None, tk_retiredAt := None, tk_retiredBy := None,
     tk_retirementSummary := None, tk_replacementTaskId := None, tk_retirementIsolation := False\<rparr>"

definition reopenTask :: "(string \<Rightarrow> string) \<Rightarrow> task \<Rightarrow> date \<Rightarrow> task result" where
  "reopenTask sha256 task now =
     (if tk_status task = Task_Archived then throw ''Cannot reopen archived Task''
      else if tk_status task \<noteq> Task_Completed \<and> tk_status task \<noteq> Task_Cancelled
      then throw ''Only a completed or cancelled Task can be reopened''
      else andThen
        (case tk_activationRequest task of
           None \<Rightarrow> Inr None
         | Some request \<Rightarrow>
             if ar_disposition request = Act_Pending
             then andThen (toISOString now) (\<lambda>timestamp.
               andThen (cancelTaskActivationRequest request
                 (''Task was completed and reopened at '' @ timestamp @ ''; request superseded.'') now) (\<lambda>r. Inr (Some r)))
             else Inr (Some request)) (\<lambda>request.
        andThen (toISOString now) (\<lambda>timestamp.
          validateTask sha256 ((without_outcome task)\<lparr>tk_activationRequest := request,
            tk_status := Task_Active, tk_executionState := Exec_Enabled, tk_updatedAt := timestamp\<rparr>))))"

record archive_input =
  av_by :: task_actor
  av_reason :: "string option"
  av_summary :: "string option"

definition archiveTask :: "(string \<Rightarrow> string) \<Rightarrow> task \<Rightarrow> date \<Rightarrow> archive_input option \<Rightarrow> task result" where
  "archiveTask sha256 task now archive =
     (if tk_status task = Task_Archived then Inr task
      else if tk_status task \<noteq> Task_Completed \<and> tk_status task \<noteq> Task_Cancelled
      then throw ''Only a completed or cancelled Task can be archived''
      else andThen (toISOString now) (\<lambda>timestamp.
        validateTask sha256 (task\<lparr>tk_status := Task_Archived, tk_archivedAt := Some timestamp,
          tk_archivedBy := Some (case archive of None \<Rightarrow> By_User | Some a \<Rightarrow> av_by a),
          tk_archiveReason := (case Option.bind archive av_reason of
             None \<Rightarrow> tk_archiveReason task | Some t \<Rightarrow> Some (js_trim t)),
          tk_archiveSummary := (case Option.bind archive av_summary of
             None \<Rightarrow> tk_archiveSummary task | Some t \<Rightarrow> Some (js_trim t)),
          tk_updatedAt := timestamp\<rparr>)))"

definition updateTaskArchived ::
    "(string \<Rightarrow> string) \<Rightarrow> task \<Rightarrow> bool \<Rightarrow> date \<Rightarrow> archive_input option \<Rightarrow> task result" where
  "updateTaskArchived sha256 task archived now archive =
     (if archived then archiveTask sha256 task now archive
      else if tk_status task = Task_Archived then throw ''Cannot reopen archived Task''
      else andThen (toISOString now) (\<lambda>timestamp. Inr (task\<lparr>tk_updatedAt := timestamp\<rparr>)))"

definition commitMap :: "(string \<times> string) list \<Rightarrow> string \<Rightarrow> (string \<times> string) list result" where
  \<comment> \<open>the entries of \<open>new Map(commits.map(...))\<close>\<close>
  "commitMap commits label = traverse (\<lambda>(projectId, commit).
     andThen (requireIdentity projectId ''Project id'') (\<lambda>p.
     andThen (requireCommit commit label) (\<lambda>c. Inr (p, c)))) commits"

definition map_get :: "(string \<times> string) list \<Rightarrow> string \<Rightarrow> string option" where
  \<comment> \<open>\<open>byProject.get(k)\<close>: the last entry of a key wins\<close>
  "map_get entries k = map_of (rev entries) k"

definition scope_mismatch :: "task \<Rightarrow> (string \<times> string) list \<Rightarrow> bool" where
  "scope_mismatch task entries \<longleftrightarrow>
     (let size = length (remdups (map fst entries)) in
        size \<noteq> length entries \<or> size \<noteq> length (tk_projectBindings task)
        \<or> list_ex (\<lambda>b. map_get entries (pb_projectId b) = None) (tk_projectBindings task))"

definition bound_commit :: "(string \<times> string) list \<Rightarrow> project_binding \<Rightarrow> project_binding" where
  "bound_commit entries b = b\<lparr>pb_baseCommit := map_get entries (pb_projectId b),
     pb_currentCommit := map_get entries (pb_projectId b)\<rparr>"

definition bindTaskProjectCommits ::
    "(string \<Rightarrow> string) \<Rightarrow> task \<Rightarrow> (string \<times> string) list \<Rightarrow> date \<Rightarrow> task result" where
  "bindTaskProjectCommits sha256 task commits now =
     andThen (validateTask sha256 task) (\<lambda>_.
       if tk_status task \<noteq> Task_Draft
       then throw ''Task Project commits can only be bound during Draft activation''
       else andThen (commitMap commits ''Task Project commit'') (\<lambda>byProject.
         if scope_mismatch task byProject then throw ''Task Project commit scope does not match its bindings''
         else andThen (toISOString now) (\<lambda>timestamp.
           validateTask sha256 (task\<lparr>
             tk_projectBindings := map (bound_commit byProject) (tk_projectBindings task),
             tk_updatedAt := timestamp\<rparr>))))"

definition advanced_binding :: "string \<Rightarrow> string \<Rightarrow> string \<Rightarrow> project_binding \<Rightarrow> project_binding result" where
  "advanced_binding projectId expected next_commit b =
     (if pb_projectId b \<noteq> projectId then Inr b
      else if pb_currentCommit b \<noteq> Some expected then throw ''Task Project current commit moved''
      else Inr (b\<lparr>pb_currentCommit := Some next_commit\<rparr>))"

definition advanceTaskProjectCommit ::
    "(string \<Rightarrow> string) \<Rightarrow> task \<Rightarrow> string \<Rightarrow> string \<Rightarrow> string \<Rightarrow> date \<Rightarrow> task result" where
  "advanceTaskProjectCommit sha256 task projectId expectedCommit nextCommit now =
     andThen (validateTask sha256 task) (\<lambda>_.
     andThen (requireCommit expectedCommit ''Expected Task Project commit'') (\<lambda>expected.
     andThen (requireCommit nextCommit ''Next Task Project commit'') (\<lambda>next_commit.
     andThen (traverse (advanced_binding projectId expected next_commit) (tk_projectBindings task)) (\<lambda>bindings.
       if \<not> list_ex (\<lambda>b. pb_projectId b = projectId) (tk_projectBindings task)
       then throw ''Task Project binding not found''
       else andThen (toISOString now) (\<lambda>timestamp.
         validateTask sha256 (task\<lparr>tk_projectBindings := bindings, tk_updatedAt := timestamp\<rparr>))))))"

definition synchronized_binding :: "(string \<times> string) list \<Rightarrow> project_binding \<Rightarrow> project_binding" where
  "synchronized_binding entries b =
     (if pb_baseCommit b = None then bound_commit entries b
      else b\<lparr>pb_currentCommit := map_get entries (pb_projectId b)\<rparr>)"

definition synchronizeTaskProjectCommits ::
    "(string \<Rightarrow> string) \<Rightarrow> task \<Rightarrow> (string \<times> string) list \<Rightarrow> date \<Rightarrow> task result" where
  "synchronizeTaskProjectCommits sha256 task commits now =
     andThen (validateTask sha256 task) (\<lambda>_.
     andThen (commitMap commits ''Task Project current commit'') (\<lambda>byProject.
       if scope_mismatch task byProject then throw ''Task Project commit scope does not match its bindings''
       else let bindings = map (synchronized_binding byProject) (tk_projectBindings task)
         in if map pb_currentCommit bindings = map pb_currentCommit (tk_projectBindings task) then Inr task
            else andThen (toISOString now) (\<lambda>timestamp.
              validateTask sha256 (task\<lparr>tk_projectBindings := bindings, tk_updatedAt := timestamp\<rparr>))))"

definition applyOptional :: "'a option option \<Rightarrow> 'a option \<Rightarrow> 'a option" where
  "applyOptional v old = (case v of None \<Rightarrow> old | Some new \<Rightarrow> new)"

definition updateTaskMetadata :: "task \<Rightarrow> metadata_update \<Rightarrow> date \<Rightarrow> task result" where
  "updateTaskMetadata task m now =
     andThen (toISOString now) (\<lambda>timestamp.
     andThen (optionally (\<lambda>t. requireText t ''Task title'') (mu_title m)) (\<lambda>title.
     andThen (optionally normalizeProjectBindings (mu_projectBindings m)) (\<lambda>bindings.
     andThen (optionally (\<lambda>c. requireText c ''Task workspace'') (mu_cwd m)) (\<lambda>cwd. Inr (task\<lparr>
       tk_title := (case title of None \<Rightarrow> tk_title task | Some t \<Rightarrow> t),
       tk_type := applyOptional (mu_type m) (tk_type task),
       tk_description := applyOptional (mu_description m) (tk_description task),
       tk_priority := applyOptional (mu_priority m) (tk_priority task),
       tk_tags := applyOptional (mu_tags m) (tk_tags task),
       tk_dueAt := applyOptional (mu_dueAt m) (tk_dueAt task),
       tk_projectBindings := (case bindings of None \<Rightarrow> tk_projectBindings task | Some bs \<Rightarrow> bs),
       tk_cwd := (case cwd of None \<Rightarrow> tk_cwd task | Some c \<Rightarrow> Some c),
       tk_updatedAt := timestamp\<rparr>)))))"

definition updateTaskWorkspace :: "task \<Rightarrow> string \<Rightarrow> date \<Rightarrow> task result" where
  "updateTaskWorkspace task cwd now =
     andThen (requireText cwd ''Task workspace'') (\<lambda>c.
     andThen (toISOString now) (\<lambda>timestamp. Inr (task\<lparr>tk_cwd := Some c, tk_updatedAt := timestamp\<rparr>)))"

definition isTaskArchived :: "task \<Rightarrow> bool" where
  "isTaskArchived task \<longleftrightarrow> tk_status task = Task_Archived"

definition isTaskExecutionEnabled :: "task \<Rightarrow> bool" where
  "isTaskExecutionEnabled task \<longleftrightarrow> tk_executionState task = Exec_Enabled"

definition taskOwnsManagedWorkspace :: "task \<Rightarrow> bool" where
  "taskOwnsManagedWorkspace task \<longleftrightarrow> tk_projectBindings task \<noteq> [] \<or> tk_cwd task \<noteq> None"

definition stopTaskExecution :: "(string \<Rightarrow> string) \<Rightarrow> task \<Rightarrow> date \<Rightarrow> task result" where
  "stopTaskExecution sha256 task now =
     andThen (validateTask sha256 task) (\<lambda>_.
       if tk_status task \<noteq> Task_Active \<and> tk_status task \<noteq> Task_Draft then throw ''Only an open Task can be stopped''
       else if tk_executionState task = Exec_Stopped then Inr task
       else andThen (toISOString now) (\<lambda>timestamp.
         validateTask sha256 (task\<lparr>tk_executionState := Exec_Stopped, tk_updatedAt := timestamp\<rparr>)))"

definition startTaskExecution :: "(string \<Rightarrow> string) \<Rightarrow> task \<Rightarrow> date \<Rightarrow> task result" where
  "startTaskExecution sha256 task now =
     andThen (validateTask sha256 task) (\<lambda>_.
       if tk_status task \<noteq> Task_Active \<and> tk_status task \<noteq> Task_Draft then throw ''Only an open Task can be started''
       else if tk_executionState task = Exec_Enabled then Inr task
       else andThen (toISOString now) (\<lambda>timestamp.
         validateTask sha256 (task\<lparr>tk_executionState := Exec_Enabled, tk_updatedAt := timestamp\<rparr>)))"

definition taskProjectBinding :: "task \<Rightarrow> string \<Rightarrow> project_binding option" where
  "taskProjectBinding task projectId = find (\<lambda>b. pb_projectId b = projectId) (tk_projectBindings task)"

definition taskHasProjects :: "task \<Rightarrow> bool" where
  "taskHasProjects task \<longleftrightarrow> tk_projectBindings task \<noteq> []"

definition taskProjectIds :: "task \<Rightarrow> string list" where
  "taskProjectIds task = map pb_projectId (tk_projectBindings task)"

definition addTaskProjectBinding :: "(string \<Rightarrow> string) \<Rightarrow> task \<Rightarrow> project_binding \<Rightarrow> date \<Rightarrow> task result" where
  "addTaskProjectBinding sha256 task binding now =
     (if taskProjectBinding task (pb_projectId binding) \<noteq> None then throw ''Task already contains Project''
      else andThen (normalizeProjectBindings (tk_projectBindings task @ [binding])) (\<lambda>bindings.
        andThen (toISOString now) (\<lambda>timestamp.
          validateTask sha256 (task\<lparr>tk_projectBindings := bindings, tk_updatedAt := timestamp\<rparr>))))"

text \<open>
  One call on a stored Task: the operation, then \<open>saveTask\<close>, which validates the record again (it also
  asks that the Projects exist, which depends on another table).
\<close>

datatype task_op =
    BindIdentity workspace_identity
  | SetRequest activation_request
  | RequestEvidence string evidence
  | ActivateTask
  | BindCommits "(string \<times> string) list"
  | AdvanceCommit string string string
  | SyncCommits "(string \<times> string) list"
  | RetireTask task_actor string "string option" bool
  | CompleteTask task_actor string "string list option"
  | ReopenTask
  | SetArchived bool "archive_input option"
  | UpdateMetadata metadata_update
  | UpdateWorkspace string
  | StopExecution
  | StartExecution
  | AddBinding project_binding

fun task_apply :: "(string \<Rightarrow> string) \<Rightarrow> task \<Rightarrow> task_op \<Rightarrow> date \<Rightarrow> task result" where
  "task_apply sha t (BindIdentity w) now = bindTaskWorkspaceIdentity sha t w now"
| "task_apply sha t (SetRequest r) now = setTaskActivationRequest sha t r now"
| "task_apply sha t (RequestEvidence i e) now = recordTaskActivationRequestEvidence sha t i e now"
| "task_apply sha t ActivateTask now = activateTask t now"
| "task_apply sha t (BindCommits cs) now = bindTaskProjectCommits sha t cs now"
| "task_apply sha t (AdvanceCommit p old new) now = advanceTaskProjectCommit sha t p old new now"
| "task_apply sha t (SyncCommits cs) now = synchronizeTaskProjectCommits sha t cs now"
| "task_apply sha t (RetireTask actor s r i) now = retireTask sha t actor s r i now"
| "task_apply sha t (CompleteTask actor s refs) now = completeTask t now actor s refs"
| "task_apply sha t ReopenTask now = reopenTask sha t now"
| "task_apply sha t (SetArchived archived a) now = updateTaskArchived sha t archived now a"
| "task_apply sha t (UpdateMetadata m) now = updateTaskMetadata t m now"
| "task_apply sha t (UpdateWorkspace cwd) now = updateTaskWorkspace t cwd now"
| "task_apply sha t StopExecution now = stopTaskExecution sha t now"
| "task_apply sha t StartExecution now = startTaskExecution sha t now"
| "task_apply sha t (AddBinding b) now = addTaskProjectBinding sha t b now"

definition saveTask :: "(string \<Rightarrow> string) \<Rightarrow> task \<Rightarrow> task result" where
  "saveTask sha256 task =
     andThen (validateTask sha256 task) (\<lambda>_.
       if tk_id task = [] then throw ''Task id is required.'' else Inr task)"

fun task_step :: "(string \<Rightarrow> string) \<Rightarrow> task \<Rightarrow> task_op \<times> date \<Rightarrow> task result" where
  "task_step sha t (op, now) = andThen (task_apply sha t op now) (saveTask sha)"

subsection \<open>The lifecycle\<close>

interpretation task: record_validator "validateTask sha" for sha
  by unfold_locales (simp add: validateTask_def)

definition task_valid :: "(string \<Rightarrow> string) \<Rightarrow> task \<Rightarrow> bool" where
  "task_valid sha t \<longleftrightarrow> isOk (validateTask sha t)"

lemma validateTask_eq [simp]: "validateTask sha t = Inr t' \<longleftrightarrow> task_valid sha t \<and> t' = t"
  using task.returns_self [of sha t t'] task.ok_eq [of sha t] by (auto simp: task_valid_def)

text \<open>From which status an operation is possible, and where it leads.\<close>

fun task_lifecycle :: "task_status \<Rightarrow> task_op \<Rightarrow> task_status option" where
  "task_lifecycle Task_Draft ActivateTask = Some Task_Active"
| "task_lifecycle Task_Active ActivateTask = Some Task_Active"
| "task_lifecycle s ActivateTask = None"
| "task_lifecycle Task_Draft (RetireTask _ _ _ _) = Some Task_Cancelled"
| "task_lifecycle Task_Active (RetireTask _ _ _ _) = Some Task_Cancelled"
| "task_lifecycle Task_Cancelled (RetireTask _ _ _ _) = Some Task_Cancelled"
| "task_lifecycle s (RetireTask _ _ _ _) = None"
| "task_lifecycle Task_Active (CompleteTask _ _ _) = Some Task_Completed"
| "task_lifecycle Task_Completed (CompleteTask _ _ _) = Some Task_Completed"
| "task_lifecycle s (CompleteTask _ _ _) = None"
| "task_lifecycle Task_Completed ReopenTask = Some Task_Active"
| "task_lifecycle Task_Cancelled ReopenTask = Some Task_Active"
| "task_lifecycle s ReopenTask = None"
| "task_lifecycle Task_Completed (SetArchived True _) = Some Task_Archived"
| "task_lifecycle Task_Cancelled (SetArchived True _) = Some Task_Archived"
| "task_lifecycle Task_Archived (SetArchived True _) = Some Task_Archived"
| "task_lifecycle s (SetArchived True _) = None"
| "task_lifecycle s (SetArchived False _) = (if s = Task_Archived then None else Some s)"
| "task_lifecycle s (BindCommits _) = (if s = Task_Draft then Some s else None)"
| "task_lifecycle s StopExecution = (if s = Task_Draft \<or> s = Task_Active then Some s else None)"
| "task_lifecycle s StartExecution = (if s = Task_Draft \<or> s = Task_Active then Some s else None)"
| "task_lifecycle s _ = Some s"

definition task_ended :: "task_status \<Rightarrow> bool" where
  "task_ended s \<longleftrightarrow> s = Task_Completed \<or> s = Task_Cancelled \<or> s = Task_Archived"

lemmas task_ops = bindTaskWorkspaceIdentity_def setTaskActivationRequest_def
  recordTaskActivationRequestEvidence_def recordSettledEvidence_def activateTask_def
  bindTaskProjectCommits_def advanceTaskProjectCommit_def synchronizeTaskProjectCommits_def
  retireTask_def completeTask_def reopenTask_def archiveTask_def updateTaskArchived_def
  updateTaskMetadata_def updateTaskWorkspace_def stopTaskExecution_def startTaskExecution_def
  addTaskProjectBinding_def

lemma saveTask_eq [simp]: "saveTask sha t = Inr t' \<longleftrightarrow> task_valid sha t \<and> tk_id t \<noteq> [] \<and> t' = t"
  by (auto simp: saveTask_def)

definition task_identity :: "task \<Rightarrow> string \<times> string" where
  "task_identity t = (tk_id t, tk_createdAt t)"

definition same_phase :: "task \<Rightarrow> task \<Rightarrow> bool" where
  "same_phase t t' \<longleftrightarrow> tk_status t' = tk_status t \<and> task_identity t' = task_identity t"

lemma same_phase_refl [simp]: "same_phase t t"
  by (simp add: same_phase_def)

lemma phase_bind_identity: "bindTaskWorkspaceIdentity sha t w now = Inr t' \<Longrightarrow> same_phase t t'"
  by (auto simp: bindTaskWorkspaceIdentity_def same_phase_def task_identity_def split: option.splits if_split_asm)

lemma phase_set_request: "setTaskActivationRequest sha t r now = Inr t' \<Longrightarrow> same_phase t t'"
  by (auto simp: setTaskActivationRequest_def same_phase_def task_identity_def Let_def)

lemma phase_settled_evidence: "recordSettledEvidence sha t i e now = Inr t' \<Longrightarrow> same_phase t t'"
  by (auto simp: recordSettledEvidence_def same_phase_def task_identity_def split: option.splits)

lemma phase_evidence: "recordTaskActivationRequestEvidence sha t i e now = Inr t' \<Longrightarrow> same_phase t t'"
  by (auto simp: recordTaskActivationRequestEvidence_def same_phase_def task_identity_def
      dest: phase_settled_evidence [unfolded same_phase_def task_identity_def] split: option.splits if_split_asm)

lemma phase_commits:
  "bindTaskProjectCommits sha t cs now = Inr t' \<Longrightarrow> same_phase t t' \<and> tk_status t = Task_Draft"
  "advanceTaskProjectCommit sha t i old new now = Inr t' \<Longrightarrow> same_phase t t'"
  "synchronizeTaskProjectCommits sha t cs now = Inr t' \<Longrightarrow> same_phase t t'"
  "addTaskProjectBinding sha t b now = Inr t' \<Longrightarrow> same_phase t t'"
  by (auto simp: bindTaskProjectCommits_def advanceTaskProjectCommit_def synchronizeTaskProjectCommits_def
      addTaskProjectBinding_def same_phase_def task_identity_def Let_def split: if_split_asm)

lemma phase_metadata:
  "updateTaskMetadata t m now = Inr t' \<Longrightarrow> same_phase t t'"
  "updateTaskWorkspace t c now = Inr t' \<Longrightarrow> same_phase t t'"
  by (auto simp: updateTaskMetadata_def updateTaskWorkspace_def same_phase_def task_identity_def)

lemma phase_execution:
  "stopTaskExecution sha t now = Inr t' \<Longrightarrow> same_phase t t' \<and> (tk_status t = Task_Draft \<or> tk_status t = Task_Active)"
  "startTaskExecution sha t now = Inr t' \<Longrightarrow> same_phase t t' \<and> (tk_status t = Task_Draft \<or> tk_status t = Task_Active)"
  by (auto simp: stopTaskExecution_def startTaskExecution_def same_phase_def task_identity_def split: if_split_asm)

lemma phase_activate:
  "activateTask t now = Inr t' \<Longrightarrow> (tk_status t = Task_Draft \<or> tk_status t = Task_Active)
     \<and> tk_status t' = Task_Active \<and> task_identity t' = task_identity t"
  by (cases "tk_status t") (auto simp: activateTask_def task_identity_def)

lemma phase_retire:
  "retireTask sha t actor s r i now = Inr t' \<Longrightarrow> tk_status t \<in> {Task_Draft, Task_Active, Task_Cancelled}
     \<and> tk_status t' = Task_Cancelled \<and> task_identity t' = task_identity t"
  by (cases "tk_status t") (auto simp: retireTask_def task_identity_def split: if_split_asm)

lemma phase_complete:
  "completeTask t now actor s refs = Inr t' \<Longrightarrow> tk_status t \<in> {Task_Active, Task_Completed}
     \<and> tk_status t' = Task_Completed \<and> task_identity t' = task_identity t"
  by (auto simp: completeTask_def task_identity_def split: if_split_asm)

lemma phase_reopen:
  "reopenTask sha t now = Inr t' \<Longrightarrow> tk_status t \<in> {Task_Completed, Task_Cancelled}
     \<and> tk_status t' = Task_Active \<and> task_identity t' = task_identity t"
  by (auto simp: reopenTask_def without_outcome_def task_identity_def)

lemma phase_archived:
  "updateTaskArchived sha t archived now a = Inr t' \<Longrightarrow>
     (if archived then tk_status t \<in> {Task_Completed, Task_Cancelled, Task_Archived} \<and> tk_status t' = Task_Archived
      else tk_status t \<noteq> Task_Archived \<and> tk_status t' = tk_status t) \<and> task_identity t' = task_identity t"
  by (auto simp: updateTaskArchived_def archiveTask_def task_identity_def split: if_split_asm)

lemma lifecycle_archived [simp]:
  "task_lifecycle s (SetArchived archived a) =
     (if archived then if task_ended s then Some Task_Archived else None
      else if s = Task_Archived then None else Some s)"
  by (cases archived; cases s) (auto simp: task_ended_def)

lemma task_lifecycle_sound:
  assumes "task_apply sha t op now = Inr t'"
  shows "task_lifecycle (tk_status t) op = Some (tk_status t') \<and> task_identity t' = task_identity t"
proof (cases op)
  case (SetArchived archived a)
  with assms phase_archived [of sha t archived now a t'] show ?thesis
    by (auto simp: task_ended_def split: if_split_asm)
qed (use assms in \<open>auto simp: same_phase_def dest!: phase_bind_identity phase_set_request phase_evidence phase_commits
    phase_metadata phase_execution phase_activate phase_retire phase_complete phase_reopen\<close>)

fun run_lifecycle :: "task_status \<Rightarrow> task_op list \<Rightarrow> task_status option" where
  "run_lifecycle s [] = Some s"
| "run_lifecycle s (op # ops) = Option.bind (task_lifecycle s op) (\<lambda>s'. run_lifecycle s' ops)"

interpretation stored_task: step_order "task_step sha" "task_valid sha"
  "\<lambda>a b. task_identity b = task_identity a \<and> (tk_status a = Task_Archived \<longrightarrow> tk_status b = Task_Archived)" for sha
proof
  show "task_valid sha t'" if "task_step sha t e = Inr t'" for t e t'
    using that by (cases e) auto
  show "task_identity t' = task_identity t \<and> (tk_status t = Task_Archived \<longrightarrow> tk_status t' = Task_Archived)"
    if "task_step sha t e = Inr t'" for t e t'
  proof (cases e)
    case (Pair op now)
    with that have "task_lifecycle (tk_status t) op = Some (tk_status t') \<and> task_identity t' = task_identity t"
      using task_lifecycle_sound [of sha t op now t'] by auto
    moreover have "s = Task_Archived" if "task_lifecycle Task_Archived op = Some s" for s
      using that by (cases op) (auto split: if_split_asm)
    ultimately show ?thesis by auto
  qed
qed auto

lemma run_task_lifecycle:
  "run_steps (task_step sha) t ops = Inr t' \<Longrightarrow> run_lifecycle (tk_status t) (map fst ops) = Some (tk_status t')"
proof (induction ops arbitrary: t)
  case (Cons e ops)
  obtain op now where e: "e = (op, now)" by (cases e)
  with Cons.prems obtain u where "task_apply sha t op now = Inr u" "run_steps (task_step sha) u ops = Inr t'"
    by auto
  with Cons.IH e task_lifecycle_sound [of sha t op now u] show ?case by simp
qed simp

text \<open>The recorded outcome of a Task, and what validation says about it.\<close>

definition task_outcome :: "task \<Rightarrow> (string option \<times> task_actor option \<times> string option) \<times>
    (string option \<times> task_actor option \<times> string option \<times> string option)" where
  "task_outcome t = ((tk_completedAt t, tk_completedBy t, tk_completionSummary t),
     (tk_retiredAt t, tk_retiredBy t, tk_retirementSummary t, tk_replacementTaskId t))"

lemma valid_outcome:
  assumes "task_valid sha t"
  shows "tk_status t = Task_Completed \<Longrightarrow> has_all_completion t"
    and "tk_status t \<in> {Task_Draft, Task_Active, Task_Cancelled} \<Longrightarrow> \<not> has_any_completion t"
    and "tk_status t = Task_Cancelled \<Longrightarrow>
      tk_retiredAt t \<noteq> None \<and> tk_retiredBy t \<noteq> None \<and> tk_retirementSummary t \<noteq> None"
    and "tk_status t \<in> {Task_Draft, Task_Active, Task_Completed} \<Longrightarrow> \<not> has_any_retirement t"
    and "tk_status t = Task_Archived \<Longrightarrow> has_all_completion t \<noteq> has_any_retirement t \<and> tk_archivedBy t \<noteq> None"
  using assms
  by (auto simp: task_valid_def validateTask_def validateCompletion_def validateRetirement_def validateArchive_def
      split: if_split_asm)

definition keeps_outcome :: "task \<Rightarrow> task \<Rightarrow> bool" where
  "keeps_outcome t t' \<longleftrightarrow> task_outcome t' = task_outcome t"

lemma outcome_bind_identity: "bindTaskWorkspaceIdentity sha t w now = Inr t' \<Longrightarrow> keeps_outcome t t'"
  by (auto simp: bindTaskWorkspaceIdentity_def keeps_outcome_def task_outcome_def split: option.splits if_split_asm)

lemma outcome_set_request: "setTaskActivationRequest sha t r now = Inr t' \<Longrightarrow> keeps_outcome t t'"
  by (auto simp: setTaskActivationRequest_def Let_def keeps_outcome_def task_outcome_def)

lemma outcome_settled: "recordSettledEvidence sha t i e now = Inr t' \<Longrightarrow> keeps_outcome t t'"
  by (auto simp: recordSettledEvidence_def keeps_outcome_def task_outcome_def split: option.splits)

lemma outcome_bind_commits: "bindTaskProjectCommits sha t cs now = Inr t' \<Longrightarrow> keeps_outcome t t'"
  by (auto simp: bindTaskProjectCommits_def keeps_outcome_def task_outcome_def)

lemma outcome_advance: "advanceTaskProjectCommit sha t i old new now = Inr t' \<Longrightarrow> keeps_outcome t t'"
  by (auto simp: advanceTaskProjectCommit_def keeps_outcome_def task_outcome_def)

lemma outcome_sync: "synchronizeTaskProjectCommits sha t cs now = Inr t' \<Longrightarrow> keeps_outcome t t'"
  by (auto simp: synchronizeTaskProjectCommits_def Let_def keeps_outcome_def task_outcome_def split: if_split_asm)

lemma outcome_add: "addTaskProjectBinding sha t b now = Inr t' \<Longrightarrow> keeps_outcome t t'"
  by (auto simp: addTaskProjectBinding_def keeps_outcome_def task_outcome_def)

lemma outcome_metadata: "updateTaskMetadata t m now = Inr t' \<Longrightarrow> keeps_outcome t t'"
  by (auto simp: updateTaskMetadata_def keeps_outcome_def task_outcome_def)

lemma outcome_workspace: "updateTaskWorkspace t c now = Inr t' \<Longrightarrow> keeps_outcome t t'"
  by (auto simp: updateTaskWorkspace_def keeps_outcome_def task_outcome_def)

lemma outcome_stop: "stopTaskExecution sha t now = Inr t' \<Longrightarrow> keeps_outcome t t'"
  by (auto simp: stopTaskExecution_def keeps_outcome_def task_outcome_def split: if_split_asm)

lemma outcome_start: "startTaskExecution sha t now = Inr t' \<Longrightarrow> keeps_outcome t t'"
  by (auto simp: startTaskExecution_def keeps_outcome_def task_outcome_def split: if_split_asm)

lemma outcome_archived: "updateTaskArchived sha t archived now a = Inr t' \<Longrightarrow> keeps_outcome t t'"
  by (auto simp: updateTaskArchived_def archiveTask_def keeps_outcome_def task_outcome_def split: if_split_asm)

lemma outcome_activate: "activateTask t now = Inr t' \<Longrightarrow> keeps_outcome t t'"
  by (auto simp: activateTask_def keeps_outcome_def task_outcome_def split: task_status.splits)

lemmas outcome_other = outcome_bind_identity outcome_set_request outcome_settled
  outcome_bind_commits outcome_advance outcome_sync outcome_add outcome_metadata
  outcome_workspace outcome_stop outcome_start outcome_archived outcome_activate

lemma outcome_evidence: "recordTaskActivationRequestEvidence sha t i e now = Inr t' \<Longrightarrow> keeps_outcome t t'"
  by (auto simp: recordTaskActivationRequestEvidence_def keeps_outcome_def task_outcome_def
      dest: outcome_settled [unfolded keeps_outcome_def task_outcome_def] split: option.splits if_split_asm)

lemma outcome_ended:
  assumes "task_ended (tk_status t)"
  shows "retireTask sha t actor s r i now = Inr t' \<Longrightarrow> keeps_outcome t t'"
    and "completeTask t now actor s refs = Inr t' \<Longrightarrow> keeps_outcome t t'"
  using assms
  by (auto simp: retireTask_def completeTask_def task_ended_def keeps_outcome_def split: if_split_asm)

lemma step_keeps_outcome:
  assumes "task_ended (tk_status t)" and "task_step sha t (op, now) = Inr t'" and "op \<noteq> ReopenTask"
  shows "keeps_outcome t t' \<and> task_ended (tk_status t')"
proof -
  have a: "task_apply sha t op now = Inr t'" using assms(2) by auto
  then have "keeps_outcome t t'"
    using assms(3) outcome_ended [OF assms(1)] outcome_other outcome_evidence by (cases op) auto
  moreover have "task_ended (tk_status t')"
    using task_lifecycle_sound [OF a] assms(1,3)
    by (cases op; cases "tk_status t") (auto simp: task_ended_def split: if_split_asm)
  ultimately show ?thesis by simp
qed

lemma run_keeps_outcome:
  "task_ended (tk_status t) \<Longrightarrow> run_steps (task_step sha) t ops = Inr t' \<Longrightarrow> ReopenTask \<notin> fst ` set ops
     \<Longrightarrow> keeps_outcome t t' \<and> task_ended (tk_status t')"
proof (induction ops arbitrary: t)
  case Nil
  then show ?case by (simp add: keeps_outcome_def)
next
  case (Cons e ops)
  obtain op now where e: "e = (op, now)" by (cases e)
  with Cons.prems obtain u where u: "task_step sha t (op, now) = Inr u" "run_steps (task_step sha) u ops = Inr t'"
    by (auto simp del: task_step.simps)
  with step_keeps_outcome [OF Cons.prems(1) u(1)] Cons.IH [OF _ u(2)] Cons.prems(3) e
  show ?case by (auto simp: keeps_outcome_def)
qed

subsection \<open>Commits of the Projects\<close>

definition binding_ok :: "project_binding \<Rightarrow> bool" where
  "binding_ok b \<longleftrightarrow> identity_ok (pb_projectId b) \<and> identity_ok (pb_directory b) \<and> text_ok (pb_baseRef b)
     \<and> (\<forall>c. pb_baseCommit b = Some c \<longrightarrow> commit_text_ok c) \<and> (\<forall>c. pb_currentCommit b = Some c \<longrightarrow> commit_text_ok c)
     \<and> (pb_baseCommit b = None \<longleftrightarrow> pb_currentCommit b = None)"

definition trimmed_ids :: "project_binding list \<Rightarrow> string list" where
  "trimmed_ids bs = map (\<lambda>b. js_trim (pb_projectId b)) bs"

definition trimmed_directories :: "project_binding list \<Rightarrow> string list" where
  "trimmed_directories bs = map (\<lambda>b. js_trim (pb_directory b)) bs"

lemma optional_commit_ok: "isOk (optionally (\<lambda>c. requireCommit c l) x) \<longleftrightarrow> (\<forall>c. x = Some c \<longrightarrow> commit_text_ok c)"
  by (auto simp: isOk_optionally requireCommit_ok commit_text_ok_def)

lemma optional_commit_None: "optionally (\<lambda>c. requireCommit c l) x = Inr y \<Longrightarrow> y = None \<longleftrightarrow> x = None"
  by (cases x) auto

lemma normalizeBindings_ok:
  "isOk (normalizeBindings ps ds bs) \<longleftrightarrow> list_all binding_ok bs
     \<and> distinct (trimmed_ids bs) \<and> set (trimmed_ids bs) \<inter> set ps = {}
     \<and> distinct (trimmed_directories bs) \<and> set (trimmed_directories bs) \<inter> set ds = {}"
proof (induction ps ds bs rule: normalizeBindings.induct)
  case (2 ps ds b bs)
  have IH: "isOk (normalizeBindings (x # ps) (y # ds) bs) \<longleftrightarrow> list_all binding_ok bs
      \<and> distinct (trimmed_ids bs) \<and> set (trimmed_ids bs) \<inter> set (x # ps) = {}
      \<and> distinct (trimmed_directories bs) \<and> set (trimmed_directories bs) \<inter> set (y # ds) = {}"
    if "x \<notin> set ps" and "y \<notin> set ds" for x y
    by (rule 2 [where xc = None and xd = None]) (use that in simp_all)
  show ?case
  proof (cases "binding_ok b")
    case True
    then have "isOk (optionally (\<lambda>c. requireCommit c ''Task Project base commit'') (pb_baseCommit b))"
      "isOk (optionally (\<lambda>c. requireCommit c ''Task Project current commit'') (pb_currentCommit b))"
      by (simp_all add: optional_commit_ok binding_ok_def)
    then obtain base current where
      base: "optionally (\<lambda>c. requireCommit c ''Task Project base commit'') (pb_baseCommit b) = Inr base"
      and current: "optionally (\<lambda>c. requireCommit c ''Task Project current commit'') (pb_currentCommit b) = Inr current"
      unfolding isOk_iff by blast
    have none: "base = None \<longleftrightarrow> current = None"
      using True optional_commit_None [OF base] optional_commit_None [OF current] by (simp add: binding_ok_def)
    have head: "isOk (normalizeBindings ps ds (b # bs)) \<longleftrightarrow>
        js_trim (pb_projectId b) \<notin> set ps \<and> js_trim (pb_directory b) \<notin> set ds
        \<and> isOk (normalizeBindings (js_trim (pb_projectId b) # ps) (js_trim (pb_directory b) # ds) bs)"
      using True none by (simp add: base current binding_ok_def isOk_iff)
    show ?thesis
      unfolding head using IH [of "js_trim (pb_projectId b)" "js_trim (pb_directory b)"] True
      by (cases "js_trim (pb_projectId b) \<in> set ps \<or> js_trim (pb_directory b) \<in> set ds")
        (auto simp: trimmed_ids_def trimmed_directories_def)
  next
    case False
    moreover have "binding_ok b" if "isOk (normalizeBindings ps ds (b # bs))"
    proof -
      from that obtain base current where
        base: "optionally (\<lambda>c. requireCommit c ''Task Project base commit'') (pb_baseCommit b) = Inr base"
        and current: "optionally (\<lambda>c. requireCommit c ''Task Project current commit'') (pb_currentCommit b) = Inr current"
        and "(base = None) = (current = None)" "identity_ok (pb_projectId b)" "identity_ok (pb_directory b)"
        "text_ok (pb_baseRef b)"
        unfolding normalizeBindings.simps isOk_andThen isOk_if_throw requireIdentity_eq requireText_eq by blast
      then show ?thesis
        using optional_commit_None [OF base] optional_commit_None [OF current]
          optional_commit_ok [of _ "pb_baseCommit b", THEN iffD1] optional_commit_ok [of _ "pb_currentCommit b", THEN iffD1]
        unfolding binding_ok_def isOk_iff by blast
    qed
    ultimately show ?thesis by (simp del: normalizeBindings.simps) blast
  qed
qed (simp add: trimmed_ids_def trimmed_directories_def)

lemma normalizeProjectBindings_ok:
  "isOk (normalizeProjectBindings bs) \<longleftrightarrow>
     list_all binding_ok bs \<and> distinct (trimmed_ids bs) \<and> distinct (trimmed_directories bs)"
  by (simp add: normalizeProjectBindings_def normalizeBindings_ok)

lemma valid_bindings:
  assumes "task_valid sha t"
  shows "list_all binding_ok (tk_projectBindings t)" and "distinct (trimmed_ids (tk_projectBindings t))"
    and "distinct (trimmed_directories (tk_projectBindings t))"
  using assms by (simp_all add: task_valid_def validateTask_def normalizeProjectBindings_ok)

lemma rebound_outcomes [simp]:
  "has_any_completion (t\<lparr>tk_projectBindings := bs, tk_updatedAt := u\<rparr>) = has_any_completion t"
  "has_all_completion (t\<lparr>tk_projectBindings := bs, tk_updatedAt := u\<rparr>) = has_all_completion t"
  "has_any_retirement (t\<lparr>tk_projectBindings := bs, tk_updatedAt := u\<rparr>) = has_any_retirement t"
  "has_any_archive (t\<lparr>tk_projectBindings := bs, tk_updatedAt := u\<rparr>) = has_any_archive t"
  by (simp_all add: has_any_completion_def has_all_completion_def has_any_retirement_def has_any_archive_def)

lemma rebound_sections [simp]:
  "validateActivation (t\<lparr>tk_projectBindings := bs, tk_updatedAt := u\<rparr>) = validateActivation t"
  "validateCompletion (t\<lparr>tk_projectBindings := bs, tk_updatedAt := u\<rparr>) = validateCompletion t"
  "validateRetirement (t\<lparr>tk_projectBindings := bs, tk_updatedAt := u\<rparr>) = validateRetirement t"
  "validateArchive (t\<lparr>tk_projectBindings := bs, tk_updatedAt := u\<rparr>) = validateArchive t"
  by (simp_all add: validateActivation_def validateCompletion_def validateRetirement_def validateArchive_def)

lemma date_le_not_less: "date_le a b \<Longrightarrow> \<not> date_less b a"
  by (auto simp: date_le_def date_less_def split: option.splits)

lemma valid_rebound:
  assumes "task_valid sha t" and "valid_date now" and "date_le (tk_createdAt t) (iso_string now)"
  shows "task_valid sha (t\<lparr>tk_projectBindings := bs, tk_updatedAt := iso_string now\<rparr>)
    \<longleftrightarrow> isOk (normalizeProjectBindings bs)"
  using assms(1) is_date_iso [OF assms(2)] date_le_not_less [OF assms(3)]
  by (simp add: task_valid_def validateTask_def task_timestamp_def)

definition advanced :: "string \<Rightarrow> string \<Rightarrow> project_binding \<Rightarrow> project_binding" where
  "advanced projectId next_commit b =
     (if pb_projectId b = projectId then b\<lparr>pb_currentCommit := Some next_commit\<rparr> else b)"

lemma advanced_traverse:
  "traverse (advanced_binding p old new) bs = Inr cs \<longleftrightarrow>
     (\<forall>b \<in> set bs. pb_projectId b = p \<longrightarrow> pb_currentCommit b = Some old) \<and> cs = map (advanced p new) bs"
proof (induction bs arbitrary: cs)
  case (Cons b bs)
  then show ?case by (auto simp: advanced_binding_def advanced_def)
qed auto

lemma advanced_ok:
  assumes "list_all binding_ok bs" and "commit_text_ok new"
    and "\<forall>b \<in> set bs. pb_projectId b = p \<longrightarrow> pb_currentCommit b \<noteq> None"
  shows "list_all binding_ok (map (advanced p new) bs)"
  using assms by (auto simp: list_all_iff binding_ok_def advanced_def)

lemma advanced_names [simp]:
  "trimmed_ids (map (advanced p new) bs) = trimmed_ids bs"
  "trimmed_directories (map (advanced p new) bs) = trimmed_directories bs"
  by (simp_all add: trimmed_ids_def trimmed_directories_def advanced_def)

lemma commit_text_lower: "commit_text_ok c \<Longrightarrow> commit_text_ok (js_lower (js_trim c))"
  by (simp add: commit_text_ok_def commit_text js_lower_commit)

lemma bindings_unique:
  "distinct (trimmed_ids bs) \<Longrightarrow> b \<in> set bs \<Longrightarrow> c \<in> set bs \<Longrightarrow> pb_projectId b = pb_projectId c \<Longrightarrow> b = c"
  by (auto simp: trimmed_ids_def distinct_map inj_on_def)

lemma advance_eq:
  assumes "task_valid sha t" and "valid_date now" and "date_le (tk_createdAt t) (iso_string now)"
  shows "advanceTaskProjectCommit sha t p expected new now = Inr t' \<longleftrightarrow>
    commit_text_ok expected \<and> commit_text_ok new
    \<and> (\<exists>b \<in> set (tk_projectBindings t). pb_projectId b = p \<and> pb_currentCommit b = Some (js_lower (js_trim expected)))
    \<and> t' = t\<lparr>tk_projectBindings := map (advanced p (js_lower (js_trim new))) (tk_projectBindings t),
             tk_updatedAt := iso_string now\<rparr>"
    (is "?lhs \<longleftrightarrow> ?rhs")
proof -
  let ?bs = "tk_projectBindings t" and ?old = "js_lower (js_trim expected)" and ?new = "js_lower (js_trim new)"
  note bs = valid_bindings [OF assms(1)]
  have unique: "(\<forall>b \<in> set ?bs. pb_projectId b = p \<longrightarrow> pb_currentCommit b = Some ?old)
      \<and> (\<exists>b \<in> set ?bs. pb_projectId b = p)
    \<longleftrightarrow> (\<exists>b \<in> set ?bs. pb_projectId b = p \<and> pb_currentCommit b = Some ?old)"
    using bindings_unique [OF bs(2)] by metis
  have ok: "isOk (normalizeProjectBindings (map (advanced p ?new) ?bs))"
    if "commit_text_ok new" and "\<forall>b \<in> set ?bs. pb_projectId b = p \<longrightarrow> pb_currentCommit b = Some ?old"
    using bs advanced_ok [OF bs(1) commit_text_lower [OF that(1)]] that(2) by (simp add: normalizeProjectBindings_ok)
  have "?lhs \<longleftrightarrow> commit_text_ok expected \<and> commit_text_ok new
      \<and> ((\<forall>b \<in> set ?bs. pb_projectId b = p \<longrightarrow> pb_currentCommit b = Some ?old)
         \<and> (\<exists>b \<in> set ?bs. pb_projectId b = p))
      \<and> isOk (normalizeProjectBindings (map (advanced p ?new) ?bs))
      \<and> t' = t\<lparr>tk_projectBindings := map (advanced p ?new) ?bs, tk_updatedAt := iso_string now\<rparr>"
    using assms(1,2) valid_rebound [OF assms]
    by (auto simp: advanceTaskProjectCommit_def requireCommit_eq commit_text_ok_def advanced_traverse list_ex_iff)
  then show ?thesis unfolding unique using ok unique by blast
qed

subsection \<open>Properties\<close>

definition sample_sha256 :: "string \<Rightarrow> string" where
  "sample_sha256 s = replicate 64 (CHR ''a'')"

definition sample_metadata :: task_metadata where
  "sample_metadata = \<lparr>tm_type = None, tm_description = None, tm_priority = None, tm_tags = None, tm_dueAt = None,
     tm_projectBindings = None,
     tm_cwd = None\<rparr>"

definition sample_task :: task where
  "sample_task = \<lparr>tk_id = ''task-1'', tk_title = ''Title'', tk_type = None, tk_description = None,
     tk_priority = None, tk_tags = None, tk_dueAt = None,
     tk_projectBindings = [],
     tk_cwd = None, tk_workspaceIdentity = None, tk_status = Task_Draft, tk_executionState = Exec_Enabled,
     tk_activationRequest = None, tk_settledActivationRequests = None, tk_completedAt = None,
     tk_completedBy = None, tk_completionSummary = None, tk_completionArtifactRefs = None,
     tk_retiredAt = None, tk_retiredBy = None, tk_retirementSummary = None, tk_retirementIsolation = False,
     tk_replacementTaskId = None, tk_archivedAt = None, tk_archivedBy = None, tk_archiveReason = None,
     tk_archiveSummary = None, tk_createdAt = ''1970-01-01T00:00:00.000Z'', tk_updatedAt = ''1970-01-01T00:00:00.000Z''\<rparr>"

lemma sample_task_created: "createTask '' task-1'' ''Title'' 0 sample_metadata = Inr sample_task"
  by code_simp

lemma sample_task_valid: "task_valid sample_sha256 sample_task"
  unfolding task_valid_def by code_simp

text \<open>
  C36. The lifecycle of a Task is the specified one.  Every stored history of a Task goes through the
  statuses of the lifecycle and keeps the id and the creation time; the stored record is always valid,
  so a completed Task names when, by whom and with what summary it was completed, a cancelled one its
  retirement, an archived one exactly one of the two, and a draft or active one neither.  The outcome of
  a Task that ended never changes unless it is reopened, and an archived Task stays archived.
\<close>

theorem task_lifecycle_refined:
  assumes "createTask i title created metadata = Inr t0" and "saveTask sha t0 = Inr t0"
    and "run_steps (task_step sha) t0 ops = Inr t" and "run_steps (task_step sha) t later = Inr u"
  shows "run_lifecycle Task_Draft (map fst ops) = Some (tk_status t)
    \<and> tk_id t = js_trim i \<and> tk_createdAt t = iso_string created \<and> validateTask sha t = Inr t
    \<and> (tk_status t = Task_Completed \<longrightarrow> has_all_completion t \<and> \<not> has_any_retirement t)
    \<and> (tk_status t = Task_Cancelled \<longrightarrow> tk_retiredBy t \<noteq> None \<and> \<not> has_any_completion t)
    \<and> (tk_status t = Task_Archived \<longrightarrow> has_all_completion t \<noteq> has_any_retirement t)
    \<and> (tk_status t \<in> {Task_Draft, Task_Active} \<longrightarrow> \<not> has_any_completion t \<and> \<not> has_any_retirement t)
    \<and> (task_ended (tk_status t) \<and> ReopenTask \<notin> fst ` set later \<longrightarrow> task_outcome u = task_outcome t)
    \<and> (tk_status t = Task_Archived \<longrightarrow> tk_status u = Task_Archived)"
proof -
  have v0: "task_valid sha t0" using assms(2) by simp
  have s0: "tk_status t0 = Task_Draft" "tk_id t0 = js_trim i" "tk_createdAt t0 = iso_string created"
    using assms(1) by (auto simp: createTask_def)
  have v: "task_valid sha t" and same: "task_identity t = task_identity t0"
    using stored_task.run_inv [OF v0 assms(3)] stored_task.run_le [OF v0 assms(3)] by auto
  have final: "tk_status t = Task_Archived \<longrightarrow> tk_status u = Task_Archived"
    using stored_task.run_le [OF v assms(4)] by auto
  have path: "run_lifecycle Task_Draft (map fst ops) = Some (tk_status t)"
    using run_task_lifecycle [OF assms(3)] s0(1) by simp
  have kept: "task_ended (tk_status t) \<and> ReopenTask \<notin> fst ` set later \<longrightarrow> task_outcome u = task_outcome t"
    using run_keeps_outcome [OF _ assms(4)] unfolding keeps_outcome_def by blast
  have "tk_id t = js_trim i" and "tk_createdAt t = iso_string created" and "validateTask sha t = Inr t"
    using same s0 v by (simp_all add: task_identity_def)
  with path kept final valid_outcome [OF v] show ?thesis by blast
qed

definition sample_task_run :: "(task_op \<times> date) list" where
  "sample_task_run = [(ActivateTask, 1), (CompleteTask By_Leader ''all merged'' None, 2)]"

lemma sample_task_completes: "isOk (run_steps (task_step sample_sha256) sample_task sample_task_run)"
  by code_simp

theorem task_lifecycle_refined_witness:
  "\<exists>t. run_steps (task_step sample_sha256) sample_task sample_task_run = Inr t \<and> tk_status t = Task_Completed
     \<and> has_all_completion t"
proof -
  obtain t where t: "run_steps (task_step sample_sha256) sample_task sample_task_run = Inr t"
    using sample_task_completes unfolding isOk_iff by blast
  have "saveTask sample_sha256 sample_task = Inr sample_task"
    using sample_task_valid by (simp add: sample_task_def)
  moreover have "run_steps (task_step sample_sha256) t [] = Inr t" by simp
  moreover have "run_lifecycle Task_Draft (map fst sample_task_run) = Some Task_Completed"
    by (simp add: sample_task_run_def)
  ultimately have "tk_status t = Task_Completed \<and> has_all_completion t"
    using task_lifecycle_refined [OF sample_task_created _ t, of "[]" t] by simp
  with t show ?thesis by blast
qed

text \<open>
  C37. \<open>advanceTaskProjectCommit\<close> is a compare-and-swap on one Project: on a valid Task it returns if and
  only if the expected and the next commit are commits, the Project is bound, and its current commit is
  the expected one; the result differs from the Task in that current commit (and the time of update)
  alone.  Of two callers who read the same commit and move it elsewhere, the second is refused.
\<close>

theorem advance_commit_exact:
  assumes "validateTask sha t = Inr t" and "valid_date now" and "valid_date later"
    and "date_le (tk_createdAt t) (iso_string now)" and "date_le (tk_createdAt t) (iso_string later)"
  shows "(isOk (advanceTaskProjectCommit sha t p expected new now) \<longleftrightarrow>
      commit_text_ok expected \<and> commit_text_ok new
      \<and> (\<exists>b \<in> set (tk_projectBindings t). pb_projectId b = p \<and> pb_currentCommit b = Some (js_lower (js_trim expected))))
    \<and> (\<forall>t'. advanceTaskProjectCommit sha t p expected new now = Inr t' \<longrightarrow>
        validateTask sha t' = Inr t'
        \<and> t' = t\<lparr>tk_projectBindings := map (advanced p (js_lower (js_trim new))) (tk_projectBindings t),
                 tk_updatedAt := iso_string now\<rparr>
        \<and> (js_lower (js_trim new) \<noteq> js_lower (js_trim expected) \<longrightarrow>
            \<not> isOk (advanceTaskProjectCommit sha t' p expected other later)))"
proof -
  have v: "task_valid sha t" using assms(1) by simp
  note eq = advance_eq [OF v assms(2,4)]
  have second: "\<not> isOk (advanceTaskProjectCommit sha t' p expected other later)"
    if "advanceTaskProjectCommit sha t p expected new now = Inr t'"
      and "js_lower (js_trim new) \<noteq> js_lower (js_trim expected)" and "task_valid sha t'" for t'
  proof -
    have "date_le (tk_createdAt t') (iso_string later)" using that(1) assms(5) by (simp add: eq)
    from advance_eq [OF that(3) assms(3) this, of p expected other] that(1,2) show ?thesis
      by (auto simp: isOk_iff eq advanced_def)
  qed
  have valid: "task_valid sha t'" if "advanceTaskProjectCommit sha t p expected new now = Inr t'" for t'
    using that by (auto simp: advanceTaskProjectCommit_def)
  show ?thesis using second valid by (auto simp: isOk_iff eq)
qed

definition sample_bound_task :: task where
  "sample_bound_task = sample_task\<lparr>tk_projectBindings := [\<lparr>pb_projectId = ''p'', pb_directory = ''p'', pb_baseRef = ''main'',
       pb_baseCommit = Some (replicate 40 (CHR ''a'')), pb_currentCommit = Some (replicate 40 (CHR ''a''))\<rparr>], tk_updatedAt := iso_string 1\<rparr>"

lemma sample_bound_valid: "task_valid sample_sha256 sample_bound_task"
proof -
  have "isOk (normalizeProjectBindings (tk_projectBindings sample_bound_task))" by code_simp
  moreover have "date_le (tk_createdAt sample_task) (iso_string 1)" by code_simp
  moreover have "valid_date 1" by (simp add: valid_date_def)
  ultimately show ?thesis
    using valid_rebound [OF sample_task_valid, of 1 "tk_projectBindings sample_bound_task"]
    by (simp add: sample_bound_task_def)
qed

theorem advance_commit_exact_witness:
  "isOk (advanceTaskProjectCommit sample_sha256 sample_bound_task ''p'' (replicate 40 (CHR ''A'')) (replicate 40 (CHR ''b'')) 5)"
proof -
  have v: "validateTask sample_sha256 sample_bound_task = Inr sample_bound_task" using sample_bound_valid by simp
  have d: "valid_date 5" by (simp add: valid_date_def)
  have le: "date_le (tk_createdAt sample_bound_task) (iso_string 5)" by code_simp
  have "commit_text_ok (replicate 40 (CHR ''A''))" and "commit_text_ok (replicate 40 (CHR ''b''))"
    and "js_lower (js_trim (replicate 40 (CHR ''A''))) = replicate 40 (CHR ''a'')"
    by code_simp+
  moreover have "\<exists>b \<in> set (tk_projectBindings sample_bound_task).
      pb_projectId b = ''p'' \<and> pb_currentCommit b = Some (replicate 40 (CHR ''a''))"
    by (simp add: sample_bound_task_def)
  ultimately show ?thesis
    unfolding advance_commit_exact [OF v d d le le, THEN conjunct1] by simp
qed

end
