(* ===== verification/Activation_Service.thy ===== *)
theory Activation_Service
  imports Task_Record Mailbox_Store
begin

section \<open>Requesting, cancelling and adopting an activation\<close>

text \<open>
  \<open>src/task/taskActivationService.ts\<close> and the admission of \<open>src/task/taskActivation.ts\<close>: what the
  commands do with the activation request of a Task, over the tables of Tasks, events, runs and
  mailboxes of \<open>src/storage/sqliteStore.ts\<close>.  An operation returns its value with the new store; a
  throw leaves no store, the surrounding transaction being rolled back.  Preparing and releasing the
  environment of a plan (directories, grants) is not modelled; the three moments at which the service
  records what became of it are.

  The ledger of events is what decides whether a request id may be used again.  The invariant
  \<open>service_inv\<close> relates it to the request a Task holds; from it follows that a cancelled id is never
  adopted and never accepted again, whatever happens to the Task in between.
\<close>

subsection \<open>The tables\<close>

record run_facts =
  ru_planning :: bool
  ru_active :: bool

record activation_store =
  st_tasks :: "string \<Rightarrow> task option"
  st_events :: "string \<Rightarrow> task_event list"
  st_eventSeq :: "string \<Rightarrow> nat"
  st_runs :: "string \<Rightarrow> string \<Rightarrow> run_facts option"
  st_projects :: "string list"
  st_mailboxes :: mailbox_rows

definition requireStored :: "activation_store \<Rightarrow> string \<Rightarrow> unit result" where
  \<comment> \<open>\<open>#requireTask\<close>\<close>
  "requireStored st taskId = refuse (st_tasks st taskId = None) ''Task not found''"

definition putTask :: "(string \<Rightarrow> string) \<Rightarrow> activation_store \<Rightarrow> task \<Rightarrow> activation_store result" where
  \<comment> \<open>\<open>saveTask\<close> with the table of Projects\<close>
  "putTask sha256 st task =
     andThen (saveTask sha256 task) (\<lambda>_.
       if list_ex (\<lambda>b. pb_projectId b \<notin> set (st_projects st)) (tk_projectBindings task)
       then throw ''Task Project not found''
       else Inr (st\<lparr>st_tasks := (st_tasks st)(tk_id task \<mapsto> task)\<rparr>))"

definition event_number :: "task_event \<Rightarrow> nat" where
  "event_number e = dec_val (drop 6 (te_id e))"

definition listEvents :: "activation_store \<Rightarrow> string \<Rightarrow> task_event list" where
  \<comment> \<open>sorted by \<open>numericCompare\<close> of the ids \<open>event-n\<close>\<close>
  "listEvents st taskId = sort_key event_number (st_events st taskId)"

definition nextEventId :: "activation_store \<Rightarrow> string \<Rightarrow> (string \<times> activation_store) result" where
  "nextEventId st taskId =
     andThen (requireStored st taskId) (\<lambda>_.
       let n = st_eventSeq st taskId + 1
       in Inr (''event-'' @ nat_str n, st\<lparr>st_eventSeq := (st_eventSeq st)(taskId := n)\<rparr>))"

definition saveEvent :: "activation_store \<Rightarrow> string \<Rightarrow> task_event \<Rightarrow> activation_store result" where
  "saveEvent st taskId event =
     (if te_taskId event \<noteq> taskId then throw ''Task event belongs to another Task''
      else andThen (requireStored st taskId) (\<lambda>_.
        if take 6 (te_id event) \<noteq> ''event-'' \<or> drop 6 (te_id event) = []
           \<or> \<not> list_all is_digit (drop 6 (te_id event))
        then throw ''Task-local event id is invalid''
        else if te_id event \<in> te_id ` set (st_events st taskId) then throw ''UNIQUE constraint failed''
        else Inr (st\<lparr>st_events := (st_events st)(taskId := st_events st taskId @ [event]),
                    st_eventSeq := (st_eventSeq st)(taskId := max (st_eventSeq st taskId) (event_number event))\<rparr>)))"

definition recordEvent ::
    "activation_store \<Rightarrow> string \<Rightarrow> string \<Rightarrow> (string \<times> string) list \<Rightarrow> date \<Rightarrow> activation_store result" where
  \<comment> \<open>\<open>tx.saveEvent(taskId, createTaskEvent(tx.nextEventId(taskId), taskId, type, payload, now))\<close>\<close>
  "recordEvent st taskId type payload now =
     andThen (nextEventId st taskId) (\<lambda>(event_id, st').
     andThen (createTaskEvent event_id taskId type payload now) (\<lambda>event. saveEvent st' taskId event))"

definition requireStoredTask :: "activation_store \<Rightarrow> string \<Rightarrow> task result" where
  "requireStoredTask st taskId = (case st_tasks st taskId of None \<Rightarrow> throw ''Task not found'' | Some t \<Rightarrow> Inr t)"

subsection \<open>Admission\<close>

datatype admission =
    Adm_Ready activation_request
  | Adm_Deferred activation_request string
  | Adm_Settled activation_request
  | Adm_Unavailable activation_request string

definition admitTaskActivationRequest ::
    "task \<Rightarrow> activation_request option \<Rightarrow> (string \<Rightarrow> bool) \<Rightarrow> admission option" where
  "admitTaskActivationRequest task found planningRunIsActive =
     (case found of
        None \<Rightarrow> None
      | Some request \<Rightarrow> Some
          (if ar_disposition request = Act_Adopted \<or> ar_disposition request = Act_Cancelled
           then Adm_Settled request
           else if of_targetId (ar_operation request) \<noteq> tk_id task
           then Adm_Unavailable request ''Activation request targets another Task''
           else if tk_status task \<noteq> Task_Draft then Adm_Unavailable request ''Task is no longer a Draft''
           else if tk_executionState task \<noteq> Exec_Enabled then Adm_Unavailable request ''Task execution is stopped''
           else (case ar_afterPlanningRun request of
               Some run \<Rightarrow> if planningRunIsActive run then Adm_Deferred request run else Adm_Ready request
             | None \<Rightarrow> Adm_Ready request)))"

definition run_active :: "activation_store \<Rightarrow> string \<Rightarrow> string \<Rightarrow> bool" where
  "run_active st taskId runId = (case st_runs st taskId runId of None \<Rightarrow> False | Some r \<Rightarrow> ru_active r)"

definition admitStoredTaskActivation :: "activation_store \<Rightarrow> string \<Rightarrow> admission option result" where
  \<comment> \<open>\<open>None\<close> is the disposition \<open>absent\<close>\<close>
  "admitStoredTaskActivation st taskId =
     andThen (requireStoredTask st taskId) (\<lambda>task.
       Inr (admitTaskActivationRequest task (tk_activationRequest task) (run_active st taskId)))"

subsection \<open>The operations of the service\<close>

definition settledActivationRequest :: "activation_store \<Rightarrow> task \<Rightarrow> string \<Rightarrow> settled_fact option" where
  "settledActivationRequest st task requestId =
     (let ledger = settledActivationFromEvents (listEvents st (tk_id task)) requestId in
      case tk_activationRequest task of
        None \<Rightarrow> ledger
      | Some current \<Rightarrow>
          if requestIdOf current = requestId \<and> isSettledActivationRequest current
          then Some \<lparr>sf_disposition = ar_disposition current, sf_outcome = ar_outcome current\<rparr>
          else ledger)"

definition requireOpenDraft :: "activation_store \<Rightarrow> string \<Rightarrow> task result" where
  "requireOpenDraft st taskId =
     andThen (requireStoredTask st taskId) (\<lambda>task.
       if tk_status task \<noteq> Task_Draft then throw ''Only a Draft Task can request activation''
       else if tk_executionState task \<noteq> Exec_Enabled then throw ''Task execution is stopped''
       else Inr task)"

definition resolveCallerPlanningRun :: "activation_store \<Rightarrow> string \<Rightarrow> string option \<Rightarrow> string option result" where
  "resolveCallerPlanningRun st taskId callerRunId =
     (case callerRunId of
        None \<Rightarrow> Inr None
      | Some runId \<Rightarrow>
          (case st_runs st taskId runId of
             None \<Rightarrow> throw ''AgentRun not found''
           | Some run \<Rightarrow>
               if \<not> ru_planning run then throw ''Activation deferral requires a planning AgentRun''
               else if \<not> ru_active run then Inr None
               else Inr (Some runId)))"

record activation_call =
  ac_taskId :: string
  ac_requestId :: string
  ac_actorId :: string
  ac_authorityRef :: string
  ac_environmentPlan :: environment_plan
  ac_callerRunId :: "string option"

record activation_reply =
  rp_operationRef :: string
  rp_request :: activation_request
  rp_startMode :: start_mode
  rp_created :: bool
  rp_afterPlanningRun :: "string option"

definition taskActivationOperationRef :: "string \<Rightarrow> string \<Rightarrow> string" where
  "taskActivationOperationRef taskId requestId = ''task-activation:'' @ taskId @ ''/'' @ requestId"

definition createActivation ::
    "(string \<Rightarrow> string) \<Rightarrow> activation_store \<Rightarrow> task \<Rightarrow> activation_call \<Rightarrow> start_mode \<Rightarrow> string option
       \<Rightarrow> environment_plan \<Rightarrow> date \<Rightarrow> (activation_reply \<times> activation_store) result" where
  \<comment> \<open>the end of \<open>requestTaskActivation\<close>, where a new request is stored\<close>
  "createActivation sha256 st task input startMode planningRun plan now =
     andThen (createTaskActivationRequest sha256 (tk_id task)
       \<lparr>ai_requestId = ac_requestId input, ai_actorId = ac_actorId input, ai_authorityRef = ac_authorityRef input,
        ai_startMode = startMode, ai_afterPlanningRun = planningRun, ai_environmentPlan = plan\<rparr> now) (\<lambda>request.
     andThen (setTaskActivationRequest sha256 task request now) (\<lambda>updated.
     andThen (putTask sha256 st updated) (\<lambda>st1.
     andThen (recordEvent st1 (tk_id task) EV_REQUESTED
       ([(''requestId'', requestIdOf request), (''startMode'', start_mode_text (ar_startMode request)),
         (''environmentPlan'', describeEnvironmentPlan (ar_environmentPlan request)),
         (''actor'', of_actorId (ar_operation request))]
        @ (case ar_afterPlanningRun request of None \<Rightarrow> [] | Some r \<Rightarrow> [(''afterPlanningRun'', r)])) now) (\<lambda>st2.
       Inr (\<lparr>rp_operationRef = taskActivationOperationRef (tk_id task) (requestIdOf request),
             rp_request = request, rp_startMode = startMode, rp_created = True,
             rp_afterPlanningRun = planningRun\<rparr>, st2)))))"

definition requestTaskActivation ::
    "(string \<Rightarrow> string) \<Rightarrow> activation_store \<Rightarrow> activation_call \<Rightarrow> date \<Rightarrow> (activation_reply \<times> activation_store) result" where
  "requestTaskActivation sha256 st input now =
     andThen (requireOpenDraft st (ac_taskId input)) (\<lambda>task.
     andThen (canonicalEnvironmentPlan (ac_environmentPlan input)) (\<lambda>plan.
     andThen (resolveCallerPlanningRun st (tk_id task) (ac_callerRunId input)) (\<lambda>planningRun.
       let startMode = (if planningRun = None then Immediate else After_Planning_Turn) in
       if settledActivationRequest st task (ac_requestId input) \<noteq> None
       then throw ''Activation request was already settled. Use a new requestId.''
       else (case tk_activationRequest task of
           Some existing \<Rightarrow>
             if requestIdOf existing = ac_requestId input
             then andThen (taskActivationInputDigest sha256 (tk_id task) startMode planningRun plan) (\<lambda>digest.
               if of_inputDigest (ar_operation existing) \<noteq> digest
               then throw ''Activation requestId was already used for different inputs.''
               else Inr (\<lparr>rp_operationRef = taskActivationOperationRef (tk_id task) (requestIdOf existing),
                    rp_request = existing, rp_startMode = ar_startMode existing, rp_created = False,
                    rp_afterPlanningRun = ar_afterPlanningRun existing\<rparr>, st))
             else if ar_disposition existing = Act_Pending
             then throw ''Task already has a pending activation request''
             else createActivation sha256 st task input startMode planningRun plan now
         | None \<Rightarrow> createActivation sha256 st task input startMode planningRun plan now))))"

definition cancelTaskActivation ::
    "(string \<Rightarrow> string) \<Rightarrow> activation_store \<Rightarrow> string \<Rightarrow> string \<Rightarrow> string \<Rightarrow> date
       \<Rightarrow> (activation_request \<times> activation_store) result" where
  "cancelTaskActivation sha256 st taskId requestId reason now =
     andThen (requireStoredTask st taskId) (\<lambda>task.
     (case tk_activationRequest task of
        None \<Rightarrow> throw ''Activation request not found''
      | Some existing \<Rightarrow>
          if requestIdOf existing \<noteq> requestId then throw ''Activation request not found''
          else if ar_disposition existing = Act_Adopted then throw ''Activation was already adopted''
          else andThen (cancelTaskActivationRequest existing reason now) (\<lambda>cancelled.
            if cancelled = existing then Inr (cancelled, st)
            else andThen (setTaskActivationRequest sha256 task cancelled now) (\<lambda>updated.
              andThen (putTask sha256 st updated) (\<lambda>st1.
              andThen (recordEvent st1 taskId EV_CANCELLED
                [(''requestId'', requestId),
                 (''reason'', case ar_outcome cancelled of None \<Rightarrow> reason | Some why \<Rightarrow> why)] now) (\<lambda>st2.
                Inr (cancelled, st2)))))))"

definition recordTaskActivationResourceEffect ::
    "(string \<Rightarrow> string) \<Rightarrow> activation_store \<Rightarrow> string \<Rightarrow> string \<Rightarrow> string \<Rightarrow> date
       \<Rightarrow> (activation_request \<times> activation_store) result" where
  "recordTaskActivationResourceEffect sha256 st taskId requestId preparationId now =
     andThen (requireStoredTask st taskId) (\<lambda>task.
     andThen (recordTaskActivationRequestEvidence sha256 task requestId
       \<lparr>ev_effect = Some EffectConfirmed, ev_receiptRefs = None,
        ev_partialResultRefs = Some [taskId @ ''/'' @ preparationId]\<rparr> now) (\<lambda>updated.
     andThen (putTask sha256 st updated) (\<lambda>st1.
       let settled = find (\<lambda>r. requestIdOf r = requestId)
             (case tk_settledActivationRequests updated of None \<Rightarrow> [] | Some rs \<Rightarrow> rs);
           request = (case tk_activationRequest updated of
               Some r \<Rightarrow> if requestIdOf r = requestId then Some r else settled
             | None \<Rightarrow> settled)
       in (case request of
             None \<Rightarrow> throw ''Activation request disappeared while adopting it''
           | Some r \<Rightarrow> Inr (r, st1)))))"

definition recordAdoptedTaskActivation ::
    "(string \<Rightarrow> string) \<Rightarrow> activation_store \<Rightarrow> task \<Rightarrow> string option \<Rightarrow> activation_request option \<Rightarrow> date
       \<Rightarrow> (task \<times> activation_store) result" where
  "recordAdoptedTaskActivation sha256 st task preparationId expected now =
     (case tk_activationRequest task of
        None \<Rightarrow> Inr (task, st)
      | Some existing \<Rightarrow>
          andThen
            (case expected of
               None \<Rightarrow> refuse (preparationId \<noteq> None)
                 ''Activation adoption must name the request its preparation belongs to''
             | Some e \<Rightarrow> all_ok
                 [refuse (requestIdOf existing \<noteq> requestIdOf e) ''Activation request changed while activating'',
                  refuse (of_inputDigest (ar_operation existing) \<noteq> of_inputDigest (ar_operation e))
                    ''Activation request inputs changed while activating'',
                  refuse (ar_disposition existing \<noteq> Act_Pending \<and> ar_disposition existing \<noteq> Act_Adopted)
                    ''Activation request is no longer adoptable'']) (\<lambda>_.
          andThen (adoptTaskActivationRequest existing preparationId
            (Some [taskActivationOperationRef (tk_id task) (requestIdOf existing)]) now) (\<lambda>adopted.
          andThen (recordEvent st (tk_id task) EV_ADOPTED
            ([(''requestId'', requestIdOf adopted),
              (''environmentPlan'', describeEnvironmentPlan (ar_environmentPlan adopted))]
             @ (case ar_preparationId adopted of None \<Rightarrow> [] | Some p \<Rightarrow> [(''preparationId'', p)])) now) (\<lambda>st1.
          andThen (setTaskActivationRequest sha256 task adopted now) (\<lambda>updated. Inr (updated, st1))))))"

definition activateAdopted ::
    "(string \<Rightarrow> string) \<Rightarrow> activation_store \<Rightarrow> string \<Rightarrow> string option \<Rightarrow> activation_request option \<Rightarrow> date
       \<Rightarrow> (task \<times> activation_store) result" where
  \<comment> \<open>what the status transactions of \<open>repository/taskWorkspacePreparer.ts\<close> do to the stored Task: activate,
     adopt, save.  Their checks of workspaces, plans and environments, which can only refuse more, are left out\<close>
  "activateAdopted sha256 st taskId preparationId expected now =
     andThen (requireStoredTask st taskId) (\<lambda>latest.
       if tk_status latest \<noteq> Task_Draft then throw ''Task changed while activating it''
       else andThen (activateTask latest now) (\<lambda>active.
         andThen (recordAdoptedTaskActivation sha256 st active preparationId expected now) (\<lambda>(activated, st1).
         andThen (putTask sha256 st1 activated) (\<lambda>st2. Inr (activated, st2)))))"

fun effect_text :: "effect \<Rightarrow> string" where
  "effect_text EffectNone = ''none''"
| "effect_text EffectPossible = ''possible''"
| "effect_text EffectConfirmed = ''confirmed''"

definition recordFailedTaskActivation ::
    "(string \<Rightarrow> string) \<Rightarrow> activation_store \<Rightarrow> string \<Rightarrow> activation_request \<Rightarrow> string \<Rightarrow> evidence \<Rightarrow> date
       \<Rightarrow> (activation_request \<times> activation_store) result" where
  "recordFailedTaskActivation sha256 st taskId request outcome evidence now =
     andThen (requireStoredTask st taskId) (\<lambda>task.
     (case tk_activationRequest task of
        None \<Rightarrow> Inr (request, st)
      | Some current \<Rightarrow>
          if requestIdOf current \<noteq> requestIdOf request \<or> ar_disposition current = Act_Adopted
             \<or> ar_disposition current = Act_Cancelled
          then Inr (current, st)
          else andThen (failTaskActivationRequest current outcome now evidence) (\<lambda>failed.
            andThen (setTaskActivationRequest sha256 task failed now) (\<lambda>updated.
            andThen (putTask sha256 st updated) (\<lambda>st1.
            andThen (recordEvent st1 taskId EV_FAILED
              [(''requestId'', requestIdOf failed),
               (''outcome'', case ar_outcome failed of None \<Rightarrow> outcome | Some why \<Rightarrow> why),
               (''effect'', effect_text (of_effect (ar_operation failed)))] now) (\<lambda>st2.
              if tk_status task = Task_Draft
              then andThen (enqueueWork getWorkMailbox saveWorkMailbox (st_mailboxes st2)
                     (RoleTarget taskId ''leader'') ''activation-failed'' (AtDate now) [TaskRef taskId]
                     \<lparr>meta_source = None, meta_dedupeKey = None, meta_factRevision = None\<rparr>) (\<lambda>(_, rows).
                   Inr (failed, st2\<lparr>st_mailboxes := rows\<rparr>))
              else Inr (failed, st2)))))))"

definition updateStoredTask ::
    "(string \<Rightarrow> string) \<Rightarrow> activation_store \<Rightarrow> string \<Rightarrow> task_op \<Rightarrow> date \<Rightarrow> (task \<times> activation_store) result" where
  \<comment> \<open>any other command on the Task: load, apply, save\<close>
  "updateStoredTask sha256 st taskId op now =
     andThen (requireStoredTask st taskId) (\<lambda>task.
     andThen (task_apply sha256 task op now) (\<lambda>updated.
     andThen (putTask sha256 st updated) (\<lambda>st1. Inr (updated, st1))))"

datatype service_op =
    RequestActivation activation_call
  | CancelActivation string string string
  | ResourceEffect string string string
  | AdoptActivation string "string option" "activation_request option"
  | FailActivation string activation_request string evidence
  | OtherUpdate string task_op

fun direct_request_change :: "service_op \<Rightarrow> bool" where
  \<comment> \<open>the Task operation that writes the slot, which only the service uses\<close>
  "direct_request_change (OtherUpdate _ (SetRequest _)) = True"
| "direct_request_change _ = False"

fun service_step :: "(string \<Rightarrow> string) \<Rightarrow> activation_store \<Rightarrow> service_op \<times> date \<Rightarrow> activation_store result" where
  "service_step sha st (RequestActivation c, now) = andThen (requestTaskActivation sha st c now) (\<lambda>(_, s). Inr s)"
| "service_step sha st (CancelActivation t i why, now) = andThen (cancelTaskActivation sha st t i why now) (\<lambda>(_, s). Inr s)"
| "service_step sha st (ResourceEffect t i p, now) =
     andThen (recordTaskActivationResourceEffect sha st t i p now) (\<lambda>(_, s). Inr s)"
| "service_step sha st (AdoptActivation t p e, now) = andThen (activateAdopted sha st t p e now) (\<lambda>(_, s). Inr s)"
| "service_step sha st (FailActivation t r why e, now) =
     andThen (recordFailedTaskActivation sha st t r why e now) (\<lambda>(_, s). Inr s)"
| "service_step sha st (OtherUpdate t op, now) =
     (if direct_request_change (OtherUpdate t op) then throw ''not an operation of the program''
      else andThen (updateStoredTask sha st t op now) (\<lambda>(_, s). Inr s))"

subsection \<open>The ledger\<close>

definition ledger_entry :: "activation_store \<Rightarrow> string \<Rightarrow> string \<Rightarrow> string \<Rightarrow> bool" where
  "ledger_entry st taskId type i \<longleftrightarrow>
     (\<exists>e \<in> set (st_events st taskId). te_type e = type \<and> map_of (te_payload e) ''requestId'' = Some i)"

abbreviation cancelled_in :: "activation_store \<Rightarrow> string \<Rightarrow> string \<Rightarrow> bool" where
  "cancelled_in st taskId i \<equiv> ledger_entry st taskId EV_CANCELLED i"

abbreviation adopted_in :: "activation_store \<Rightarrow> string \<Rightarrow> string \<Rightarrow> bool" where
  "adopted_in st taskId i \<equiv> ledger_entry st taskId EV_ADOPTED i"

lemma settled_from_None:
  "settledActivationFromEvents es i = None \<longleftrightarrow>
     (\<forall>e \<in> set es. map_of (te_payload e) ''requestId'' = Some i \<longrightarrow> te_type e \<noteq> EV_CANCELLED \<and> te_type e \<noteq> EV_ADOPTED)"
  by (induction es i rule: settledActivationFromEvents.induct) auto

lemma ledger_None:
  "settledActivationFromEvents (listEvents st taskId) i = None \<longleftrightarrow>
     \<not> cancelled_in st taskId i \<and> \<not> adopted_in st taskId i"
  by (auto simp: settled_from_None listEvents_def ledger_entry_def)

lemma event_types:
  "EV_CANCELLED \<noteq> EV_ADOPTED" "EV_REQUESTED \<noteq> EV_CANCELLED" "EV_REQUESTED \<noteq> EV_ADOPTED"
  "EV_FAILED \<noteq> EV_CANCELLED" "EV_FAILED \<noteq> EV_ADOPTED"
  "js_trim EV_CANCELLED = EV_CANCELLED" "js_trim EV_ADOPTED = EV_ADOPTED"
  "js_trim EV_REQUESTED = EV_REQUESTED" "js_trim EV_FAILED = EV_FAILED"
  by code_simp+

lemma trim_requestId: "js_trim ''requestId'' = ''requestId''"
  by code_simp

lemma payload_prefix: "normalizePayload acc es = Inr p \<Longrightarrow> \<exists>q. p = acc @ q"
proof (induction acc es rule: normalizePayload.induct)
  case (2 acc key v rest)
  then obtain q where "p = (acc @ [(js_trim key, v)]) @ q"
    by (auto split: if_split_asm)
  then show ?case by simp
qed simp

lemma payload_requestId: "normalizePayload [] ((''requestId'', i) # es) = Inr p \<Longrightarrow> map_of p ''requestId'' = Some i"
  using payload_prefix [of "[(''requestId'', i)]" es p] by (auto simp: trim_requestId split: if_split_asm)

definition logged :: "activation_store \<Rightarrow> activation_store \<Rightarrow> string \<Rightarrow> string \<Rightarrow> string \<Rightarrow> bool" where
  \<comment> \<open>one event of the type about the request \<open>i\<close> was appended, and nothing else but the sequence changed\<close>
  "logged st st' taskId type i \<longleftrightarrow>
     st_tasks st' = st_tasks st \<and> st_runs st' = st_runs st \<and> st_projects st' = st_projects st
     \<and> st_mailboxes st' = st_mailboxes st
     \<and> (\<exists>e. te_type e = type \<and> map_of (te_payload e) ''requestId'' = Some i
          \<and> st_events st' = (st_events st)(taskId := st_events st taskId @ [e]))"

lemma recordEvent_logged:
  assumes "recordEvent st taskId type ((''requestId'', i) # es) now = Inr st'" and "js_trim type = type"
  shows "logged st st' taskId type i"
proof -
  from assms(1) obtain event_id st1 event where "nextEventId st taskId = Inr (event_id, st1)"
    and e: "createTaskEvent event_id taskId type ((''requestId'', i) # es) now = Inr event"
    and s: "saveEvent st1 taskId event = Inr st'"
    by (auto simp: recordEvent_def)
  moreover have "te_type event = type \<and> map_of (te_payload event) ''requestId'' = Some i"
    using e payload_requestId [of i es] assms(2)
    by (auto simp: createTaskEvent_def simp del: normalizePayload.simps)
  ultimately show ?thesis
    by (auto simp: logged_def nextEventId_def saveEvent_def)
qed

lemma logged_entry:
  "logged st st' taskId type i \<Longrightarrow>
     ledger_entry st' t type' j \<longleftrightarrow> ledger_entry st t type' j \<or> (t = taskId \<and> type' = type \<and> j = i)"
  by (cases "t = taskId") (auto simp: logged_def ledger_entry_def)

lemma putTask_cases:
  assumes "putTask sha st t = Inr st'"
  shows "st_tasks st' = (st_tasks st)(tk_id t \<mapsto> t)" and "task_valid sha t"
    and "ledger_entry st' = ledger_entry st" and "st_events st' = st_events st"
    and "st_runs st' = st_runs st" and "st_mailboxes st' = st_mailboxes st"
  using assms by (auto simp: putTask_def ledger_entry_def fun_eq_iff)

subsection \<open>The request a Task holds\<close>

definition slot_le :: "task \<Rightarrow> task \<Rightarrow> bool" where
  \<comment> \<open>what an operation other than \<open>setTaskActivationRequest\<close> does to the slot\<close>
  "slot_le t t' \<longleftrightarrow>
     (case tk_activationRequest t of
        None \<Rightarrow> tk_activationRequest t' = None
      | Some r \<Rightarrow> \<exists>r'. tk_activationRequest t' = Some r' \<and> requestIdOf r' = requestIdOf r
          \<and> (ar_disposition r' = ar_disposition r
             \<or> (ar_disposition r = Act_Pending \<and> ar_disposition r' = Act_Cancelled \<and> tk_status t' \<noteq> Task_Draft)))"

lemma slot_same: "tk_activationRequest t' = tk_activationRequest t \<Longrightarrow> slot_le t t'"
  by (auto simp: slot_le_def split: option.splits)

lemma slot_kept:
  "bindTaskWorkspaceIdentity sha t w now = Inr t' \<Longrightarrow> slot_le t t'"
  "recordSettledEvidence sha t i e now = Inr t' \<Longrightarrow> slot_le t t'"
  "bindTaskProjectCommits sha t cs now = Inr t' \<Longrightarrow> slot_le t t'"
  "advanceTaskProjectCommit sha t i old new now = Inr t' \<Longrightarrow> slot_le t t'"
  "addTaskProjectBinding sha t b now = Inr t' \<Longrightarrow> slot_le t t'"
  "updateTaskMetadata t m now = Inr t' \<Longrightarrow> slot_le t t'"
  "updateTaskWorkspace t c now = Inr t' \<Longrightarrow> slot_le t t'"
  by (rule slot_same; auto simp: bindTaskWorkspaceIdentity_def recordSettledEvidence_def bindTaskProjectCommits_def
      advanceTaskProjectCommit_def addTaskProjectBinding_def updateTaskMetadata_def updateTaskWorkspace_def
      split: option.splits if_split_asm)+

lemma slot_kept_status:
  "synchronizeTaskProjectCommits sha t cs now = Inr t' \<Longrightarrow> slot_le t t'"
  "stopTaskExecution sha t now = Inr t' \<Longrightarrow> slot_le t t'"
  "startTaskExecution sha t now = Inr t' \<Longrightarrow> slot_le t t'"
  "updateTaskArchived sha t archived now a = Inr t' \<Longrightarrow> slot_le t t'"
  "activateTask t now = Inr t' \<Longrightarrow> slot_le t t'"
  "completeTask t now actor s refs = Inr t' \<Longrightarrow> slot_le t t'"
  "retireTask sha t actor s rep isolated now = Inr t' \<Longrightarrow> slot_le t t'"
  by (rule slot_same; auto simp: synchronizeTaskProjectCommits_def stopTaskExecution_def startTaskExecution_def
      updateTaskArchived_def archiveTask_def activateTask_def completeTask_def retireTask_def Let_def
      split: if_split_asm task_status.splits)+

lemma slot_evidence: "recordTaskActivationRequestEvidence sha t i e now = Inr t' \<Longrightarrow> slot_le t t'"
proof -
  assume a: "recordTaskActivationRequestEvidence sha t i e now = Inr t'"
  show ?thesis
  proof (cases "\<exists>r. tk_activationRequest t = Some r \<and> requestIdOf r = i")
    case True
    then obtain r where r: "tk_activationRequest t = Some r" "requestIdOf r = i" by blast
    with a obtain r' where r': "recordTaskActivationEvidence r e now = Inr r'"
      and "t' = t \<or> tk_activationRequest t' = Some r'"
      by (auto simp: recordTaskActivationRequestEvidence_def split: if_split_asm)
    then show ?thesis
      using r evidence_request(1,2) [OF r'] request_le_id by (auto simp: slot_le_def)
  next
    case False
    with a have "recordSettledEvidence sha t i e now = Inr t'"
      by (auto simp: recordTaskActivationRequestEvidence_def split: option.splits if_split_asm)
    then show ?thesis by (rule slot_kept(2))
  qed
qed

lemma slot_reopen: "reopenTask sha t now = Inr t' \<Longrightarrow> slot_le t t'"
proof -
  assume a: "reopenTask sha t now = Inr t'"
  then have s: "tk_status t' = Task_Active" using phase_reopen by blast
  show ?thesis
  proof (cases "tk_activationRequest t")
    case None
    with a show ?thesis by (auto simp: reopenTask_def slot_le_def)
  next
    case (Some r)
    show ?thesis
    proof (cases "ar_disposition r = Act_Pending")
      case True
      with a Some obtain r' why where "cancelTaskActivationRequest r why now = Inr r'"
        and "tk_activationRequest t' = Some r'"
        by (auto simp: reopenTask_def)
      with True Some s show ?thesis
        using cancel_request(1,2) request_le_id by (fastforce simp: slot_le_def)
    next
      case False
      with a Some show ?thesis by (auto simp: reopenTask_def slot_le_def)
    qed
  qed
qed

lemma other_slot:
  "task_apply sha t op now = Inr t' \<Longrightarrow> \<not> direct_request_change (OtherUpdate i op) \<Longrightarrow> slot_le t t'"
  by (cases op) (auto dest: slot_kept slot_kept_status slot_evidence slot_reopen)

subsection \<open>The invariant of the service\<close>

definition slot_ok :: "activation_store \<Rightarrow> task \<Rightarrow> bool" where
  "slot_ok st t \<longleftrightarrow> (\<forall>r. tk_activationRequest t = Some r \<longrightarrow>
     (case ar_disposition r of
        Act_Adopted \<Rightarrow> \<not> cancelled_in st (tk_id t) (requestIdOf r)
      | Act_Cancelled \<Rightarrow> \<not> adopted_in st (tk_id t) (requestIdOf r)
          \<and> (cancelled_in st (tk_id t) (requestIdOf r) \<or> tk_status t \<noteq> Task_Draft)
      | _ \<Rightarrow> \<not> cancelled_in st (tk_id t) (requestIdOf r) \<and> \<not> adopted_in st (tk_id t) (requestIdOf r)))"

definition service_inv :: "activation_store \<Rightarrow> bool" where
  "service_inv st \<longleftrightarrow>
     (\<forall>taskId t. st_tasks st taskId = Some t \<longrightarrow> tk_id t = taskId \<and> slot_ok st t)
     \<and> (\<forall>taskId i. \<not> (cancelled_in st taskId i \<and> adopted_in st taskId i))"

lemma requireStoredTask_eq [simp]: "requireStoredTask st taskId = Inr t \<longleftrightarrow> st_tasks st taskId = Some t"
  by (auto simp: requireStoredTask_def split: option.splits)

lemma service_task: "service_inv st \<Longrightarrow> st_tasks st taskId = Some t \<Longrightarrow> tk_id t = taskId \<and> slot_ok st t"
  by (simp add: service_inv_def)

lemma slot_ok_cong:
  assumes "\<And>type i. ledger_entry st' (tk_id t) type i \<longleftrightarrow> ledger_entry st (tk_id t) type i"
  shows "slot_ok st' t \<longleftrightarrow> slot_ok st t"
  unfolding slot_ok_def assms by (rule refl)

lemma set_request_cases:
  assumes "setTaskActivationRequest sha t r now = Inr t'"
  shows "tk_activationRequest t' = Some r" and "tk_id t' = tk_id t" and "tk_status t' = tk_status t"
    and "tk_projectBindings t' = tk_projectBindings t" and "task_valid sha t'"
  using assms by (auto simp: setTaskActivationRequest_def Let_def)

lemma no_draft_again: "task_lifecycle s op = Some Task_Draft \<Longrightarrow> s = Task_Draft"
  by (cases op; cases s) (auto split: if_split_asm)

lemma slot_le_ok:
  assumes "slot_le t t'" and "slot_ok st t" and "tk_id t' = tk_id t"
    and "tk_status t' = Task_Draft \<longrightarrow> tk_status t = Task_Draft"
  shows "slot_ok st t'"
proof (cases "tk_activationRequest t")
  case (Some r)
  with assms(1) obtain r' where "tk_activationRequest t' = Some r'" "requestIdOf r' = requestIdOf r"
    "ar_disposition r' = ar_disposition r
      \<or> (ar_disposition r = Act_Pending \<and> ar_disposition r' = Act_Cancelled \<and> tk_status t' \<noteq> Task_Draft)"
    by (auto simp: slot_le_def)
  with assms(2-4) Some show ?thesis by (auto simp: slot_ok_def split: activation_disposition.splits)
qed (use assms(1) in \<open>simp add: slot_le_def slot_ok_def\<close>)

text \<open>
  What a call does to the store: it stores a Task whose slot is related to the one before, or it puts a
  request into the slot and records one event about it.
\<close>

definition stored_slot :: "activation_store \<Rightarrow> activation_store \<Rightarrow> string \<Rightarrow> bool" where
  "stored_slot st st' taskId \<longleftrightarrow> (\<exists>t t'. st_tasks st taskId = Some t \<and> tk_id t' = tk_id t \<and> slot_le t t'
     \<and> (tk_status t' = Task_Draft \<longrightarrow> tk_status t = Task_Draft)
     \<and> st_tasks st' = (st_tasks st)(tk_id t' \<mapsto> t') \<and> st_events st' = st_events st)"

definition free_slot :: "task \<Rightarrow> bool" where
  "free_slot t \<longleftrightarrow> tk_status t = Task_Draft \<or> (\<exists>x. tk_activationRequest t = Some x \<and> \<not> request_settled x)"

definition recorded_slot ::
    "activation_store \<Rightarrow> activation_store \<Rightarrow> string \<Rightarrow> activation_request \<Rightarrow> string \<Rightarrow> bool" where
  "recorded_slot st st' taskId r type \<longleftrightarrow> (\<exists>t t'. st_tasks st taskId = Some t \<and> free_slot t \<and> tk_id t' = tk_id t
     \<and> tk_activationRequest t' = Some r \<and> (tk_status t' = Task_Draft \<longrightarrow> tk_status t = Task_Draft)
     \<and> st_tasks st' = (st_tasks st)(tk_id t' \<mapsto> t')
     \<and> (\<forall>x type' j. ledger_entry st' x type' j \<longleftrightarrow>
          ledger_entry st x type' j \<or> (x = tk_id t' \<and> type' = type \<and> j = requestIdOf r)))"

definition no_outcome :: "activation_store \<Rightarrow> string \<Rightarrow> string \<Rightarrow> bool" where
  "no_outcome st taskId i \<longleftrightarrow> \<not> cancelled_in st taskId i \<and> \<not> adopted_in st taskId i"

datatype service_effect =
    Unchanged
  | Stored
  | Requested activation_request
  | Cancelled activation_request
  | Adopted activation_request
  | Failing activation_request

fun has_effect :: "activation_store \<Rightarrow> activation_store \<Rightarrow> string \<Rightarrow> service_effect \<Rightarrow> bool" where
  "has_effect st st' i Unchanged = (st' = st)"
| "has_effect st st' i Stored = stored_slot st st' i"
| "has_effect st st' i (Requested r) = (recorded_slot st st' i r EV_REQUESTED
     \<and> no_outcome st i (requestIdOf r) \<and> ar_disposition r = Act_Pending)"
| "has_effect st st' i (Cancelled r) = (recorded_slot st st' i r EV_CANCELLED
     \<and> no_outcome st i (requestIdOf r) \<and> ar_disposition r = Act_Cancelled)"
| "has_effect st st' i (Adopted r) = (recorded_slot st st' i r EV_ADOPTED
     \<and> \<not> cancelled_in st i (requestIdOf r) \<and> ar_disposition r = Act_Adopted)"
| "has_effect st st' i (Failing r) = (recorded_slot st st' i r EV_FAILED
     \<and> no_outcome st i (requestIdOf r) \<and> ar_disposition r = Act_Failed)"

lemma recorded_inv:
  assumes "service_inv st" and "recorded_slot st st' i r type"
    and "\<And>x t. x \<noteq> i \<Longrightarrow> st_tasks st x = Some t \<Longrightarrow> tk_id t = x"
    and "type = EV_CANCELLED \<Longrightarrow> \<not> adopted_in st i (requestIdOf r)"
    and "type = EV_ADOPTED \<Longrightarrow> \<not> cancelled_in st i (requestIdOf r)"
    and "\<And>t'. tk_activationRequest t' = Some r \<Longrightarrow> tk_id t' = i \<Longrightarrow> slot_ok st' t'"
  shows "service_inv st'"
proof -
  obtain t t' where t: "st_tasks st i = Some t" "tk_id t' = i" "tk_activationRequest t' = Some r"
    and st': "st_tasks st' = (st_tasks st)(i \<mapsto> t')"
    and l: "\<And>x type' j. ledger_entry st' x type' j \<longleftrightarrow>
          ledger_entry st x type' j \<or> (x = i \<and> type' = type \<and> j = requestIdOf r)"
    using assms(2) service_task [OF assms(1)] by (auto simp: recorded_slot_def)
  have "tk_id u = x \<and> slot_ok st' u" if "st_tasks st' x = Some u" for x u
  proof (cases "x = i")
    case True
    with that st' t assms(6) show ?thesis by simp
  next
    case False
    with that st' have u: "st_tasks st x = Some u" by simp
    with False service_task [OF assms(1) u] show ?thesis
      using slot_ok_cong [of st' u st] by (simp add: l)
  qed
  moreover have "\<not> (cancelled_in st' x j \<and> adopted_in st' x j)" for x j
    using assms(1,4,5) event_types(1) unfolding l service_inv_def by metis
  ultimately show ?thesis unfolding service_inv_def by blast
qed

lemma effect_inv:
  assumes "service_inv st" and "has_effect st st' i eff"
  shows "service_inv st'"
proof (cases eff)
  case Stored
  with assms(2) obtain t t' where t: "st_tasks st i = Some t" "tk_id t' = tk_id t" "slot_le t t'"
    "tk_status t' = Task_Draft \<longrightarrow> tk_status t = Task_Draft" "st_tasks st' = (st_tasks st)(tk_id t' \<mapsto> t')"
    and e: "st_events st' = st_events st"
    by (auto simp: stored_slot_def)
  have "ledger_entry st' = ledger_entry st" using e by (auto simp: ledger_entry_def fun_eq_iff)
  moreover have "tk_id t = i" "slot_ok st t" using service_task [OF assms(1) t(1)] by auto
  moreover have "slot_ok st t'" by (rule slot_le_ok [OF t(3) calculation(3) t(2,4)])
  ultimately have "tk_id u = x \<and> slot_ok st u" if "st_tasks st' x = Some u" for x u
    using that t(2,5) service_task [OF assms(1)] by (auto split: if_split_asm)
  with \<open>ledger_entry st' = ledger_entry st\<close> show ?thesis
    using assms(1) slot_ok_cong [of st' _ st] by (auto simp: service_inv_def)
next
  case (Requested r)
  with assms have "recorded_slot st st' i r EV_REQUESTED" "no_outcome st i (requestIdOf r)" "ar_disposition r = Act_Pending"
    by auto
  then show ?thesis
    using recorded_inv [OF assms(1), of st' i r EV_REQUESTED] service_task [OF assms(1)] event_types
    by (auto simp: no_outcome_def slot_ok_def recorded_slot_def)
next
  case (Cancelled r)
  with assms have "recorded_slot st st' i r EV_CANCELLED" "no_outcome st i (requestIdOf r)" "ar_disposition r = Act_Cancelled"
    by auto
  then show ?thesis
    using recorded_inv [OF assms(1), of st' i r EV_CANCELLED] service_task [OF assms(1)] event_types
    by (auto simp: no_outcome_def slot_ok_def recorded_slot_def)
next
  case (Adopted r)
  with assms have "recorded_slot st st' i r EV_ADOPTED" "\<not> cancelled_in st i (requestIdOf r)" "ar_disposition r = Act_Adopted"
    by auto
  then show ?thesis
    using recorded_inv [OF assms(1), of st' i r EV_ADOPTED] service_task [OF assms(1)] event_types
    by (auto simp: slot_ok_def recorded_slot_def)
next
  case (Failing r)
  with assms have "recorded_slot st st' i r EV_FAILED" "no_outcome st i (requestIdOf r)" "ar_disposition r = Act_Failed"
    by auto
  then show ?thesis
    using recorded_inv [OF assms(1), of st' i r EV_FAILED] service_task [OF assms(1)] event_types
    by (auto simp: no_outcome_def slot_ok_def recorded_slot_def)
qed (use assms in simp)

subsection \<open>What each operation does\<close>

lemma recorded_slotI:
  assumes "st_tasks st i = Some t" and "free_slot t" and "tk_id t = i"
    and "setTaskActivationRequest sha t1 r now = Inr t'" and "tk_id t1 = i" and "tk_status t1 = Task_Draft \<longrightarrow> tk_status t = Task_Draft"
    and "st_tasks st' = (st_tasks st)(tk_id t' \<mapsto> t')"
    and "\<And>x type' j. ledger_entry st' x type' j \<longleftrightarrow>
      ledger_entry st x type' j \<or> (x = i \<and> type' = type \<and> j = requestIdOf r)"
  shows "recorded_slot st st' i r type"
  using assms set_request_cases [OF assms(4)] unfolding recorded_slot_def by metis

lemma put_then_logged:
  assumes "putTask sha st t = Inr st1" and "logged st1 st2 i type j"
  shows "st_tasks st2 = (st_tasks st)(tk_id t \<mapsto> t)"
    and "\<And>x type' k. ledger_entry st2 x type' k \<longleftrightarrow>
      ledger_entry st x type' k \<or> (x = i \<and> type' = type \<and> k = j)"
  using putTask_cases [OF assms(1)] logged_entry [OF assms(2)] assms(2) by (simp_all add: logged_def)

lemma open_request_no_outcome:
  assumes "service_inv st" and "st_tasks st i = Some t" and "tk_activationRequest t = Some r"
    and "\<not> request_settled r"
  shows "no_outcome st i (requestIdOf r)"
  using service_task [OF assms(1,2)] assms(3,4)
  by (cases "ar_disposition r") (auto simp: slot_ok_def no_outcome_def request_settled_def)

lemma create_effect:
  assumes "service_inv st" and "st_tasks st i = Some t" and "tk_status t = Task_Draft" and "no_outcome st i (ac_requestId c)"
    and "createActivation sha st t c mode run plan now = Inr (reply, st')"
  shows "has_effect st st' i (Requested (rp_request reply)) \<and> requestIdOf (rp_request reply) = ac_requestId c"
proof -
  have id: "tk_id t = i" using service_task [OF assms(1,2)] by simp
  from assms(5) obtain r t' st1 es where r: "createTaskActivationRequest sha (tk_id t)
       \<lparr>ai_requestId = ac_requestId c, ai_actorId = ac_actorId c, ai_authorityRef = ac_authorityRef c,
        ai_startMode = mode, ai_afterPlanningRun = run, ai_environmentPlan = plan\<rparr> now = Inr r"
    and t': "setTaskActivationRequest sha t r now = Inr t'" and p: "putTask sha st t' = Inr st1"
    and e: "recordEvent st1 (tk_id t) EV_REQUESTED ((''requestId'', requestIdOf r) # es) now = Inr st'"
    and reply: "rp_request reply = r"
    by (auto simp: createActivation_def)
  note l = recordEvent_logged [OF e event_types(8)]
  have "recorded_slot st st' i r EV_REQUESTED"
    using recorded_slotI [OF assms(2) _ id t' id] assms(3) put_then_logged [OF p l] id by (simp add: free_slot_def)
  with created_request [OF r] assms(4) reply show ?thesis by simp
qed

lemma request_effect:
  assumes "service_inv st" and "requestTaskActivation sha st c now = Inr (reply, st')"
  shows "(st' = st \<or> has_effect st st' (ac_taskId c) (Requested (rp_request reply)))
    \<and> requestIdOf (rp_request reply) = ac_requestId c \<and> no_outcome st (ac_taskId c) (ac_requestId c)
    \<and> (\<exists>t. st_tasks st (ac_taskId c) = Some t \<and> tk_status t = Task_Draft)"
proof -
  from assms(2) obtain t plan run where t: "st_tasks st (ac_taskId c) = Some t" "tk_status t = Task_Draft"
    and open': "settledActivationRequest st t (ac_requestId c) = None"
    and rest: "(case tk_activationRequest t of
         Some existing \<Rightarrow>
           if requestIdOf existing = ac_requestId c
           then andThen (taskActivationInputDigest sha (tk_id t)
                  (if run = None then Immediate else After_Planning_Turn) run plan) (\<lambda>digest.
             if of_inputDigest (ar_operation existing) \<noteq> digest
             then throw ''Activation requestId was already used for different inputs.''
             else Inr (\<lparr>rp_operationRef = taskActivationOperationRef (tk_id t) (requestIdOf existing),
                  rp_request = existing, rp_startMode = ar_startMode existing, rp_created = False,
                  rp_afterPlanningRun = ar_afterPlanningRun existing\<rparr>, st))
           else if ar_disposition existing = Act_Pending
           then throw ''Task already has a pending activation request''
           else createActivation sha st t c (if run = None then Immediate else After_Planning_Turn) run plan now
       | None \<Rightarrow> createActivation sha st t c (if run = None then Immediate else After_Planning_Turn) run plan now)
      = Inr (reply, st')"
    by (auto simp: requestTaskActivation_def requireOpenDraft_def Let_def)
  have "settledActivationFromEvents (listEvents st (tk_id t)) (ac_requestId c) = None"
    using open' by (auto simp: settledActivationRequest_def Let_def split: option.splits if_split_asm)
  then have none: "no_outcome st (ac_taskId c) (ac_requestId c)"
    using ledger_None service_task [OF assms(1) t(1)] by (simp add: no_outcome_def)
  then have "(st' = st \<or> has_effect st st' (ac_taskId c) (Requested (rp_request reply)))
    \<and> requestIdOf (rp_request reply) = ac_requestId c"
    using rest create_effect [OF assms(1) t none] by (auto split: option.splits if_split_asm)
  with none t show ?thesis by blast
qed

lemma cancel_stored:
  assumes "cancelTaskActivation sha st i j why now = Inr (r, st')"
  obtains t x where "st_tasks st i = Some t" and "tk_activationRequest t = Some x" and "requestIdOf x = j"
    and "ar_disposition x \<noteq> Act_Adopted" and "cancelTaskActivationRequest x why now = Inr r"
    and "r = x \<longrightarrow> st' = st"
    and "r \<noteq> x \<longrightarrow> (\<exists>t' st1 es. setTaskActivationRequest sha t r now = Inr t' \<and> putTask sha st t' = Inr st1
      \<and> recordEvent st1 i EV_CANCELLED ((''requestId'', j) # es) now = Inr st')"
proof -
  obtain t where t: "st_tasks st i = Some t" using assms by (auto simp: cancelTaskActivation_def)
  obtain x where x: "tk_activationRequest t = Some x" "requestIdOf x = j" "ar_disposition x \<noteq> Act_Adopted"
    using assms t by (cases "tk_activationRequest t") (auto simp: cancelTaskActivation_def split: if_split_asm)
  obtain r' where r': "cancelTaskActivationRequest x why now = Inr r'"
    using assms t x by (auto simp: cancelTaskActivation_def)
  have eq: "r' = r"
    using assms t x r' by (cases "r' = x") (auto simp: cancelTaskActivation_def)
  show ?thesis
  proof (rule that [OF t x r' [unfolded eq]])
    show "r = x \<longrightarrow> st' = st"
      using assms t x r' eq by (auto simp: cancelTaskActivation_def)
  qed (use assms t x r' eq in \<open>auto simp: cancelTaskActivation_def; blast\<close>)
qed

lemma cancel_effect:
  assumes "service_inv st" and "cancelTaskActivation sha st i j why now = Inr (r, st')"
  shows "(st' = st \<and> (\<exists>t. st_tasks st i = Some t \<and> tk_activationRequest t = Some r)
       \<or> has_effect st st' i (Cancelled r))
    \<and> requestIdOf r = j \<and> ar_disposition r = Act_Cancelled"
proof -
  obtain t x where t: "st_tasks st i = Some t" "tk_activationRequest t = Some x" "requestIdOf x = j"
    and x: "ar_disposition x \<noteq> Act_Adopted" and r: "cancelTaskActivationRequest x why now = Inr r"
    and same: "r = x \<longrightarrow> st' = st"
    and changed: "r \<noteq> x \<longrightarrow> (\<exists>t' st1 es. setTaskActivationRequest sha t r now = Inr t' \<and> putTask sha st t' = Inr st1
      \<and> recordEvent st1 i EV_CANCELLED ((''requestId'', j) # es) now = Inr st')"
    by (rule cancel_stored [OF assms(2)]) (rule that; assumption)
  have id: "tk_id t = i" using service_task [OF assms(1) t(1)] by simp
  have rj: "requestIdOf r = j" "ar_disposition r = Act_Cancelled"
    using cancel_request(1,2) [OF r] request_le_id t(3) by auto
  show ?thesis
  proof (cases "r = x")
    case True
    with same t rj show ?thesis by auto
  next
    case False
    then have "\<not> request_settled x"
      using x r by (auto simp: request_settled_def cancelTaskActivationRequest_def)
    then have free: "free_slot t" using t(2) by (simp add: free_slot_def)
    have none: "no_outcome st i j" using open_request_no_outcome [OF assms(1) t(1,2) \<open>\<not> request_settled x\<close>] t(3) by simp
    from changed False obtain t' st1 es where t': "setTaskActivationRequest sha t r now = Inr t'"
      and p: "putTask sha st t' = Inr st1"
      and e: "recordEvent st1 i EV_CANCELLED ((''requestId'', requestIdOf r) # es) now = Inr st'"
      using rj by auto
    note l = recordEvent_logged [OF e event_types(6)]
    have "recorded_slot st st' i r EV_CANCELLED"
      using recorded_slotI [OF t(1) free id t' id] put_then_logged [OF p l] id by simp
    with none rj show ?thesis by simp
  qed
qed

lemma fail_open:
  assumes "recordFailedTaskActivation sha st i q why ev now = Inr (r, st')"
    and "st_tasks st i = Some t" and "tk_activationRequest t = Some x"
    and "requestIdOf x = requestIdOf q" and "\<not> request_settled x"
  obtains t' st1 st2 es where "failTaskActivationRequest x why now ev = Inr r"
    and "setTaskActivationRequest sha t r now = Inr t'" and "putTask sha st t' = Inr st1"
    and "recordEvent st1 i EV_FAILED ((''requestId'', requestIdOf r) # es) now = Inr st2"
    and "st_tasks st' = st_tasks st2" and "st_events st' = st_events st2"
    and "tk_status t = Task_Draft \<longrightarrow> (\<exists>m. enqueueWork getWorkMailbox saveWorkMailbox (st_mailboxes st2)
        (RoleTarget i ''leader'') ''activation-failed'' (AtDate now) [TaskRef i]
        \<lparr>meta_source = None, meta_dedupeKey = None, meta_factRevision = None\<rparr> = Inr (m, st_mailboxes st'))"
proof -
  have d: "ar_disposition x \<noteq> Act_Adopted" "ar_disposition x \<noteq> Act_Cancelled"
    using assms(5) by (auto simp: request_settled_def)
  show ?thesis
  proof (cases "tk_status t = Task_Draft")
    case True
    with assms d that show ?thesis by (auto simp: recordFailedTaskActivation_def)
  next
    case False
    with assms d that show ?thesis by (auto simp: recordFailedTaskActivation_def)
  qed
qed

lemma fail_settled:
  assumes "recordFailedTaskActivation sha st i q why ev now = Inr (r, st')" and "st_tasks st i = Some t"
    and "\<forall>x. tk_activationRequest t = Some x \<longrightarrow> requestIdOf x \<noteq> requestIdOf q \<or> request_settled x"
  shows "st' = st"
  using assms
  by (cases "tk_activationRequest t") (auto simp: recordFailedTaskActivation_def request_settled_def split: if_split_asm)

lemma fail_effect:
  assumes "service_inv st" and "recordFailedTaskActivation sha st i q why ev now = Inr (r, st')"
  shows "st' = st \<or> has_effect st st' i (Failing r)"
proof -
  from assms(2) obtain t where t: "st_tasks st i = Some t"
    by (auto simp: recordFailedTaskActivation_def)
  have id: "tk_id t = i" using service_task [OF assms(1) t(1)] by simp
  show ?thesis
  proof (cases "\<exists>x. tk_activationRequest t = Some x \<and> requestIdOf x = requestIdOf q \<and> \<not> request_settled x")
    case True
    then obtain x where x: "tk_activationRequest t = Some x" "requestIdOf x = requestIdOf q" "\<not> request_settled x"
      by blast
    obtain t' st1 st2 es where r: "failTaskActivationRequest x why now ev = Inr r"
      and t': "setTaskActivationRequest sha t r now = Inr t'" and p: "putTask sha st t' = Inr st1"
      and e: "recordEvent st1 i EV_FAILED ((''requestId'', requestIdOf r) # es) now = Inr st2"
      and st': "st_tasks st' = st_tasks st2" "st_events st' = st_events st2"
      by (rule fail_open [OF assms(2) t x]) (rule that; assumption)
    have free: "free_slot t" using x(1,3) by (simp add: free_slot_def)
    have rd: "requestIdOf r = requestIdOf x" "ar_disposition r = Act_Failed"
      using fail_request(1,3) [OF r] request_le_id x(3) by (auto simp: request_settled_def)
    note l = recordEvent_logged [OF e event_types(9)]
    have "ledger_entry st' = ledger_entry st2" using st'(2) by (auto simp: ledger_entry_def fun_eq_iff)
    then have "recorded_slot st st' i r EV_FAILED"
      using recorded_slotI [OF t(1) free id t' id] put_then_logged [OF p l] id st'(1) by simp
    with rd open_request_no_outcome [OF assms(1) t x(1,3)] show ?thesis by simp
  next
    case False
    with fail_settled [OF assms(2) t] show ?thesis by blast
  qed
qed

lemma adopt_effect:
  assumes "service_inv st" and "activateAdopted sha st i p e now = Inr (t', st')"
  shows "stored_slot st st' i \<or> (\<exists>r. has_effect st st' i (Adopted r))"
proof -
  from assms(2) obtain t a st1 where t: "st_tasks st i = Some t" "tk_status t = Task_Draft"
    and a: "activateTask t now = Inr a" and rec: "recordAdoptedTaskActivation sha st a p e now = Inr (t', st1)"
    and put: "putTask sha st1 t' = Inr st'"
    by (auto simp: activateAdopted_def)
  have id: "tk_id t = i" using service_task [OF assms(1) t(1)] by simp
  have aid: "tk_id a = i" and status: "tk_status a = Task_Active"
    and slot: "tk_activationRequest a = tk_activationRequest t"
    using a t(2) id by (auto simp: activateTask_def)
  show ?thesis
  proof (cases "tk_activationRequest a")
    case None
    with rec have eq: "t' = a" "st1 = st" by (auto simp: recordAdoptedTaskActivation_def)
    have "slot_le t a" using slot by (rule slot_same)
    then show ?thesis
      using eq putTask_cases [OF put] t id aid status unfolding stored_slot_def by auto
  next
    case (Some x)
    with rec obtain r es where r: "adoptTaskActivationRequest x p (Some [taskActivationOperationRef i (requestIdOf x)]) now = Inr r"
      and ev: "recordEvent st i EV_ADOPTED ((''requestId'', requestIdOf r) # es) now = Inr st1"
      and t': "setTaskActivationRequest sha a r now = Inr t'"
      using aid by (auto simp: recordAdoptedTaskActivation_def)
    note l = recordEvent_logged [OF ev event_types(7)]
    have rd: "requestIdOf r = requestIdOf x" "ar_disposition r = Act_Adopted" "ar_disposition x \<noteq> Act_Cancelled"
      using adopt_request(1-3) [OF r] request_le_id by auto
    have "\<not> cancelled_in st i (requestIdOf x)"
      using service_task [OF assms(1) t(1)] Some slot rd(3)
      by (cases "ar_disposition x") (auto simp: slot_ok_def)
    moreover have "recorded_slot st st' i r EV_ADOPTED"
      using recorded_slotI [OF t(1) _ id t' aid] putTask_cases [OF put] logged_entry [OF l] l t(2) status aid
      by (simp add: logged_def free_slot_def)
    ultimately show ?thesis using rd by auto
  qed
qed

lemma evidence_effect:
  assumes "service_inv st" and "recordTaskActivationResourceEffect sha st i j p now = Inr (r, st')"
  shows "stored_slot st st' i"
proof -
  from assms(2) obtain t t' where t: "st_tasks st i = Some t"
    and u: "task_apply sha t (RequestEvidence j \<lparr>ev_effect = Some EffectConfirmed, ev_receiptRefs = None,
        ev_partialResultRefs = Some [i @ ''/'' @ p]\<rparr>) now = Inr t'"
    and put: "putTask sha st t' = Inr st'"
    by (auto simp: recordTaskActivationResourceEffect_def Let_def split: option.splits)
  then show ?thesis
    using other_slot [OF u] task_lifecycle_sound [OF u] putTask_cases [OF put] task_identity_def
    unfolding stored_slot_def by (auto simp: task_identity_def)
qed

lemma update_effect:
  assumes "updateStoredTask sha st i op now = Inr (t', st')" and "\<not> direct_request_change (OtherUpdate i op)"
  shows "stored_slot st st' i"
proof -
  from assms(1) obtain t where t: "st_tasks st i = Some t" and u: "task_apply sha t op now = Inr t'"
    and put: "putTask sha st t' = Inr st'"
    by (auto simp: updateStoredTask_def)
  have "tk_status t' = Task_Draft \<longrightarrow> tk_status t = Task_Draft"
    using task_lifecycle_sound [OF u] no_draft_again by metis
  with t other_slot [OF u assms(2)] task_lifecycle_sound [OF u] putTask_cases [OF put] show ?thesis
    unfolding stored_slot_def by (auto simp: task_identity_def)
qed

fun op_task :: "service_op \<Rightarrow> string" where
  "op_task (RequestActivation c) = ac_taskId c"
| "op_task (CancelActivation i _ _) = i"
| "op_task (ResourceEffect i _ _) = i"
| "op_task (AdoptActivation i _ _) = i"
| "op_task (FailActivation i _ _ _) = i"
| "op_task (OtherUpdate i _) = i"

lemma service_step_effect:
  assumes "service_inv st" and "service_step sha st (op, now) = Inr st'"
  shows "\<exists>eff. has_effect st st' (op_task op) eff"
proof (cases op)
  case (RequestActivation c)
  with assms(2) obtain reply where "requestTaskActivation sha st c now = Inr (reply, st')" by auto
  with RequestActivation request_effect [OF assms(1) this] show ?thesis
    by (metis has_effect.simps(1) op_task.simps(1))
next
  case (CancelActivation i j why)
  with assms(2) obtain r where "cancelTaskActivation sha st i j why now = Inr (r, st')" by auto
  with CancelActivation cancel_effect [OF assms(1) this] show ?thesis
    by (metis has_effect.simps(1) op_task.simps(2))
next
  case (ResourceEffect i j p)
  with assms(2) obtain r where "recordTaskActivationResourceEffect sha st i j p now = Inr (r, st')" by auto
  with ResourceEffect evidence_effect [OF assms(1) this] show ?thesis
    by (metis has_effect.simps(2) op_task.simps(3))
next
  case (AdoptActivation i p e)
  with assms(2) obtain t where "activateAdopted sha st i p e now = Inr (t, st')" by auto
  with AdoptActivation adopt_effect [OF assms(1) this] show ?thesis
    by (metis has_effect.simps(2) op_task.simps(4))
next
  case (FailActivation i q why ev)
  with assms(2) obtain r where "recordFailedTaskActivation sha st i q why ev now = Inr (r, st')" by auto
  with FailActivation fail_effect [OF assms(1) this] show ?thesis
    by (metis has_effect.simps(1) op_task.simps(5))
next
  case (OtherUpdate i op')
  with assms(2) obtain t where "updateStoredTask sha st i op' now = Inr (t, st')"
    and "\<not> direct_request_change (OtherUpdate i op')"
    by (auto split: if_split_asm)
  with OtherUpdate update_effect show ?thesis
    by (metis has_effect.simps(2) op_task.simps(6))
qed

interpretation service: step_machine "service_step sha" service_inv
proof
  fix st st' and call :: "service_op \<times> date"
  assume "service_inv st" and "service_step sha st call = Inr st'"
  then show "service_inv st'"
    using service_step_effect [of st sha "fst call" "snd call" st'] effect_inv by auto
qed

subsection \<open>A withdrawn request\<close>

text \<open>
  What stays of a cancelled request: the event in the ledger or, where \<open>reopenTask\<close> cancelled it
  without an event, the settled slot of a Task that is not a Draft and never becomes one again.
\<close>

definition withdrawn :: "string \<Rightarrow> string \<Rightarrow> activation_store \<Rightarrow> bool" where
  "withdrawn i j st \<longleftrightarrow> \<not> adopted_in st i j
     \<and> (cancelled_in st i j
        \<or> (\<exists>t r. st_tasks st i = Some t \<and> tk_status t \<noteq> Task_Draft \<and> tk_activationRequest t = Some r
             \<and> requestIdOf r = j \<and> ar_disposition r = Act_Cancelled))"

lemma withdrawn_stored:
  assumes "withdrawn i j st" and "stored_slot st st' x" and "service_inv st"
  shows "withdrawn i j st'"
proof -
  obtain t t' where t: "st_tasks st x = Some t" "tk_id t' = x" "slot_le t t'"
    "tk_status t' = Task_Draft \<longrightarrow> tk_status t = Task_Draft" "st_tasks st' = (st_tasks st)(x \<mapsto> t')"
    and e: "st_events st' = st_events st"
    using assms(2) service_task [OF assms(3)] by (auto simp: stored_slot_def)
  have l: "ledger_entry st' = ledger_entry st" using e by (auto simp: ledger_entry_def fun_eq_iff)
  show ?thesis
  proof (cases "cancelled_in st i j \<or> x \<noteq> i")
    case True
    with assms(1) t(5) l show ?thesis by (auto simp: withdrawn_def)
  next
    case False
    with assms(1) t(1) obtain r where r: "tk_status t \<noteq> Task_Draft" "tk_activationRequest t = Some r"
      "requestIdOf r = j" "ar_disposition r = Act_Cancelled" and "\<not> adopted_in st i j"
      by (auto simp: withdrawn_def)
    moreover obtain r' where "tk_activationRequest t' = Some r'" "requestIdOf r' = j" "ar_disposition r' = Act_Cancelled"
      using t(3) r by (auto simp: slot_le_def)
    ultimately show ?thesis using t(4,5) l False by (auto simp: withdrawn_def)
  qed
qed

lemma withdrawn_recorded:
  assumes "withdrawn i j st" and "recorded_slot st st' x r type"
    and "type = EV_ADOPTED \<Longrightarrow> \<not> cancelled_in st x (requestIdOf r)" and "service_inv st"
  shows "withdrawn i j st'"
proof -
  obtain t t' where t: "st_tasks st x = Some t" "free_slot t" "st_tasks st' = (st_tasks st)(x \<mapsto> t')"
    and l: "\<And>y type' k. ledger_entry st' y type' k \<longleftrightarrow>
          ledger_entry st y type' k \<or> (y = x \<and> type' = type \<and> k = requestIdOf r)"
    using assms(2) service_task [OF assms(4)] by (auto simp: recorded_slot_def)
  show ?thesis
  proof (cases "x = i")
    case True
    then have "cancelled_in st i j"
      using assms(1) t(1,2) by (auto simp: withdrawn_def free_slot_def request_settled_def)
    with True assms(1,3) show ?thesis by (auto simp: withdrawn_def l)
  next
    case False
    with assms(1) t(3) show ?thesis by (auto simp: withdrawn_def l)
  qed
qed

lemma withdrawn_effect:
  assumes "service_inv st" and "has_effect st st' x eff" and "withdrawn i j st"
  shows "withdrawn i j st'"
proof (cases eff)
  case Unchanged
  with assms show ?thesis by simp
next
  case Stored
  with assms withdrawn_stored show ?thesis by auto
qed (use assms withdrawn_recorded [OF assms(3) _ _ assms(1)] event_types in auto)

interpretation withdrawal: step_machine "service_step sha" "\<lambda>st. service_inv st \<and> withdrawn i j st"
proof
  fix st st' and call :: "service_op \<times> date"
  assume "service_inv st \<and> withdrawn i j st" and "service_step sha st call = Inr st'"
  then show "service_inv st' \<and> withdrawn i j st'"
    using service_step_effect [of st sha "fst call" "snd call" st'] effect_inv withdrawn_effect by fastforce
qed

lemma cancelled_withdrawn:
  assumes "service_inv st" and "cancelTaskActivation sha st i j why now = Inr (r, st')"
  shows "service_inv st' \<and> withdrawn i j st'"
proof -
  have r: "requestIdOf r = j" "ar_disposition r = Act_Cancelled" using cancel_effect [OF assms] by auto
  from cancel_effect [OF assms] consider
      t where "st' = st" "st_tasks st i = Some t" "tk_activationRequest t = Some r"
    | "has_effect st st' i (Cancelled r)"
    by blast
  then show ?thesis
  proof cases
    case 1
    with r service_task [OF assms(1) 1(2)] assms(1) show ?thesis
      by (auto simp: slot_ok_def withdrawn_def)
  next
    case 2
    then have n: "\<not> adopted_in st i j" and rec: "recorded_slot st st' i r EV_CANCELLED"
      using r by (auto simp: no_outcome_def)
    from rec service_task [OF assms(1)]
    have "ledger_entry st' x type' k \<longleftrightarrow> ledger_entry st x type' k \<or> (x = i \<and> type' = EV_CANCELLED \<and> k = j)"
      for x type' k
      using r(1) by (auto simp: recorded_slot_def)
    with n event_types(1) have "withdrawn i j st'" by (auto simp: withdrawn_def)
    with effect_inv [OF assms(1) 2] show ?thesis by simp
  qed
qed

lemma withdrawn_slot:
  assumes "service_inv st" and "withdrawn i j st" and "st_tasks st i = Some t"
    and "tk_activationRequest t = Some x" and "requestIdOf x = j"
  shows "ar_disposition x = Act_Cancelled"
  using service_task [OF assms(1,3)] assms(2-5)
  by (cases "ar_disposition x") (auto simp: slot_ok_def withdrawn_def)

lemma withdrawn_refused:
  assumes "service_inv st" and "withdrawn (ac_taskId c) (ac_requestId c) st"
  shows "\<not> isOk (requestTaskActivation sha st c now)"
proof
  assume "isOk (requestTaskActivation sha st c now)"
  then obtain reply st' where "requestTaskActivation sha st c now = Inr (reply, st')" by (auto simp: isOk_iff)
  from request_effect [OF assms(1) this] assms(2) show False by (auto simp: withdrawn_def no_outcome_def)
qed

subsection \<open>An activated Task\<close>

definition launched :: "string \<Rightarrow> activation_store \<Rightarrow> bool" where
  "launched i st \<longleftrightarrow> (\<exists>t. st_tasks st i = Some t \<and> tk_status t \<noteq> Task_Draft)"

lemma launched_effect:
  assumes "service_inv st" and "has_effect st st' x eff" and "launched i st"
  shows "launched i st'"
proof (cases eff)
  case Unchanged
  with assms show ?thesis by simp
qed (use assms service_task [OF assms(1)] in \<open>auto simp: launched_def stored_slot_def recorded_slot_def\<close>)

interpretation launch: step_machine "service_step sha" "\<lambda>st. service_inv st \<and> launched i st"
proof
  fix st st' and call :: "service_op \<times> date"
  assume "service_inv st \<and> launched i st" and "service_step sha st call = Inr st'"
  then show "service_inv st' \<and> launched i st'"
    using service_step_effect [of st sha "fst call" "snd call" st'] effect_inv launched_effect by fastforce
qed

lemma launched_refused:
  assumes "launched i st"
  shows "\<not> isOk (activateAdopted sha st i p e now)"
    and "ac_taskId c = i \<Longrightarrow> \<not> isOk (requestTaskActivation sha st c now)"
  using assms by (auto simp: launched_def isOk_iff activateAdopted_def requestTaskActivation_def requireOpenDraft_def)

lemma adopt_stored:
  assumes "service_inv st" and "st_tasks st i = Some t" and "tk_activationRequest t = Some x"
    and "activateAdopted sha st i p e now = Inr (t', st')"
  obtains r st1 es where "tk_status t = Task_Draft" and "tk_status t' = Task_Active" and "tk_id t' = i"
    and "adoptTaskActivationRequest x p (Some [taskActivationOperationRef i (requestIdOf x)]) now = Inr r"
    and "tk_activationRequest t' = Some r" and "putTask sha st1 t' = Inr st'"
    and "recordEvent st i EV_ADOPTED ((''requestId'', requestIdOf r) # es) now = Inr st1"
    and "e = None \<longrightarrow> p = None"
    and "\<forall>y. e = Some y \<longrightarrow> requestIdOf x = requestIdOf y \<and> ar_disposition x \<in> {Act_Pending, Act_Adopted}
      \<and> of_inputDigest (ar_operation x) = of_inputDigest (ar_operation y)"
proof -
  from assms(4,2) obtain a st1 where t: "tk_status t = Task_Draft"
    and a: "activateTask t now = Inr a" and rec: "recordAdoptedTaskActivation sha st a p e now = Inr (t', st1)"
    and put: "putTask sha st1 t' = Inr st'"
    by (auto simp: activateAdopted_def split: if_split_asm)
  have a': "tk_status a = Task_Active" "tk_id a = i" "tk_activationRequest a = Some x"
    using a t service_task [OF assms(1,2)] assms(3) by (auto simp: activateTask_def)
  note checks = that [OF t]
  from rec a'(2,3) obtain r es where r: "adoptTaskActivationRequest x p (Some [taskActivationOperationRef i (requestIdOf x)]) now = Inr r"
    and ev: "recordEvent st i EV_ADOPTED ((''requestId'', requestIdOf r) # es) now = Inr st1"
    and t': "setTaskActivationRequest sha a r now = Inr t'"
    by (auto simp: recordAdoptedTaskActivation_def)
  have "(e = None \<longrightarrow> p = None) \<and> (\<forall>y. e = Some y \<longrightarrow> requestIdOf x = requestIdOf y
      \<and> ar_disposition x \<in> {Act_Pending, Act_Adopted} \<and> of_inputDigest (ar_operation x) = of_inputDigest (ar_operation y))"
    using rec a'(3) by (cases e) (auto simp: recordAdoptedTaskActivation_def)
  with checks [OF _ _ r _ put ev] set_request_cases [OF t'] a' show ?thesis by (cases e) auto
qed

lemma valid_slot: "task_valid sha t \<Longrightarrow> tk_activationRequest t = Some r \<Longrightarrow> request_valid r"
  by (auto simp: task_valid_def validateTask_def validateActivation_def)

lemma settled_ids:
  "validateSettled i current seen rs = Inr () \<Longrightarrow> current = Some j \<Longrightarrow> j \<notin> requestIdOf ` set rs"
  by (induction i current seen rs rule: validateSettled.induct) (auto split: if_split_asm)

lemma settled_ok: "isOk (validateSettled i (Some j) seen rs) \<Longrightarrow> j \<notin> requestIdOf ` set rs"
  using settled_ids by (auto simp: isOk_iff)

lemma settled_fresh:
  "task_valid sha t \<Longrightarrow> tk_activationRequest t = Some x \<Longrightarrow>
     requestIdOf x \<notin> requestIdOf ` set (case tk_settledActivationRequests t of None \<Rightarrow> [] | Some rs \<Rightarrow> rs)"
  by (cases "tk_settledActivationRequests t")
    (auto simp: task_valid_def validateTask_def validateActivation_def dest: settled_ok)

lemma valid_adopted:
  "request_valid r \<Longrightarrow> ar_disposition r = Act_Adopted \<Longrightarrow> of_effect (ar_operation r) = EffectConfirmed"
  by (auto simp: request_valid_def validateTaskActivationRequest_def)

text \<open>Storing a valid request for the Task in a slot that is empty or holds the request itself.\<close>

lemma requested_outcomes [simp]:
  "has_any_completion (t\<lparr>tk_activationRequest := a, tk_updatedAt := u\<rparr>) = has_any_completion t"
  "has_all_completion (t\<lparr>tk_activationRequest := a, tk_updatedAt := u\<rparr>) = has_all_completion t"
  "has_any_retirement (t\<lparr>tk_activationRequest := a, tk_updatedAt := u\<rparr>) = has_any_retirement t"
  "has_any_archive (t\<lparr>tk_activationRequest := a, tk_updatedAt := u\<rparr>) = has_any_archive t"
  by (simp_all add: has_any_completion_def has_all_completion_def has_any_retirement_def has_any_archive_def)

lemma requested_sections [simp]:
  "validateCompletion (t\<lparr>tk_activationRequest := a, tk_updatedAt := u\<rparr>) = validateCompletion t"
  "validateRetirement (t\<lparr>tk_activationRequest := a, tk_updatedAt := u\<rparr>) = validateRetirement t"
  "validateArchive (t\<lparr>tk_activationRequest := a, tk_updatedAt := u\<rparr>) = validateArchive t"
  by (simp_all add: validateCompletion_def validateRetirement_def validateArchive_def)

lemma valid_requested:
  assumes "task_valid sha t" and "valid_date now" and "date_le (tk_createdAt t) (iso_string now)"
    and "request_valid r" and "of_targetId (ar_operation r) = tk_id t" and "tk_settledActivationRequests t = None"
  shows "task_valid sha (t\<lparr>tk_activationRequest := Some r, tk_updatedAt := iso_string now\<rparr>)"
  using assms(1,4-6) is_date_iso [OF assms(2)] date_le_not_less [OF assms(3)]
  by (simp add: task_valid_def validateTask_def task_timestamp_def validateActivation_def)

lemma set_request_ok:
  assumes "task_valid sha t" and "valid_date now" and "date_le (tk_createdAt t) (iso_string now)"
    and "request_valid r" and "of_targetId (ar_operation r) = tk_id t" and "tk_settledActivationRequests t = None"
    and "\<forall>x. tk_activationRequest t = Some x \<longrightarrow> request_le x r"
  shows "setTaskActivationRequest sha t r now = Inr (t\<lparr>tk_activationRequest := Some r, tk_updatedAt := iso_string now\<rparr>)"
proof -
  have none: "retained_requests t r = []"
    using assms(6,7) request_le_id by (auto simp: retained_requests_def slice_last_def split: option.splits)
  then have *: "t\<lparr>tk_activationRequest := Some r, tk_settledActivationRequests := tk_settledActivationRequests t,
      tk_updatedAt := iso_string now\<rparr> = t\<lparr>tk_activationRequest := Some r, tk_updatedAt := iso_string now\<rparr>"
    by simp
  have "toISOString now = Inr (iso_string now)" using assms(2) by (simp add: toISOString_def)
  moreover have "\<not> (case tk_activationRequest t of None \<Rightarrow> False
      | Some existing \<Rightarrow> requestIdOf existing = requestIdOf r
          \<and> of_inputDigest (ar_operation existing) \<noteq> of_inputDigest (ar_operation r))"
    using assms(7) by (auto simp: request_le_def split: option.split)
  ultimately show ?thesis
    using assms(1,4,5) valid_requested [OF assms(1-6)] none
    unfolding setTaskActivationRequest_def by (simp add: *)
qed

subsection \<open>Properties\<close>

definition sample_request :: activation_request where
  "sample_request = \<lparr>ar_operation = \<lparr>of_requestId = ''req-1'', of_inputDigest = sample_sha256 [], of_actorId = ''leader'',
       of_authorityRef = ''user'', of_targetId = ''task-1'', of_capability = TASK_ACTIVATION_CAPABILITY,
       of_implementation = TASK_ACTIVATION_IMPLEMENTATION, of_effect = EffectNone, of_receiptRefs = [],
       of_partialResultRefs = []\<rparr>,
     ar_startMode = Immediate, ar_afterPlanningRun = None, ar_environmentPlan = Plan_Empty,
     ar_disposition = Act_Pending, ar_preparationId = None, ar_outcome = None,
     ar_requestedAt = iso_string 1, ar_updatedAt = iso_string 1\<rparr>"

lemma sample_request_created:
  "createTaskActivationRequest sample_sha256 ''task-1'' \<lparr>ai_requestId = ''req-1'', ai_actorId = ''leader'',
     ai_authorityRef = ''user'', ai_startMode = Immediate, ai_afterPlanningRun = None,
     ai_environmentPlan = Plan_Empty\<rparr> 1 = Inr sample_request"
  by code_simp

definition sample_pending_task :: task where
  "sample_pending_task = sample_task\<lparr>tk_activationRequest := Some sample_request, tk_updatedAt := iso_string 1\<rparr>"


definition sample_store :: activation_store where
  "sample_store = \<lparr>st_tasks = (\<lambda>_. None)(''task-1'' \<mapsto> sample_pending_task), st_events = (\<lambda>_. []),
     st_eventSeq = (\<lambda>_. 0), st_runs = (\<lambda>_ _. None), st_projects = [], st_mailboxes = (\<lambda>_. None)\<rparr>"

definition sample_call :: activation_call where
  "sample_call = \<lparr>ac_taskId = ''task-1'', ac_requestId = ''req-1'', ac_actorId = ''leader'', ac_authorityRef = ''user'',
     ac_environmentPlan = Plan_Empty, ac_callerRunId = None\<rparr>"

lemma sample_pending [simp]:
  "tk_id sample_pending_task = ''task-1''" "tk_status sample_pending_task = Task_Draft"
  "tk_projectBindings sample_pending_task = []" "tk_activationRequest sample_pending_task = Some sample_request"
  "st_tasks sample_store ''task-1'' = Some sample_pending_task" "st_events sample_store i = []"
  "st_eventSeq sample_store i = 0" "requestIdOf sample_request = ''req-1''" "ar_disposition sample_request = Act_Pending"
  by (simp_all add: sample_pending_task_def sample_task_def sample_store_def sample_request_def requestIdOf_def)

lemma sample_store_inv: "service_inv sample_store"
proof -
  have "st_tasks sample_store i = Some t \<longleftrightarrow> i = ''task-1'' \<and> sample_pending_task = t" for i t
    by (auto simp: sample_store_def)
  then show ?thesis by (simp add: service_inv_def slot_ok_def ledger_entry_def del: sample_pending(5))
qed

lemma sample_pending_valid: "task_valid sample_sha256 sample_pending_task"
proof -
  have "date_le (tk_createdAt sample_task) (iso_string 1)" by code_simp
  moreover have "valid_date 1" by (simp add: valid_date_def)
  moreover have "tk_settledActivationRequests sample_task = None" "of_targetId (ar_operation sample_request) = tk_id sample_task"
    by (simp_all add: sample_task_def sample_request_def)
  ultimately show ?thesis
    using valid_requested [OF sample_task_valid] created_request(1) [OF sample_request_created]
    by (simp add: sample_pending_task_def)
qed

lemma sample_set:
  assumes "request_le sample_request r" and "request_valid r"
  shows "setTaskActivationRequest sample_sha256 sample_pending_task r 2
    = Inr (sample_pending_task\<lparr>tk_activationRequest := Some r, tk_updatedAt := iso_string 2\<rparr>)"
proof -
  have "date_le (tk_createdAt sample_pending_task) (iso_string 2)" by code_simp
  moreover have "valid_date 2" by (simp add: valid_date_def)
  moreover have "tk_settledActivationRequests sample_pending_task = None"
    by (simp add: sample_pending_task_def sample_task_def)
  moreover have "of_targetId (ar_operation r) = ''task-1''"
    using assms(1) by (simp add: request_le_def sample_request_def)
  ultimately show ?thesis
    using set_request_ok [OF sample_pending_valid] assms by simp
qed

lemma sample_put:
  assumes "setTaskActivationRequest sha t r now = Inr t'" and "tk_projectBindings t = []" and "tk_id t = ''task-1''"
  shows "putTask sha st t' = Inr (st\<lparr>st_tasks := (st_tasks st)(''task-1'' \<mapsto> t')\<rparr>)"
  using set_request_cases [OF assms(1)] assms(2,3) by (simp add: putTask_def)

lemma sample_record:
  assumes "isOk (createTaskEvent ''event-1'' ''task-1'' type payload now)"
    and "st_tasks st ''task-1'' \<noteq> None" and "st_events st ''task-1'' = []" and "st_eventSeq st ''task-1'' = 0"
  shows "isOk (recordEvent st ''task-1'' type payload now)"
proof -
  obtain e where e: "createTaskEvent ''event-1'' ''task-1'' type payload now = Inr e"
    using assms(1) by (auto simp: isOk_iff)
  have "js_trim ''event-1'' = ''event-1''" "js_trim ''task-1'' = ''task-1''" by code_simp+
  with e have "te_id e = ''event-1''" "te_taskId e = ''task-1''" by (auto simp: createTaskEvent_def)
  moreover have "''event-'' @ nat_str (0 + 1) = ''event-1''" by code_simp
  moreover have "list_all is_digit ''1''" by code_simp
  ultimately show ?thesis
    using assms(2-4) e
    by (auto simp: recordEvent_def nextEventId_def requireStored_def saveEvent_def isOk_iff Let_def)
qed

text \<open>
  C38. A cancelled activation is final.  Once \<open>cancelTaskActivation\<close> returned for a request id, then after
  any history of commands (of the service or on the Task, on this Task or others) no event reports the id
  as adopted, a request under that id is refused, and where the Task still holds the request it is the
  cancelled one.
\<close>

theorem cancelled_activation_final:
  assumes "service_inv st" and "cancelTaskActivation sha st i j why now = Inr (r, st1)"
    and "run_steps (service_step sha) st1 ops = Inr st2"
  shows "requestIdOf r = j \<and> ar_disposition r = Act_Cancelled \<and> \<not> adopted_in st2 i j
    \<and> (ac_taskId c = i \<and> ac_requestId c = j \<longrightarrow> \<not> isOk (requestTaskActivation sha st2 c later))
    \<and> (\<forall>t x. st_tasks st2 i = Some t \<and> tk_activationRequest t = Some x \<and> requestIdOf x = j \<longrightarrow>
          ar_disposition x = Act_Cancelled)"
proof -
  have "service_inv st2 \<and> withdrawn i j st2"
    by (rule withdrawal.run_inv [OF cancelled_withdrawn [OF assms(1,2)] assms(3)])
  moreover from this have "\<not> adopted_in st2 i j" by (simp add: withdrawn_def)
  moreover have "requestIdOf r = j \<and> ar_disposition r = Act_Cancelled"
    using cancel_effect [OF assms(1,2)] by simp
  ultimately show ?thesis
    using withdrawn_slot withdrawn_refused by blast
qed

lemma sample_cancel_ok:
  "isOk (cancelTaskActivation sample_sha256 sample_store ''task-1'' ''req-1'' ''not now'' 2)"
proof -
  have "isOk (cancelTaskActivationRequest sample_request ''not now'' 2)" by code_simp
  then obtain r where r: "cancelTaskActivationRequest sample_request ''not now'' 2 = Inr r" by (auto simp: isOk_iff)
  have "js_trim ''not now'' = ''not now''" by code_simp
  then have o: "ar_outcome r = Some ''not now''"
    using r by (auto simp: cancelTaskActivationRequest_def requireOutcome_def)
  have "request_valid sample_request" by (rule created_request(1) [OF sample_request_created])
  then have t': "setTaskActivationRequest sample_sha256 sample_pending_task r 2
      = Inr (sample_pending_task\<lparr>tk_activationRequest := Some r, tk_updatedAt := iso_string 2\<rparr>)"
    by (intro sample_set cancel_request(1,3) [OF r])
  have e: "isOk (createTaskEvent ''event-1'' ''task-1'' EV_CANCELLED [(''requestId'', ''req-1''), (''reason'', ''not now'')] 2)"
    by code_simp
  have "r \<noteq> sample_request" using cancel_request(2) [OF r] by auto
  with r o t' sample_put [OF t'] sample_record [OF e] show ?thesis
    by (auto simp: cancelTaskActivation_def isOk_iff)
qed

theorem cancelled_activation_final_witness:
  "\<exists>r st1. cancelTaskActivation sample_sha256 sample_store ''task-1'' ''req-1'' ''not now'' 2 = Inr (r, st1)
     \<and> \<not> isOk (requestTaskActivation sample_sha256 st1 sample_call 3)"
proof -
  obtain r st1 where c: "cancelTaskActivation sample_sha256 sample_store ''task-1'' ''req-1'' ''not now'' 2 = Inr (r, st1)"
    using sample_cancel_ok by (auto simp: isOk_iff)
  have "run_steps (service_step sample_sha256) st1 [] = Inr st1" by simp
  from cancelled_activation_final [OF sample_store_inv c this, of sample_call 3] c show ?thesis
    by (simp add: sample_call_def)
qed

text \<open>
  C39. A Task is activated once, and by the request it names.  When \<open>activateAdopted\<close> returns on a Task that
  holds a request, the Task was a Draft and is stored active with that request adopted, its effect
  confirmed, its id and inputs unchanged, the adoption in the ledger and no cancellation; a preparation is
  consumed only for an expected request, and the expected request has the id and the inputs of the one
  adopted.  After any later history no activation of the Task and no request for one is accepted.
\<close>

theorem activation_adoption_exact:
  assumes "service_inv st" and "st_tasks st i = Some t" and "tk_activationRequest t = Some x"
    and "activateAdopted sha st i p e now = Inr (t', st')"
    and "run_steps (service_step sha) st' ops = Inr st2"
  shows "tk_status t = Task_Draft \<and> st_tasks st' = (st_tasks st)(i \<mapsto> t') \<and> tk_status t' = Task_Active
    \<and> (\<exists>r. tk_activationRequest t' = Some r \<and> request_le x r \<and> ar_disposition r = Act_Adopted
         \<and> of_effect (ar_operation r) = EffectConfirmed)
    \<and> adopted_in st' i (requestIdOf x) \<and> \<not> cancelled_in st' i (requestIdOf x)
    \<and> (p \<noteq> None \<longrightarrow> e \<noteq> None)
    \<and> (\<forall>y. e = Some y \<longrightarrow> requestIdOf x = requestIdOf y \<and> of_inputDigest (ar_operation x) = of_inputDigest (ar_operation y))
    \<and> \<not> isOk (activateAdopted sha st2 i q f later)
    \<and> (ac_taskId c = i \<longrightarrow> \<not> isOk (requestTaskActivation sha st2 c later))"
proof -
  obtain r st1 es where t: "tk_status t = Task_Draft" and t': "tk_status t' = Task_Active" "tk_id t' = i"
    and r: "adoptTaskActivationRequest x p (Some [taskActivationOperationRef i (requestIdOf x)]) now = Inr r"
    and slot: "tk_activationRequest t' = Some r" and put: "putTask sha st1 t' = Inr st'"
    and ev: "recordEvent st i EV_ADOPTED ((''requestId'', requestIdOf r) # es) now = Inr st1"
    and p: "e = None \<longrightarrow> p = None"
    and e: "\<forall>y. e = Some y \<longrightarrow> requestIdOf x = requestIdOf y \<and> ar_disposition x \<in> {Act_Pending, Act_Adopted}
      \<and> of_inputDigest (ar_operation x) = of_inputDigest (ar_operation y)"
    by (rule adopt_stored [OF assms(1-4)]) (rule that; assumption)
  note l = recordEvent_logged [OF ev event_types(7)]
  have rd: "request_le x r" "requestIdOf r = requestIdOf x" "ar_disposition r = Act_Adopted"
    using adopt_request(1,2) [OF r] request_le_id by auto
  have tasks: "st_tasks st' = (st_tasks st)(i \<mapsto> t')" using putTask_cases [OF put] l t'(2) by (simp add: logged_def)
  have inv: "service_inv st'"
    using service.step_inv [OF assms(1), of sha "(AdoptActivation i p e, now)" st'] assms(4) by simp
  have ledger: "adopted_in st' i (requestIdOf x)"
    using putTask_cases(3) [OF put] logged_entry [OF l] rd(2) by simp
  then have not_cancelled: "\<not> cancelled_in st' i (requestIdOf x)" using inv by (auto simp: service_inv_def)
  have "request_valid r" using putTask_cases(2) [OF put] slot valid_slot by blast
  then have effect: "of_effect (ar_operation r) = EffectConfirmed"
    using rd(3) valid_adopted by blast
  have "launched i st'" using tasks t'(1) by (simp add: launched_def)
  with inv have "launched i st2" using launch.run_inv [OF _ assms(5)] by blast
  note refused = launched_refused [OF this]
  show ?thesis
    using t tasks t'(1) slot rd(1,3) effect ledger not_cancelled p e refused by auto
qed

lemma sample_adopt_ok: "isOk (activateAdopted sample_sha256 sample_store ''task-1'' None None 2)"
proof -
  define a where "a = sample_pending_task\<lparr>tk_status := Task_Active, tk_updatedAt := iso_string 2\<rparr>"
  have a: "activateTask sample_pending_task 2 = Inr a"
    by (simp add: activateTask_def a_def toISOString_def valid_date_def)
  have "isOk (adoptTaskActivationRequest sample_request None (Some [''task-activation:task-1/req-1'']) 2)" by code_simp
  then obtain r where r: "adoptTaskActivationRequest sample_request None (Some [''task-activation:task-1/req-1'']) 2 = Inr r"
    by (auto simp: isOk_iff)
  then have none: "ar_preparationId r = None"
    by (auto simp: adoptTaskActivationRequest_def sample_request_def split: if_split_asm)
  have av: "task_valid sample_sha256 a" unfolding a_def task_valid_def by code_simp
  have "date_le (tk_createdAt a) (iso_string 2)" unfolding a_def by code_simp
  moreover have "valid_date 2" by (simp add: valid_date_def)
  moreover have "tk_settledActivationRequests a = None" "tk_id a = ''task-1''" "tk_activationRequest a = Some sample_request"
    by (simp_all add: a_def sample_pending_task_def sample_task_def)
  moreover have "request_valid sample_request" by (rule created_request(1) [OF sample_request_created])
  moreover have "of_targetId (ar_operation r) = ''task-1''"
    using adopt_request(1) [OF r] by (simp add: request_le_def sample_request_def)
  ultimately obtain t' where t': "setTaskActivationRequest sample_sha256 a r 2 = Inr t'"
    using set_request_ok [OF av] adopt_request(1,4) [OF r] by auto
  have fields: "tk_id a = ''task-1''" "tk_projectBindings a = []" "tk_activationRequest a = Some sample_request"
    by (simp_all add: a_def)
  have "request_le sample_request r" using adopt_request(1) [OF r] .
  then have same: "requestIdOf r = ''req-1''" "ar_environmentPlan r = Plan_Empty"
    by (simp_all add: request_le_def sample_request_def requestIdOf_def)
  have e: "isOk (createTaskEvent ''event-1'' ''task-1'' EV_ADOPTED [(''requestId'', ''req-1''), (''environmentPlan'', ''empty'')] 2)"
    by code_simp
  obtain st1 where st1: "recordEvent sample_store ''task-1'' EV_ADOPTED [(''requestId'', ''req-1''), (''environmentPlan'', ''empty'')] 2 = Inr st1"
    using sample_record [OF e, of sample_store] by (auto simp: isOk_iff)
  have "taskActivationOperationRef ''task-1'' ''req-1'' = ''task-activation:task-1/req-1''" by code_simp
  with a r none t' fields same st1 sample_put [OF t' fields(2,1)] show ?thesis
    by (simp add: activateAdopted_def recordAdoptedTaskActivation_def refuse_def isOk_iff)
qed

theorem activation_adoption_exact_witness:
  "\<exists>t st. activateAdopted sample_sha256 sample_store ''task-1'' None None 2 = Inr (t, st)
     \<and> tk_status t = Task_Active \<and> adopted_in st ''task-1'' ''req-1''"
proof -
  obtain t st where t: "activateAdopted sample_sha256 sample_store ''task-1'' None None 2 = Inr (t, st)"
    using sample_adopt_ok by (auto simp: isOk_iff)
  have "run_steps (service_step sample_sha256) st [] = Inr st" by simp
  from activation_adoption_exact [OF sample_store_inv sample_pending(5,4) t this] t show ?thesis by simp
qed

lemma failed_not_adoptable:
  assumes "st_tasks st i = Some t" and "tk_activationRequest t = Some r" and "ar_disposition r = Act_Failed"
  shows "\<not> isOk (activateAdopted sha st i p (Some e) now)"
  using assms by (auto simp: isOk_iff activateAdopted_def activateTask_def recordAdoptedTaskActivation_def)

lemma failed_replayed:
  assumes "requestTaskActivation sha st c now = Inr (rp, st')" and "st_tasks st (ac_taskId c) = Some t"
    and "tk_activationRequest t = Some r" and "requestIdOf r = ac_requestId c"
  shows "rp_request rp = r" and "\<not> rp_created rp" and "st' = st"
  using assms by (auto simp: requestTaskActivation_def requireOpenDraft_def Let_def split: if_split_asm)

text \<open>
  C40. A failed activation wakes the Leader, and its request is dead.  When the failure of the open request
  of a Draft is recorded, the Draft holds the request as failed with the effect it had at least, no outcome is
  in the ledger, and the mailbox of the Leader of the Task, and no other, has a pending batch that names
  the failure and the Task.  Asking again under the same id returns the failed request and stores nothing, and as
  long as the Task holds it every activation that names the request it prepared (as the preparer of workspaces
  always does) is refused: the Leader needs a new request.
\<close>

theorem failed_activation_wakes_leader:
  assumes "service_inv st" and "rows_inv (st_mailboxes st)"
    and "recordFailedTaskActivation sha st i q why ev now = Inr (r, st')"
    and "st_tasks st i = Some t" and "tk_status t = Task_Draft" and "tk_activationRequest t = Some x"
    and "requestIdOf x = requestIdOf q" and "\<not> request_settled x"
    and "\<forall>m. getWorkMailbox (st_mailboxes st) (RoleTarget i ''leader'') = Inr (Some m) \<longrightarrow>
      \<not> mailboxContainsDedupeKey m (''sequence:'' @ int_str (nextSequence m))"
  shows "request_le x r \<and> ar_disposition r = Act_Failed \<and> no_outcome st' i (requestIdOf x)
    \<and> (\<exists>t'. st_tasks st' = (st_tasks st)(i \<mapsto> t') \<and> tk_activationRequest t' = Some r \<and> tk_status t' = Task_Draft)
    \<and> rows_inv (st_mailboxes st')
    \<and> (\<exists>m b. getWorkMailbox (st_mailboxes st') (RoleTarget i ''leader'') = Inr (Some m) \<and> mb_pending m = Some b
         \<and> ''activation-failed'' \<in> set (batch_reasons b)
         \<and> mailboxEntityRefKey (TaskRef (js_trim i)) \<in> mailboxEntityRefKey ` set (batch_refs b))
    \<and> (\<forall>u. copyTarget u \<noteq> copyTarget (RoleTarget i ''leader'') \<longrightarrow>
         getWorkMailbox (st_mailboxes st') u = getWorkMailbox (st_mailboxes st) u)
    \<and> (\<forall>c later rp st2. requestTaskActivation sha st' c later = Inr (rp, st2) \<and> ac_taskId c = i
         \<and> ac_requestId c = requestIdOf x \<longrightarrow> rp_request rp = r \<and> \<not> rp_created rp \<and> st2 = st')
    \<and> (\<forall>st2 t2 p e later. st_tasks st2 i = Some t2 \<and> tk_activationRequest t2 = Some r \<longrightarrow>
         \<not> isOk (activateAdopted sha st2 i p (Some e) later))"
proof -
  obtain t' st1 st2 es where f: "failTaskActivationRequest x why now ev = Inr r"
    and t': "setTaskActivationRequest sha t r now = Inr t'" and p: "putTask sha st t' = Inr st1"
    and e: "recordEvent st1 i EV_FAILED ((''requestId'', requestIdOf r) # es) now = Inr st2"
    and st': "st_tasks st' = st_tasks st2" "st_events st' = st_events st2"
    and wake: "tk_status t = Task_Draft \<longrightarrow> (\<exists>m. enqueueWork getWorkMailbox saveWorkMailbox (st_mailboxes st2)
        (RoleTarget i ''leader'') ''activation-failed'' (AtDate now) [TaskRef i]
        \<lparr>meta_source = None, meta_dedupeKey = None, meta_factRevision = None\<rparr> = Inr (m, st_mailboxes st'))"
    by (rule fail_open [OF assms(3,4,6-8)]) (rule that; assumption)
  note l = recordEvent_logged [OF e event_types(9)]
  have rd: "request_le x r" "requestIdOf r = requestIdOf x" "ar_disposition r = Act_Failed"
    using fail_request(1,3) [OF f] request_le_id assms(8) by (auto simp: request_settled_def)
  have rows: "st_mailboxes st2 = st_mailboxes st" using l putTask_cases [OF p] by (simp add: logged_def)
  have id: "tk_id t' = i" using set_request_cases [OF t'] service_task [OF assms(1,4)] by simp
  have "ledger_entry st' = ledger_entry st2" using st'(2) by (auto simp: ledger_entry_def fun_eq_iff)
  then have none: "no_outcome st' i (requestIdOf x)"
    using open_request_no_outcome [OF assms(1,4,6,8)] put_then_logged(2) [OF p l] event_types
    by (simp add: no_outcome_def)
  have stored: "st_tasks st' = (st_tasks st)(i \<mapsto> t')" "tk_activationRequest t' = Some r" "tk_status t' = Task_Draft"
    using st'(1) put_then_logged(1) [OF p l] id set_request_cases [OF t'] assms(5) by simp_all
  obtain m where m: "enqueueWork getWorkMailbox saveWorkMailbox (st_mailboxes st)
        (RoleTarget i ''leader'') ''activation-failed'' (AtDate now) [TaskRef i]
        \<lparr>meta_source = None, meta_dedupeKey = None, meta_factRevision = None\<rparr> = Inr (m, st_mailboxes st')"
    using wake assms(5) rows by auto
  note s = rows.enqueue_store [OF assms(2) m]
  have trim: "js_trim ''activation-failed'' = ''activation-failed''" by code_simp
  obtain b where "mb_pending m = Some b" "''activation-failed'' \<in> set (batch_reasons b)"
    "mailboxEntityRefKey (TaskRef (js_trim i)) \<in> mailboxEntityRefKey ` set (batch_refs b)"
    by (rule rows.enqueued_signal [OF assms(2) m assms(9)]) (auto simp: trim)
  moreover have "rp_request rp = r \<and> \<not> rp_created rp \<and> st3 = st'"
    if "requestTaskActivation sha st' c later = Inr (rp, st3)" "ac_taskId c = i" "ac_requestId c = requestIdOf x"
    for c later rp st3
    using failed_replayed [OF that(1) _ stored(2)] that(2,3) stored(1) rd(2) by simp
  moreover have "\<not> isOk (activateAdopted sha st3 i p (Some e) later)"
    if "st_tasks st3 i = Some t2" "tk_activationRequest t2 = Some r" for st3 t2 p e later
    by (rule failed_not_adoptable [OF that rd(3)])
  ultimately show ?thesis using rd(1,3) none stored s by auto
qed

lemma sample_fail_ok:
  "isOk (recordFailedTaskActivation sample_sha256 sample_store ''task-1'' sample_request ''boom''
     \<lparr>ev_effect = Some EffectPossible, ev_receiptRefs = None, ev_partialResultRefs = None\<rparr> 2)"
proof -
  define ev where "ev = \<lparr>ev_effect = Some EffectPossible, ev_receiptRefs = None, ev_partialResultRefs = None\<rparr>"
  have "isOk (failTaskActivationRequest sample_request ''boom'' 2 ev)" unfolding ev_def by code_simp
  then obtain r where r: "failTaskActivationRequest sample_request ''boom'' 2 ev = Inr r" by (auto simp: isOk_iff)
  have v: "request_valid sample_request" by (rule created_request(1) [OF sample_request_created])
  have t': "setTaskActivationRequest sample_sha256 sample_pending_task r 2
      = Inr (sample_pending_task\<lparr>tk_activationRequest := Some r, tk_updatedAt := iso_string 2\<rparr>)"
    by (intro sample_set fail_request(1,2) [OF r] v)
  have "js_trim ''boom'' = ''boom''" by code_simp
  moreover have "recordOperationEvidence (ar_operation sample_request) ev
      = Inr ((ar_operation sample_request)\<lparr>of_effect := EffectPossible\<rparr>)" unfolding ev_def by code_simp
  ultimately have o: "ar_outcome r = Some ''boom''" "of_effect (ar_operation r) = EffectPossible"
    using r by (auto simp: failTaskActivationRequest_def requireOutcome_def)
  have e: "isOk (createTaskEvent ''event-1'' ''task-1'' EV_FAILED
      [(''requestId'', ''req-1''), (''outcome'', ''boom''), (''effect'', ''possible'')] 2)"
    by code_simp
  obtain st2 where st2: "recordEvent (sample_store\<lparr>st_tasks := (st_tasks sample_store)(''task-1'' \<mapsto>
        sample_pending_task\<lparr>tk_activationRequest := Some r, tk_updatedAt := iso_string 2\<rparr>)\<rparr>)
      ''task-1'' EV_FAILED [(''requestId'', ''req-1''), (''outcome'', ''boom''), (''effect'', ''possible'')] 2 = Inr st2"
    using sample_record [OF e, of "sample_store\<lparr>st_tasks := (st_tasks sample_store)(''task-1'' \<mapsto>
        sample_pending_task\<lparr>tk_activationRequest := Some r, tk_updatedAt := iso_string 2\<rparr>)\<rparr>"]
    by (auto simp: isOk_iff)
  have "st_mailboxes st2 = (\<lambda>_. None)"
    using recordEvent_logged [OF st2 event_types(9)] by (simp add: logged_def sample_store_def)
  moreover have "isOk (enqueueWork getWorkMailbox saveWorkMailbox (\<lambda>_. None) (RoleTarget ''task-1'' ''leader'')
      ''activation-failed'' (AtDate 2) [TaskRef ''task-1'']
      \<lparr>meta_source = None, meta_dedupeKey = None, meta_factRevision = None\<rparr>)"
    by code_simp
  moreover have "requestIdOf r = ''req-1''" using fail_request(1) [OF r] request_le_id by fastforce
  ultimately show ?thesis
    using r t' o st2 sample_put [OF t'] unfolding ev_def [symmetric]
    by (auto simp: recordFailedTaskActivation_def isOk_iff)
qed

theorem failed_activation_wakes_leader_witness:
  "\<exists>r st m. recordFailedTaskActivation sample_sha256 sample_store ''task-1'' sample_request ''boom''
       \<lparr>ev_effect = Some EffectPossible, ev_receiptRefs = None, ev_partialResultRefs = None\<rparr> 2 = Inr (r, st)
     \<and> ar_disposition r = Act_Failed
     \<and> getWorkMailbox (st_mailboxes st) (RoleTarget ''task-1'' ''leader'') = Inr (Some m) \<and> mb_pending m \<noteq> None
     \<and> \<not> isOk (activateAdopted sample_sha256 st ''task-1'' None (Some sample_request) 3)"
proof -
  obtain r st where f: "recordFailedTaskActivation sample_sha256 sample_store ''task-1'' sample_request ''boom''
       \<lparr>ev_effect = Some EffectPossible, ev_receiptRefs = None, ev_partialResultRefs = None\<rparr> 2 = Inr (r, st)"
    using sample_fail_ok by (auto simp: isOk_iff)
  have rows: "rows_inv (st_mailboxes sample_store)" by (simp add: rows_inv_def sample_store_def)
  have none: "\<forall>m. getWorkMailbox (st_mailboxes sample_store) (RoleTarget ''task-1'' ''leader'') = Inr (Some m) \<longrightarrow>
      \<not> mailboxContainsDedupeKey m (''sequence:'' @ int_str (nextSequence m))"
    using getWorkMailbox_eq [OF rows] by (simp add: sample_store_def)
  have "\<not> request_settled sample_request" by (simp add: request_settled_def)
  note failed = failed_activation_wakes_leader [OF sample_store_inv rows f sample_pending(5,2,4) refl this none]
  then obtain t' m b where t': "st_tasks st = (st_tasks sample_store)(''task-1'' \<mapsto> t')" "tk_activationRequest t' = Some r"
    and m: "getWorkMailbox (st_mailboxes st) (RoleTarget ''task-1'' ''leader'') = Inr (Some m)" "mb_pending m = Some b"
    by blast
  have "st_tasks st ''task-1'' = Some t'" by (simp add: t'(1))
  with failed t'(2) have "\<not> isOk (activateAdopted sample_sha256 st ''task-1'' None (Some sample_request) 3)" by blast
  with failed f m show ?thesis by blast
qed

text \<open>
  What a failed request leaves behind once another takes its slot: nothing.  It is not put into the settled
  history, so neither its evidence nor its inputs are known to the Task any more.
\<close>

theorem failed_request_forgotten:
  assumes "setTaskActivationRequest sha t r now = Inr t'" and "tk_activationRequest t = Some x"
    and "ar_disposition x = Act_Failed" and "requestIdOf r \<noteq> requestIdOf x"
  shows "\<not> isOk (recordTaskActivationRequestEvidence sha t' (requestIdOf x) ev later)"
proof -
  have "task_valid sha t" using assms(1) by (auto simp: setTaskActivationRequest_def)
  then have fresh: "requestIdOf x \<notin> requestIdOf ` set (case tk_settledActivationRequests t of None \<Rightarrow> [] | Some rs \<Rightarrow> rs)"
    using assms(2) by (rule settled_fresh)
  have "\<not> isSettledActivationRequest x" using assms(3) by (simp add: isSettledActivationRequest_def)
  with fresh assms(2) have "requestIdOf x \<notin> requestIdOf ` set (retained_requests t r)"
    using set_slice_last by (fastforce simp: retained_requests_def)
  moreover have "tk_activationRequest t' = Some r"
    "tk_settledActivationRequests t' = (if retained_requests t r = [] then tk_settledActivationRequests t
       else Some (retained_requests t r))"
    using assms(1) by (auto simp: setTaskActivationRequest_def Let_def)
  ultimately have "tk_settledActivationRequests t' = Some rs \<Longrightarrow> requestIdOf x \<notin> requestIdOf ` set rs" for rs
    using fresh by (auto split: if_split_asm)
  then have "tk_settledActivationRequests t' = Some rs \<Longrightarrow> u \<in> set rs \<Longrightarrow> requestIdOf u \<noteq> requestIdOf x" for rs u
    by (metis imageI)
  then show ?thesis
    using \<open>tk_activationRequest t' = Some r\<close> assms(4)
    by (auto simp: recordTaskActivationRequestEvidence_def recordSettledEvidence_def list_ex_iff image_iff isOk_iff
        split: option.splits)
qed

end
