(* ===== verification/Managed_Workspace.thy ===== *)
theory Managed_Workspace
  imports Yui_Validation
begin

section \<open>Managed workspaces\<close>

text \<open>
  \<open>src/worktree/managedWorkspace.ts\<close>: the record of a directory tree the Controller prepares for one owner,
  with one entry per Project.  Ownership is independent of the Role that executes in the workspace.  Of
  Node's \<open>path.resolve\<close> the posix behaviour is modelled, with the working directory as an argument.
\<close>

subsection \<open>Paths\<close>

fun split_slash :: "string \<Rightarrow> string list" where
  "split_slash [] = [[]]"
| "split_slash (c # s) =
     (if c = CHR ''/'' then [] # split_slash s
      else (case split_slash s of [] \<Rightarrow> [[c]] | w # ws \<Rightarrow> (c # w) # ws))"

fun collapse :: "string list \<Rightarrow> string list \<Rightarrow> string list" where
  \<comment> \<open>the segments kept so far, last first\<close>
  "collapse kept [] = rev kept"
| "collapse kept (p # ps) =
     (if p = [] \<or> p = ''.'' then collapse kept ps
      else if p = ''..'' then collapse (drop 1 kept) ps
      else collapse (p # kept) ps)"

definition resolve :: "string \<Rightarrow> string \<Rightarrow> string" where
  "resolve cwd path =
     ''/'' @ join_with ''/''
       (collapse [] (split_slash (if take 1 path = ''/'' then path else cwd @ ''/'' @ path)))"

subsection \<open>The record\<close>

datatype lane_purpose = Lane_Execution | Lane_Review

datatype workspace_owner =
    Owner_Task string
  | Owner_WorkItem string string
  | Owner_ReviewRound string string
  | Owner_Integration string string
  | Owner_Lane string string string lane_purpose "string option" "string option"

datatype project_access = Access_Read | Access_Write

record project_entry =
  pe_projectId :: string
  pe_directory :: string
  pe_access :: project_access
  pe_path :: string
  pe_branch :: string
  pe_baseRef :: string
  pe_baseCommit :: string

record managed_workspace =
  mw_owner :: workspace_owner
  mw_root :: string
  mw_entries :: "project_entry list"
  mw_createdAt :: string
  mw_updatedAt :: string

record workspace_binding =
  wb_projectId :: string
  wb_directory :: string

fun owner_task :: "workspace_owner \<Rightarrow> string" where
  "owner_task (Owner_Task t) = t"
| "owner_task (Owner_WorkItem t _) = t"
| "owner_task (Owner_ReviewRound t _) = t"
| "owner_task (Owner_Integration t _) = t"
| "owner_task (Owner_Lane t _ _ _ _ _) = t"

definition validateLaneOwner ::
    "string \<Rightarrow> string \<Rightarrow> string \<Rightarrow> lane_purpose \<Rightarrow> string option \<Rightarrow> string option \<Rightarrow> workspace_owner result" where
  "validateLaneOwner taskId groupId laneId purpose workItem reviewRound =
     andThen (optionally (\<lambda>i. requireIdentity i ''Work item id'') workItem) (\<lambda>workItemId.
     andThen (optionally (\<lambda>i. requireIdentity i ''ReviewRound id'') reviewRound) (\<lambda>reviewRoundId.
       if purpose = Lane_Execution \<and> workItemId = None
       then throw ''Managed execution-lane workspace requires a Work Item.''
       else if purpose = Lane_Execution \<and> reviewRoundId \<noteq> None
       then throw ''Managed execution-lane workspace cannot also own a ReviewRound.''
       else if purpose = Lane_Review \<and> reviewRoundId = None
       then throw ''Managed execution-lane workspace requires a ReviewRound.''
       else if purpose = Lane_Review \<and> workItemId \<noteq> None
       then throw ''Managed review-lane workspace cannot also own a Work Item.''
       else andThen (requireIdentity taskId ''Task id'') (\<lambda>t.
         andThen (requireIdentity groupId ''ExecutionGroup id'') (\<lambda>g.
         andThen (requireIdentity laneId ''ExecutionLane id'') (\<lambda>l.
           Inr (Owner_Lane t g l purpose workItemId reviewRoundId))))))"

fun validateOwner :: "workspace_owner \<Rightarrow> workspace_owner result" where
  "validateOwner (Owner_Task t) = andThen (requireIdentity t ''Task id'') (\<lambda>t'. Inr (Owner_Task t'))"
| "validateOwner (Owner_WorkItem t i) =
     andThen (requireIdentity t ''Task id'') (\<lambda>t'.
     andThen (requireIdentity i ''Work item id'') (\<lambda>i'. Inr (Owner_WorkItem t' i')))"
| "validateOwner (Owner_ReviewRound t i) =
     andThen (requireIdentity t ''Task id'') (\<lambda>t'.
     andThen (requireIdentity i ''ReviewRound id'') (\<lambda>i'. Inr (Owner_ReviewRound t' i')))"
| "validateOwner (Owner_Integration t i) =
     andThen (requireIdentity t ''Task id'') (\<lambda>t'.
     andThen (requireIdentity i ''Integration Attempt id'') (\<lambda>i'. Inr (Owner_Integration t' i')))"
| "validateOwner (Owner_Lane t g l purpose workItem reviewRound) =
     validateLaneOwner t g l purpose workItem reviewRound"

fun normalizeEntries ::
    "string \<Rightarrow> string list \<Rightarrow> string list \<Rightarrow> project_entry list \<Rightarrow> project_entry list result" where
  \<comment> \<open>with the Project ids and the directories seen so far\<close>
  "normalizeEntries cwd projectIds directories [] = Inr []"
| "normalizeEntries cwd projectIds directories (entry # rest) =
     andThen (requireIdentity (pe_projectId entry) ''Project id'') (\<lambda>projectId.
     andThen (requireIdentity (pe_directory entry) ''Project directory'') (\<lambda>directory.
       if projectId \<in> set projectIds then throw ''Workspace Project is duplicated''
       else if directory \<in> set directories then throw ''Workspace Project directory is duplicated''
       else andThen (requireText (pe_path entry) ''Workspace Project path'') (\<lambda>text.
         if resolve cwd text \<noteq> pe_path entry
         then throw ''Workspace Project path must be absolute and normalized.''
         else andThen (requireText (pe_branch entry) ''Workspace Project branch'') (\<lambda>branch.
         andThen (requireText (pe_baseRef entry) ''Workspace Project base ref'') (\<lambda>baseRef.
         andThen (requireCommit (pe_baseCommit entry) ''Managed workspace base commit'') (\<lambda>baseCommit.
         andThen (normalizeEntries cwd (projectId # projectIds) (directory # directories) rest) (\<lambda>entries.
           Inr (\<lparr>pe_projectId = projectId, pe_directory = directory, pe_access = pe_access entry,
                 pe_path = pe_path entry, pe_branch = branch, pe_baseRef = baseRef,
                 pe_baseCommit = baseCommit\<rparr> # entries))))))))"

definition validateManagedWorkspace :: "string \<Rightarrow> managed_workspace \<Rightarrow> managed_workspace result" where
  "validateManagedWorkspace cwd workspace = checked workspace
     [skip (validateOwner (mw_owner workspace)),
      andThen (requireText (mw_root workspace) ''Managed workspace root'') (\<lambda>root.
        refuse (resolve cwd root \<noteq> mw_root workspace) ''Managed workspace root must be absolute and normalized.''),
      skip (normalizeEntries cwd [] [] (mw_entries workspace)),
      skip (requireTimestamp (mw_createdAt workspace) ''ManagedWorkspace createdAt''),
      skip (requireTimestamp (mw_updatedAt workspace) ''ManagedWorkspace updatedAt'')]"

definition createManagedWorkspace ::
    "string \<Rightarrow> workspace_owner \<Rightarrow> string \<Rightarrow> project_entry list \<Rightarrow> date \<Rightarrow> managed_workspace result" where
  "createManagedWorkspace cwd owner root entries now =
     andThen (toISOString now) (\<lambda>timestamp.
     andThen (validateOwner owner) (\<lambda>valid_owner.
     andThen (requireText root ''Managed workspace root'') (\<lambda>text.
     andThen (normalizeEntries cwd [] [] entries) (\<lambda>normalized.
       validateManagedWorkspace cwd
         \<lparr>mw_owner = valid_owner, mw_root = resolve cwd text, mw_entries = normalized,
          mw_createdAt = timestamp, mw_updatedAt = timestamp\<rparr>))))"

definition managedWorkspaceIdentity :: "managed_workspace \<Rightarrow> workspace_owner \<times> string \<times> project_entry list" where
  "managedWorkspaceIdentity workspace = (mw_owner workspace, mw_root workspace, mw_entries workspace)"

definition sameManagedWorkspaceIdentity :: "managed_workspace \<Rightarrow> managed_workspace \<Rightarrow> bool" where
  "sameManagedWorkspaceIdentity left right \<longleftrightarrow> managedWorkspaceIdentity left = managedWorkspaceIdentity right"

fun access_name :: "project_access \<Rightarrow> string" where
  "access_name Access_Read = ''read''"
| "access_name Access_Write = ''write''"

definition isTaskOwnedWorkspace ::
    "managed_workspace option \<Rightarrow> string \<Rightarrow> string option \<Rightarrow> workspace_binding list \<Rightarrow> bool" where
  "isTaskOwnedWorkspace workspace taskId taskRoot bindings =
     (case workspace of
        None \<Rightarrow> False
      | Some w \<Rightarrow>
          mw_owner w = Owner_Task taskId \<and> taskRoot = Some (mw_root w)
          \<and> sort (map (\<lambda>e. pe_projectId e @ [NUL] @ pe_directory e @ [NUL] @ access_name (pe_access e)) (mw_entries w))
            = sort (map (\<lambda>b. wb_projectId b @ [NUL] @ wb_directory b @ [NUL] @ ''write'') bindings))"

definition workspaceProjectEntry :: "managed_workspace \<Rightarrow> string \<Rightarrow> project_entry option" where
  "workspaceProjectEntry workspace projectId = find (\<lambda>e. pe_projectId e = projectId) (mw_entries workspace)"

fun owner_key :: "workspace_owner \<Rightarrow> string" where
  "owner_key (Owner_Task t) = ''task:'' @ t"
| "owner_key (Owner_WorkItem t i) = ''work-item:'' @ t @ '':'' @ i"
| "owner_key (Owner_ReviewRound t i) = ''review-round:'' @ t @ '':'' @ i"
| "owner_key (Owner_Integration t i) = ''integration-attempt:'' @ t @ '':'' @ i"
| "owner_key (Owner_Lane t g l _ _ _) = ''execution-lane:'' @ t @ '':'' @ g @ '':'' @ l"

definition managedWorkspaceKey :: "workspace_owner \<Rightarrow> string result" where
  "managedWorkspaceKey owner = andThen (validateOwner owner) (\<lambda>valid. Inr (owner_key valid))"

fun managedWorktreeName :: "workspace_owner \<Rightarrow> string" where
  "managedWorktreeName (Owner_Task _) = ''main''"
| "managedWorktreeName (Owner_WorkItem _ i) = i"
| "managedWorktreeName (Owner_ReviewRound _ i) = i"
| "managedWorktreeName (Owner_Integration _ i) = ''integration-'' @ i"
| "managedWorktreeName (Owner_Lane _ g l _ _ _) = ''execution-lane-'' @ g @ ''-'' @ l"

subsection \<open>Laws\<close>

interpretation workspace: record_validator "validateManagedWorkspace cwd" for cwd
  by unfold_locales (simp add: validateManagedWorkspace_def)

definition workspace_valid :: "string \<Rightarrow> managed_workspace \<Rightarrow> bool" where
  "workspace_valid cwd w \<longleftrightarrow> isOk (validateManagedWorkspace cwd w)"

lemma validateManagedWorkspace_eq [simp]:
  "validateManagedWorkspace cwd w = Inr w' \<longleftrightarrow> workspace_valid cwd w \<and> w' = w"
  using workspace.returns_self [of cwd w w'] workspace.ok_eq [of cwd w] by (auto simp: workspace_valid_def)

lemma validateManagedWorkspace_ok [simp]: "isOk (validateManagedWorkspace cwd w) \<longleftrightarrow> workspace_valid cwd w"
  by (simp add: workspace_valid_def)

text \<open>A segment of a resolved path, and what resolving does to a path made of such segments.\<close>

definition plain_segment :: "string \<Rightarrow> bool" where
  "plain_segment s \<longleftrightarrow> s \<noteq> [] \<and> s \<noteq> ''.'' \<and> s \<noteq> ''..'' \<and> CHR ''/'' \<notin> set s"

lemma split_slash_no_slash: "w \<in> set (split_slash s) \<Longrightarrow> CHR ''/'' \<notin> set w"
  by (induction s arbitrary: w) (auto split: if_split_asm list.splits)

lemma collapse_plain:
  "list_all plain_segment kept \<Longrightarrow> \<forall>p \<in> set ps. CHR ''/'' \<notin> set p \<Longrightarrow> list_all plain_segment (collapse kept ps)"
proof (induction kept ps rule: collapse.induct)
  case (2 kept p ps)
  have "list_all plain_segment (drop 1 kept)" using 2(4) by (cases kept) auto
  with 2 show ?case by (auto simp: plain_segment_def [of p])
qed simp

lemma collapse_id: "list_all plain_segment ps \<Longrightarrow> collapse kept ps = rev kept @ ps"
  by (induction kept ps rule: collapse.induct) (auto simp: plain_segment_def)

lemma split_slash_plain: "CHR ''/'' \<notin> set w \<Longrightarrow> split_slash w = [w]"
  by (induction w) auto

lemma split_slash_append: "CHR ''/'' \<notin> set w \<Longrightarrow> split_slash (w @ CHR ''/'' # s) = w # split_slash s"
  by (induction w) auto

lemma split_join:
  "list_all plain_segment ps \<Longrightarrow> split_slash (join_with ''/'' ps) = (if ps = [] then [[]] else ps)"
proof (induction "''/'' :: string" ps rule: join_with.induct)
  case (3 p q ps)
  then have "CHR ''/'' \<notin> set p" by (simp add: plain_segment_def)
  with 3 show ?case by (simp add: split_slash_append)
qed (auto simp: plain_segment_def split_slash_plain)

lemma resolve_idem: "resolve cwd (resolve cwd p) = resolve cwd p"
proof -
  define ps where "ps = collapse [] (split_slash (if take 1 p = ''/'' then p else cwd @ ''/'' @ p))"
  have "list_all plain_segment ps"
    unfolding ps_def by (rule collapse_plain) (auto dest: split_slash_no_slash)
  then have "collapse [] (split_slash (''/'' @ join_with ''/'' ps)) = ps"
    using collapse_id [of ps "[]"] split_join [of ps] by auto
  then show ?thesis by (simp add: resolve_def ps_def)
qed

lemma validateOwner_norm: "validateOwner w = Inr w' \<Longrightarrow> validateOwner w' = Inr w'"
  by (cases w) (auto simp: validateLaneOwner_def optionally_eq_Inr identity_ok_trim split: if_split_asm option.splits)

lemma normalizeEntries_norm:
  "normalizeEntries cwd ps ds es = Inr es' \<Longrightarrow> normalizeEntries cwd ps ds es' = Inr es'"
proof (induction cwd ps ds es arbitrary: es' rule: normalizeEntries.induct)
  case (2 cwd ps ds e es)
  then show ?case
    by (auto simp: identity_ok_trim text_ok_trim requireCommit_eq js_lower_commit commit_text split: if_split_asm)
qed simp

end
