(* ===== verification/Execution_Group.thy ===== *)
theory Execution_Group
  imports Yui_Validation
begin

section \<open>Execution groups\<close>

text \<open>
  \<open>src/execution/workItemExecution.ts\<close>: one immutable Assignment that several producer Lanes execute, for a
  Work Item or for a review, and the identity of the context snapshot it refers to (\<open>src/context/contextSnapshot.ts\<close>).
  Lanes are logical slots: an attempt is an AgentRun, and a Lane that succeeded or failed is final until a
  retry reopens the failed ones.  Of the launch snapshot of a Lane only the writable Projects matter here;
  the rest is one JSON value, and its validation (\<open>src/executor/effectiveLaunch.ts\<close>) is the argument \<open>launchOk\<close>.
\<close>

subsection \<open>Assignments\<close>

datatype snapshot_scope = Scope_Task | Scope_WorkItem | Scope_Stage

record snapshot_ref =
  sn_id :: string
  sn_taskId :: string
  sn_scope :: snapshot_scope
  sn_scopeRef :: "string option"
  sn_sequence :: int
  sn_digest :: string

definition is_digest :: "string \<Rightarrow> bool" where
  "is_digest s \<longleftrightarrow> length s = 64 \<and> list_all is_hex_lower s"

definition snapshotIdentity :: "snapshot_ref \<Rightarrow> snapshot_ref result" where
  "snapshotIdentity input =
     andThen (requireIdentity (sn_id input) ''Context Snapshot id'') (\<lambda>i.
     andThen (requireIdentity (sn_taskId input) ''Context Snapshot Task id'') (\<lambda>taskId.
     andThen (optionalText (sn_scopeRef input) ''Context Snapshot scope ref'') (\<lambda>scopeRef.
       if sn_scope input = Scope_Task \<and> scopeRef \<noteq> None
       then throw ''A task Context Snapshot cannot carry scopeRef.''
       else if sn_scope input \<noteq> Scope_Task \<and> scopeRef = None
       then throw ''Context Snapshot requires scopeRef.''
       else andThen (requirePositiveInteger (sn_sequence input) ''Context Snapshot sequence'') (\<lambda>sequence.
         Inr (input\<lparr>sn_id := i, sn_taskId := taskId, sn_scopeRef := scopeRef, sn_sequence := sequence\<rparr>)))))"

definition validateContextSnapshotRef :: "snapshot_ref \<Rightarrow> snapshot_ref result" where
  "validateContextSnapshotRef ref =
     andThen (snapshotIdentity ref) (\<lambda>identity.
       if \<not> is_digest (sn_digest ref) then throw ''Context Snapshot ref digest must be SHA-256 hex.''
       else Inr identity)"

record project_base =
  xp_projectId :: string
  xp_baseCommit :: string

record dependency_fact =
  xd_workItemId :: string
  xd_revision :: int

record work_assignment =
  wa_input :: string
  wa_objective :: string
  wa_acceptance :: "string list"
  wa_contextSnapshotRef :: snapshot_ref
  wa_taskId :: string
  wa_workItemId :: string
  wa_workItemRevision :: int
  wa_projects :: "project_base list"
  wa_dependencyFacts :: "dependency_fact list"

datatype review_scope = Review_WorkItem | Review_Task

record review_assignment =
  ra_input :: string
  ra_objective :: string
  ra_acceptance :: "string list"
  ra_contextSnapshotRef :: snapshot_ref
  ra_taskId :: string
  ra_reviewRoundId :: string
  ra_reviewBaseCommit :: string
  ra_scope :: review_scope
  ra_workItemId :: "string option"
  ra_candidateId :: "string option"
  ra_projects :: "project_base list"

datatype execution_assignment = WorkAssignment work_assignment | ReviewAssignment review_assignment

fun assignment_task :: "execution_assignment \<Rightarrow> string" where
  "assignment_task (WorkAssignment a) = wa_taskId a"
| "assignment_task (ReviewAssignment a) = ra_taskId a"

fun assignment_projects :: "execution_assignment \<Rightarrow> project_base list" where
  "assignment_projects (WorkAssignment a) = wa_projects a"
| "assignment_projects (ReviewAssignment a) = ra_projects a"

definition requireExecutionCommit :: "string \<Rightarrow> string \<Rightarrow> string result" where
  \<comment> \<open>\<open>requireCommit\<close> of this file: 40 lower-case digits\<close>
  "requireExecutionCommit value label =
     andThen (requireText value label) (\<lambda>normalized.
       if \<not> (length normalized = 40 \<and> list_all is_hex_lower normalized) then throw (label @ '' is invalid.'')
       else Inr normalized)"

definition checkProjectBases :: "project_base list \<Rightarrow> unit result" where
  "checkProjectBases projects = all_ok
     [all_ok (map (\<lambda>p. all_ok
        [skip (requireIdentity (xp_projectId p) ''ExecutionAssignment Project id''),
         skip (requireExecutionCommit (xp_baseCommit p) ''ExecutionAssignment Project base commit'')]) projects),
      skip (normalizedUniqueIdentities (map xp_projectId projects) ''ExecutionAssignment Project'')]"

definition validateExecutionProjects :: "project_base list \<Rightarrow> unit result" where
  "validateExecutionProjects projects = all_ok
     [refuse (projects = []) ''ExecutionAssignment projects are invalid.'', checkProjectBases projects]"

definition validateWorkItemExecutionAssignment :: "work_assignment \<Rightarrow> work_assignment result" where
  "validateWorkItemExecutionAssignment assignment = checked assignment
     [skip (requireText (wa_input assignment) ''ExecutionAssignment input''),
      skip (requireText (wa_objective assignment) ''ExecutionAssignment objective''),
      skip (normalizedUniqueText (wa_acceptance assignment) ''ExecutionAssignment acceptance criterion''),
      skip (validateContextSnapshotRef (wa_contextSnapshotRef assignment)),
      skip (requireIdentity (wa_taskId assignment) ''ExecutionAssignment Task id''),
      skip (requireIdentity (wa_workItemId assignment) ''ExecutionAssignment WorkItem id''),
      skip (requirePositiveInteger (wa_workItemRevision assignment) ''ExecutionAssignment WorkItem revision''),
      checkProjectBases (wa_projects assignment),
      all_ok (map (\<lambda>d. all_ok
        [skip (requireIdentity (xd_workItemId d) ''ExecutionAssignment dependency WorkItem id''),
         skip (requirePositiveInteger (xd_revision d) ''ExecutionAssignment dependency revision'')])
        (wa_dependencyFacts assignment)),
      skip (normalizedUniqueIdentities (map xd_workItemId (wa_dependencyFacts assignment))
        ''ExecutionAssignment dependency WorkItem'')]"

definition validateReviewExecutionAssignment :: "review_assignment \<Rightarrow> review_assignment result" where
  "validateReviewExecutionAssignment assignment = checked assignment
     [skip (requireText (ra_input assignment) ''ExecutionAssignment input''),
      skip (requireText (ra_objective assignment) ''ExecutionAssignment objective''),
      skip (normalizedUniqueText (ra_acceptance assignment) ''ExecutionAssignment acceptance criterion''),
      skip (validateContextSnapshotRef (ra_contextSnapshotRef assignment)),
      skip (requireIdentity (ra_taskId assignment) ''ExecutionAssignment Task id''),
      skip (requireIdentity (ra_reviewRoundId assignment) ''ExecutionAssignment ReviewRound id''),
      skip (requireExecutionCommit (ra_reviewBaseCommit assignment) ''ExecutionAssignment Review base commit''),
      (if ra_scope assignment = Review_WorkItem
       then all_ok
         [skip (requireIdentity (text_or_empty (ra_workItemId assignment)) ''ExecutionAssignment WorkItem id''),
          skip (requireIdentity (text_or_empty (ra_candidateId assignment)) ''ExecutionAssignment Candidate id'')]
       else refuse (ra_workItemId assignment \<noteq> None \<or> ra_candidateId assignment \<noteq> None)
         ''A Task Review ExecutionAssignment cannot identify a WorkItem Candidate.''),
      validateExecutionProjects (ra_projects assignment)]"

fun validateExecutionAssignment :: "execution_assignment \<Rightarrow> unit result" where
  "validateExecutionAssignment (WorkAssignment a) = skip (validateWorkItemExecutionAssignment a)"
| "validateExecutionAssignment (ReviewAssignment a) = skip (validateReviewExecutionAssignment a)"

definition createWorkItemExecutionAssignment :: "work_assignment \<Rightarrow> work_assignment result" where
  "createWorkItemExecutionAssignment input = validateWorkItemExecutionAssignment input"

definition createReviewExecutionAssignment :: "review_assignment \<Rightarrow> review_assignment result" where
  "createReviewExecutionAssignment input = validateReviewExecutionAssignment input"

subsection \<open>Lanes and groups\<close>

record effective_launch =
  el_writeProjectIds :: "string list"
  el_facts :: json

record lane_workspace =
  lw_root :: string
  lw_writableProjectIds :: "string list"

datatype lane_disposition = Lane_Open | Lane_Succeeded | Lane_Failed

record execution_lane =
  ln_id :: string
  ln_groupId :: string
  ln_ordinal :: nat
  ln_roleName :: string
  ln_effective :: "effective_launch option"
  ln_workspace :: "lane_workspace option"
  ln_currentRunId :: "string option"
  ln_successfulRunId :: "string option"
  ln_disposition :: lane_disposition
  ln_createdAt :: string
  ln_updatedAt :: string
  ln_endedAt :: "string option"

record execution_group =
  eg_id :: string
  eg_taskId :: string
  eg_assignment :: execution_assignment
  eg_lanes :: "execution_lane list"
  eg_createdAt :: string
  eg_updatedAt :: string

record lane_input =
  li_roleName :: string
  li_effective :: "effective_launch option"
  li_workspace :: "lane_workspace option"
  li_currentRunId :: "string option"

record lane_patch =
  lp_currentRunId :: "string option"
  lp_successfulRunId :: "string option"
  lp_disposition :: "lane_disposition option"
  lp_effective :: "effective_launch option"
  lp_workspace :: "lane_workspace option"

definition MINIMUM_EXECUTION_GROUP_LANES :: nat where
  "MINIMUM_EXECUTION_GROUP_LANES = 2"

definition MAXIMUM_SYNTHESIS_RESULTS :: nat where
  "MAXIMUM_SYNTHESIS_RESULTS = 8"

definition validateLaneRuns :: "execution_lane \<Rightarrow> unit result" where
  \<comment> \<open>the AgentRuns of a Lane, its disposition and its times\<close>
  "validateLaneRuns lane = all_ok
     [refuse (ln_currentRunId lane \<noteq> None \<and> ln_effective lane = None)
        ''A dispatched ExecutionLane requires launch facts.'',
      whenSome (ln_currentRunId lane) (\<lambda>r. skip (requireIdentity r ''ExecutionLane current AgentRun id'')),
      whenSome (ln_successfulRunId lane) (\<lambda>r. skip (requireIdentity r ''ExecutionLane successful AgentRun id'')),
      (if ln_disposition lane = Lane_Succeeded
       then refuse (ln_currentRunId lane = None \<or> ln_successfulRunId lane \<noteq> ln_currentRunId lane)
         ''A succeeded Lane must identify its current successful AgentRun.''
       else refuse (ln_successfulRunId lane \<noteq> None)
         ''Only a succeeded Lane may identify a successful AgentRun.''),
      skip (requireTimestamp (ln_createdAt lane) ''ExecutionLane createdAt''),
      skip (requireTimestamp (ln_updatedAt lane) ''ExecutionLane updatedAt''),
      (if ln_disposition lane = Lane_Open
       then refuse (ln_endedAt lane \<noteq> None) ''An open ExecutionLane cannot have endedAt.''
       else skip (requireTimestamp (text_or_empty (ln_endedAt lane)) ''ExecutionLane endedAt''))]"

definition validateWorkItemExecutionLane ::
    "(effective_launch \<Rightarrow> bool) \<Rightarrow> execution_lane \<Rightarrow> string \<Rightarrow> nat \<Rightarrow> unit result" where
  "validateWorkItemExecutionLane launchOk lane groupId ordinal = all_ok
     [skip (requireIdentity (ln_id lane) ''ExecutionLane id''),
      refuse (ln_groupId lane \<noteq> groupId) ''ExecutionLane Group does not match.'',
      refuse (ln_ordinal lane \<noteq> ordinal) ''ExecutionLane ordinal is invalid.'',
      skip (requireIdentity (ln_roleName lane) ''ExecutionLane Role name''),
      refuse ((ln_effective lane = None) \<noteq> (ln_workspace lane = None)) ''ExecutionLane launch facts are incomplete.'',
      whenSome (ln_effective lane) (\<lambda>e. refuse (\<not> launchOk e) ''Effective launch snapshot is invalid.''),
      whenSome (ln_workspace lane) (\<lambda>w. all_ok
        [skip (requireText (lw_root w) ''ExecutionLane workspace root''),
         skip (normalizedUniqueIdentities (lw_writableProjectIds w) ''ExecutionLane writable Project'')]),
      validateLaneRuns lane]"

definition lane_scope_differs :: "execution_lane \<Rightarrow> string list \<Rightarrow> bool" where
  "lane_scope_differs lane projectIds \<longleftrightarrow>
     (case ln_workspace lane of
        None \<Rightarrow> False
      | Some w \<Rightarrow> sort (lw_writableProjectIds w) \<noteq> projectIds
          \<or> (case ln_effective lane of None \<Rightarrow> True | Some e \<Rightarrow> sort (el_writeProjectIds e) \<noteq> projectIds))"

fun validateLanes ::
    "(effective_launch \<Rightarrow> bool) \<Rightarrow> string \<Rightarrow> string list \<Rightarrow> nat \<Rightarrow> string list \<Rightarrow> string list \<Rightarrow> execution_lane list \<Rightarrow> unit result" where
  \<comment> \<open>the loop over the Lanes, from the ordinal \<open>n\<close>, with the ids and Roles seen so far\<close>
  "validateLanes launchOk groupId projectIds n ids roles [] = Inr ()"
| "validateLanes launchOk groupId projectIds n ids roles (lane # rest) =
     andThen (validateWorkItemExecutionLane launchOk lane groupId n) (\<lambda>_.
       if lane_scope_differs lane projectIds then throw ''ExecutionLane Project scope differs from its Assignment''
       else if ln_id lane \<in> set ids then throw ''ExecutionGroup Lane is duplicated''
       else if ln_roleName lane \<in> set roles then throw ''ExecutionGroup Lane Role is duplicated''
       else validateLanes launchOk groupId projectIds (Suc n) (ln_id lane # ids) (ln_roleName lane # roles) rest)"

definition validateExecutionGroup :: "(effective_launch \<Rightarrow> bool) \<Rightarrow> execution_group \<Rightarrow> execution_group result" where
  "validateExecutionGroup launchOk grp = checked grp
     [skip (requireIdentity (eg_id grp) ''ExecutionGroup id''),
      skip (requireIdentity (eg_taskId grp) ''ExecutionGroup Task id''),
      validateExecutionAssignment (eg_assignment grp),
      refuse (assignment_task (eg_assignment grp) \<noteq> eg_taskId grp)
        ''ExecutionGroup Assignment Task does not match its Group.'',
      refuse (length (eg_lanes grp) < MINIMUM_EXECUTION_GROUP_LANES)
        ''A replicated ExecutionGroup requires at least two Lanes.'',
      refuse (MAXIMUM_SYNTHESIS_RESULTS < length (eg_lanes grp))
        ''A replicated ExecutionGroup supports a bounded number of Lanes.'',
      validateLanes launchOk (eg_id grp) (sort (map xp_projectId (assignment_projects (eg_assignment grp)))) 1 [] []
        (eg_lanes grp),
      skip (requireTimestamp (eg_createdAt grp) ''ExecutionGroup createdAt''),
      skip (requireTimestamp (eg_updatedAt grp) ''ExecutionGroup updatedAt''),
      refuse (date_less (eg_updatedAt grp) (eg_createdAt grp)) ''ExecutionGroup updatedAt precedes createdAt.'']"

fun is_work_assignment :: "execution_assignment \<Rightarrow> bool" where
  "is_work_assignment (WorkAssignment _) = True"
| "is_work_assignment (ReviewAssignment _) = False"

definition validateWorkItemExecutionGroup :: "(effective_launch \<Rightarrow> bool) \<Rightarrow> execution_group \<Rightarrow> execution_group result" where
  "validateWorkItemExecutionGroup launchOk grp = checked grp
     [skip (validateExecutionGroup launchOk grp),
      refuse (\<not> is_work_assignment (eg_assignment grp)) ''WorkItem ExecutionAssignment has unknown fields'',
      refuse (list_ex (\<lambda>l. ln_effective l = None \<or> ln_workspace l = None) (eg_lanes grp))
        ''A WorkItem ExecutionGroup requires prepared Lane launch facts.'']"

definition new_lane :: "string \<Rightarrow> string \<Rightarrow> nat \<Rightarrow> lane_input \<Rightarrow> execution_lane" where
  "new_lane groupId timestamp ordinal lane =
     \<lparr>ln_id = groupId @ ''-lane-'' @ nat_str ordinal, ln_groupId = groupId, ln_ordinal = ordinal,
      ln_roleName = li_roleName lane, ln_effective = li_effective lane, ln_workspace = li_workspace lane,
      ln_currentRunId = li_currentRunId lane, ln_successfulRunId = None, ln_disposition = Lane_Open,
      ln_createdAt = timestamp, ln_updatedAt = timestamp, ln_endedAt = None\<rparr>"

definition createExecutionGroup ::
    "(effective_launch \<Rightarrow> bool) \<Rightarrow> string \<Rightarrow> string \<Rightarrow> execution_assignment \<Rightarrow> lane_input list \<Rightarrow> date
       \<Rightarrow> execution_group result" where
  "createExecutionGroup launchOk i taskId assignment laneInputs now =
     (if length laneInputs < MINIMUM_EXECUTION_GROUP_LANES
      then throw ''A replicated ExecutionGroup requires at least two Lanes.''
      else if MAXIMUM_SYNTHESIS_RESULTS < length laneInputs
      then throw ''A replicated ExecutionGroup supports a bounded number of Lanes.''
      else andThen (requireIdentity i ''ExecutionGroup id'') (\<lambda>groupId.
        andThen (requireIdentity taskId ''Task id'') (\<lambda>task.
        andThen (validateExecutionAssignment assignment) (\<lambda>_.
          if assignment_task assignment \<noteq> task then throw ''ExecutionGroup Assignment belongs to another Task.''
          else andThen (toISOString now) (\<lambda>timestamp.
            validateExecutionGroup launchOk
              \<lparr>eg_id = groupId, eg_taskId = task, eg_assignment = assignment,
               eg_lanes = map2 (new_lane groupId timestamp) [1..<length laneInputs + 1] laneInputs,
               eg_createdAt = timestamp, eg_updatedAt = timestamp\<rparr>)))))"

definition createWorkItemExecutionGroup ::
    "(effective_launch \<Rightarrow> bool) \<Rightarrow> string \<Rightarrow> string \<Rightarrow> work_assignment \<Rightarrow> lane_input list \<Rightarrow> date
       \<Rightarrow> execution_group result" where
  "createWorkItemExecutionGroup launchOk i taskId assignment laneInputs now =
     andThen (createExecutionGroup launchOk i taskId (WorkAssignment assignment) laneInputs now)
       (validateWorkItemExecutionGroup launchOk)"

subsection \<open>Transitions\<close>

definition lane_identity_changed :: "execution_lane \<Rightarrow> execution_lane \<Rightarrow> bool" where
  "lane_identity_changed lane next_lane \<longleftrightarrow>
     ln_id lane \<noteq> ln_id next_lane \<or> ln_groupId lane \<noteq> ln_groupId next_lane
     \<or> ln_ordinal lane \<noteq> ln_ordinal next_lane \<or> ln_roleName lane \<noteq> ln_roleName next_lane
     \<or> ln_createdAt lane \<noteq> ln_createdAt next_lane
     \<or> (if ln_effective lane = None
        then (ln_effective next_lane = None) \<noteq> (ln_workspace next_lane = None)
        else ln_effective lane \<noteq> ln_effective next_lane \<or> ln_workspace lane \<noteq> ln_workspace next_lane)"

fun check_lane_transition :: "execution_lane \<times> execution_lane \<Rightarrow> unit result" where
  "check_lane_transition (lane, next_lane) =
     (if lane_identity_changed lane next_lane then throw ''ExecutionLane identity changed''
      else refuse (ln_disposition lane \<noteq> Lane_Open \<and> lane \<noteq> next_lane) ''Terminal ExecutionLane is immutable'')"

definition assertExecutionGroupTransition ::
    "(effective_launch \<Rightarrow> bool) \<Rightarrow> execution_group \<Rightarrow> execution_group \<Rightarrow> unit result" where
  "assertExecutionGroupTransition launchOk existing candidate =
     andThen (validateExecutionGroup launchOk existing) (\<lambda>_.
     andThen (validateExecutionGroup launchOk candidate) (\<lambda>_.
       if existing = candidate then Inr ()
       else if eg_id existing \<noteq> eg_id candidate \<or> eg_taskId existing \<noteq> eg_taskId candidate
          \<or> eg_createdAt existing \<noteq> eg_createdAt candidate \<or> eg_assignment existing \<noteq> eg_assignment candidate
          \<or> length (eg_lanes existing) \<noteq> length (eg_lanes candidate)
       then throw ''ExecutionGroup identity or Assignment changed''
       else if date_less (eg_updatedAt candidate) (eg_updatedAt existing)
       then throw ''ExecutionGroup time moved backwards''
       else all_ok (map check_lane_transition (zip (eg_lanes existing) (eg_lanes candidate)))))"

definition assertWorkItemExecutionGroupTransition ::
    "(effective_launch \<Rightarrow> bool) \<Rightarrow> execution_group \<Rightarrow> execution_group \<Rightarrow> unit result" where
  "assertWorkItemExecutionGroupTransition launchOk existing candidate =
     andThen (validateWorkItemExecutionGroup launchOk existing) (\<lambda>_.
     andThen (validateWorkItemExecutionGroup launchOk candidate) (\<lambda>_.
       assertExecutionGroupTransition launchOk existing candidate))"

fun or_else :: "'a option \<Rightarrow> 'a option \<Rightarrow> 'a option" where
  \<comment> \<open>\<open>x ?? y\<close>\<close>
  "or_else (Some x) y = Some x"
| "or_else None y = y"

definition patched_lane :: "execution_lane \<Rightarrow> lane_patch \<Rightarrow> string \<Rightarrow> execution_lane result" where
  \<comment> \<open>the Lane \<open>updated\<close> of \<open>updateExecutionLane\<close>\<close>
  "patched_lane current patch timestamp =
     (let disposition = (case lp_disposition patch of None \<Rightarrow> ln_disposition current | Some d \<Rightarrow> d);
          currentRunId = or_else (lp_currentRunId patch) (ln_currentRunId current);
          successfulRunId = or_else (lp_successfulRunId patch) (ln_successfulRunId current);
          effective = or_else (lp_effective patch) (ln_effective current);
          workspace = or_else (lp_workspace patch) (ln_workspace current)
      in if (effective = None) \<noteq> (workspace = None) then throw ''ExecutionLane launch facts are incomplete.''
         else if disposition = Lane_Succeeded \<and> (successfulRunId = None \<or> successfulRunId \<noteq> currentRunId)
         then throw ''A succeeded Lane must identify its current successful AgentRun.''
         else if disposition \<noteq> Lane_Succeeded \<and> successfulRunId \<noteq> None
         then throw ''Only a succeeded Lane may identify a successful AgentRun.''
         else Inr (current\<lparr>ln_effective := effective, ln_workspace := workspace,
           ln_currentRunId := currentRunId, ln_successfulRunId := successfulRunId,
           ln_disposition := disposition, ln_updatedAt := timestamp,
           ln_endedAt := (if disposition = Lane_Open then ln_endedAt current else Some timestamp)\<rparr>))"

fun lane_index :: "string \<Rightarrow> execution_lane list \<Rightarrow> nat option" where
  \<comment> \<open>\<open>findIndex\<close>\<close>
  "lane_index laneId [] = None"
| "lane_index laneId (l # ls) = (if ln_id l = laneId then Some 0 else map_option Suc (lane_index laneId ls))"

definition updateExecutionLane ::
    "(effective_launch \<Rightarrow> bool) \<Rightarrow> execution_group \<Rightarrow> string \<Rightarrow> lane_patch \<Rightarrow> date \<Rightarrow> execution_group result" where
  "updateExecutionLane launchOk grp laneId patch now =
     andThen (validateExecutionGroup launchOk grp) (\<lambda>_.
     (case lane_index laneId (eg_lanes grp) of
        None \<Rightarrow> throw ''ExecutionGroup Lane not found''
      | Some index \<Rightarrow>
          (let current = eg_lanes grp ! index in
           if ln_disposition current \<noteq> Lane_Open then throw ''Terminal ExecutionLane is immutable''
           else andThen (toISOString now) (\<lambda>timestamp.
             andThen (patched_lane current patch timestamp) (\<lambda>updated.
             andThen (validateExecutionGroup launchOk (grp\<lparr>eg_lanes := (eg_lanes grp)[index := updated],
               eg_updatedAt := timestamp\<rparr>)) (\<lambda>candidate.
             andThen (assertExecutionGroupTransition launchOk grp candidate) (\<lambda>_. Inr candidate)))))))"

definition updateWorkItemExecutionLane ::
    "(effective_launch \<Rightarrow> bool) \<Rightarrow> execution_group \<Rightarrow> string \<Rightarrow> lane_patch \<Rightarrow> date \<Rightarrow> execution_group result" where
  "updateWorkItemExecutionLane launchOk grp laneId patch now =
     andThen (updateExecutionLane launchOk grp laneId patch now) (validateWorkItemExecutionGroup launchOk)"

definition reopened_lane :: "string \<Rightarrow> execution_lane \<Rightarrow> execution_lane" where
  "reopened_lane timestamp lane =
     (if ln_disposition lane \<noteq> Lane_Failed then lane
      else lane\<lparr>ln_endedAt := None, ln_disposition := Lane_Open, ln_updatedAt := timestamp\<rparr>)"

definition retryFailedExecutionLanes ::
    "(effective_launch \<Rightarrow> bool) \<Rightarrow> execution_group \<Rightarrow> date \<Rightarrow> execution_group result" where
  "retryFailedExecutionLanes launchOk grp now =
     andThen (validateExecutionGroup launchOk grp) (\<lambda>_.
       if \<not> list_ex (\<lambda>l. ln_disposition l = Lane_Failed) (eg_lanes grp) then Inr grp
       else andThen (toISOString now) (\<lambda>timestamp.
         validateExecutionGroup launchOk (grp\<lparr>
           eg_lanes := map (reopened_lane timestamp) (eg_lanes grp), eg_updatedAt := timestamp\<rparr>)))"

definition lanes_settled :: "execution_group \<Rightarrow> bool" where
  "lanes_settled grp \<longleftrightarrow> list_all (\<lambda>l. ln_disposition l \<noteq> Lane_Open) (eg_lanes grp)"

definition executionGroupSettled :: "(effective_launch \<Rightarrow> bool) \<Rightarrow> execution_group \<Rightarrow> bool result" where
  "executionGroupSettled launchOk grp =
     andThen (validateExecutionGroup launchOk grp) (\<lambda>_. Inr (lanes_settled grp))"

definition workItemExecutionGroupSettled :: "(effective_launch \<Rightarrow> bool) \<Rightarrow> execution_group \<Rightarrow> bool result" where
  "workItemExecutionGroupSettled launchOk grp =
     andThen (validateWorkItemExecutionGroup launchOk grp) (\<lambda>_. executionGroupSettled launchOk grp)"

record lane_summary =
  ls_laneId :: string
  ls_roleName :: string
  ls_ordinal :: nat
  ls_disposition :: lane_disposition
  ls_currentRunId :: "string option"
  ls_successfulRunId :: "string option"
  ls_effective :: "effective_launch option"

record group_summary =
  gs_groupId :: string
  gs_laneCount :: nat
  gs_openLaneCount :: nat
  gs_succeededLaneCount :: nat
  gs_failedLaneCount :: nat
  gs_laneSummaries :: "lane_summary list"

definition lane_count :: "lane_disposition \<Rightarrow> execution_group \<Rightarrow> nat" where
  "lane_count d grp = length (filter (\<lambda>l. ln_disposition l = d) (eg_lanes grp))"

definition summarizeExecutionGroup :: "(effective_launch \<Rightarrow> bool) \<Rightarrow> execution_group \<Rightarrow> group_summary result" where
  "summarizeExecutionGroup launchOk grp =
     andThen (validateExecutionGroup launchOk grp) (\<lambda>_.
       Inr \<lparr>gs_groupId = eg_id grp, gs_laneCount = length (eg_lanes grp),
         gs_openLaneCount = lane_count Lane_Open grp,
         gs_succeededLaneCount = lane_count Lane_Succeeded grp,
         gs_failedLaneCount = lane_count Lane_Failed grp,
         gs_laneSummaries = map (\<lambda>l. \<lparr>ls_laneId = ln_id l, ls_roleName = ln_roleName l, ls_ordinal = ln_ordinal l,
           ls_disposition = ln_disposition l, ls_currentRunId = ln_currentRunId l,
           ls_successfulRunId = ln_successfulRunId l, ls_effective = ln_effective l\<rparr>) (eg_lanes grp)\<rparr>)"

subsection \<open>What an update changes\<close>

interpretation exec_group: record_validator "validateExecutionGroup launchOk" for launchOk
  by unfold_locales (simp add: validateExecutionGroup_def)

interpretation work_group: record_validator "validateWorkItemExecutionGroup launchOk" for launchOk
  by unfold_locales (simp add: validateWorkItemExecutionGroup_def)

definition group_valid :: "(effective_launch \<Rightarrow> bool) \<Rightarrow> execution_group \<Rightarrow> bool" where
  "group_valid launchOk g \<longleftrightarrow> isOk (validateExecutionGroup launchOk g)"

definition work_group_valid :: "(effective_launch \<Rightarrow> bool) \<Rightarrow> execution_group \<Rightarrow> bool" where
  "work_group_valid launchOk g \<longleftrightarrow> isOk (validateWorkItemExecutionGroup launchOk g)"

lemma validateExecutionGroup_eq [simp]:
  "validateExecutionGroup launchOk g = Inr g' \<longleftrightarrow> group_valid launchOk g \<and> g' = g"
  "isOk (validateExecutionGroup launchOk g) \<longleftrightarrow> group_valid launchOk g"
  using exec_group.returns_self [of launchOk g g'] exec_group.ok_eq [of launchOk g] by (auto simp: group_valid_def)

lemma validateWorkItemExecutionGroup_eq [simp]:
  "validateWorkItemExecutionGroup launchOk g = Inr g' \<longleftrightarrow> work_group_valid launchOk g \<and> g' = g"
  "isOk (validateWorkItemExecutionGroup launchOk g) \<longleftrightarrow> work_group_valid launchOk g"
  using work_group.returns_self [of launchOk g g'] work_group.ok_eq [of launchOk g] by (auto simp: work_group_valid_def)

lemma work_group_group: "work_group_valid launchOk g \<Longrightarrow> group_valid launchOk g"
  by (simp add: work_group_valid_def validateWorkItemExecutionGroup_def)

definition lane_le :: "execution_lane \<Rightarrow> execution_lane \<Rightarrow> bool" where
  \<comment> \<open>the same Lane later: its identity stays, its launch facts are fixed once, a terminal Lane is final\<close>
  "lane_le a b \<longleftrightarrow> \<not> lane_identity_changed a b \<and> (ln_disposition a \<noteq> Lane_Open \<longrightarrow> b = a)"

definition group_le :: "execution_group \<Rightarrow> execution_group \<Rightarrow> bool" where
  "group_le a b \<longleftrightarrow> eg_id b = eg_id a \<and> eg_taskId b = eg_taskId a \<and> eg_assignment b = eg_assignment a
     \<and> eg_createdAt b = eg_createdAt a \<and> list_all2 lane_le (eg_lanes a) (eg_lanes b)"

lemma lane_le_refl: "((ln_effective a = None) = (ln_workspace a = None)) \<Longrightarrow> lane_le a a"
  by (simp add: lane_le_def lane_identity_changed_def)

lemma lane_le_trans: "lane_le a b \<Longrightarrow> lane_le b c \<Longrightarrow> lane_le a c"
  by (auto simp: lane_le_def lane_identity_changed_def split: if_split_asm)

lemma check_lane_eq [simp]: "check_lane_transition (a, b) = Inr u \<longleftrightarrow> lane_le a b"
  by (auto simp: lane_le_def)

lemma check_lane_ok [simp]: "isOk (check_lane_transition (a, b)) \<longleftrightarrow> lane_le a b"
  by (auto simp: isOk_iff simp del: check_lane_transition.simps)

lemma validateLanes_lane:
  "validateLanes launchOk g ps n ids roles ls = Inr u \<Longrightarrow>
     (\<forall>l \<in> set ls. isOk (validateWorkItemExecutionLane launchOk l (ln_groupId l) (ln_ordinal l)))
     \<and> distinct (map ln_id ls) \<and> set (map ln_id ls) \<inter> set ids = {}
     \<and> distinct (map ln_roleName ls) \<and> set (map ln_roleName ls) \<inter> set roles = {}
     \<and> (\<forall>k < length ls. ln_ordinal (ls ! k) = n + k \<and> ln_groupId (ls ! k) = g)"
proof (induction launchOk g ps n ids roles ls rule: validateLanes.induct)
  case (2 launchOk g ps n ids roles l ls)
  then have v: "isOk (validateWorkItemExecutionLane launchOk l g n)" "ln_id l \<notin> set ids" "ln_roleName l \<notin> set roles"
    and d: "\<not> lane_scope_differs l ps"
    and rest: "validateLanes launchOk g ps (Suc n) (ln_id l # ids) (ln_roleName l # roles) ls = Inr u"
    by (auto simp: isOk_iff split: if_split_asm)
  note ih = 2(1) [OF d v(2,3) rest]
  have l: "ln_groupId l = g" "ln_ordinal l = n" using v(1) by (auto simp: validateWorkItemExecutionLane_def)
  have "ln_ordinal ((l # ls) ! k) = n + k \<and> ln_groupId ((l # ls) ! k) = g" if "k < length (l # ls)" for k
    using that l ih by (cases k) auto
  with ih v l show ?case by auto
qed simp

lemma group_valid_lanes:
  assumes "group_valid launchOk g"
  shows "\<forall>l \<in> set (eg_lanes g). isOk (validateWorkItemExecutionLane launchOk l (eg_id g) (ln_ordinal l))"
    and "distinct (map ln_id (eg_lanes g))" and "distinct (map ln_roleName (eg_lanes g))"
    and "2 \<le> length (eg_lanes g)" and "length (eg_lanes g) \<le> 8"
proof -
  obtain ps where "isOk (validateLanes launchOk (eg_id g) ps 1 [] [] (eg_lanes g))"
    and n: "2 \<le> length (eg_lanes g)" "length (eg_lanes g) \<le> 8"
    using assms
    by (auto simp: group_valid_def validateExecutionGroup_def MINIMUM_EXECUTION_GROUP_LANES_def
        MAXIMUM_SYNTHESIS_RESULTS_def)
  then obtain u where "validateLanes launchOk (eg_id g) ps 1 [] [] (eg_lanes g) = Inr u" by (auto simp: isOk_iff)
  note v = validateLanes_lane [OF this]
  then have "\<forall>l \<in> set (eg_lanes g). ln_groupId l = eg_id g" by (auto simp: in_set_conv_nth)
  with v n show "\<forall>l \<in> set (eg_lanes g). isOk (validateWorkItemExecutionLane launchOk l (eg_id g) (ln_ordinal l))"
    and "distinct (map ln_id (eg_lanes g))" and "distinct (map ln_roleName (eg_lanes g))"
    and "2 \<le> length (eg_lanes g)" and "length (eg_lanes g) \<le> 8"
    by auto
qed

lemma lane_runs:
  assumes "isOk (validateWorkItemExecutionLane launchOk l g n)"
  shows "(ln_effective l = None) = (ln_workspace l = None)"
    and "ln_disposition l = Lane_Succeeded \<Longrightarrow> ln_currentRunId l \<noteq> None \<and> ln_successfulRunId l = ln_currentRunId l"
    and "ln_disposition l \<noteq> Lane_Succeeded \<Longrightarrow> ln_successfulRunId l = None"
    and "ln_disposition l = Lane_Open \<longleftrightarrow> ln_endedAt l = None"
  using assms by (auto simp: validateWorkItemExecutionLane_def validateLaneRuns_def split: if_split_asm)

lemma group_le_refl:
  assumes "group_valid launchOk g"
  shows "group_le g g"
proof -
  have "lane_le l l" if "l \<in> set (eg_lanes g)" for l
    using group_valid_lanes(1) [OF assms] that lane_runs(1) lane_le_refl by blast
  then show ?thesis by (simp add: group_le_def list_all2_same)
qed

lemma group_le_trans:
  assumes "group_le a b" and "group_le b c"
  shows "group_le a c"
proof -
  have "list_all2 lane_le (eg_lanes a) (eg_lanes c)"
  proof (rule list_all2_trans)
    show "list_all2 lane_le (eg_lanes a) (eg_lanes b)" "list_all2 lane_le (eg_lanes b) (eg_lanes c)"
      using assms by (simp_all add: group_le_def)
  qed (rule lane_le_trans)
  with assms show ?thesis by (simp add: group_le_def)
qed

lemma assert_transition_eq:
  "assertExecutionGroupTransition launchOk a b = Inr u \<longleftrightarrow>
     group_valid launchOk a \<and> group_valid launchOk b
     \<and> (a = b \<or> (group_le a b \<and> \<not> date_less (eg_updatedAt b) (eg_updatedAt a)))"
proof -
  have "list_all isOk (map check_lane_transition (zip (eg_lanes a) (eg_lanes b))) \<longleftrightarrow>
      list_all2 lane_le (eg_lanes a) (eg_lanes b)" if "length (eg_lanes a) = length (eg_lanes b)"
    using that by (auto simp: list_all2_iff list_all_iff simp del: check_lane_transition.simps)
  then show ?thesis
    unfolding assertExecutionGroupTransition_def group_le_def
    by (auto simp: list_all2_lengthD simp del: check_lane_transition.simps)
qed

lemma updated_lane:
  assumes "updateExecutionLane launchOk g laneId patch now = Inr g'"
  shows "group_valid launchOk g" and "group_valid launchOk g'" and "group_le g g'"
    and "\<exists>k u. lane_index laneId (eg_lanes g) = Some k \<and> ln_disposition (eg_lanes g ! k) = Lane_Open
      \<and> patched_lane (eg_lanes g ! k) patch (iso_string now) = Inr u
      \<and> g' = g\<lparr>eg_lanes := (eg_lanes g)[k := u], eg_updatedAt := iso_string now\<rparr>"
  using assms group_le_refl
  by (auto simp: updateExecutionLane_def assert_transition_eq Let_def split: option.splits if_split_asm)

lemma lane_index_nth: "lane_index i ls = Some k \<Longrightarrow> k < length ls \<and> ln_id (ls ! k) = i"
  by (induction ls arbitrary: k) (auto split: if_split_asm)

definition lane_retried :: "execution_lane \<Rightarrow> execution_lane \<Rightarrow> bool" where
  \<comment> \<open>the same Lane later where failed Lanes may have been reopened: a success is final\<close>
  "lane_retried a b \<longleftrightarrow> \<not> lane_identity_changed a b \<and> (ln_disposition a = Lane_Succeeded \<longrightarrow> b = a)"

definition group_retried :: "execution_group \<Rightarrow> execution_group \<Rightarrow> bool" where
  "group_retried a b \<longleftrightarrow> eg_id b = eg_id a \<and> eg_taskId b = eg_taskId a \<and> eg_assignment b = eg_assignment a
     \<and> eg_createdAt b = eg_createdAt a \<and> list_all2 lane_retried (eg_lanes a) (eg_lanes b)"

lemma lane_le_retried: "lane_le a b \<Longrightarrow> lane_retried a b"
  by (simp add: lane_le_def lane_retried_def)

lemma group_le_retried: "group_le a b \<Longrightarrow> group_retried a b"
  using list_all2_mono [of lane_le _ _ lane_retried] lane_le_retried by (auto simp: group_le_def group_retried_def)

lemma lane_retried_trans: "lane_retried a b \<Longrightarrow> lane_retried b c \<Longrightarrow> lane_retried a c"
  by (auto simp: lane_retried_def lane_identity_changed_def split: if_split_asm)

lemma group_retried_trans:
  assumes "group_retried a b" and "group_retried b c"
  shows "group_retried a c"
proof -
  have "list_all2 lane_retried (eg_lanes a) (eg_lanes c)"
  proof (rule list_all2_trans)
    show "list_all2 lane_retried (eg_lanes a) (eg_lanes b)" "list_all2 lane_retried (eg_lanes b) (eg_lanes c)"
      using assms by (simp_all add: group_retried_def)
  qed (rule lane_retried_trans)
  with assms show ?thesis by (simp add: group_retried_def)
qed

lemma reopened_retried:
  "((ln_effective l = None) = (ln_workspace l = None)) \<Longrightarrow> lane_retried l (reopened_lane t l)"
  by (auto simp: lane_retried_def lane_identity_changed_def reopened_lane_def)

lemma retried_group:
  assumes "retryFailedExecutionLanes launchOk g now = Inr g'"
  shows "group_valid launchOk g" and "group_valid launchOk g'" and "group_retried g g'"
    and "list_ex (\<lambda>l. ln_disposition l = Lane_Failed) (eg_lanes g) \<Longrightarrow>
      g' = g\<lparr>eg_lanes := map (reopened_lane (iso_string now)) (eg_lanes g), eg_updatedAt := iso_string now\<rparr>"
    and "\<not> list_ex (\<lambda>l. ln_disposition l = Lane_Failed) (eg_lanes g) \<Longrightarrow> g' = g"
proof -
  show v: "group_valid launchOk g" and "group_valid launchOk g'"
    and eq: "list_ex (\<lambda>l. ln_disposition l = Lane_Failed) (eg_lanes g) \<Longrightarrow>
      g' = g\<lparr>eg_lanes := map (reopened_lane (iso_string now)) (eg_lanes g), eg_updatedAt := iso_string now\<rparr>"
    and same: "\<not> list_ex (\<lambda>l. ln_disposition l = Lane_Failed) (eg_lanes g) \<Longrightarrow> g' = g"
    using assms by (auto simp: retryFailedExecutionLanes_def split: if_split_asm)
  have "lane_retried l (reopened_lane t l)" if "l \<in> set (eg_lanes g)" for l t
    using group_valid_lanes(1) [OF v] that lane_runs(1) reopened_retried by blast
  then have "list_all2 lane_retried (eg_lanes g) (map (reopened_lane t) (eg_lanes g))" for t
    by (simp add: list_all2_conv_all_nth)
  then have "list_ex (\<lambda>l. ln_disposition l = Lane_Failed) (eg_lanes g) \<Longrightarrow> group_retried g g'"
    using eq by (auto simp: group_retried_def)
  then show "group_retried g g'"
    using same group_le_retried [OF group_le_refl [OF v]] by (cases "list_ex (\<lambda>l. ln_disposition l = Lane_Failed) (eg_lanes g)") auto
qed

text \<open>The two operations on a group, as one call.\<close>

datatype group_op = UpdateLane string lane_patch | RetryFailedLanes

fun group_step :: "(effective_launch \<Rightarrow> bool) \<Rightarrow> execution_group \<Rightarrow> group_op \<times> date \<Rightarrow> execution_group result" where
  "group_step launchOk g (UpdateLane laneId patch, now) = updateExecutionLane launchOk g laneId patch now"
| "group_step launchOk g (RetryFailedLanes, now) = retryFailedExecutionLanes launchOk g now"

fun no_retry :: "group_op \<times> date \<Rightarrow> bool" where
  "no_retry (UpdateLane _ _, _) = True"
| "no_retry (RetryFailedLanes, _) = False"

lemma group_retried_refl: "group_valid launchOk g \<Longrightarrow> group_retried g g"
  using group_le_retried group_le_refl by blast

lemma group_step_retried:
  "group_step launchOk g op = Inr g' \<Longrightarrow> group_valid launchOk g' \<and> group_retried g g'"
  using updated_lane group_le_retried retried_group by (cases "(launchOk, g, op)" rule: group_step.cases) auto

interpretation group_history: step_order "group_step launchOk" "\<lambda>_. True"
  "\<lambda>a b. group_valid launchOk a \<longrightarrow> group_valid launchOk b \<and> group_retried a b" for launchOk
  by unfold_locales (auto intro: group_retried_refl group_retried_trans dest: group_step_retried)

interpretation lane_history: step_order "\<lambda>g (laneId, patch, now). updateExecutionLane launchOk g laneId patch now"
  "\<lambda>_. True" "\<lambda>a b. group_valid launchOk a \<longrightarrow> group_valid launchOk b \<and> group_le a b" for launchOk
  by unfold_locales (auto intro: group_le_refl group_le_trans dest: updated_lane)

lemma settled_refuses:
  "lanes_settled g \<Longrightarrow> \<not> isOk (updateExecutionLane launchOk g laneId patch now)"
proof
  assume settled: "lanes_settled g" and "isOk (updateExecutionLane launchOk g laneId patch now)"
  then obtain g' where "updateExecutionLane launchOk g laneId patch now = Inr g'" by (auto simp: isOk_iff)
  then obtain k where "lane_index laneId (eg_lanes g) = Some k" "ln_disposition (eg_lanes g ! k) = Lane_Open"
    using updated_lane(4) by blast
  with settled lane_index_nth show False by (fastforce simp: lanes_settled_def list_all_length)
qed

lemma retried_roles: "group_retried a b \<Longrightarrow> map ln_roleName (eg_lanes b) = map ln_roleName (eg_lanes a)"
  by (auto simp: group_retried_def list_all2_conv_all_nth lane_retried_def lane_identity_changed_def
      intro!: nth_equalityI)

lemma retried_success:
  assumes "group_retried a b" and "l \<in> set (eg_lanes a)" and "ln_disposition l = Lane_Succeeded"
  shows "l \<in> set (eg_lanes b)"
  using assms by (fastforce simp: group_retried_def list_all2_conv_all_nth lane_retried_def in_set_conv_nth)

lemma le_terminal:
  assumes "group_le a b" and "l \<in> set (eg_lanes a)" and "ln_disposition l \<noteq> Lane_Open"
  shows "l \<in> set (eg_lanes b)"
  using assms by (fastforce simp: group_le_def list_all2_conv_all_nth lane_le_def in_set_conv_nth)

lemma new_lane_roles:
  "length ns = length inputs \<Longrightarrow> map ln_roleName (map2 (new_lane i t) ns inputs) = map li_roleName inputs"
  by (induction ns inputs rule: list_induct2) (simp_all add: new_lane_def)

lemma created_group:
  assumes "createExecutionGroup launchOk i taskId assignment inputs now = Inr g"
  shows "group_valid launchOk g" and "eg_id g = js_trim i" and "eg_taskId g = js_trim taskId"
    and "eg_assignment g = assignment" and "map ln_roleName (eg_lanes g) = map li_roleName inputs"
proof -
  from assms obtain t where v: "group_valid launchOk g"
    and g: "g = \<lparr>eg_id = js_trim i, eg_taskId = js_trim taskId, eg_assignment = assignment,
      eg_lanes = map2 (new_lane (js_trim i) t) [1..<length inputs + 1] inputs, eg_createdAt = t, eg_updatedAt = t\<rparr>"
    by (auto simp: createExecutionGroup_def split: if_split_asm)
  show "group_valid launchOk g" by (rule v)
  show "eg_id g = js_trim i" "eg_taskId g = js_trim taskId" "eg_assignment g = assignment" by (simp_all add: g)
  show "map ln_roleName (eg_lanes g) = map li_roleName inputs" using new_lane_roles [of "[1..<length inputs + 1]"]
    by (simp add: g del: upt_Suc)
qed

subsection \<open>Properties\<close>

text \<open>
  C6.  The history of an execution group.  Whatever updates and retries a created group goes through, the
  group stays valid with its identity, its Assignment and its Roles; a Lane that succeeded names its
  successful run, which was its current one, and stays as it is for ever; without a retry a failed Lane is
  as final; and a group whose Lanes are all terminal refuses every update.
\<close>

theorem execution_group_history:
  assumes "createExecutionGroup launchOk i taskId assignment inputs created = Inr g0"
    and "run_steps (group_step launchOk) g0 ops = Inr g" and "run_steps (group_step launchOk) g later = Inr h"
    and "run_steps (\<lambda>g (laneId, patch, now). updateExecutionLane launchOk g laneId patch now) g patches = Inr k"
  shows "validateExecutionGroup launchOk g = Inr g \<and> eg_id g = js_trim i \<and> eg_taskId g = js_trim taskId
    \<and> eg_assignment g = assignment \<and> map ln_roleName (eg_lanes g) = map li_roleName inputs
    \<and> (\<forall>l \<in> set (eg_lanes g). ln_disposition l = Lane_Succeeded \<longrightarrow>
         ln_currentRunId l \<noteq> None \<and> ln_successfulRunId l = ln_currentRunId l \<and> l \<in> set (eg_lanes h))
    \<and> (\<forall>l \<in> set (eg_lanes g). ln_disposition l \<noteq> Lane_Open \<longrightarrow> l \<in> set (eg_lanes k))
    \<and> (lanes_settled g \<longrightarrow> \<not> isOk (updateExecutionLane launchOk g laneId patch now))"
proof -
  note c = created_group [OF assms(1)]
  have g: "group_valid launchOk g" "group_retried g0 g"
    using group_history.run_le [OF TrueI assms(2)] c(1) by auto
  have h: "group_retried g h" using group_history.run_le [OF TrueI assms(3)] g(1) by auto
  have k: "group_le g k" using lane_history.run_le [OF TrueI assms(4)] g(1) by auto
  have "eg_id g = js_trim i" "eg_taskId g = js_trim taskId" "eg_assignment g = assignment"
    "map ln_roleName (eg_lanes g) = map li_roleName inputs"
    using g(2) c retried_roles [OF g(2)] by (auto simp: group_retried_def)
  moreover have "ln_currentRunId l \<noteq> None \<and> ln_successfulRunId l = ln_currentRunId l \<and> l \<in> set (eg_lanes h)"
    if "l \<in> set (eg_lanes g)" "ln_disposition l = Lane_Succeeded" for l
    using group_valid_lanes(1) [OF g(1)] that lane_runs(2) retried_success [OF h] by blast
  ultimately show ?thesis using g(1) le_terminal [OF k] settled_refuses by simp
qed

definition sample_assignment :: work_assignment where
  "sample_assignment = \<lparr>wa_input = ''do'', wa_objective = ''do'', wa_acceptance = [],
     wa_contextSnapshotRef = \<lparr>sn_id = ''context-snapshot-1'', sn_taskId = ''task-1'', sn_scope = Scope_Task,
       sn_scopeRef = None, sn_sequence = 1, sn_digest = replicate 64 (CHR ''a'')\<rparr>,
     wa_taskId = ''task-1'', wa_workItemId = ''work-item-1'', wa_workItemRevision = 1, wa_projects = [],
     wa_dependencyFacts = []\<rparr>"

definition sample_launch :: effective_launch where
  "sample_launch = \<lparr>el_writeProjectIds = [], el_facts = JNull\<rparr>"

definition sample_lane_input :: "string \<Rightarrow> lane_input" where
  "sample_lane_input role = \<lparr>li_roleName = role, li_effective = Some sample_launch,
     li_workspace = Some \<lparr>lw_root = ''/w'', lw_writableProjectIds = []\<rparr>, li_currentRunId = Some ''run-1''\<rparr>"

definition sample_patch :: lane_patch where
  "sample_patch = \<lparr>lp_currentRunId = None, lp_successfulRunId = Some ''run-1'', lp_disposition = Some Lane_Succeeded,
     lp_effective = None, lp_workspace = None\<rparr>"

definition sample_group :: execution_group where
  "sample_group = (case createExecutionGroup (\<lambda>_. True) ''g-1'' ''task-1'' (WorkAssignment sample_assignment)
     [sample_lane_input ''a'', sample_lane_input ''b''] 0 of Inr g \<Rightarrow> g)"

lemma sample_group_created:
  "createExecutionGroup (\<lambda>_. True) ''g-1'' ''task-1'' (WorkAssignment sample_assignment)
     [sample_lane_input ''a'', sample_lane_input ''b''] 0 = Inr sample_group"
proof -
  have "isOk (createExecutionGroup (\<lambda>_. True) ''g-1'' ''task-1'' (WorkAssignment sample_assignment)
     [sample_lane_input ''a'', sample_lane_input ''b''] 0)"
    by code_simp
  then show ?thesis by (auto simp: isOk_iff sample_group_def)
qed

lemma sample_group_runs:
  "(case run_steps (group_step (\<lambda>_. True)) sample_group [(UpdateLane ''g-1-lane-1'' sample_patch, 5)] of
      Inr g \<Rightarrow> list_ex (\<lambda>l. ln_disposition l = Lane_Succeeded) (eg_lanes g) | Inl _ \<Rightarrow> False)"
  unfolding sample_group_def by code_simp

theorem execution_group_history_witness:
  "\<exists>g l. run_steps (group_step (\<lambda>_. True)) sample_group [(UpdateLane ''g-1-lane-1'' sample_patch, 5)] = Inr g
     \<and> l \<in> set (eg_lanes g) \<and> ln_disposition l = Lane_Succeeded \<and> ln_successfulRunId l = ln_currentRunId l"
proof -
  obtain g where g: "run_steps (group_step (\<lambda>_. True)) sample_group [(UpdateLane ''g-1-lane-1'' sample_patch, 5)] = Inr g"
    and ex: "list_ex (\<lambda>l. ln_disposition l = Lane_Succeeded) (eg_lanes g)"
    using sample_group_runs by (auto split: sum.splits)
  have "run_steps (group_step (\<lambda>_. True)) g [] = Inr g"
    "run_steps (\<lambda>g (laneId, patch, now). updateExecutionLane (\<lambda>_. True) g laneId patch now) g [] = Inr g" by simp_all
  from execution_group_history [OF sample_group_created g this] g ex show ?thesis
    by (auto simp: list_ex_iff simp del: run_steps.simps)
qed

end
