(* ===== verification/Review_Contract.thy ===== *)
theory Review_Contract
  imports Yui_Validation
begin

section \<open>Review configuration and the Task-final contract\<close>

text \<open>
  \<open>src/review/reviewConfig.ts\<close> and \<open>src/review/taskFinalReviewContract.ts\<close>: who reviews and when, and the
  contract by which the final review of a Task belongs to one Reviewer Role.
\<close>

datatype review_trigger = Trigger_Always | Trigger_Leader | Trigger_Final

record review_config =
  rc_roleName :: string
  rc_trigger :: review_trigger

definition validateReviewConfig :: "review_config \<Rightarrow> review_config result" where
  "validateReviewConfig config = checked config [skip (requireIdentity (rc_roleName config) ''Review Role'')]"

record final_contract =
  fc_taskId :: string
  fc_reviewerRoleName :: string

definition createTaskFinalReviewContract :: "final_contract \<Rightarrow> final_contract result" where
  "createTaskFinalReviewContract input =
     andThen (requireIdentity (fc_taskId input) ''Task final-review contract Task id'') (\<lambda>taskId.
     andThen (requireIdentity (fc_reviewerRoleName input) ''Task final-review contract Reviewer Role'') (\<lambda>role.
       Inr \<lparr>fc_taskId = taskId, fc_reviewerRoleName = role\<rparr>))"

definition validateTaskFinalReviewContract :: "final_contract \<Rightarrow> final_contract result" where
  "validateTaskFinalReviewContract contract = checked contract [skip (createTaskFinalReviewContract contract)]"

definition taskFinalReviewConfig :: "final_contract \<Rightarrow> review_config result" where
  "taskFinalReviewConfig contract =
     andThen (validateTaskFinalReviewContract contract) (\<lambda>validated.
       Inr \<lparr>rc_roleName = fc_reviewerRoleName validated, rc_trigger = Trigger_Final\<rparr>)"

fun sameTaskFinalReviewContract :: "final_contract option \<Rightarrow> final_contract option \<Rightarrow> bool result" where
  "sameTaskFinalReviewContract (Some left) (Some right) =
     andThen (validateTaskFinalReviewContract left) (\<lambda>first.
     andThen (validateTaskFinalReviewContract right) (\<lambda>second.
       Inr (fc_taskId first = fc_taskId second \<and> fc_reviewerRoleName first = fc_reviewerRoleName second)))"
| "sameTaskFinalReviewContract left right = Inr (left = right)"

definition TASK_FINAL_REVIEW_ARGUMENT :: string where
  "TASK_FINAL_REVIEW_ARGUMENT = ''--yui-task-final-review''"

record final_request =
  fr_request :: "final_contract option"
  fr_args :: "string list"
  fr_error :: "string option"

definition extractTaskFinalReviewRequest :: "string list \<Rightarrow> final_request" where
  "extractTaskFinalReviewRequest args =
     (if TASK_FINAL_REVIEW_ARGUMENT \<notin> set args
      then \<lparr>fr_request = None, fr_args = args, fr_error = None\<rparr>
      else if take 1 args \<noteq> [TASK_FINAL_REVIEW_ARGUMENT]
      then \<lparr>fr_request = None, fr_args = args, fr_error = Some ''must immediately follow the exact control prefix.''\<rparr>
      else (case drop 1 args of
          taskId # role # rest \<Rightarrow>
            (case createTaskFinalReviewContract \<lparr>fc_taskId = taskId, fc_reviewerRoleName = role\<rparr> of
               Inr request \<Rightarrow> \<lparr>fr_request = Some request, fr_args = rest, fr_error = None\<rparr>
             | Inl _ \<Rightarrow> \<lparr>fr_request = None, fr_args = rest, fr_error = Some ''identity is invalid.''\<rparr>)
        | _ \<Rightarrow> \<lparr>fr_request = None, fr_args = drop 3 args, fr_error = Some ''requires <task-id> <reviewer-role>.''\<rparr>))"

interpretation final_contract: record_validator validateTaskFinalReviewContract
  by unfold_locales (simp add: validateTaskFinalReviewContract_def)

definition contract_ok :: "final_contract \<Rightarrow> bool" where
  "contract_ok c \<longleftrightarrow> identity_ok (fc_taskId c) \<and> identity_ok (fc_reviewerRoleName c)"

lemma validateTaskFinalReviewContract_eq [simp]:
  "validateTaskFinalReviewContract c = Inr c' \<longleftrightarrow> contract_ok c \<and> c' = c"
  by (auto simp: validateTaskFinalReviewContract_def createTaskFinalReviewContract_def contract_ok_def isOk_iff)

text \<open>The extracted request and the remaining arguments rebuild the command line.\<close>

lemma extracted_request:
  assumes "fr_request (extractTaskFinalReviewRequest args) = Some c"
  shows "\<exists>t r. args = TASK_FINAL_REVIEW_ARGUMENT # t # r # fr_args (extractTaskFinalReviewRequest args)
    \<and> fc_taskId c = js_trim t \<and> fc_reviewerRoleName c = js_trim r \<and> contract_ok c"
proof -
  have "take 1 args = [TASK_FINAL_REVIEW_ARGUMENT]"
    by (rule ccontr) (use assms in \<open>simp add: extractTaskFinalReviewRequest_def split: if_split_asm\<close>)
  then obtain rest where rest: "args = TASK_FINAL_REVIEW_ARGUMENT # rest" by (cases args) auto
  then obtain t r more where "rest = t # r # more"
    using assms by (simp add: extractTaskFinalReviewRequest_def split: list.split_asm)
  with rest assms show ?thesis
    by (auto simp: extractTaskFinalReviewRequest_def createTaskFinalReviewContract_def contract_ok_def
        identity_ok_trim split: sum.split_asm sum.split)
qed

end
