(* ===== verification/Work_Item.thy ===== *)
theory Work_Item
  imports Managed_Workspace Execution_Group Review_Contract
begin

section \<open>Work Items\<close>

text \<open>
  \<open>src/workItem/workItem.ts\<close>: the Work Item of a Task, the Candidates submitted for it, its execution
  groups and its acceptance or retirement, with the operation that declines a Candidate
  (\<open>src/commands/taskCommands.ts\<close>).  \<open>JSON.stringify(a) !== JSON.stringify(b)\<close> on records of one type is
  inequality.
\<close>

subsection \<open>Records\<close>

record host =
  \<comment> \<open>what validation needs of the process: the working directory and the check of launch snapshots\<close>
  ho_cwd :: string
  ho_launchOk :: "effective_launch \<Rightarrow> bool"

datatype work_status = Work_Open | Work_Accepted | Work_Retired

record work_disposition =
  wd_by :: task_actor
  wd_summary :: string
  wd_retiredAt :: string
  wd_replacement :: "string option"

datatype workspace_disposition = Work_Integrated | Work_Abandoned

record base_ref =
  br_projectId :: string
  br_baseRef :: string

record git_snapshot =
  sg_reviewBaseCommit :: string
  sg_projects :: "(string \<times> string) list"

record main_project =
  mp_projectId :: string
  mp_directory :: string
  mp_branch :: string
  mp_baseCommit :: string
  mp_headCommit :: string

datatype candidate_source = Source_Direct | Source_Run string

datatype artifact_kind = Artifact_Content | Artifact_External | Artifact_Receipt

record artifact_ref =
  af_taskId :: string
  af_artifactId :: string
  af_kind :: artifact_kind
  af_digest :: "string option"

record candidate =
  ca_id :: string
  ca_taskId :: string
  ca_workItemId :: string
  ca_sequence :: int
  ca_workItemRevision :: int
  ca_summary :: string
  ca_source :: candidate_source
  ca_executionGroupId :: "string option"
  ca_executionLaneId :: "string option"
  ca_reviewPolicy :: "review_config option"
  ca_finalContract :: "final_contract option"
  ca_workspace :: "managed_workspace option"
  ca_gitSnapshot :: "git_snapshot option"
  ca_taskMainSnapshot :: "main_project list option"
  ca_artifactRefs :: "artifact_ref list option"
  ca_createdAt :: string

record historical_state =
  hs_status :: string
  hs_outcome :: "string option"
  hs_endedAt :: "string option"

record work_item =
  wi_id :: string
  wi_taskId :: string
  wi_title :: string
  wi_objective :: string
  wi_acceptance :: "string list"
  wi_dependsOn :: "string list"
  wi_writeProjectIds :: "string list"
  wi_executionGroups :: "execution_group list"
  wi_currentExecutionGroupId :: "string option"
  wi_baseRefs :: "base_ref list option"
  wi_revision :: int
  wi_assignee :: "string option"
  wi_status :: work_status
  wi_candidates :: "candidate list"
  wi_outcome :: "string option"
  wi_disposition :: "work_disposition option"
  wi_workspaceDisposition :: "workspace_disposition option"
  wi_createdAt :: string
  wi_updatedAt :: string
  wi_endedAt :: "string option"
  wi_acceptedCandidateId :: "string option"
  wi_currentCandidateId :: "string option"
  wi_historicalState :: "historical_state option"

record work_input =
  wn_title :: string
  wn_objective :: "string option"
  wn_acceptance :: "string list option"
  wn_dependsOn :: "string list option"
  wn_assignee :: "string option"
  wn_writeProjectIds :: "string list option"
  wn_baseRefs :: "base_ref list option"
  wn_executionGroups :: "execution_group list option"
  wn_currentExecutionGroupId :: "string option"

record definition_update =
  \<comment> \<open>where the code distinguishes \<open>null\<close> from \<open>undefined\<close>, \<open>Some None\<close> is \<open>null\<close>\<close>
  du_title :: "string option"
  du_objective :: "string option"
  du_acceptance :: "string list option"
  du_dependsOn :: "string list option"
  du_writeProjectIds :: "string list option"
  du_baseRefs :: "base_ref list option option"
  du_assignee :: "string option option"

record candidate_input =
  cn_summary :: string
  cn_source :: candidate_source
  cn_reviewPolicy :: "review_config option"
  cn_finalContract :: "final_contract option"
  cn_executionGroupId :: "string option"
  cn_executionLaneId :: "string option"
  cn_workspace :: "managed_workspace option"
  cn_gitSnapshot :: "git_snapshot option"
  cn_taskMainSnapshot :: "main_project list option"
  cn_artifactRefs :: "artifact_ref list option"

record disposition_input =
  dn_by :: task_actor
  dn_summary :: string
  dn_replacement :: "string option"

fun isTerminalStatus :: "work_status \<Rightarrow> bool" where
  "isTerminalStatus Work_Open = False"
| "isTerminalStatus Work_Accepted = True"
| "isTerminalStatus Work_Retired = True"

subsection \<open>Snapshots of Projects\<close>

definition commitEntries :: "(string \<times> string) list \<Rightarrow> string \<Rightarrow> string \<Rightarrow> (string \<times> string) list result" where
  \<comment> \<open>the entries of the \<open>Map\<close> from Projects to commits\<close>
  "commitEntries entries idLabel commitLabel = traverse (\<lambda>(projectId, value).
     andThen (requireIdentity projectId idLabel) (\<lambda>p.
     andThen (requireCommit value commitLabel) (\<lambda>c. Inr (p, c)))) entries"

definition createCandidateGitSnapshot ::
    "string \<Rightarrow> managed_workspace \<Rightarrow> (string \<times> string) list \<Rightarrow> git_snapshot result" where
  "createCandidateGitSnapshot cwd workspace projects =
     andThen (validateManagedWorkspace cwd workspace) (\<lambda>_.
     (case mw_owner workspace of
        Owner_WorkItem _ _ \<Rightarrow>
          (case mw_entries workspace of
             [] \<Rightarrow> throw ''Candidate Git snapshot requires a Project workspace.''
           | first # _ \<Rightarrow>
               andThen (commitEntries projects ''Candidate snapshot Project'' ''Candidate snapshot commit'') (\<lambda>byProject.
                 if \<not> distinct (map fst byProject) then throw ''Candidate snapshot Projects are duplicated.''
                 else andThen (traverse (\<lambda>e. case map_of byProject (pe_projectId e) of
                         None \<Rightarrow> throw ''Candidate snapshot Project is missing''
                       | Some value \<Rightarrow> Inr (pe_projectId e, value)) (mw_entries workspace)) (\<lambda>normalized.
                   if length normalized \<noteq> length byProject
                   then throw ''Candidate snapshot contains a Project outside its workspace.''
                   else let primary = (case find (\<lambda>e. pe_access e = Access_Write) (mw_entries workspace) of
                                None \<Rightarrow> first | Some e \<Rightarrow> e)
                     in (case map_of byProject (pe_projectId primary) of
                           None \<Rightarrow> throw ''Candidate snapshot Project is missing''
                         | Some base \<Rightarrow> Inr \<lparr>sg_reviewBaseCommit = base, sg_projects = normalized\<rparr>))))
      | _ \<Rightarrow> throw ''Candidate Git snapshot must come from a WorkItem workspace.''))"

definition validateCandidateGitSnapshot :: "string \<Rightarrow> git_snapshot \<Rightarrow> managed_workspace \<Rightarrow> unit result" where
  "validateCandidateGitSnapshot cwd snapshot workspace =
     andThen (requireCommit (sg_reviewBaseCommit snapshot) ''Candidate review base commit'') (\<lambda>_.
     andThen (createCandidateGitSnapshot cwd workspace (sg_projects snapshot)) (\<lambda>normalized.
       refuse (normalized \<noteq> snapshot) ''Candidate Git snapshot does not match its managed workspace.''))"

fun validateMainProjects :: "string list \<Rightarrow> main_project list \<Rightarrow> unit result" where
  "validateMainProjects seen [] = Inr ()"
| "validateMainProjects seen (p # ps) =
     andThen (requireIdentity (mp_projectId p) ''Direct Candidate snapshot Project'') (\<lambda>projectId.
       if projectId \<in> set seen then throw ''Direct Candidate snapshot Projects are duplicated.''
       else andThen (all_ok
         [skip (requireText (mp_directory p) ''Direct Candidate snapshot directory''),
          skip (requireText (mp_branch p) ''Direct Candidate snapshot branch''),
          skip (requireCommit (mp_baseCommit p) ''Direct Candidate snapshot base''),
          skip (requireCommit (mp_headCommit p) ''Direct Candidate snapshot head'')]) (\<lambda>_.
         validateMainProjects (projectId # seen) ps))"

definition validateDirectTaskMainSnapshot :: "main_project list \<Rightarrow> main_project list result" where
  "validateDirectTaskMainSnapshot projects = checked projects
     [refuse (projects = []) ''Direct Candidate Task-main snapshot requires a Project.'',
      validateMainProjects [] projects]"

definition createDirectTaskMainSnapshot ::
    "string \<Rightarrow> managed_workspace \<Rightarrow> string list \<Rightarrow> (string \<times> string) list \<Rightarrow> main_project list result" where
  "createDirectTaskMainSnapshot cwd workspace projectIds heads =
     andThen (validateManagedWorkspace cwd workspace) (\<lambda>_.
     (case mw_owner workspace of
        Owner_Task _ \<Rightarrow>
          andThen (normalizedUniqueIdentities projectIds ''Direct Candidate snapshot Project'') (\<lambda>selected.
          andThen (commitEntries heads ''Direct Candidate snapshot Project'' ''Direct Candidate snapshot head'') (\<lambda>headByProject.
            if \<not> distinct (map fst headByProject) then throw ''Direct Candidate snapshot Projects are duplicated.''
            else andThen (traverse (\<lambda>e.
                if pe_access e \<noteq> Access_Write then throw ''Direct Candidate snapshot Project is not writable''
                else (case map_of headByProject (pe_projectId e) of
                    None \<Rightarrow> throw ''Direct Candidate snapshot Project head is missing''
                  | Some head \<Rightarrow> Inr \<lparr>mp_projectId = pe_projectId e, mp_directory = pe_directory e,
                      mp_branch = pe_branch e, mp_baseCommit = pe_baseCommit e, mp_headCommit = head\<rparr>))
                (filter (\<lambda>e. pe_projectId e \<in> set selected) (mw_entries workspace))) (\<lambda>projects.
              if length projects \<noteq> length selected \<or> length projects \<noteq> length headByProject
              then throw ''Direct Candidate snapshot Project scope does not match Task main.''
              else validateDirectTaskMainSnapshot projects)))
      | _ \<Rightarrow> throw ''Direct Candidate snapshot must come from Task main.''))"

subsection \<open>Candidates\<close>

fun validateArtifactRefs :: "string \<Rightarrow> string list \<Rightarrow> artifact_ref list \<Rightarrow> unit result" where
  "validateArtifactRefs taskId seen [] = Inr ()"
| "validateArtifactRefs taskId seen (ref # rest) =
     andThen (requireIdentity (af_artifactId ref) ''Candidate Artifact id'') (\<lambda>_.
       if af_taskId ref \<noteq> taskId \<or> af_artifactId ref \<in> set seen
       then throw ''Candidate Artifact scope, kind or identity is invalid.''
       else if (af_kind ref \<noteq> Artifact_External \<or> af_digest ref \<noteq> None)
          \<and> \<not> (case af_digest ref of None \<Rightarrow> False | Some d \<Rightarrow> is_digest d)
       then throw ''Candidate Artifact digest is invalid.''
       else validateArtifactRefs taskId (af_artifactId ref # seen) rest)"

definition validateCandidateReview :: "candidate \<Rightarrow> unit result" where
  \<comment> \<open>the review policy of a Candidate and its Task-final contract\<close>
  "validateCandidateReview c = all_ok
     [whenSome (ca_reviewPolicy c) (\<lambda>p. skip (validateReviewConfig p)),
      whenSome (ca_finalContract c) (\<lambda>value.
        andThen (validateTaskFinalReviewContract value) (\<lambda>contract.
          if fc_taskId contract \<noteq> ca_taskId c then throw ''Task final-review contract belongs to another Task.''
          else andThen (taskFinalReviewConfig contract) (\<lambda>policy.
            refuse (ca_reviewPolicy c \<noteq> Some policy)
              ''Task final-review contract does not match the Candidate review policy.'')))]"

definition validateCandidateSnapshots :: "string \<Rightarrow> candidate \<Rightarrow> unit result" where
  \<comment> \<open>the workspace of a Candidate and its snapshots\<close>
  "validateCandidateSnapshots cwd c = all_ok
     [whenSome (ca_workspace c) (\<lambda>w. all_ok
        [skip (validateManagedWorkspace cwd w),
         refuse (mw_owner w \<noteq> Owner_WorkItem (ca_taskId c) (ca_workItemId c))
           ''Work Item candidate must use its WorkItem-owned workspace.'']),
      whenSome (ca_gitSnapshot c) (\<lambda>snapshot.
        (case ca_workspace c of
           None \<Rightarrow> throw ''Candidate Git snapshot requires a managed workspace.''
         | Some w \<Rightarrow> validateCandidateGitSnapshot cwd snapshot w)),
      whenSome (ca_taskMainSnapshot c) (\<lambda>snapshot. all_ok
        [refuse (ca_workspace c \<noteq> None \<or> ca_gitSnapshot c \<noteq> None \<or> ca_finalContract c = None)
           ''Task-main Candidate snapshot requires an exact metadata-only Candidate.'',
         skip (validateDirectTaskMainSnapshot snapshot)])]"

definition validateWorkItemCandidate :: "string \<Rightarrow> candidate \<Rightarrow> candidate result" where
  "validateWorkItemCandidate cwd c = checked c
     [skip (requireIdentity (ca_taskId c) ''Work Item candidate Task id''),
      skip (validateTaskRecordReference (ca_taskId c) (ca_workItemId c) WorkItemKind),
      refuse (ca_id c \<noteq> ''candidate-'' @ int_str (ca_sequence c)) ''Work Item candidate local id is invalid.'',
      refuse (\<not> safe_integer (ca_sequence c) \<or> ca_sequence c < 1)
        ''Work Item candidate sequence must be a positive integer.'',
      refuse (\<not> safe_integer (ca_workItemRevision c) \<or> ca_workItemRevision c < 1)
        ''Work Item candidate revision must be a positive integer.'',
      skip (requireText (ca_summary c) ''Work Item candidate summary''),
      whenSome (ca_artifactRefs c) (validateArtifactRefs (ca_taskId c) []),
      (case ca_source c of
         Source_Direct \<Rightarrow> Inr ()
       | Source_Run r \<Rightarrow> skip (validateTaskRecordReference (ca_taskId c) r RunKind)),
      refuse ((ca_executionGroupId c = None) \<noteq> (ca_executionLaneId c = None))
        ''Work Item candidate execution lineage is incomplete.'',
      whenSome (ca_executionGroupId c) (\<lambda>g. all_ok
        [skip (requireIdentity g ''ExecutionGroup id''),
         skip (requireIdentity (text_or_empty (ca_executionLaneId c)) ''ExecutionLane id'')]),
      validateCandidateReview c,
      validateCandidateSnapshots cwd c,
      skip (requireTimestamp (ca_createdAt c) ''Work Item candidate createdAt'')]"

subsection \<open>Validation of a Work Item\<close>

fun normalizeBaseRefs :: "string list \<Rightarrow> base_ref list \<Rightarrow> base_ref list result" where
  "normalizeBaseRefs seen [] = Inr []"
| "normalizeBaseRefs seen (entry # rest) =
     andThen (requireIdentity (br_projectId entry) ''Work Item Project id'') (\<lambda>projectId.
       if projectId \<in> set seen then throw ''Work Item Project base ref is duplicated''
       else andThen (requireText (br_baseRef entry) ''Work Item Project base ref'') (\<lambda>baseRef.
         if take 1 baseRef = ''-'' \<or> CHR 0x0D \<in> set baseRef \<or> CHR 0x0A \<in> set baseRef
         then throw ''Work Item Project base ref is invalid.''
         else andThen (normalizeBaseRefs (projectId # seen) rest) (\<lambda>refs.
           Inr (\<lparr>br_projectId = projectId, br_baseRef = baseRef\<rparr> # refs))))"

definition normalizeProjectBaseRefs :: "base_ref list \<Rightarrow> base_ref list result" where
  "normalizeProjectBaseRefs baseRefs = normalizeBaseRefs [] baseRefs"

definition validateWorkDisposition :: "work_disposition \<Rightarrow> work_disposition result" where
  "validateWorkDisposition d = checked d
     [skip (requireText (wd_summary d) ''Work item disposition summary''),
      skip (requireTimestamp (wd_retiredAt d) ''Work Item retiredAt''),
      whenSome (wd_replacement d) (\<lambda>r. skip (requireIdentity r ''Replacement Work Item id''))]"

definition normalizeWorkDisposition :: "disposition_input \<Rightarrow> date \<Rightarrow> work_disposition result" where
  "normalizeWorkDisposition input now =
     andThen (requireText (dn_summary input) ''Work item disposition summary'') (\<lambda>summary.
     andThen (whenSome (dn_replacement input) (\<lambda>r. skip (requireIdentity r ''Replacement Work Item id''))) (\<lambda>_.
     andThen (toISOString now) (\<lambda>retiredAt.
       validateWorkDisposition
         \<lparr>wd_by = dn_by input, wd_summary = summary, wd_retiredAt = retiredAt, wd_replacement = dn_replacement input\<rparr>)))"

definition sameWorkDisposition :: "work_disposition \<Rightarrow> work_disposition \<Rightarrow> bool" where
  "sameWorkDisposition left right \<longleftrightarrow> wd_by left = wd_by right \<and> wd_summary left = wd_summary right
     \<and> wd_replacement left = wd_replacement right"

fun work_target :: "execution_assignment \<Rightarrow> string option" where
  "work_target (WorkAssignment a) = Some (wa_workItemId a)"
| "work_target (ReviewAssignment a) = ra_workItemId a"

definition validateItemExecutionGroup :: "host \<Rightarrow> execution_group \<Rightarrow> string \<Rightarrow> string \<Rightarrow> execution_group result" where
  \<comment> \<open>\<open>validateWorkItemExecutionGroup\<close> of \<open>workItem.ts\<close>\<close>
  "validateItemExecutionGroup ho grp taskId workItemId = checked grp
     [skip (validateWorkItemExecutionGroup (ho_launchOk ho) grp),
      refuse (eg_taskId grp \<noteq> taskId) ''Work Item ExecutionGroup provenance is invalid'',
      refuse (work_target (eg_assignment grp) \<noteq> Some workItemId \<or> assignment_task (eg_assignment grp) \<noteq> taskId)
        ''Work Item ExecutionGroup Assignment is invalid'']"

fun validateItemGroups :: "host \<Rightarrow> string \<Rightarrow> string \<Rightarrow> string list \<Rightarrow> execution_group list \<Rightarrow> unit result" where
  "validateItemGroups ho taskId i seen [] = Inr ()"
| "validateItemGroups ho taskId i seen (g # gs) =
     andThen (validateItemExecutionGroup ho g taskId i) (\<lambda>_.
       if eg_id g \<in> set seen then throw ''Work Item ExecutionGroup is duplicated''
       else validateItemGroups ho taskId i (eg_id g # seen) gs)"

fun validateItemCandidates :: "host \<Rightarrow> work_item \<Rightarrow> int \<Rightarrow> string list \<Rightarrow> candidate list \<Rightarrow> unit result" where
  \<comment> \<open>the loop over the Candidates from position \<open>n\<close>, counted from 1\<close>
  "validateItemCandidates ho w n seen [] = Inr ()"
| "validateItemCandidates ho w n seen (c # cs) =
     andThen (validateWorkItemCandidate (ho_cwd ho) c) (\<lambda>_.
       if ca_taskId c \<noteq> wi_taskId w \<or> ca_workItemId c \<noteq> wi_id w
       then throw ''Work Item candidate provenance is invalid.''
       else if ca_sequence c \<noteq> n then throw ''Work Item candidate sequence is invalid.''
       else if ca_id c \<in> set seen then throw ''Work Item candidate is duplicated''
       else if wi_revision w < ca_workItemRevision c
       then throw ''Work Item candidate revision cannot exceed the Work Item revision.''
       else validateItemCandidates ho w (n + 1) (ca_id c # seen) cs)"

definition candidate_ids :: "work_item \<Rightarrow> string list" where
  "candidate_ids w = map ca_id (wi_candidates w)"

definition validateItemDefinition :: "work_item \<Rightarrow> unit result" where
  \<comment> \<open>identity, requirements and scope\<close>
  "validateItemDefinition w = all_ok
     [skip (validateTaskRecordReference (wi_taskId w) (wi_id w) WorkItemKind),
      skip (requireIdentity (wi_taskId w) ''Task id''),
      skip (requireText (wi_title w) ''Work item title''),
      skip (requireText (wi_objective w) ''Work item objective''),
      skip (normalizedUniqueText (wi_acceptance w) ''Work item acceptance criterion''),
      andThen (normalizedUniqueIdentities (wi_dependsOn w) ''Work item dependency'') (\<lambda>dependsOn. all_ok
        [skip (normalizedUniqueIdentities (wi_writeProjectIds w) ''Work item writable Project''),
         whenSome (wi_baseRefs w) (\<lambda>refs.
           andThen (normalizeProjectBaseRefs refs) (\<lambda>baseRefs.
             refuse (list_ex (\<lambda>b. br_projectId b \<notin> set (wi_writeProjectIds w)) baseRefs)
               ''Work Item Project base refs must target writable Projects.'')),
         refuse (wi_id w \<in> set dependsOn) ''A Work Item cannot depend on itself.'']),
      refuse (\<not> safe_integer (wi_revision w) \<or> wi_revision w < 1) ''Work Item revision must be a positive integer.'',
      whenSome (wi_assignee w) (\<lambda>a. skip (requireIdentity a ''Work item assignee''))]"

definition validateItemExecution :: "host \<Rightarrow> work_item \<Rightarrow> unit result" where
  \<comment> \<open>execution groups and Candidates\<close>
  "validateItemExecution ho w = all_ok
     [validateItemGroups ho (wi_taskId w) (wi_id w) [] (wi_executionGroups w),
      whenSome (wi_currentExecutionGroupId w) (\<lambda>i. all_ok
        [skip (requireIdentity i ''ExecutionGroup id''),
         refuse (i \<notin> eg_id ` set (wi_executionGroups w)) ''Work Item current ExecutionGroup is not in history'']),
      validateItemCandidates ho w 1 [] (wi_candidates w),
      whenSome (wi_acceptedCandidateId w) (\<lambda>i. refuse (i \<notin> set (candidate_ids w)) ''Accepted Candidate is missing.''),
      refuse (wi_acceptedCandidateId w \<noteq> None \<and> wi_status w \<noteq> Work_Accepted)
        ''Only an accepted Work Item may select an accepted Candidate.'',
      refuse (wi_status w = Work_Accepted \<and> wi_candidates w \<noteq> [] \<and> wi_acceptedCandidateId w = None)
        ''Accepted Work Item must identify its selected Candidate.'',
      whenSome (wi_currentCandidateId w) (\<lambda>i. refuse (i \<notin> set (candidate_ids w)) ''Current Candidate is missing.'')]"

definition historical_statuses :: "string list" where
  "historical_statuses = [''pending'', ''running'', ''awaiting_acceptance'', ''completed'', ''failed'', ''retired'']"

definition validateItemOutcome :: "work_item \<Rightarrow> unit result" where
  \<comment> \<open>outcome, times and disposition\<close>
  "validateItemOutcome w = all_ok
     [whenSome (wi_historicalState w) (\<lambda>h. all_ok
        [refuse (hs_status h \<notin> set historical_statuses) ''Historical Work Item status is invalid.'',
         whenSome (hs_outcome h) (\<lambda>t. skip (requireText t ''Historical outcome'')),
         whenSome (hs_endedAt h) (\<lambda>t. skip (requireTimestamp t ''Historical endedAt''))]),
      whenSome (wi_outcome w) (\<lambda>t. skip (requireText t ''Work item outcome'')),
      skip (requireTimestamp (wi_createdAt w) ''Work Item createdAt''),
      skip (requireTimestamp (wi_updatedAt w) ''Work Item updatedAt''),
      (if isTerminalStatus (wi_status w)
       then all_ok
         [skip (requireText (text_or_empty (wi_outcome w)) ''Work item outcome''),
          skip (requireTimestamp (text_or_empty (wi_endedAt w)) ''Work Item endedAt'')]
       else all_ok
         [refuse (wi_outcome w \<noteq> None) ''A non-terminal Work Item cannot have an outcome.'',
          refuse (wi_endedAt w \<noteq> None) ''A non-terminal Work Item cannot have endedAt.'']),
      whenSome (wi_disposition w) (\<lambda>d. all_ok
        [skip (validateWorkDisposition d),
         refuse (wi_status w \<noteq> Work_Retired) ''Work Item disposition does not match its status.'',
         refuse (wi_outcome w \<noteq> Some (wd_summary d) \<or> wi_endedAt w \<noteq> Some (wd_retiredAt d))
           ''Work Item disposition does not match its terminal metadata.''])]"

definition validateWorkItem :: "host \<Rightarrow> work_item \<Rightarrow> work_item result" where
  "validateWorkItem ho w = checked w
     [validateItemDefinition w, validateItemExecution ho w, validateItemOutcome w]"

subsection \<open>Operations\<close>

definition createWorkItem :: "host \<Rightarrow> string \<Rightarrow> string \<Rightarrow> work_input \<Rightarrow> date \<Rightarrow> work_item result" where
  "createWorkItem ho i taskId input now =
     andThen (toISOString now) (\<lambda>timestamp.
     andThen (requireIdentity i ''Work Item id'') (\<lambda>item_id.
     andThen (requireIdentity taskId ''Task id'') (\<lambda>task.
     andThen (requireText (wn_title input) ''Work item title'') (\<lambda>title.
     andThen (requireText (case wn_objective input of None \<Rightarrow> wn_title input | Some x \<Rightarrow> x) ''Work item objective'') (\<lambda>objective.
     andThen (normalizedUniqueText (case wn_acceptance input of None \<Rightarrow> [] | Some xs \<Rightarrow> xs)
       ''Work item acceptance criterion'') (\<lambda>acceptance.
     andThen (normalizedUniqueIdentities (case wn_dependsOn input of None \<Rightarrow> [] | Some xs \<Rightarrow> xs)
       ''Work item dependency'') (\<lambda>dependsOn.
     andThen (normalizedUniqueIdentities (case wn_writeProjectIds input of None \<Rightarrow> [] | Some xs \<Rightarrow> xs)
       ''Work item writable Project'') (\<lambda>writeProjectIds.
     andThen (traverse (\<lambda>g. validateItemExecutionGroup ho g taskId i)
       (case wn_executionGroups input of None \<Rightarrow> [] | Some gs \<Rightarrow> gs)) (\<lambda>groups.
     andThen (optionally (\<lambda>g. requireIdentity g ''ExecutionGroup id'') (wn_currentExecutionGroupId input)) (\<lambda>current.
     andThen (case wn_baseRefs input of
         None \<Rightarrow> Inr None
       | Some [] \<Rightarrow> Inr None
       | Some refs \<Rightarrow> andThen (normalizeProjectBaseRefs refs) (\<lambda>rs. Inr (Some rs))) (\<lambda>baseRefs.
     andThen (optionally (\<lambda>a. requireIdentity a ''Work item assignee'') (wn_assignee input)) (\<lambda>assignee.
       validateWorkItem ho
         \<lparr>wi_id = item_id, wi_taskId = task, wi_title = title, wi_objective = objective, wi_acceptance = acceptance,
          wi_dependsOn = dependsOn, wi_writeProjectIds = writeProjectIds, wi_executionGroups = groups,
          wi_currentExecutionGroupId = current, wi_baseRefs = baseRefs, wi_revision = 1, wi_assignee = assignee,
          wi_status = Work_Open, wi_candidates = [], wi_outcome = None, wi_disposition = None,
          wi_workspaceDisposition = None, wi_createdAt = timestamp, wi_updatedAt = timestamp, wi_endedAt = None,
          wi_acceptedCandidateId = None, wi_currentCandidateId = None, wi_historicalState = None\<rparr>))))))))))))"

definition revised :: "work_item \<Rightarrow> string \<Rightarrow> work_item" where
  \<comment> \<open>\<open>revision: workItem.revision + 1, updatedAt\<close>\<close>
  "revised w timestamp = w\<lparr>wi_revision := wi_revision w + 1, wi_updatedAt := timestamp\<rparr>"

fun given :: "'a option \<Rightarrow> ('a \<Rightarrow> 'b result) \<Rightarrow> 'b \<Rightarrow> 'b result" where
  \<comment> \<open>\<open>...(x === undefined ? {} : { field: check(x) })\<close> over the old value of the field\<close>
  "given None check old = Inr old"
| "given (Some x) check old = check x"

definition updated_refs :: "base_ref list option option \<Rightarrow> base_ref list option \<Rightarrow> base_ref list option result" where
  "updated_refs u old =
     (case u of
        None \<Rightarrow> Inr old
      | Some None \<Rightarrow> Inr None
      | Some (Some refs) \<Rightarrow> andThen (normalizeProjectBaseRefs refs) (\<lambda>rs. Inr (if rs = [] then None else Some rs)))"

definition updated_assignee :: "string option option \<Rightarrow> string option \<Rightarrow> string option result" where
  "updated_assignee u old =
     (case u of
        None \<Rightarrow> Inr old
      | Some None \<Rightarrow> Inr None
      | Some (Some a) \<Rightarrow> andThen (requireIdentity a ''Work item assignee'') (\<lambda>a'. Inr (Some a')))"

definition editWorkItemDefinition :: "host \<Rightarrow> work_item \<Rightarrow> definition_update \<Rightarrow> date \<Rightarrow> work_item result" where
  "editWorkItemDefinition ho w u now =
     andThen (validateWorkItem ho w) (\<lambda>_.
       if wi_status w \<noteq> Work_Open then throw ''Only open Work Item definitions may change''
       else andThen (given (du_title u) (\<lambda>t. requireText t ''Work item title'') (wi_title w)) (\<lambda>title.
         andThen (given (du_objective u) (\<lambda>t. requireText t ''Work item objective'') (wi_objective w)) (\<lambda>objective.
         andThen (given (du_acceptance u) (\<lambda>xs. normalizedUniqueText xs ''Work item acceptance criterion'')
           (wi_acceptance w)) (\<lambda>acceptance.
         andThen (given (du_dependsOn u) (\<lambda>xs. normalizedUniqueIdentities xs ''Work item dependency'')
           (wi_dependsOn w)) (\<lambda>dependsOn.
         andThen (given (du_writeProjectIds u) (\<lambda>xs. normalizedUniqueIdentities xs ''Work item writable Project'')
           (wi_writeProjectIds w)) (\<lambda>writeProjectIds.
         andThen (toISOString now) (\<lambda>timestamp.
         andThen (updated_refs (du_baseRefs u) (wi_baseRefs w)) (\<lambda>baseRefs.
         andThen (updated_assignee (du_assignee u) (wi_assignee w)) (\<lambda>assignee.
           validateWorkItem ho ((revised w timestamp)\<lparr>wi_title := title, wi_objective := objective,
             wi_acceptance := acceptance, wi_dependsOn := dependsOn, wi_writeProjectIds := writeProjectIds,
             wi_baseRefs := baseRefs, wi_assignee := assignee\<rparr>))))))))))"

definition new_candidate ::
    "work_item \<Rightarrow> candidate_input \<Rightarrow> string option \<Rightarrow> string option \<Rightarrow> string \<Rightarrow> candidate" where
  \<comment> \<open>the record \<open>submitWorkItemCandidate\<close> builds, one past the Candidates there are\<close>
  "new_candidate w input groupId laneId timestamp =
     (let sequence = int (length (wi_candidates w)) + 1
      in \<lparr>ca_id = ''candidate-'' @ int_str sequence, ca_taskId = wi_taskId w, ca_workItemId = wi_id w,
          ca_sequence = sequence, ca_workItemRevision = wi_revision w + 1, ca_summary = cn_summary input,
          ca_source = cn_source input, ca_executionGroupId = groupId, ca_executionLaneId = laneId,
          ca_reviewPolicy = cn_reviewPolicy input, ca_finalContract = cn_finalContract input,
          ca_workspace = cn_workspace input, ca_gitSnapshot = cn_gitSnapshot input,
          ca_taskMainSnapshot = cn_taskMainSnapshot input, ca_artifactRefs = cn_artifactRefs input,
          ca_createdAt = timestamp\<rparr>)"

definition submitWorkItemCandidate :: "host \<Rightarrow> work_item \<Rightarrow> candidate_input \<Rightarrow> date \<Rightarrow> work_item result" where
  "submitWorkItemCandidate ho w input now =
     andThen (validateWorkItem ho w) (\<lambda>_.
       if wi_status w \<noteq> Work_Open then throw ''Work Item candidate can only be submitted from running''
       else andThen (optionally (\<lambda>g. requireIdentity g ''ExecutionGroup id'') (cn_executionGroupId input)) (\<lambda>groupId.
         andThen (optionally (\<lambda>l. requireIdentity l ''ExecutionLane id'') (cn_executionLaneId input)) (\<lambda>laneId.
         andThen (toISOString now) (\<lambda>timestamp.
         andThen (validateWorkItemCandidate (ho_cwd ho) (new_candidate w input groupId laneId timestamp)) (\<lambda>candidate.
           validateWorkItem ho ((revised w timestamp)\<lparr>wi_outcome := None, wi_endedAt := None,
             wi_candidates := wi_candidates w @ [candidate], wi_currentCandidateId := Some (ca_id candidate)\<rparr>))))))"

definition changed_status ::
    "work_item \<Rightarrow> work_status \<Rightarrow> string \<Rightarrow> string option \<Rightarrow> string option \<Rightarrow> work_item" where
  \<comment> \<open>the record \<open>updateWorkItemStatus\<close> builds when the status changes or stays open\<close>
  "changed_status w status timestamp outcome candidateId =
     (let withdrawing = (wi_status w = Work_Accepted \<and> status = Work_Open)
      in (revised w timestamp)\<lparr>wi_status := status, wi_outcome := outcome,
           wi_acceptedCandidateId := (if status = Work_Accepted
             then or_else candidateId (or_else (wi_acceptedCandidateId w) (wi_currentCandidateId w)) else None),
           wi_currentCandidateId := (if status = Work_Open \<and> \<not> withdrawing then wi_currentCandidateId w else None),
           wi_endedAt := (if isTerminalStatus status then Some timestamp else None)\<rparr>)"

definition status_record ::
    "work_item \<Rightarrow> work_status \<Rightarrow> string \<Rightarrow> string option \<Rightarrow> string option \<Rightarrow> work_item" where
  \<comment> \<open>the two records of \<open>updateWorkItemStatus\<close>: a terminal status confirmed, or another status\<close>
  "status_record w status timestamp outcome candidateId =
     (if isTerminalStatus (wi_status w) \<and> status = wi_status w then (revised w timestamp)\<lparr>wi_outcome := outcome\<rparr>
      else changed_status w status timestamp outcome candidateId)"

definition assertStatusChange :: "work_item \<Rightarrow> work_status \<Rightarrow> unit result" where
  \<comment> \<open>the guards of \<open>updateWorkItemStatus\<close>\<close>
  "assertStatusChange w status = all_ok
     [refuse (wi_disposition w \<noteq> None \<and> status \<noteq> wi_status w) ''Retired Work Item status cannot change'',
      refuse (isTerminalStatus (wi_status w) \<and> status \<noteq> wi_status w
          \<and> \<not> (wi_status w = Work_Accepted \<and> status = Work_Open))
        ''Terminal Work Item status cannot change'']"

definition updateWorkItemStatus ::
    "host \<Rightarrow> work_item \<Rightarrow> work_status \<Rightarrow> date \<Rightarrow> string option \<Rightarrow> string option \<Rightarrow> work_item result" where
  "updateWorkItemStatus ho w status now outcome candidateId =
     andThen (validateWorkItem ho w) (\<lambda>_.
     andThen (assertStatusChange w status) (\<lambda>_.
     andThen (optionally (\<lambda>t. requireText t ''Work item outcome'') outcome) (\<lambda>normalizedOutcome.
     andThen (refuse (isTerminalStatus status \<and> normalizedOutcome = None) ''Work item outcome is required'') (\<lambda>_.
     andThen (toISOString now) (\<lambda>timestamp.
       validateWorkItem ho (status_record w status timestamp normalizedOutcome candidateId))))))"

definition workItemExecutionGroupById :: "work_item \<Rightarrow> string \<Rightarrow> execution_group option" where
  "workItemExecutionGroupById w i = find (\<lambda>g. eg_id g = i) (wi_executionGroups w)"

definition currentWorkItemExecutionGroup :: "work_item \<Rightarrow> execution_group option" where
  "currentWorkItemExecutionGroup w =
     (case wi_currentExecutionGroupId w of None \<Rightarrow> None | Some i \<Rightarrow> workItemExecutionGroupById w i)"

definition workItemOwnsUnresolvedExecutionLane ::
    "host \<Rightarrow> work_item \<Rightarrow> string option \<Rightarrow> string option \<Rightarrow> bool result" where
  "workItemOwnsUnresolvedExecutionLane ho w executionGroupId executionLaneId =
     (case (executionGroupId, executionLaneId) of
        (Some g, Some l) \<Rightarrow>
          if wi_currentExecutionGroupId w \<noteq> Some g then Inr False
          else (case workItemExecutionGroupById w g of
              None \<Rightarrow> Inr False
            | Some grp \<Rightarrow> andThen (workItemExecutionGroupSettled (ho_launchOk ho) grp) (\<lambda>settled.
                Inr (\<not> settled \<and> list_ex (\<lambda>lane. ln_id lane = l \<and> ln_disposition lane = Lane_Open
                  \<and> ln_currentRunId lane \<noteq> None) (eg_lanes grp))))
      | _ \<Rightarrow> Inr False)"

definition openExecutionGroup :: "host \<Rightarrow> work_item \<Rightarrow> bool result" where
  \<comment> \<open>\<open>current !== undefined && !workItemExecutionGroupSettled(current)\<close>\<close>
  "openExecutionGroup ho w =
     (case currentWorkItemExecutionGroup w of
        None \<Rightarrow> Inr False
      | Some g \<Rightarrow> andThen (workItemExecutionGroupSettled (ho_launchOk ho) g) (\<lambda>settled. Inr (\<not> settled)))"

definition attachWorkItemExecutionGroup :: "host \<Rightarrow> work_item \<Rightarrow> execution_group \<Rightarrow> date \<Rightarrow> work_item result" where
  "attachWorkItemExecutionGroup ho w executionGroup now =
     andThen (validateWorkItem ho w) (\<lambda>_.
     andThen (validateItemExecutionGroup ho executionGroup (wi_taskId w) (wi_id w)) (\<lambda>checked_group.
       if wi_status w \<noteq> Work_Open then throw ''A terminal Work Item cannot attach an ExecutionGroup''
       else (case workItemExecutionGroupById w (eg_id checked_group) of
           Some existing \<Rightarrow>
             if existing \<noteq> checked_group then throw ''Work Item ExecutionGroup is immutable''
             else if wi_currentExecutionGroupId w = Some (eg_id checked_group) then Inr w
             else throw ''Work Item historical ExecutionGroup is immutable''
         | None \<Rightarrow> andThen (openExecutionGroup ho w) (\<lambda>is_open.
             if is_open then throw ''Work Item already has an open ExecutionGroup''
             else andThen (toISOString now) (\<lambda>timestamp.
               validateWorkItem ho ((revised w timestamp)\<lparr>
                 wi_executionGroups := wi_executionGroups w @ [checked_group],
                 wi_currentExecutionGroupId := Some (eg_id checked_group)\<rparr>))))))"

definition replaced_groups :: "execution_group \<Rightarrow> execution_group list \<Rightarrow> execution_group list" where
  "replaced_groups g gs = map (\<lambda>x. if eg_id x = eg_id g then g else x) gs"

definition updateWorkItemExecutionGroup :: "host \<Rightarrow> work_item \<Rightarrow> execution_group \<Rightarrow> date \<Rightarrow> work_item result" where
  "updateWorkItemExecutionGroup ho w executionGroup now =
     andThen (validateWorkItem ho w) (\<lambda>_.
     andThen (validateItemExecutionGroup ho executionGroup (wi_taskId w) (wi_id w)) (\<lambda>checked_group.
       case workItemExecutionGroupById w (eg_id checked_group) of
         None \<Rightarrow> attachWorkItemExecutionGroup ho w checked_group now
       | Some existing \<Rightarrow>
           if wi_currentExecutionGroupId w \<noteq> Some (eg_id checked_group)
           then throw ''Work Item historical ExecutionGroup is immutable''
           else if eg_assignment existing \<noteq> eg_assignment checked_group
           then throw ''Work Item ExecutionGroup Assignment is immutable''
           else if existing = checked_group then Inr w
           else andThen (assertWorkItemExecutionGroupTransition (ho_launchOk ho) existing checked_group) (\<lambda>_.
             andThen (toISOString now) (\<lambda>timestamp.
               validateWorkItem ho ((revised w timestamp)\<lparr>
                 wi_executionGroups := replaced_groups checked_group (wi_executionGroups w)\<rparr>)))))"

definition retireWorkItem :: "host \<Rightarrow> work_item \<Rightarrow> disposition_input \<Rightarrow> date \<Rightarrow> work_item result" where
  "retireWorkItem ho w input now =
     andThen (validateWorkItem ho w) (\<lambda>_.
     andThen (normalizeWorkDisposition input now) (\<lambda>disposition.
       case wi_disposition w of
         Some existing \<Rightarrow>
           if wi_status w = Work_Retired \<and> sameWorkDisposition existing disposition then Inr w
           else throw ''Work Item already has an explicit disposition''
       | None \<Rightarrow>
           if wi_status w = Work_Accepted then throw ''Completed Work Item cannot be retired''
           else validateWorkItem ho ((revised w (wd_retiredAt disposition))\<lparr>
             wi_status := Work_Retired, wi_outcome := Some (wd_summary disposition),
             wi_disposition := Some disposition, wi_endedAt := Some (wd_retiredAt disposition)\<rparr>)))"

definition prepareWorkItemDispatch :: "host \<Rightarrow> work_item \<Rightarrow> date \<Rightarrow> work_item result" where
  "prepareWorkItemDispatch ho w now =
     andThen (validateWorkItem ho w) (\<lambda>_.
       if wi_status w \<noteq> Work_Open then throw ''Work item is not retryable''
       else if wi_workspaceDisposition w \<noteq> None then throw ''Work item workspace is already settled''
       else andThen (openExecutionGroup ho w) (\<lambda>is_open.
         andThen (toISOString now) (\<lambda>timestamp.
           validateWorkItem ho ((revised w timestamp)\<lparr>wi_outcome := None, wi_endedAt := None,
             wi_currentCandidateId := None,
             wi_currentExecutionGroupId := (if is_open then wi_currentExecutionGroupId w else None)\<rparr>))))"

definition recordWorkItemWorkspaceDisposition ::
    "host \<Rightarrow> work_item \<Rightarrow> workspace_disposition \<Rightarrow> date \<Rightarrow> work_item result" where
  "recordWorkItemWorkspaceDisposition ho w disposition now =
     andThen (validateWorkItem ho w) (\<lambda>_.
       if \<not> isTerminalStatus (wi_status w) then throw ''Only a terminal Work Item can record workspace cleanup.''
       else (case wi_workspaceDisposition w of
           Some recorded \<Rightarrow>
             if recorded \<noteq> disposition then throw ''Work Item workspace is already recorded'' else Inr w
         | None \<Rightarrow> andThen (toISOString now) (\<lambda>timestamp.
             validateWorkItem ho ((revised w timestamp)\<lparr>wi_workspaceDisposition := Some disposition\<rparr>))))"

definition currentWorkItemCandidate :: "work_item \<Rightarrow> candidate option" where
  "currentWorkItemCandidate w =
     (if wi_status w \<noteq> Work_Open then None
      else find (\<lambda>c. Some (ca_id c) = wi_currentCandidateId w) (wi_candidates w))"

definition governingWorkItemCandidate :: "work_item \<Rightarrow> candidate option" where
  "governingWorkItemCandidate w =
     (if wi_status w = Work_Accepted \<and> wi_acceptedCandidateId w \<noteq> None
      then find (\<lambda>c. Some (ca_id c) = wi_acceptedCandidateId w) (wi_candidates w)
      else currentWorkItemCandidate w)"

definition updateWorkItemWriteProjects :: "host \<Rightarrow> work_item \<Rightarrow> string list \<Rightarrow> date \<Rightarrow> work_item result" where
  "updateWorkItemWriteProjects ho w writeProjectIds now =
     andThen (validateWorkItem ho w) (\<lambda>_.
       if isTerminalStatus (wi_status w) then throw ''Terminal Work Item write scope cannot change''
       else andThen (normalizedUniqueIdentities writeProjectIds ''Work item writable Project'') (\<lambda>normalized.
         if list_ex (\<lambda>p. p \<notin> set normalized) (wi_writeProjectIds w)
         then throw ''Work Item write scope cannot remove approved Projects''
         else if length normalized = length (wi_writeProjectIds w)
            \<and> list_all (\<lambda>p. p \<in> set normalized) (wi_writeProjectIds w)
         then Inr w
         else andThen (toISOString now) (\<lambda>timestamp.
           validateWorkItem ho ((revised w timestamp)\<lparr>wi_writeProjectIds := normalized\<rparr>))))"

definition declineWorkItemCandidate :: "host \<Rightarrow> work_item \<Rightarrow> date \<Rightarrow> work_item result" where
  \<comment> \<open>\<open>work reject\<close>: back to open without the current Candidate\<close>
  "declineWorkItemCandidate ho w now =
     andThen (updateWorkItemStatus ho w Work_Open now None None) (\<lambda>failed.
       Inr (failed\<lparr>wi_currentCandidateId := None\<rparr>))"

text \<open>
  One call on a stored Work Item: the operation, then \<open>saveWorkItem\<close> of the store, which validates the
  record again.
\<close>

datatype work_op =
    EditDefinition definition_update
  | SubmitCandidate candidate_input
  | SetStatus work_status "string option" "string option"
  | AttachGroup execution_group
  | UpdateGroup execution_group
  | RetireItem disposition_input
  | PrepareDispatch
  | RecordWorkspace workspace_disposition
  | WriteProjects "string list"
  | DeclineCandidate

fun work_apply :: "host \<Rightarrow> work_item \<Rightarrow> work_op \<Rightarrow> date \<Rightarrow> work_item result" where
  "work_apply ho w (EditDefinition u) now = editWorkItemDefinition ho w u now"
| "work_apply ho w (SubmitCandidate c) now = submitWorkItemCandidate ho w c now"
| "work_apply ho w (SetStatus s why c) now = updateWorkItemStatus ho w s now why c"
| "work_apply ho w (AttachGroup g) now = attachWorkItemExecutionGroup ho w g now"
| "work_apply ho w (UpdateGroup g) now = updateWorkItemExecutionGroup ho w g now"
| "work_apply ho w (RetireItem d) now = retireWorkItem ho w d now"
| "work_apply ho w PrepareDispatch now = prepareWorkItemDispatch ho w now"
| "work_apply ho w (RecordWorkspace d) now = recordWorkItemWorkspaceDisposition ho w d now"
| "work_apply ho w (WriteProjects ps) now = updateWorkItemWriteProjects ho w ps now"
| "work_apply ho w DeclineCandidate now = declineWorkItemCandidate ho w now"

definition saveWorkItem :: "host \<Rightarrow> string \<Rightarrow> work_item \<Rightarrow> work_item result" where
  "saveWorkItem ho taskId w =
     andThen (validateWorkItem ho w) (\<lambda>_.
       if wi_taskId w \<noteq> taskId then throw ''Work item belongs to another Task'' else Inr w)"

fun work_step :: "host \<Rightarrow> string \<Rightarrow> work_item \<Rightarrow> work_op \<times> date \<Rightarrow> work_item result" where
  "work_step ho taskId w (op, now) = andThen (work_apply ho w op now) (saveWorkItem ho taskId)"

end
