(* ===== verification/Work_Item_Laws.thy ===== *)
theory Work_Item_Laws
  imports Work_Item
begin

section \<open>The life of a Work Item\<close>

text \<open>
  What the operations of \<open>Work_Item\<close> owe: each one is a step of a preorder on records and of a machine on
  statuses, both lifted to histories of stored calls, and an acceptance keeps its Candidate.
\<close>

subsection \<open>What a stored operation changes\<close>

interpretation item_candidate: record_validator "validateWorkItemCandidate cwd" for cwd
  by unfold_locales (simp add: validateWorkItemCandidate_def)

interpretation item_group: record_validator "\<lambda>g. validateItemExecutionGroup ho g taskId i" for ho taskId i
  by unfold_locales (simp add: validateItemExecutionGroup_def)

interpretation work_item: record_validator "validateWorkItem ho" for ho
  by unfold_locales (simp add: validateWorkItem_def)

definition item_valid :: "host \<Rightarrow> work_item \<Rightarrow> bool" where
  "item_valid ho w \<longleftrightarrow> isOk (validateWorkItem ho w)"

lemma validateWorkItem_eq [simp]:
  "validateWorkItem ho w = Inr v \<longleftrightarrow> item_valid ho w \<and> v = w" "isOk (validateWorkItem ho w) \<longleftrightarrow> item_valid ho w"
  using work_item.returns_self [of ho w v] work_item.ok_eq [of ho w] by (auto simp: item_valid_def)

lemma validateItemExecutionGroup_self:
  "validateItemExecutionGroup ho g taskId i = Inr g' \<Longrightarrow> g' = g \<and> group_valid (ho_launchOk ho) g"
  using item_group.returns_self by (auto simp: validateItemExecutionGroup_def dest: work_group_group)

lemma validateItemGroups_facts:
  "isOk (validateItemGroups ho taskId i seen gs) \<Longrightarrow>
     list_all (group_valid (ho_launchOk ho)) gs \<and> distinct (map eg_id gs) \<and> set (map eg_id gs) \<inter> set seen = {}"
  by (induction ho taskId i seen gs rule: validateItemGroups.induct)
    (auto dest: validateItemExecutionGroup_self split: if_split_asm)

lemma validateItemCandidates_facts:
  "isOk (validateItemCandidates ho w n seen cs) \<Longrightarrow>
     distinct (map ca_id cs) \<and> set (map ca_id cs) \<inter> set seen = {}
     \<and> (\<forall>k < length cs. ca_sequence (cs ! k) = n + int k)
     \<and> list_all (\<lambda>c. ca_id c = ''candidate-'' @ int_str (ca_sequence c) \<and> ca_workItemRevision c \<le> wi_revision w) cs"
proof (induction ho w n seen cs rule: validateItemCandidates.induct)
  case (2 ho w n seen c cs)
  then have v: "isOk (validateWorkItemCandidate (ho_cwd ho) c)" "ca_sequence c = n" "ca_id c \<notin> set seen"
      "\<not> wi_revision w < ca_workItemRevision c"
    and prov: "\<not> (ca_taskId c \<noteq> wi_taskId w \<or> ca_workItemId c \<noteq> wi_id w)"
    and rest: "isOk (validateItemCandidates ho w (n + 1) (ca_id c # seen) cs)"
    by (auto simp: isOk_iff split: if_split_asm)
  from v(2) have seq: "\<not> ca_sequence c \<noteq> n" by simp
  have "ca_id c = ''candidate-'' @ int_str (ca_sequence c)" using v(1) by (simp add: validateWorkItemCandidate_def)
  moreover note ih = 2(1) [OF prov seq v(3,4) rest]
  moreover have "ca_sequence ((c # cs) ! k) = n + int k" if "k < length (c # cs)" for k
    using that v(2) ih by (cases k) auto
  ultimately show ?case using v by auto
qed simp

lemma item_valid_execution:
  assumes "item_valid ho w"
  shows "list_all (group_valid (ho_launchOk ho)) (wi_executionGroups w)"
    and "distinct (map eg_id (wi_executionGroups w))" and "distinct (map ca_id (wi_candidates w))"
    and "\<forall>k < length (wi_candidates w). ca_sequence (wi_candidates w ! k) = 1 + int k"
    and "wi_acceptedCandidateId w \<noteq> None \<Longrightarrow> wi_status w = Work_Accepted"
    and "wi_status w = Work_Accepted \<Longrightarrow> wi_candidates w \<noteq> [] \<Longrightarrow> wi_acceptedCandidateId w \<noteq> None"
    and "wi_acceptedCandidateId w = Some i \<Longrightarrow> i \<in> set (candidate_ids w)"
    and "wi_currentCandidateId w = Some i \<Longrightarrow> i \<in> set (candidate_ids w)"
  using assms validateItemGroups_facts [of ho "wi_taskId w" "wi_id w" "[]" "wi_executionGroups w"]
    validateItemCandidates_facts [of ho w 1 "[]" "wi_candidates w"]
  by (auto simp: item_valid_def validateWorkItem_def validateItemExecution_def)

definition groups_le :: "work_item \<Rightarrow> work_item \<Rightarrow> bool" where
  \<comment> \<open>groups are only appended, each one moves as a group may, and one that is not current is final\<close>
  "groups_le a b \<longleftrightarrow>
     length (wi_executionGroups a) \<le> length (wi_executionGroups b)
     \<and> list_all2 group_le (wi_executionGroups a) (take (length (wi_executionGroups a)) (wi_executionGroups b))
     \<and> (\<forall>g \<in> set (wi_executionGroups a). wi_currentExecutionGroupId a \<noteq> Some (eg_id g) \<longrightarrow>
          g \<in> set (wi_executionGroups b) \<and> wi_currentExecutionGroupId b \<noteq> Some (eg_id g))"

lemma groups_refl: "item_valid ho w \<Longrightarrow> list_all2 group_le (wi_executionGroups w) (wi_executionGroups w)"
  using item_valid_execution(1) [of ho w] group_le_refl by (auto simp: list_all2_same list_all_iff)

lemma groups_le_same:
  "item_valid ho a \<Longrightarrow> wi_executionGroups b = wi_executionGroups a \<Longrightarrow>
     wi_currentExecutionGroupId b = wi_currentExecutionGroupId a \<or> wi_currentExecutionGroupId b = None \<Longrightarrow> groups_le a b"
  using groups_refl [of ho a] by (auto simp: groups_le_def)

lemma groups_le_append:
  "item_valid ho a \<Longrightarrow> wi_executionGroups b = wi_executionGroups a @ [g] \<Longrightarrow>
     eg_id g \<notin> set (map eg_id (wi_executionGroups a)) \<Longrightarrow> wi_currentExecutionGroupId b = Some (eg_id g) \<Longrightarrow> groups_le a b"
  using groups_refl [of ho a] by (auto simp: groups_le_def)

lemma groups_le_replace:
  assumes "item_valid ho a" and "workItemExecutionGroupById a (eg_id g) = Some old" and "group_le old g"
    and "wi_currentExecutionGroupId a = Some (eg_id g)"
    and "wi_executionGroups b = replaced_groups g (wi_executionGroups a)"
    and "wi_currentExecutionGroupId b = wi_currentExecutionGroupId a"
  shows "groups_le a b"
proof -
  have old: "old \<in> set (wi_executionGroups a)" "eg_id old = eg_id g"
    using assms(2) by (auto simp: workItemExecutionGroupById_def find_Some_iff)
  have "x = old" if "x \<in> set (wi_executionGroups a)" "eg_id x = eg_id g" for x
    using that old item_valid_execution(2) [OF assms(1)] by (auto simp: distinct_map inj_on_def)
  then have "list_all2 group_le (wi_executionGroups a) (replaced_groups g (wi_executionGroups a))"
    using groups_refl [OF assms(1)] assms(3)
    by (auto simp: replaced_groups_def list_all2_map2 list_all2_same)
  moreover have "x \<in> set (replaced_groups g (wi_executionGroups a))"
    if "x \<in> set (wi_executionGroups a)" "eg_id x \<noteq> eg_id g" for x
    using that by (force simp: replaced_groups_def)
  ultimately show ?thesis using assms(4-6) by (auto simp: groups_le_def replaced_groups_def)
qed

lemma groups_le_trans:
  assumes "groups_le a b" and "groups_le b c"
  shows "groups_le a c"
proof -
  let ?n = "length (wi_executionGroups a)"
  have n: "?n \<le> length (wi_executionGroups b)" using assms(1) by (simp add: groups_le_def)
  have "list_all2 group_le (wi_executionGroups b) (take (length (wi_executionGroups b)) (wi_executionGroups c))"
    using assms(2) by (simp add: groups_le_def)
  from list_all2_takeI [OF this, of ?n] n
  have "list_all2 group_le (take ?n (wi_executionGroups b)) (take ?n (wi_executionGroups c))"
    by (simp add: min_absorb1)
  then show ?thesis
    using assms list_all2_trans [of group_le group_le group_le, OF group_le_trans] unfolding groups_le_def
    by (meson le_trans)
qed

definition definition_part :: "work_item \<Rightarrow> string \<times> string \<times> string list \<times> string list \<times> string list" where
  "definition_part w = (wi_title w, wi_objective w, wi_acceptance w, wi_dependsOn w, wi_writeProjectIds w)"

definition work_le :: "work_item \<Rightarrow> work_item \<Rightarrow> bool" where
  \<comment> \<open>a Work Item later\<close>
  "work_le a b \<longleftrightarrow>
     wi_id b = wi_id a \<and> wi_taskId b = wi_taskId a \<and> wi_createdAt b = wi_createdAt a
     \<and> (\<exists>new. wi_candidates b = wi_candidates a @ new) \<and> groups_le a b
     \<and> (wi_disposition a \<noteq> None \<longrightarrow> wi_disposition b = wi_disposition a)
     \<and> (wi_workspaceDisposition a \<noteq> None \<longrightarrow> wi_workspaceDisposition b = wi_workspaceDisposition a)
     \<and> (wi_status a = Work_Retired \<longrightarrow> wi_status b = Work_Retired \<and> definition_part b = definition_part a
          \<and> wi_candidates b = wi_candidates a)
     \<and> (b = a \<or> wi_revision a < wi_revision b)"

lemma work_le_refl: "item_valid ho w \<Longrightarrow> work_le w w"
  by (simp add: work_le_def groups_le_same)

lemma work_le_trans: "work_le a b \<Longrightarrow> work_le b c \<Longrightarrow> work_le a c"
  unfolding work_le_def by (auto intro: groups_le_trans)

text \<open>The statuses a Work Item can take, with what each operation asks of them.\<close>

fun work_status_step :: "work_status \<Rightarrow> work_op \<Rightarrow> work_status option" where
  "work_status_step Work_Open (SetStatus s _ _) = Some s"
| "work_status_step Work_Accepted (SetStatus s _ _) = (if s = Work_Retired then None else Some s)"
| "work_status_step Work_Retired (SetStatus s _ _) = (if s = Work_Retired then Some s else None)"
| "work_status_step s (RetireItem _) = (if s = Work_Accepted then None else Some Work_Retired)"
| "work_status_step s DeclineCandidate = (if s = Work_Retired then None else Some Work_Open)"
| "work_status_step s (RecordWorkspace _) = (if s = Work_Open then None else Some s)"
| "work_status_step s (UpdateGroup _) = Some s"
| "work_status_step s _ = (if s = Work_Open then Some Work_Open else None)"

fun run_work_status :: "work_status \<Rightarrow> work_op list \<Rightarrow> work_status option" where
  "run_work_status s [] = Some s"
| "run_work_status s (op # ops) = (case work_status_step s op of None \<Rightarrow> None | Some t \<Rightarrow> run_work_status t ops)"

lemma revised_sel [simp]:
  "wi_revision (revised w t) = wi_revision w + 1" "wi_updatedAt (revised w t) = t" "wi_id (revised w t) = wi_id w"
  "wi_taskId (revised w t) = wi_taskId w" "wi_createdAt (revised w t) = wi_createdAt w"
  "wi_candidates (revised w t) = wi_candidates w" "wi_executionGroups (revised w t) = wi_executionGroups w"
  "wi_currentExecutionGroupId (revised w t) = wi_currentExecutionGroupId w"
  "wi_disposition (revised w t) = wi_disposition w" "wi_workspaceDisposition (revised w t) = wi_workspaceDisposition w"
  "wi_status (revised w t) = wi_status w" "wi_acceptedCandidateId (revised w t) = wi_acceptedCandidateId w"
  "wi_currentCandidateId (revised w t) = wi_currentCandidateId w" "wi_outcome (revised w t) = wi_outcome w"
  "wi_endedAt (revised w t) = wi_endedAt w" "wi_title (revised w t) = wi_title w"
  "wi_objective (revised w t) = wi_objective w" "wi_acceptance (revised w t) = wi_acceptance w"
  "wi_dependsOn (revised w t) = wi_dependsOn w" "wi_writeProjectIds (revised w t) = wi_writeProjectIds w"
  by (simp_all add: revised_def)

lemma edited_item:
  assumes "editWorkItemDefinition ho w u now = Inr v"
  shows "item_valid ho w" "item_valid ho v" "wi_status w = Work_Open" "wi_status v = Work_Open" "work_le w v"
    "wi_acceptedCandidateId v = wi_acceptedCandidateId w"
  using assms by (auto simp: editWorkItemDefinition_def work_le_def intro: groups_le_same)

lemma submitted_item:
  assumes "submitWorkItemCandidate ho w c now = Inr v"
  shows "item_valid ho w" "item_valid ho v" "wi_status w = Work_Open" "wi_status v = Work_Open" "work_le w v"
    "\<exists>g l. wi_candidates v = wi_candidates w @ [new_candidate w c g l (iso_string now)]
       \<and> wi_currentCandidateId v = Some (ca_id (new_candidate w c g l (iso_string now)))"
proof -
  from assms obtain x g l where w: "item_valid ho w" "wi_status w = Work_Open"
    and x: "validateWorkItemCandidate (ho_cwd ho) (new_candidate w c g l (iso_string now)) = Inr x"
    and v: "v = (revised w (iso_string now))\<lparr>wi_outcome := None, wi_endedAt := None,
      wi_candidates := wi_candidates w @ [x], wi_currentCandidateId := Some (ca_id x)\<rparr>" "item_valid ho v"
    unfolding submitWorkItemCandidate_def by auto
  show "item_valid ho w" "item_valid ho v" "wi_status w = Work_Open" by fact+
  show "wi_status v = Work_Open" "work_le w v"
    using w v(1) by (auto simp: work_le_def intro: groups_le_same)
  show "\<exists>g l. wi_candidates v = wi_candidates w @ [new_candidate w c g l (iso_string now)]
       \<and> wi_currentCandidateId v = Some (ca_id (new_candidate w c g l (iso_string now)))"
    using v(1) item_candidate.returns_self [OF x] by auto
qed

lemma status_item:
  assumes "updateWorkItemStatus ho w s now why c = Inr v"
  shows "item_valid ho w" "item_valid ho v" "wi_status v = s" "work_le w v"
    "work_status_step (wi_status w) (SetStatus s why c) = Some s"
    "wi_candidates v = wi_candidates w" "wi_revision v = wi_revision w + 1"
    "wi_status w = Work_Accepted \<Longrightarrow> s = Work_Accepted \<Longrightarrow> wi_acceptedCandidateId v = wi_acceptedCandidateId w"
    "wi_status w = Work_Open \<Longrightarrow> s = Work_Accepted \<Longrightarrow> wi_acceptedCandidateId v = or_else c (wi_currentCandidateId w)"
proof -
  from assms obtain o' where w: "item_valid ho w" and guards: "assertStatusChange w s = Inr ()"
    and v: "v = status_record w s (iso_string now) o' c" "item_valid ho v"
    unfolding updateWorkItemStatus_def by auto
  from guards have nd: "\<not> (wi_disposition w \<noteq> None \<and> s \<noteq> wi_status w)"
    and nt: "\<not> (isTerminalStatus (wi_status w) \<and> s \<noteq> wi_status w
      \<and> \<not> (wi_status w = Work_Accepted \<and> s = Work_Open))"
    by (simp_all add: assertStatusChange_def)
  have d: "wi_disposition w \<noteq> None \<Longrightarrow> s = wi_status w" using nd by blast
  have ok: "isTerminalStatus (wi_status w) \<Longrightarrow> s = wi_status w \<or> (wi_status w = Work_Accepted \<and> s = Work_Open)"
    using nt by blast
  show "item_valid ho w" "item_valid ho v" by fact+
  show st: "wi_status v = s" using v(1) by (simp add: status_record_def changed_status_def Let_def)
  show cs: "wi_candidates v = wi_candidates w" using v(1) by (simp add: status_record_def changed_status_def Let_def)
  have g: "groups_le w v" using w v(1) by (intro groups_le_same) (simp_all add: status_record_def changed_status_def Let_def)
  show rev: "wi_revision v = wi_revision w + 1"
    using v(1) by (simp add: status_record_def changed_status_def Let_def)
  have "wi_id v = wi_id w" "wi_taskId v = wi_taskId w" "wi_createdAt v = wi_createdAt w"
    "wi_disposition v = wi_disposition w" "wi_workspaceDisposition v = wi_workspaceDisposition w"
    "definition_part v = definition_part w"
    using v(1) by (simp_all add: status_record_def changed_status_def Let_def definition_part_def)
  then show "work_le w v" using g cs st ok rev by (auto simp: work_le_def)
  show "work_status_step (wi_status w) (SetStatus s why c) = Some s" using ok by (cases "wi_status w") auto
  show "wi_acceptedCandidateId v = wi_acceptedCandidateId w" if "wi_status w = Work_Accepted" "s = Work_Accepted"
    using v(1) that by (simp add: status_record_def)
  show "wi_acceptedCandidateId v = or_else c (wi_currentCandidateId w)" if o: "wi_status w = Work_Open" "s = Work_Accepted"
  proof -
    have "wi_acceptedCandidateId w = None" using item_valid_execution(5) [OF w] o(1) by (cases "wi_acceptedCandidateId w") auto
    then show ?thesis using v(1) o by (cases c) (simp_all add: status_record_def changed_status_def Let_def)
  qed
qed
lemma group_lookup:
  "workItemExecutionGroupById w i = None \<longleftrightarrow> i \<notin> set (map eg_id (wi_executionGroups w))"
  by (auto simp: workItemExecutionGroupById_def find_None_iff)

lemma attached_item:
  assumes "attachWorkItemExecutionGroup ho w g now = Inr v"
  shows "item_valid ho w" "item_valid ho v" "wi_status w = Work_Open" "wi_status v = Work_Open" "work_le w v"
    "wi_acceptedCandidateId v = wi_acceptedCandidateId w" "wi_candidates v = wi_candidates w"
proof -
  from assms obtain g' where w: "item_valid ho w" "wi_status w = Work_Open"
    and g: "validateItemExecutionGroup ho g (wi_taskId w) (wi_id w) = Inr g'"
    unfolding attachWorkItemExecutionGroup_def by auto
  have g': "g' = g" using g validateItemExecutionGroup_self by blast
  have "v = w \<or> (item_valid ho v \<and> eg_id g \<notin> set (map eg_id (wi_executionGroups w))
      \<and> v = (revised w (iso_string now))\<lparr>wi_executionGroups := wi_executionGroups w @ [g],
           wi_currentExecutionGroupId := Some (eg_id g)\<rparr>)"
  proof (cases "workItemExecutionGroupById w (eg_id g)")
    case None
    then have "eg_id g \<notin> set (map eg_id (wi_executionGroups w))" using group_lookup by blast
    with None show ?thesis using assms w g g'
      by (auto simp: attachWorkItemExecutionGroup_def split: if_split_asm)
  next
    case (Some old)
    then show ?thesis using assms w g g' by (auto simp: attachWorkItemExecutionGroup_def split: if_split_asm)
  qed
  then show "item_valid ho v" "wi_status v = Work_Open" "work_le w v"
      "wi_acceptedCandidateId v = wi_acceptedCandidateId w" "wi_candidates v = wi_candidates w"
    using w work_le_refl [OF w(1)] by (auto simp: work_le_def intro: groups_le_append)
  show "item_valid ho w" "wi_status w = Work_Open" by fact+
qed

lemma updated_item:
  assumes "updateWorkItemExecutionGroup ho w g now = Inr v"
  shows "item_valid ho w" "item_valid ho v" "wi_status v = wi_status w" "work_le w v"
    "wi_acceptedCandidateId v = wi_acceptedCandidateId w" "wi_candidates v = wi_candidates w"
proof -
  from assms obtain g' where w: "item_valid ho w"
    and g: "validateItemExecutionGroup ho g (wi_taskId w) (wi_id w) = Inr g'"
    unfolding updateWorkItemExecutionGroup_def by auto
  have g': "g' = g" using g validateItemExecutionGroup_self by blast
  have "item_valid ho v \<and> wi_status v = wi_status w \<and> work_le w v
      \<and> wi_acceptedCandidateId v = wi_acceptedCandidateId w \<and> wi_candidates v = wi_candidates w"
  proof (cases "workItemExecutionGroupById w (eg_id g)")
    case None
    with assms w g g' have "attachWorkItemExecutionGroup ho w g now = Inr v"
      by (simp add: updateWorkItemExecutionGroup_def)
    then show ?thesis using attached_item [of ho w g now v] by simp
  next
    case (Some old)
    have "v = w \<or> (item_valid ho v \<and> wi_currentExecutionGroupId w = Some (eg_id g)
        \<and> (\<exists>u. assertWorkItemExecutionGroupTransition (ho_launchOk ho) old g = Inr u) \<and> old \<noteq> g
        \<and> v = (revised w (iso_string now))\<lparr>wi_executionGroups := replaced_groups g (wi_executionGroups w)\<rparr>)"
      using assms w g g' Some by (auto simp: updateWorkItemExecutionGroup_def split: if_split_asm)
    moreover have "group_le old g" if "assertWorkItemExecutionGroupTransition (ho_launchOk ho) old g = Inr u" "old \<noteq> g" for u
      using that by (auto simp: assertWorkItemExecutionGroupTransition_def assert_transition_eq)
    ultimately show ?thesis
      using w work_le_refl [OF w] Some by (auto simp: work_le_def definition_part_def intro: groups_le_replace)
  qed
  then show "item_valid ho v" "wi_status v = wi_status w" "work_le w v"
      "wi_acceptedCandidateId v = wi_acceptedCandidateId w" "wi_candidates v = wi_candidates w"
    by simp_all
  show "item_valid ho w" by fact
qed

lemma retired_item:
  assumes "retireWorkItem ho w d now = Inr v"
  shows "item_valid ho w" "item_valid ho v" "wi_status w \<noteq> Work_Accepted" "wi_status v = Work_Retired" "work_le w v"
proof -
  from assms obtain x where w: "item_valid ho w" and x: "normalizeWorkDisposition d now = Inr x"
    unfolding retireWorkItem_def by auto
  have "(v = w \<and> wi_status w = Work_Retired) \<or> (item_valid ho v \<and> wi_status w \<noteq> Work_Accepted \<and> wi_disposition w = None
      \<and> v = (revised w (wd_retiredAt x))\<lparr>wi_status := Work_Retired, wi_outcome := Some (wd_summary x),
           wi_disposition := Some x, wi_endedAt := Some (wd_retiredAt x)\<rparr>)"
    using assms w x by (cases "wi_disposition w") (auto simp: retireWorkItem_def split: if_split_asm)
  then show "item_valid ho v" "wi_status w \<noteq> Work_Accepted" "wi_status v = Work_Retired" "work_le w v"
    using w work_le_refl [OF w] by (auto simp: work_le_def definition_part_def intro: groups_le_same)
  show "item_valid ho w" by fact
qed

lemma prepared_item:
  assumes "prepareWorkItemDispatch ho w now = Inr v"
  shows "item_valid ho w" "item_valid ho v" "wi_status w = Work_Open" "wi_status v = Work_Open" "work_le w v"
proof -
  from assms obtain b where w: "item_valid ho w" "wi_status w = Work_Open" and v: "item_valid ho v"
      "v = (revised w (iso_string now))\<lparr>wi_outcome := None, wi_endedAt := None, wi_currentCandidateId := None,
             wi_currentExecutionGroupId := (if b then wi_currentExecutionGroupId w else None)\<rparr>"
    unfolding prepareWorkItemDispatch_def by auto
  then show "item_valid ho w" "item_valid ho v" "wi_status w = Work_Open" "wi_status v = Work_Open" "work_le w v"
    by (auto simp: work_le_def intro: groups_le_same)
qed

lemma workspace_item:
  assumes "recordWorkItemWorkspaceDisposition ho w d now = Inr v"
  shows "item_valid ho w" "item_valid ho v" "isTerminalStatus (wi_status w)" "wi_status v = wi_status w" "work_le w v"
    "wi_acceptedCandidateId v = wi_acceptedCandidateId w" "wi_candidates v = wi_candidates w"
proof -
  from assms have w: "item_valid ho w" "isTerminalStatus (wi_status w)" and
    "v = w \<or> (item_valid ho v \<and> wi_workspaceDisposition w = None
       \<and> v = (revised w (iso_string now))\<lparr>wi_workspaceDisposition := Some d\<rparr>)"
    by (auto simp: recordWorkItemWorkspaceDisposition_def split: option.splits if_split_asm)
  then show "item_valid ho w" "item_valid ho v" "isTerminalStatus (wi_status w)" "wi_status v = wi_status w" "work_le w v"
    "wi_acceptedCandidateId v = wi_acceptedCandidateId w" "wi_candidates v = wi_candidates w"
    using work_le_refl [OF w(1)] by (auto simp: work_le_def definition_part_def intro: groups_le_same)
qed

lemma write_item:
  assumes "updateWorkItemWriteProjects ho w ps now = Inr v"
  shows "item_valid ho w" "item_valid ho v" "wi_status w = Work_Open" "wi_status v = Work_Open" "work_le w v"
proof -
  from assms have w: "item_valid ho w" "\<not> isTerminalStatus (wi_status w)" and
    "v = w \<or> (item_valid ho v \<and> (\<exists>qs. v = (revised w (iso_string now))\<lparr>wi_writeProjectIds := qs\<rparr>))"
    by (auto simp: updateWorkItemWriteProjects_def split: if_split_asm)
  moreover from w(2) have "wi_status w = Work_Open" by (cases "wi_status w") auto
  ultimately show "item_valid ho w" "item_valid ho v" "wi_status w = Work_Open" "wi_status v = Work_Open" "work_le w v"
    using work_le_refl [OF w(1)] by (auto simp: work_le_def intro: groups_le_same)
qed

lemma declined_item:
  assumes "declineWorkItemCandidate ho w now = Inr v"
  shows "item_valid ho w" "wi_status w \<noteq> Work_Retired" "wi_status v = Work_Open" "work_le w v"
proof -
  from assms obtain u where u: "updateWorkItemStatus ho w Work_Open now None None = Inr u"
    and v: "v = u\<lparr>wi_currentCandidateId := None\<rparr>"
    unfolding declineWorkItemCandidate_def by auto
  note s = status_item [OF u]
  show "item_valid ho w" "wi_status v = Work_Open" using s v by simp_all
  show nr: "wi_status w \<noteq> Work_Retired" using s(5) by auto
  have "wi_revision w < wi_revision u" using s(7) by simp
  with s(4) nr v show "work_le w v" by (auto simp: work_le_def groups_le_def definition_part_def)
qed

lemmas work_op_facts = edited_item submitted_item status_item attached_item updated_item retired_item
  prepared_item workspace_item write_item declined_item

lemma work_apply_le:
  "work_apply ho w op now = Inr v \<Longrightarrow> item_valid ho w \<and> work_le w v"
  by (cases op) (auto dest: work_op_facts)

lemma work_apply_status:
  assumes "work_apply ho w op now = Inr v"
  shows "work_status_step (wi_status w) op = Some (wi_status v)"
proof (cases op)
  case (SetStatus s why c)
  then show ?thesis using assms status_item(3,5) [of ho w s now why c v] by simp
next
  case (RetireItem d)
  then show ?thesis using assms retired_item(3,4) [of ho w d now v] by (cases "wi_status w") simp_all
next
  case (RecordWorkspace d)
  then show ?thesis using assms workspace_item(3,4) [of ho w d now v] by (cases "wi_status w") simp_all
next
  case DeclineCandidate
  then show ?thesis using assms declined_item(2,3) [of ho w now v] by (cases "wi_status w") simp_all
next
  case (UpdateGroup g)
  then show ?thesis using assms updated_item(3) [of ho w g now v] by (cases "wi_status w") simp_all
qed (use assms in \<open>auto dest: work_op_facts\<close>)

lemma saved_item: "saveWorkItem ho taskId w = Inr v \<longleftrightarrow> item_valid ho w \<and> wi_taskId w = taskId \<and> v = w"
  by (auto simp: saveWorkItem_def)

lemma work_step_facts:
  assumes "work_step ho taskId w e = Inr v"
  shows "item_valid ho v" and "work_le w v" and "work_status_step (wi_status w) (fst e) = Some (wi_status v)"
proof -
  obtain op now where e: "e = (op, now)" by force
  with assms have "work_apply ho w op now = Inr v" "item_valid ho v" by (auto simp: saved_item)
  then show "item_valid ho v" "work_le w v" "work_status_step (wi_status w) (fst e) = Some (wi_status v)"
    using work_apply_le work_apply_status e by auto
qed

interpretation stored_item: step_order "work_step ho taskId" "\<lambda>_. True"
  "\<lambda>a b. item_valid ho a \<longrightarrow> item_valid ho b \<and> work_le a b" for ho taskId
  by unfold_locales (auto intro: work_le_refl work_le_trans dest: work_step_facts)

lemma run_work_statuses:
  "run_steps (work_step ho taskId) w ops = Inr v \<Longrightarrow>
     run_work_status (wi_status w) (map fst ops) = Some (wi_status v)"
proof (induction ops arbitrary: w)
  case (Cons e ops)
  then obtain u where "work_step ho taskId w e = Inr u" "run_steps (work_step ho taskId) u ops = Inr v" by auto
  with Cons.IH show ?case using work_step_facts(3) [of ho taskId w e u] by simp
qed simp

lemma created_item:
  assumes "createWorkItem ho i taskId input now = Inr w"
  shows "item_valid ho w" and "wi_id w = js_trim i" and "wi_taskId w = js_trim taskId"
    and "wi_createdAt w = iso_string now" and "wi_status w = Work_Open" and "wi_candidates w = []" and "wi_revision w = 1"
  using assms unfolding createWorkItem_def by (auto simp only: andThen_eq_Inr validateWorkItem_eq
      toISOString_eq requireIdentity_eq work_item.select_convs)

text \<open>An acceptance that is not withdrawn keeps its Candidate.\<close>

fun keeps_acceptance :: "work_op \<times> date \<Rightarrow> bool" where
  "keeps_acceptance (SetStatus s _ _, _) \<longleftrightarrow> s \<noteq> Work_Open"
| "keeps_acceptance (DeclineCandidate, _) \<longleftrightarrow> False"
| "keeps_acceptance _ \<longleftrightarrow> True"

lemma accepted_step:
  assumes "work_step ho taskId w e = Inr v" and "wi_status w = Work_Accepted" and "keeps_acceptance e"
  shows "wi_status v = Work_Accepted \<and> wi_acceptedCandidateId v = wi_acceptedCandidateId w
    \<and> wi_candidates v = wi_candidates w"
proof -
  obtain op now where e: "e = (op, now)" by force
  with assms(1) have ap: "work_apply ho w op now = Inr v" by (auto simp: saved_item)
  have st: "work_status_step Work_Accepted op = Some (wi_status v)" using work_apply_status [OF ap] assms(2) by simp
  show ?thesis
  proof (cases op)
    case (SetStatus s why c)
    then have "s = Work_Accepted" using st assms(3) e by (cases s) auto
    then show ?thesis using ap SetStatus status_item [of ho w s now why c v] assms(2) by simp
  next
    case (UpdateGroup g)
    then show ?thesis using ap updated_item [of ho w g now v] assms(2) by simp
  next
    case (RecordWorkspace d)
    then show ?thesis using ap workspace_item [of ho w d now v] assms(2) by simp
  qed (use st assms(3) e in auto)
qed

lemma accepted_run:
  "run_steps (work_step ho taskId) w es = Inr v \<Longrightarrow> wi_status w = Work_Accepted \<Longrightarrow>
     list_all keeps_acceptance es \<Longrightarrow>
     wi_status v = Work_Accepted \<and> wi_acceptedCandidateId v = wi_acceptedCandidateId w
       \<and> wi_candidates v = wi_candidates w"
proof (induction es arbitrary: w)
  case (Cons e es)
  then obtain u where u: "work_step ho taskId w e = Inr u" "run_steps (work_step ho taskId) u es = Inr v" by auto
  from accepted_step [OF u(1)] Cons.prems Cons.IH [OF u(2)] show ?case by simp
qed simp

lemma find_candidate:
  "i \<in> set (map ca_id cs) \<Longrightarrow> \<exists>c. find (\<lambda>c. Some (ca_id c) = Some i) cs = Some c \<and> c \<in> set cs \<and> ca_id c = i"
  by (induction cs) auto

subsection \<open>Properties\<close>

text \<open>
  C7.  The life of a stored Work Item refines the machine \<open>work_status_step\<close>.  After any history of calls
  that the store accepted, the record is valid and still the one that was created, its status is the one the
  machine reaches on the same calls; and from there on Candidates and execution groups are only added (a
  group that is not current is final), a disposition and a recorded workspace stay, a retired item keeps its
  definition and its Candidates, and every change raises the revision.
\<close>

theorem work_item_lifecycle:
  assumes "createWorkItem ho i taskId input created = Inr w0"
    and "run_steps (work_step ho task) w0 ops = Inr w" and "run_steps (work_step ho task) w later = Inr v"
  shows "validateWorkItem ho w = Inr w \<and> wi_id w = js_trim i \<and> wi_taskId w = js_trim taskId
    \<and> wi_createdAt w = iso_string created
    \<and> run_work_status Work_Open (map fst ops) = Some (wi_status w)
    \<and> run_work_status (wi_status w) (map fst later) = Some (wi_status v)
    \<and> (\<exists>new. wi_candidates v = wi_candidates w @ new) \<and> groups_le w v
    \<and> (wi_disposition w \<noteq> None \<longrightarrow> wi_disposition v = wi_disposition w)
    \<and> (wi_workspaceDisposition w \<noteq> None \<longrightarrow> wi_workspaceDisposition v = wi_workspaceDisposition w)
    \<and> (wi_status w = Work_Retired \<longrightarrow> wi_status v = Work_Retired \<and> definition_part v = definition_part w
         \<and> wi_candidates v = wi_candidates w)
    \<and> (v \<noteq> w \<longrightarrow> wi_revision w < wi_revision v)"
proof -
  note c = created_item [OF assms(1)]
  have w: "item_valid ho w" "work_le w0 w" using stored_item.run_le [OF TrueI assms(2)] c(1) by auto
  have v: "work_le w v" using stored_item.run_le [OF TrueI assms(3)] w(1) by auto
  have "run_work_status Work_Open (map fst ops) = Some (wi_status w)"
    "run_work_status (wi_status w) (map fst later) = Some (wi_status v)"
    using run_work_statuses [OF assms(2)] run_work_statuses [OF assms(3)] c(5) by simp_all
  with w v c show ?thesis by (auto simp: work_le_def)
qed

definition sample_host :: host where
  "sample_host = \<lparr>ho_cwd = ''/'', ho_launchOk = (\<lambda>_. True)\<rparr>"

definition sample_work_input :: work_input where
  "sample_work_input = \<lparr>wn_title = ''Parse'', wn_objective = None, wn_acceptance = Some [''tests''], wn_dependsOn = None,
     wn_assignee = None, wn_writeProjectIds = Some [''p''], wn_baseRefs = None, wn_executionGroups = None,
     wn_currentExecutionGroupId = None\<rparr>"

definition sample_submission :: candidate_input where
  "sample_submission = \<lparr>cn_summary = ''done'', cn_source = Source_Run ''run-1'', cn_reviewPolicy = None,
     cn_finalContract = None, cn_executionGroupId = None, cn_executionLaneId = None, cn_workspace = None,
     cn_gitSnapshot = None, cn_taskMainSnapshot = None, cn_artifactRefs = None\<rparr>"

definition sample_item :: work_item where
  "sample_item = (case createWorkItem sample_host ''work-item-1'' ''task-1'' sample_work_input 0 of Inr w \<Rightarrow> w)"

definition submitted_sample :: work_item where
  "submitted_sample = (case run_steps (work_step sample_host ''task-1'') sample_item [(SubmitCandidate sample_submission, 1)]
     of Inr w \<Rightarrow> w)"

lemma sample_item_created:
  "createWorkItem sample_host ''work-item-1'' ''task-1'' sample_work_input 0 = Inr sample_item"
proof -
  have "isOk (createWorkItem sample_host ''work-item-1'' ''task-1'' sample_work_input 0)" by code_simp
  then show ?thesis by (auto simp: isOk_iff sample_item_def)
qed

lemma submitted_sample_run:
  "run_steps (work_step sample_host ''task-1'') sample_item [(SubmitCandidate sample_submission, 1)] = Inr submitted_sample"
proof -
  have "isOk (run_steps (work_step sample_host ''task-1'') sample_item [(SubmitCandidate sample_submission, 1)])"
    unfolding sample_item_def by code_simp
  then show ?thesis by (auto simp only: isOk_iff submitted_sample_def sum.case)
qed

lemma submitted_sample_accepted:
  "isOk (run_steps (work_step sample_host ''task-1'') submitted_sample [(SetStatus Work_Accepted (Some ''fine'') None, 2)])"
  unfolding submitted_sample_def sample_item_def by code_simp

theorem work_item_lifecycle_witness:
  "\<exists>w. run_steps (work_step sample_host ''task-1'') submitted_sample [(SetStatus Work_Accepted (Some ''fine'') None, 2)] = Inr w
     \<and> wi_status w = Work_Accepted \<and> wi_revision submitted_sample < wi_revision w"
proof -
  obtain w where w: "run_steps (work_step sample_host ''task-1'') submitted_sample
      [(SetStatus Work_Accepted (Some ''fine'') None, 2)] = Inr w"
    using submitted_sample_accepted unfolding isOk_iff by blast
  note l = work_item_lifecycle [OF sample_item_created submitted_sample_run w]
  then have "wi_status w = Work_Accepted" "wi_status submitted_sample = Work_Open" by auto
  with w l show ?thesis by auto
qed

text \<open>
  C11.  What was accepted stays accepted.  Accepting an open Work Item with Candidates selects the Candidate
  that the call names (as \<open>acceptWork\<close> always does), which must be one of those submitted, or the governing
  Candidate when the call names none; and whatever the store then records short of a withdrawal, the item stays
  accepted with that very Candidate governing it.
\<close>

theorem accepted_candidate_governs:
  assumes "updateWorkItemStatus ho w Work_Accepted now why chosen = Inr v" and "wi_status w = Work_Open"
    and "wi_candidates w \<noteq> []" and "run_steps (work_step ho task) v es = Inr u" and "list_all keeps_acceptance es"
  shows "\<exists>c \<in> set (wi_candidates w).
    (case chosen of None \<Rightarrow> governingWorkItemCandidate w = Some c | Some i \<Rightarrow> ca_id c = i)
    \<and> governingWorkItemCandidate v = Some c \<and> governingWorkItemCandidate u = Some c \<and> wi_status u = Work_Accepted"
proof -
  note s = status_item [OF assms(1)]
  have acc: "wi_acceptedCandidateId v = or_else chosen (wi_currentCandidateId w)" using s(9) [OF assms(2) refl] by simp
  then obtain i where i: "wi_acceptedCandidateId v = Some i"
    using item_valid_execution(6) [OF s(2) s(3)] s(6) assms(3) by auto
  then obtain c where c: "find (\<lambda>c. Some (ca_id c) = Some i) (wi_candidates w) = Some c" "c \<in> set (wi_candidates w)" "ca_id c = i"
    using find_candidate item_valid_execution(7) [OF s(2) i] s(6) by (auto simp: candidate_ids_def)
  have u: "wi_status u = Work_Accepted \<and> wi_acceptedCandidateId u = Some i \<and> wi_candidates u = wi_candidates w"
    using accepted_run [OF assms(4) s(3) assms(5)] i s(6) by simp
  have "case chosen of None \<Rightarrow> governingWorkItemCandidate w = Some c | Some j \<Rightarrow> ca_id c = j"
    using acc i c assms(2)
    by (cases chosen) (simp_all add: governingWorkItemCandidate_def currentWorkItemCandidate_def)
  then show ?thesis
    using c i u s(3,6) by (intro bexI [of _ c]) (simp_all add: governingWorkItemCandidate_def)
qed

lemma submitted_sample_facts:
  "wi_status submitted_sample = Work_Open" "wi_candidates submitted_sample \<noteq> []"
  using submitted_sample_run by (auto simp: saved_item dest: submitted_item)

lemma submitted_sample_chosen:
  "isOk (updateWorkItemStatus sample_host submitted_sample Work_Accepted 2 (Some ''fine'') (Some ''candidate-1''))"
  unfolding submitted_sample_def sample_item_def by code_simp

theorem accepted_candidate_governs_witness:
  "\<exists>v c. updateWorkItemStatus sample_host submitted_sample Work_Accepted 2 (Some ''fine'') (Some ''candidate-1'') = Inr v
     \<and> c \<in> set (wi_candidates submitted_sample) \<and> ca_id c = ''candidate-1'' \<and> governingWorkItemCandidate v = Some c"
proof -
  from submitted_sample_chosen
  obtain v where v: "updateWorkItemStatus sample_host submitted_sample Work_Accepted 2 (Some ''fine'') (Some ''candidate-1'') = Inr v"
    by (auto simp: isOk_iff)
  have "run_steps (work_step sample_host ''task-1'') v [] = Inr v" by simp
  from accepted_candidate_governs [OF v submitted_sample_facts this] v show ?thesis by auto
qed

end
