(* ===== verification/Review_Round.thy ===== *)
theory Review_Round
  imports Managed_Workspace Execution_Group Review_Contract
begin

section \<open>Review rounds\<close>

text \<open>
  \<open>src/review/reviewRound.ts\<close>: one round of review of a Work Item Candidate or of the frozen Task, from
  pending over running to completed or failed, with its workspace and, when producers replicate the review,
  its execution group.  The judgment of the Reviewer is not part of the record.
\<close>

subsection \<open>Records\<close>

datatype round_status = Round_Pending | Round_Running | Round_Completed | Round_Failed

datatype request_source = By_Policy | Requested_By task_actor

datatype round_disposition = Review_Preserved | Review_Reassigned | Review_Removed

datatype failure_kind = Failure_Dispatch | Failure_Execution | Failure_Quorum

record round_failure =
  rf_kind :: failure_kind
  rf_message :: string

record delta_recheck =
  dr_previousReviewRoundId :: string
  dr_previousBaseCommit :: string
  dr_diffDigest :: string
  dr_changedFiles :: "string list"
  dr_addedLines :: int
  dr_deletedLines :: int

type_synonym task_candidate = "(string \<times> string) list"
  \<comment> \<open>the Projects with their commits\<close>

record review_round =
  rr_id :: string
  rr_taskId :: string
  rr_workItemId :: "string option"
  rr_candidateId :: "string option"
  rr_reviewerRoleName :: string
  rr_reviewerRunId :: "string option"
  rr_reviewBaseCommit :: string
  rr_scope :: "review_scope option"
  rr_taskCandidate :: "task_candidate option"
  rr_finalContract :: "final_contract option"
  rr_deltaRecheck :: "delta_recheck option"
  rr_executionGroup :: "execution_group option"
  rr_workspace :: "managed_workspace option"
  rr_requestedBy :: request_source
  rr_status :: round_status
  rr_failure :: "round_failure option"
  rr_workspaceDisposition :: "(round_disposition \<times> string) option"
  rr_createdAt :: string
  rr_endedAt :: "string option"

record review_host =
  \<comment> \<open>what validation needs of the process: the working directory and the check of launch snapshots\<close>
  rh_cwd :: string
  rh_launchOk :: "effective_launch \<Rightarrow> bool"

definition round_scope :: "review_round \<Rightarrow> review_scope" where
  "round_scope r = (case rr_scope r of None \<Rightarrow> Review_WorkItem | Some s \<Rightarrow> s)"

fun round_terminal :: "round_status \<Rightarrow> bool" where
  "round_terminal Round_Pending = False"
| "round_terminal Round_Running = False"
| "round_terminal Round_Completed = True"
| "round_terminal Round_Failed = True"

subsection \<open>Validation\<close>

definition validateDeltaRecheckRecord :: "delta_recheck \<Rightarrow> delta_recheck result" where
  "validateDeltaRecheckRecord record = checked record
     [skip (requireIdentity (dr_previousReviewRoundId record) ''Delta recheck previous ReviewRound id''),
      skip (requireCommit (dr_previousBaseCommit record) ''Delta recheck previous base commit''),
      refuse (\<not> is_digest (dr_diffDigest record)) ''Delta recheck diff digest is invalid.'',
      refuse (list_ex (\<lambda>file. js_trim file = []) (dr_changedFiles record)) ''Delta recheck changed files are invalid.'',
      refuse (dr_addedLines record < 0 \<or> dr_deletedLines record < 0) ''Delta recheck line counts are invalid.'']"

definition validateReviewRoundFailure :: "round_failure \<Rightarrow> round_failure result" where
  "validateReviewRoundFailure failure = checked failure
     [skip (requireText (rf_message failure) ''ReviewRound failure message'')]"

definition validateTaskReviewCandidate :: "task_candidate \<Rightarrow> task_candidate result" where
  "validateTaskReviewCandidate candidate =
     (if candidate = [] then throw ''Task Review candidate requires at least one Project.''
      else andThen (traverse (\<lambda>(projectId, commit).
          andThen (requireIdentity projectId ''Task Review Project'') (\<lambda>p.
          andThen (requireCommit commit ''Task Review Project commit'') (\<lambda>c. Inr (p, c)))) candidate) (\<lambda>projects.
        if \<not> distinct (map fst projects) then throw ''Task Review candidate Projects must be unique.''
        else Inr projects))"

definition validateReviewWorkspace :: "review_host \<Rightarrow> review_round \<Rightarrow> managed_workspace \<Rightarrow> unit result" where
  "validateReviewWorkspace ho r workspace = all_ok
     [skip (validateManagedWorkspace (rh_cwd ho) workspace),
      refuse (owner_task (mw_owner workspace) \<noteq> rr_taskId r) ''ReviewRound workspace provenance is invalid'',
      (case mw_owner workspace of
         Owner_ReviewRound _ i \<Rightarrow> refuse (i \<noteq> rr_id r) ''ReviewRound does not own its workspace''
       | _ \<Rightarrow> throw ''ReviewRound does not own its workspace''),
      refuse (mw_entries workspace = [] \<or> list_ex (\<lambda>e. pe_access e \<noteq> Access_Write) (mw_entries workspace))
        ''ReviewRound workspace must contain only writable isolated entries'',
      refuse (\<not> list_ex (\<lambda>e. pe_baseCommit e = rr_reviewBaseCommit r) (mw_entries workspace))
        ''ReviewRound workspace does not contain its review base'']"

definition validateReviewAssignment :: "review_round \<Rightarrow> string \<Rightarrow> review_assignment \<Rightarrow> unit result" where
  \<comment> \<open>the Assignment of a group against the round\<close>
  "validateReviewAssignment r groupTask assignment = all_ok
     [skip (validateReviewExecutionAssignment assignment),
      refuse (groupTask \<noteq> rr_taskId r \<or> ra_taskId assignment \<noteq> rr_taskId r
          \<or> ra_reviewRoundId assignment \<noteq> rr_id r \<or> ra_reviewBaseCommit assignment \<noteq> rr_reviewBaseCommit r
          \<or> ra_scope assignment \<noteq> round_scope r)
        ''ReviewRound ExecutionGroup provenance is invalid'',
      refuse (round_scope r = Review_WorkItem
          \<and> (ra_workItemId assignment \<noteq> rr_workItemId r \<or> ra_candidateId assignment \<noteq> rr_candidateId r))
        ''ReviewRound ExecutionGroup WorkItem target is invalid'']"

definition validateReviewExecutionGroup ::
    "review_host \<Rightarrow> execution_group \<Rightarrow> review_round \<Rightarrow> execution_group result" where
  "validateReviewExecutionGroup ho grp r = checked grp
     [skip (validateExecutionGroup (rh_launchOk ho) grp),
      (case eg_assignment grp of
         WorkAssignment _ \<Rightarrow> throw ''ReviewExecutionAssignment has unknown fields''
       | ReviewAssignment a \<Rightarrow> validateReviewAssignment r (eg_taskId grp) a),
      refuse (list_ex (\<lambda>l. ln_roleName l = rr_reviewerRoleName r) (eg_lanes grp))
        ''The main Reviewer cannot also be a Producer Lane'']"

definition is_candidate_id :: "string \<Rightarrow> bool" where
  \<comment> \<open>\<open>^candidate-[1-9]\d*$\<close>\<close>
  "is_candidate_id s \<longleftrightarrow>
     (let n = drop 10 s in take 10 s = ''candidate-'' \<and> n \<noteq> [] \<and> list_all is_digit n \<and> code (hd n) \<noteq> 48)"

definition validateTaskScope :: "review_round \<Rightarrow> unit result" where
  \<comment> \<open>a round of the whole Task\<close>
  "validateTaskScope r = all_ok
     [refuse (rr_workItemId r \<noteq> None \<or> rr_candidateId r \<noteq> None)
        ''Task ReviewRound cannot use a WorkItem Candidate anchor'',
      (case rr_taskCandidate r of
         None \<Rightarrow> throw ''Task ReviewRound requires a frozen Task candidate''
       | Some candidate \<Rightarrow> andThen (validateTaskReviewCandidate candidate) (\<lambda>projects.
           refuse (map snd (take 1 projects) \<noteq> [rr_reviewBaseCommit r])
             ''Task ReviewRound base does not match its primary Project'')),
      whenSome (rr_finalContract r) (\<lambda>c. andThen (validateTaskFinalReviewContract c) (\<lambda>contract. all_ok
        [refuse (fc_taskId contract \<noteq> rr_taskId r) ''Task ReviewRound contract belongs to another Task'',
         refuse (fc_reviewerRoleName contract \<noteq> rr_reviewerRoleName r)
           ''Task ReviewRound contract uses another Reviewer Role'']))]"

definition validateItemScope :: "review_round \<Rightarrow> unit result" where
  \<comment> \<open>a round of one Candidate\<close>
  "validateItemScope r =
     (case (rr_workItemId r, rr_candidateId r) of
        (Some w, Some c) \<Rightarrow> all_ok
          [skip (validateTaskRecordReference (rr_taskId r) w WorkItemKind),
           refuse (\<not> is_candidate_id c) ''Candidate local id is invalid'',
           refuse (rr_taskCandidate r \<noteq> None \<or> rr_finalContract r \<noteq> None)
             ''WorkItem ReviewRound cannot carry Task-final metadata'']
      | _ \<Rightarrow> throw ''WorkItem ReviewRound requires a Candidate anchor'')"

definition validateRoundStatus :: "review_round \<Rightarrow> unit result" where
  \<comment> \<open>what the status asks of failure, times, workspace and AgentRun\<close>
  "validateRoundStatus r = all_ok
     [(if round_terminal (rr_status r)
       then all_ok
         [refuse (rr_status r = Round_Completed \<and> rr_reviewerRunId r = None)
            ''A completed ReviewRound requires its exact main Reviewer AgentRun.'',
          refuse (rr_status r = Round_Completed \<and> rr_failure r \<noteq> None)
            ''A completed ReviewRound cannot carry failure metadata.'',
          refuse (rr_status r = Round_Failed \<and> rr_failure r = None)
            ''A failed ReviewRound requires failure metadata.'',
          whenSome (rr_failure r) (\<lambda>f. skip (validateReviewRoundFailure f)),
          skip (requireTimestamp (text_or_empty (rr_endedAt r)) ''ReviewRound endedAt'')]
       else refuse (rr_failure r \<noteq> None \<or> rr_endedAt r \<noteq> None)
         ''An active ReviewRound cannot have terminal metadata.''),
      refuse (rr_status r = Round_Running \<and> rr_workspace r = None)
        ''A running ReviewRound requires its main Reviewer workspace.'',
      refuse (rr_status r = Round_Running \<and> rr_reviewerRunId r = None \<and> rr_executionGroup r = None)
        ''A running ReviewRound requires a direct Reviewer AgentRun or replicated Group.'',
      whenSome (rr_workspaceDisposition r) (\<lambda>(_, recordedAt). all_ok
        [refuse (\<not> round_terminal (rr_status r) \<or> rr_workspace r = None)
           ''Only a terminal ReviewRound workspace can have a disposition.'',
         skip (requireTimestamp recordedAt ''Review workspace disposition time'')])]"

definition validateReviewRound :: "review_host \<Rightarrow> review_round \<Rightarrow> review_round result" where
  "validateReviewRound ho r = checked r
     [skip (validateTaskRecordReference (rr_taskId r) (rr_id r) ReviewRoundKind),
      skip (requireIdentity (rr_reviewerRoleName r) ''Reviewer Role''),
      skip (requireCommit (rr_reviewBaseCommit r) ''Review base commit''),
      (if round_scope r = Review_Task then validateTaskScope r else validateItemScope r),
      whenSome (rr_executionGroup r) (\<lambda>g. skip (validateReviewExecutionGroup ho g r)),
      whenSome (rr_deltaRecheck r) (\<lambda>d. all_ok
        [refuse (round_scope r \<noteq> Review_Task) ''Only a Task-final ReviewRound can be a delta-recheck'',
         skip (validateDeltaRecheckRecord d)]),
      whenSome (rr_reviewerRunId r) (\<lambda>i. skip (validateTaskRecordReference (rr_taskId r) i RunKind)),
      whenSome (rr_workspace r) (validateReviewWorkspace ho r),
      skip (requireTimestamp (rr_createdAt r) ''ReviewRound createdAt''),
      validateRoundStatus r]"

subsection \<open>Creation\<close>

definition createReviewRound ::
    "review_host \<Rightarrow> string \<Rightarrow> string \<Rightarrow> string \<Rightarrow> string \<Rightarrow> string \<Rightarrow> request_source \<Rightarrow> string \<Rightarrow> date
       \<Rightarrow> execution_group option \<Rightarrow> review_round result" where
  "createReviewRound ho i taskId workItemId candidateId roleName requestedBy baseCommit now grp =
     andThen (requireIdentity i ''ReviewRound id'') (\<lambda>round_id.
     andThen (requireIdentity taskId ''Task id'') (\<lambda>task.
     andThen (requireIdentity workItemId ''Work Item id'') (\<lambda>item.
     andThen (requireIdentity candidateId ''Candidate id'') (\<lambda>candidate.
     andThen (requireIdentity roleName ''Reviewer Role'') (\<lambda>role.
     andThen (requireCommit baseCommit ''Review base commit'') (\<lambda>base.
     andThen (toISOString now) (\<lambda>createdAt.
       validateReviewRound ho
         \<lparr>rr_id = round_id, rr_taskId = task, rr_workItemId = Some item, rr_candidateId = Some candidate,
          rr_reviewerRoleName = role, rr_reviewerRunId = None, rr_reviewBaseCommit = base, rr_scope = None,
          rr_taskCandidate = None, rr_finalContract = None, rr_deltaRecheck = None, rr_executionGroup = grp,
          rr_workspace = None, rr_requestedBy = requestedBy, rr_status = Round_Pending, rr_failure = None,
          rr_workspaceDisposition = None, rr_createdAt = createdAt, rr_endedAt = None\<rparr>)))))))"

definition task_round ::
    "review_host \<Rightarrow> string \<Rightarrow> string \<Rightarrow> string \<Rightarrow> request_source \<Rightarrow> task_candidate \<Rightarrow> delta_recheck option \<Rightarrow> date
       \<Rightarrow> final_contract option \<Rightarrow> execution_group option \<Rightarrow> review_round result" where
  \<comment> \<open>the common part of \<open>createTaskReviewRound\<close> and \<open>createTaskDeltaReviewRound\<close>\<close>
  "task_round ho i taskId roleName requestedBy taskCandidate delta now contract grp =
     andThen (validateTaskReviewCandidate taskCandidate) (\<lambda>candidate.
     andThen (requireIdentity i ''ReviewRound id'') (\<lambda>round_id.
     andThen (requireIdentity taskId ''Task id'') (\<lambda>task.
     andThen (requireIdentity roleName ''Reviewer Role'') (\<lambda>role.
     andThen (optionally validateDeltaRecheckRecord delta) (\<lambda>deltaRecheck.
     andThen (toISOString now) (\<lambda>createdAt.
       validateReviewRound ho
         \<lparr>rr_id = round_id, rr_taskId = task, rr_workItemId = None, rr_candidateId = None,
          rr_reviewerRoleName = role, rr_reviewerRunId = None, rr_reviewBaseCommit = snd (hd candidate),
          rr_scope = Some Review_Task, rr_taskCandidate = Some candidate, rr_finalContract = contract,
          rr_deltaRecheck = deltaRecheck, rr_executionGroup = grp, rr_workspace = None,
          rr_requestedBy = requestedBy, rr_status = Round_Pending, rr_failure = None,
          rr_workspaceDisposition = None, rr_createdAt = createdAt, rr_endedAt = None\<rparr>))))))"

definition createTaskReviewRound ::
    "review_host \<Rightarrow> string \<Rightarrow> string \<Rightarrow> string \<Rightarrow> request_source \<Rightarrow> task_candidate \<Rightarrow> date
       \<Rightarrow> final_contract option \<Rightarrow> execution_group option \<Rightarrow> review_round result" where
  "createTaskReviewRound ho i taskId roleName requestedBy taskCandidate now contract grp =
     task_round ho i taskId roleName requestedBy taskCandidate None now contract grp"

definition createTaskDeltaReviewRound ::
    "review_host \<Rightarrow> string \<Rightarrow> string \<Rightarrow> string \<Rightarrow> request_source \<Rightarrow> task_candidate \<Rightarrow> delta_recheck \<Rightarrow> date
       \<Rightarrow> final_contract option \<Rightarrow> execution_group option \<Rightarrow> review_round result" where
  "createTaskDeltaReviewRound ho i taskId roleName requestedBy taskCandidate delta now contract grp =
     task_round ho i taskId roleName requestedBy taskCandidate (Some delta) now contract grp"

subsection \<open>Operations\<close>

definition attachReviewRoundWorkspace :: "review_host \<Rightarrow> review_round \<Rightarrow> managed_workspace \<Rightarrow> review_round result" where
  "attachReviewRoundWorkspace ho r workspace =
     andThen (validateReviewRound ho r) (\<lambda>_.
     andThen (validateReviewWorkspace ho r workspace) (\<lambda>_.
       if rr_status r \<noteq> Round_Pending then throw ''ReviewRound workspace cannot attach''
       else (case rr_workspace r of
           Some existing \<Rightarrow> if existing \<noteq> workspace then throw ''ReviewRound workspace is immutable'' else Inr r
         | None \<Rightarrow> validateReviewRound ho (r\<lparr>rr_workspace := Some workspace\<rparr>))))"

definition startReviewRound :: "review_host \<Rightarrow> review_round \<Rightarrow> string \<Rightarrow> review_round result" where
  "startReviewRound ho r reviewerRunId =
     andThen (validateReviewRound ho r) (\<lambda>_.
       if rr_status r \<noteq> Round_Pending
          \<and> \<not> (rr_status r = Round_Running \<and> rr_executionGroup r \<noteq> None \<and> rr_reviewerRunId r = None)
       then throw ''ReviewRound cannot start''
       else if rr_workspace r = None then throw ''ReviewRound workspace is not ready''
       else andThen (requireIdentity reviewerRunId ''Reviewer AgentRun id'') (\<lambda>run.
         validateReviewRound ho (r\<lparr>rr_reviewerRunId := Some run, rr_status := Round_Running\<rparr>)))"

definition startReplicatedReviewRound :: "review_host \<Rightarrow> review_round \<Rightarrow> review_round result" where
  "startReplicatedReviewRound ho r =
     andThen (validateReviewRound ho r) (\<lambda>_.
       if rr_status r \<noteq> Round_Pending \<or> rr_executionGroup r = None
       then throw ''ReviewRound cannot start replicated execution''
       else if rr_workspace r = None then throw ''ReviewRound workspace is not ready''
       else validateReviewRound ho (r\<lparr>rr_status := Round_Running\<rparr>))"

definition finishReviewRound ::
    "review_host \<Rightarrow> review_round \<Rightarrow> bool \<Rightarrow> date \<Rightarrow> round_failure option \<Rightarrow> review_round result" where
  \<comment> \<open>the status is \<open>completed\<close> when \<open>completed\<close> holds and \<open>failed\<close> otherwise\<close>
  "finishReviewRound ho r completed now failure =
     andThen (validateReviewRound ho r) (\<lambda>_.
       if rr_status r \<noteq> Round_Pending \<and> rr_status r \<noteq> Round_Running then throw ''ReviewRound is already terminal''
       else if completed \<and> failure \<noteq> None then throw ''A completed ReviewRound cannot carry failure metadata.''
       else if \<not> completed \<and> failure = None then throw ''A failed ReviewRound requires Core-owned failure metadata.''
       else andThen (optionally validateReviewRoundFailure failure) (\<lambda>validated.
         andThen (toISOString now) (\<lambda>endedAt.
           validateReviewRound ho (r\<lparr>rr_status := (if completed then Round_Completed else Round_Failed),
             rr_failure := or_else validated (rr_failure r), rr_endedAt := Some endedAt\<rparr>))))"

definition retried_round :: "review_round \<Rightarrow> task_actor \<Rightarrow> delta_recheck option \<Rightarrow> execution_group option \<Rightarrow> review_round" where
  \<comment> \<open>the record of \<open>retryReviewRound\<close>: the target and the workspace, none of the terminal evidence\<close>
  "retried_round r requestedBy delta grp =
     (let taskScope = (round_scope r = Review_Task)
      in \<lparr>rr_id = rr_id r, rr_taskId = rr_taskId r,
          rr_workItemId = (if taskScope then None else rr_workItemId r),
          rr_candidateId = (if taskScope then None else rr_candidateId r),
          rr_reviewerRoleName = rr_reviewerRoleName r, rr_reviewerRunId = None,
          rr_reviewBaseCommit = rr_reviewBaseCommit r, rr_scope = rr_scope r,
          rr_taskCandidate = (if taskScope then rr_taskCandidate r else None),
          rr_finalContract = (if taskScope then rr_finalContract r else None),
          rr_deltaRecheck = delta, rr_executionGroup = grp, rr_workspace = rr_workspace r,
          rr_requestedBy = Requested_By requestedBy, rr_status = Round_Pending, rr_failure = None,
          rr_workspaceDisposition = None, rr_createdAt = rr_createdAt r, rr_endedAt = None\<rparr>)"

definition retried_lanes :: "review_host \<Rightarrow> review_round \<Rightarrow> execution_group \<Rightarrow> date \<Rightarrow> execution_group result" where
  \<comment> \<open>failed Lanes are reopened unless the main Reviewer had started\<close>
  "retried_lanes ho r grp now =
     (if rr_reviewerRunId r = None then retryFailedExecutionLanes (rh_launchOk ho) grp now else Inr grp)"

definition retryReviewRound :: "review_host \<Rightarrow> review_round \<Rightarrow> task_actor \<Rightarrow> date \<Rightarrow> review_round result" where
  "retryReviewRound ho r requestedBy now =
     andThen (validateReviewRound ho r) (\<lambda>_.
       if rr_status r \<noteq> Round_Failed then throw ''ReviewRound is not retryable''
       else andThen (optionally validateDeltaRecheckRecord (rr_deltaRecheck r)) (\<lambda>delta.
         andThen (optionally (\<lambda>g. retried_lanes ho r g now) (rr_executionGroup r)) (\<lambda>grp.
           validateReviewRound ho (retried_round r requestedBy delta grp))))"

definition retryTaskReviewRound :: "review_host \<Rightarrow> review_round \<Rightarrow> task_actor \<Rightarrow> date \<Rightarrow> review_round result" where
  "retryTaskReviewRound ho r requestedBy now =
     (if round_scope r \<noteq> Review_Task then throw ''Only a Task-final ReviewRound can be retried in place''
      else retryReviewRound ho r requestedBy now)"

definition retryRunningReviewExecutionLane ::
    "review_host \<Rightarrow> review_round \<Rightarrow> string \<Rightarrow> string \<Rightarrow> review_round result" where
  "retryRunningReviewExecutionLane ho r executionLaneId runId =
     andThen (validateReviewRound ho r) (\<lambda>_.
       case (rr_status r, rr_executionGroup r) of
         (Round_Running, Some grp) \<Rightarrow>
           (case find (\<lambda>l. ln_id l = executionLaneId) (eg_lanes grp) of
              None \<Rightarrow> throw ''Review retry does not target the current failed Lane attempt''
            | Some lane \<Rightarrow>
                if ln_disposition lane \<noteq> Lane_Open \<or> ln_currentRunId lane \<noteq> Some runId
                then throw ''Review retry does not target the current failed Lane attempt'' else Inr r)
       | _ \<Rightarrow> throw ''ReviewRound has no running ExecutionGroup'')"

definition recordReviewWorkspaceDisposition ::
    "review_host \<Rightarrow> review_round \<Rightarrow> round_disposition \<Rightarrow> date \<Rightarrow> review_round result" where
  "recordReviewWorkspaceDisposition ho r disposition now =
     andThen (validateReviewRound ho r) (\<lambda>_.
       if \<not> round_terminal (rr_status r) then throw ''ReviewRound must be terminal before workspace disposition''
       else if rr_workspace r = None then throw ''ReviewRound has no managed workspace''
       else if map_option fst (rr_workspaceDisposition r) = Some disposition then Inr r
       else if map_option fst (rr_workspaceDisposition r) = Some Review_Removed
       then throw ''ReviewRound workspace is already removed''
       else andThen (toISOString now) (\<lambda>recordedAt.
         validateReviewRound ho (r\<lparr>rr_workspaceDisposition := Some (disposition, recordedAt)\<rparr>)))"

definition attachReviewExecutionGroup :: "review_host \<Rightarrow> review_round \<Rightarrow> execution_group \<Rightarrow> review_round result" where
  "attachReviewExecutionGroup ho r grp =
     andThen (validateReviewRound ho r) (\<lambda>_.
     andThen (validateReviewExecutionGroup ho grp r) (\<lambda>_.
       if rr_status r \<noteq> Round_Pending then throw ''ReviewRound ExecutionGroup cannot attach''
       else (case rr_executionGroup r of
           Some existing \<Rightarrow> if existing \<noteq> grp then throw ''ReviewRound ExecutionGroup is immutable'' else Inr r
         | None \<Rightarrow> validateReviewRound ho (r\<lparr>rr_executionGroup := Some grp\<rparr>))))"

definition updateReviewExecutionGroup :: "review_host \<Rightarrow> review_round \<Rightarrow> execution_group \<Rightarrow> review_round result" where
  "updateReviewExecutionGroup ho r grp =
     andThen (validateReviewRound ho r) (\<lambda>_.
     andThen (validateReviewExecutionGroup ho grp r) (\<lambda>_.
       case rr_executionGroup r of
         None \<Rightarrow>
           if rr_status r \<noteq> Round_Pending then throw ''ReviewRound ExecutionGroup cannot attach''
           else validateReviewRound ho (r\<lparr>rr_executionGroup := Some grp\<rparr>)
       | Some existing \<Rightarrow>
           if eg_id existing \<noteq> eg_id grp then throw ''ReviewRound ExecutionGroup identity is immutable''
           else if existing = grp then Inr r
           else andThen (assertExecutionGroupTransition (rh_launchOk ho) existing grp) (\<lambda>_.
             validateReviewRound ho (r\<lparr>rr_executionGroup := Some grp\<rparr>))))"

definition isDeltaRecheckRound :: "review_round \<Rightarrow> bool" where
  "isDeltaRecheckRound r \<longleftrightarrow> rr_deltaRecheck r \<noteq> None"

text \<open>One call on a stored round, followed by \<open>saveReviewRound\<close> of the store.\<close>

datatype round_op =
    AttachReviewWorkspace managed_workspace
  | StartReviewer string
  | StartReplicated
  | FinishRound bool "round_failure option"
  | RetryRound task_actor
  | RetryLane string string
  | RecordReviewWorkspace round_disposition
  | AttachReviewGroup execution_group
  | UpdateReviewGroup execution_group
  | ContinueRound string string

definition continuingRound :: "review_round \<Rightarrow> string \<Rightarrow> string \<Rightarrow> review_round result" where
  \<comment> \<open>the record that \<open>prepareMessageContinuations\<close> (\<open>message/messageContinuation.ts\<close>) writes when a message
    continues the Reviewer run \<open>previous\<close> under the id \<open>runId\<close>, behind the part of its blocker that
    reads the round: \<open>validateExactRunReviewRound\<close> with terminal rounds allowed; a blocked message writes nothing\<close>
  "continuingRound r previous runId =
     (if rr_reviewerRunId r \<noteq> Some previous then throw ''review-round-mismatch''
      else if rr_workspace r = None then throw ''review-workspace-mismatch''
      else Inr (r\<lparr>rr_status := Round_Running, rr_reviewerRunId := Some runId, rr_failure := None, rr_endedAt := None\<rparr>))"

fun round_apply :: "review_host \<Rightarrow> review_round \<Rightarrow> round_op \<Rightarrow> date \<Rightarrow> review_round result" where
  "round_apply ho r (AttachReviewWorkspace w) now = attachReviewRoundWorkspace ho r w"
| "round_apply ho r (StartReviewer i) now = startReviewRound ho r i"
| "round_apply ho r StartReplicated now = startReplicatedReviewRound ho r"
| "round_apply ho r (FinishRound ok f) now = finishReviewRound ho r ok now f"
| "round_apply ho r (RetryRound a) now = retryReviewRound ho r a now"
| "round_apply ho r (RetryLane l i) now = retryRunningReviewExecutionLane ho r l i"
| "round_apply ho r (RecordReviewWorkspace d) now = recordReviewWorkspaceDisposition ho r d now"
| "round_apply ho r (AttachReviewGroup g) now = attachReviewExecutionGroup ho r g"
| "round_apply ho r (UpdateReviewGroup g) now = updateReviewExecutionGroup ho r g"
| "round_apply ho r (ContinueRound previous i) now = continuingRound r previous i"

definition saveReviewRound :: "review_host \<Rightarrow> string \<Rightarrow> review_round \<Rightarrow> review_round result" where
  "saveReviewRound ho taskId r =
     andThen (validateReviewRound ho r) (\<lambda>_.
       if rr_taskId r \<noteq> taskId then throw ''Review round belongs to another Task'' else Inr r)"

fun round_step :: "review_host \<Rightarrow> string \<Rightarrow> review_round \<Rightarrow> round_op \<times> date \<Rightarrow> review_round result" where
  "round_step ho taskId r (op, now) = andThen (round_apply ho r op now) (saveReviewRound ho taskId)"

end
