(* ===== verification/Review_Round_Laws.thy ===== *)
theory Review_Round_Laws
  imports Review_Round
begin

section \<open>The life of a review round\<close>

text \<open>
  What the operations of \<open>Review_Round\<close> owe: every call but a retry and a message continuation keeps the
  evidence of the attempt, these two keep the target and what the producer Lanes delivered, and the statuses
  follow one machine.  A continuation writes the record without an operation of \<open>reviewRound.ts\<close>: only the
  validation of the store stands behind it.
\<close>

subsection \<open>What a stored call changes\<close>

interpretation review_group: record_validator "\<lambda>g. validateReviewExecutionGroup ho g r" for ho r
  by unfold_locales (simp add: validateReviewExecutionGroup_def)

interpretation delta_record: record_validator validateDeltaRecheckRecord
  by unfold_locales (simp add: validateDeltaRecheckRecord_def)

interpretation round_failure: record_validator validateReviewRoundFailure
  by unfold_locales (simp add: validateReviewRoundFailure_def)

interpretation review_round: record_validator "validateReviewRound ho" for ho
  by unfold_locales (simp add: validateReviewRound_def)

definition round_valid :: "review_host \<Rightarrow> review_round \<Rightarrow> bool" where
  "round_valid ho r \<longleftrightarrow> isOk (validateReviewRound ho r)"

lemma validateReviewRound_eq [simp]:
  "validateReviewRound ho r = Inr v \<longleftrightarrow> round_valid ho r \<and> v = r" "isOk (validateReviewRound ho r) \<longleftrightarrow> round_valid ho r"
  using review_round.returns_self [of ho r v] review_round.ok_eq [of ho r] by (auto simp: round_valid_def)

lemma optionally_self:
  assumes "optionally f x = Inr y" and "\<And>a b. f a = Inr b \<Longrightarrow> b = a"
  shows "y = x"
  using assms by (cases x) auto

lemma round_valid_facts:
  assumes "round_valid ho r"
  shows "rr_executionGroup r = Some g \<Longrightarrow> group_valid (rh_launchOk ho) g"
    and "rr_status r = Round_Completed \<Longrightarrow> rr_reviewerRunId r \<noteq> None \<and> rr_failure r = None"
    and "rr_status r = Round_Running \<Longrightarrow> rr_workspace r \<noteq> None \<and> (rr_reviewerRunId r \<noteq> None \<or> rr_executionGroup r \<noteq> None)"
    and "round_scope r = Review_Task \<Longrightarrow> rr_workItemId r = None \<and> rr_candidateId r = None"
    and "round_scope r \<noteq> Review_Task \<Longrightarrow> rr_taskCandidate r = None \<and> rr_finalContract r = None"
    and "\<not> round_terminal (rr_status r) \<Longrightarrow> rr_failure r = None \<and> rr_endedAt r = None \<and> rr_workspaceDisposition r = None"
proof -
  have st: "isOk (validateRoundStatus r)"
    and sc: "isOk (if round_scope r = Review_Task then validateTaskScope r else validateItemScope r)"
    and gr: "\<forall>g. rr_executionGroup r = Some g \<longrightarrow> isOk (validateReviewExecutionGroup ho g r)"
    using assms by (simp_all add: round_valid_def validateReviewRound_def)
  show "rr_executionGroup r = Some g \<Longrightarrow> group_valid (rh_launchOk ho) g"
    using gr by (auto simp: validateReviewExecutionGroup_def)
  show "rr_status r = Round_Completed \<Longrightarrow> rr_reviewerRunId r \<noteq> None \<and> rr_failure r = None"
    and "rr_status r = Round_Running \<Longrightarrow> rr_workspace r \<noteq> None \<and> (rr_reviewerRunId r \<noteq> None \<or> rr_executionGroup r \<noteq> None)"
    using st by (auto simp: validateRoundStatus_def)
  show "\<not> round_terminal (rr_status r) \<Longrightarrow> rr_failure r = None \<and> rr_endedAt r = None \<and> rr_workspaceDisposition r = None"
    using st by (cases "rr_workspaceDisposition r") (auto simp: validateRoundStatus_def)
  show "round_scope r = Review_Task \<Longrightarrow> rr_workItemId r = None \<and> rr_candidateId r = None"
    using sc by (auto simp: validateTaskScope_def)
  show "round_scope r \<noteq> Review_Task \<Longrightarrow> rr_taskCandidate r = None \<and> rr_finalContract r = None"
    using sc by (auto simp: validateItemScope_def split: option.splits)
qed

definition same_target :: "review_round \<Rightarrow> review_round \<Rightarrow> bool" where
  \<comment> \<open>the same round of the same target\<close>
  "same_target a b \<longleftrightarrow> rr_id b = rr_id a \<and> rr_taskId b = rr_taskId a \<and> rr_workItemId b = rr_workItemId a
     \<and> rr_candidateId b = rr_candidateId a \<and> rr_reviewerRoleName b = rr_reviewerRoleName a
     \<and> rr_reviewBaseCommit b = rr_reviewBaseCommit a \<and> rr_scope b = rr_scope a
     \<and> rr_taskCandidate b = rr_taskCandidate a \<and> rr_finalContract b = rr_finalContract a
     \<and> rr_deltaRecheck b = rr_deltaRecheck a \<and> rr_createdAt b = rr_createdAt a
     \<and> (rr_workspace a \<noteq> None \<longrightarrow> rr_workspace b = rr_workspace a)"

fun group_moved :: "(execution_group \<Rightarrow> execution_group \<Rightarrow> bool) \<Rightarrow> execution_group option \<Rightarrow> execution_group option \<Rightarrow> bool" where
  \<comment> \<open>a group may appear, and one that is there moves along \<open>le\<close>\<close>
  "group_moved le None y = True"
| "group_moved le (Some g) None = False"
| "group_moved le (Some g) (Some h) = le g h"

definition round_le :: "review_round \<Rightarrow> review_round \<Rightarrow> bool" where
  "round_le a b \<longleftrightarrow> same_target a b \<and> group_moved group_retried (rr_executionGroup a) (rr_executionGroup b)"

definition attempt_evidence :: "review_round \<Rightarrow> review_round \<Rightarrow> bool" where
  \<comment> \<open>the same attempt later: its Reviewer run, its end and its terminal Lanes stay\<close>
  "attempt_evidence a b \<longleftrightarrow> group_moved group_le (rr_executionGroup a) (rr_executionGroup b)
     \<and> (rr_reviewerRunId a \<noteq> None \<longrightarrow> rr_reviewerRunId b = rr_reviewerRunId a)
     \<and> (round_terminal (rr_status a) \<longrightarrow> rr_status b = rr_status a \<and> rr_failure b = rr_failure a
          \<and> rr_endedAt b = rr_endedAt a \<and> rr_reviewerRunId b = rr_reviewerRunId a)
     \<and> (map_option fst (rr_workspaceDisposition a) = Some Review_Removed \<longrightarrow>
          rr_workspaceDisposition b = rr_workspaceDisposition a)"

definition round_inv :: "review_host \<Rightarrow> review_round \<Rightarrow> bool" where
  "round_inv ho r \<longleftrightarrow> round_valid ho r \<and> (rr_status r = Round_Pending \<longrightarrow> rr_reviewerRunId r = None)"

lemma same_target_refl [simp]: "same_target r r"
  by (simp add: same_target_def)

lemma same_target_trans: "same_target a b \<Longrightarrow> same_target b c \<Longrightarrow> same_target a c"
  by (auto simp: same_target_def)

lemma group_moved_refl: "round_valid ho r \<Longrightarrow> (\<And>g. group_valid (rh_launchOk ho) g \<Longrightarrow> le g g) \<Longrightarrow>
    group_moved le (rr_executionGroup r) (rr_executionGroup r)"
  using round_valid_facts(1) [of ho r] by (cases "rr_executionGroup r") auto

lemma group_moved_trans:
  assumes "\<And>f g h. le f g \<Longrightarrow> le g h \<Longrightarrow> le f h"
  shows "group_moved le x y \<Longrightarrow> group_moved le y z \<Longrightarrow> group_moved le x z"
  by (cases x; cases y; cases z) (simp_all, erule (1) assms)

lemma group_moved_mono: "group_moved le x y \<Longrightarrow> (\<And>g h. le g h \<Longrightarrow> le' g h) \<Longrightarrow> group_moved le' x y"
  by (cases x; cases y) auto

lemma round_le_refl: "round_valid ho r \<Longrightarrow> round_le r r"
  by (auto simp: round_le_def intro: group_moved_refl group_retried_refl)

lemma round_le_trans: "round_le a b \<Longrightarrow> round_le b c \<Longrightarrow> round_le a c"
  using group_moved_trans [of group_retried "rr_executionGroup a" "rr_executionGroup b" "rr_executionGroup c",
    OF group_retried_trans]
  by (auto simp: round_le_def intro: same_target_trans)

lemma evidence_refl: "round_valid ho r \<Longrightarrow> attempt_evidence r r"
  by (auto simp: attempt_evidence_def intro: group_moved_refl group_le_refl)

lemma evidence_trans: "attempt_evidence a b \<Longrightarrow> attempt_evidence b c \<Longrightarrow> attempt_evidence a c"
  using group_moved_trans [of group_le "rr_executionGroup a" "rr_executionGroup b" "rr_executionGroup c",
    OF group_le_trans]
  by (auto simp: attempt_evidence_def)

text \<open>The statuses of a round, with what each call asks of them.\<close>

fun round_status_step :: "round_status \<Rightarrow> round_op \<Rightarrow> round_status option" where
  "round_status_step Round_Pending (AttachReviewWorkspace _) = Some Round_Pending"
| "round_status_step Round_Pending (AttachReviewGroup _) = Some Round_Pending"
| "round_status_step Round_Pending (StartReviewer _) = Some Round_Running"
| "round_status_step Round_Running (StartReviewer _) = Some Round_Running"
| "round_status_step Round_Pending StartReplicated = Some Round_Running"
| "round_status_step Round_Pending (FinishRound ok _) = (if ok then None else Some Round_Failed)"
| "round_status_step Round_Running (FinishRound ok _) = Some (if ok then Round_Completed else Round_Failed)"
| "round_status_step Round_Failed (RetryRound _) = Some Round_Pending"
| "round_status_step Round_Running (RetryLane _ _) = Some Round_Running"
| "round_status_step Round_Completed (RecordReviewWorkspace _) = Some Round_Completed"
| "round_status_step Round_Failed (RecordReviewWorkspace _) = Some Round_Failed"
| "round_status_step s (UpdateReviewGroup _) = Some s"
| "round_status_step s (ContinueRound _ _) = (if s = Round_Pending then None else Some Round_Running)"
| "round_status_step s _ = None"

fun run_round_status :: "round_status \<Rightarrow> round_op list \<Rightarrow> round_status option" where
  "run_round_status s [] = Some s"
| "run_round_status s (op # ops) = (case round_status_step s op of None \<Rightarrow> None | Some t \<Rightarrow> run_round_status t ops)"

text \<open>What every call owes but a retry and a continuation.\<close>

definition moves :: "review_host \<Rightarrow> review_round \<Rightarrow> review_round \<Rightarrow> bool" where
  "moves ho a b \<longleftrightarrow> round_inv ho b \<and> same_target a b \<and> attempt_evidence a b"

lemma moves_refl: "round_inv ho r \<Longrightarrow> moves ho r r"
  using evidence_refl [of ho r] by (simp add: moves_def round_inv_def)

lemma moves_le: "moves ho a b \<Longrightarrow> round_le a b"
  by (auto simp: moves_def round_le_def attempt_evidence_def intro: group_moved_mono group_le_retried)

lemma workspace_attached:
  assumes "attachReviewRoundWorkspace ho r w = Inr v" and inv: "round_inv ho r"
  shows "moves ho r v" "rr_status r = Round_Pending" "rr_status v = Round_Pending"
proof -
  from assms(1) have st: "rr_status r = Round_Pending"
    and v: "v = r \<or> (round_valid ho v \<and> rr_workspace r = None \<and> v = r\<lparr>rr_workspace := Some w\<rparr>)"
    by (auto simp: attachReviewRoundWorkspace_def split: option.splits if_split_asm)
  show "rr_status r = Round_Pending" by fact
  show "rr_status v = Round_Pending" using v st by auto
  from v show "moves ho r v"
  proof
    assume "round_valid ho v \<and> rr_workspace r = None \<and> v = r\<lparr>rr_workspace := Some w\<rparr>"
    then show ?thesis using inv evidence_refl [of ho r]
      by (auto simp: moves_def round_inv_def same_target_def attempt_evidence_def)
  qed (use inv moves_refl in simp)
qed

lemma started_round:
  assumes "startReviewRound ho r i = Inr v" and inv: "round_inv ho r"
  shows "moves ho r v" "rr_status r = Round_Pending \<or> rr_status r = Round_Running" "rr_status v = Round_Running"
proof -
  from assms have "rr_status r = Round_Pending \<or> (rr_status r = Round_Running \<and> rr_reviewerRunId r = None)"
    and v: "round_valid ho v" "v = r\<lparr>rr_reviewerRunId := Some (js_trim i), rr_status := Round_Running\<rparr>"
    by (auto simp: startReviewRound_def)
  then have st: "rr_status r = Round_Pending \<or> rr_status r = Round_Running" "rr_reviewerRunId r = None"
    using inv by (auto simp: round_inv_def)
  then have "\<not> round_terminal (rr_status r)" by auto
  moreover from this have "rr_workspaceDisposition r = None"
    using inv round_valid_facts(6) by (auto simp: round_inv_def)
  ultimately show "moves ho r v"
    using st v inv evidence_refl [of ho r] by (auto simp: moves_def round_inv_def same_target_def attempt_evidence_def)
  show "rr_status r = Round_Pending \<or> rr_status r = Round_Running" "rr_status v = Round_Running" using st v by auto
qed

lemma replicated_round:
  assumes "startReplicatedReviewRound ho r = Inr v" and inv: "round_inv ho r"
  shows "moves ho r v" "rr_status r = Round_Pending" "rr_status v = Round_Running"
proof -
  from assms have st: "rr_status r = Round_Pending" and v: "round_valid ho v" "v = r\<lparr>rr_status := Round_Running\<rparr>"
    by (auto simp: startReplicatedReviewRound_def)
  then show "moves ho r v"
    using inv evidence_refl [of ho r] by (auto simp: moves_def round_inv_def same_target_def attempt_evidence_def)
  show "rr_status r = Round_Pending" "rr_status v = Round_Running" using st v by auto
qed

lemma finished_round:
  assumes "finishReviewRound ho r ok now f = Inr v" and inv: "round_inv ho r"
  shows "moves ho r v" "round_status_step (rr_status r) (FinishRound ok f) = Some (rr_status v)"
proof -
  from assms obtain f' where st: "rr_status r = Round_Pending \<or> rr_status r = Round_Running"
    and v: "round_valid ho v" "v = r\<lparr>rr_status := (if ok then Round_Completed else Round_Failed),
      rr_failure := or_else f' (rr_failure r), rr_endedAt := Some (iso_string now)\<rparr>"
    unfolding finishReviewRound_def by auto
  have act: "\<not> round_terminal (rr_status r)" using st by auto
  moreover from this have "rr_workspaceDisposition r = None"
    using inv round_valid_facts(6) by (auto simp: round_inv_def)
  ultimately show "moves ho r v"
    using v inv evidence_refl [of ho r] by (auto simp: moves_def round_inv_def same_target_def attempt_evidence_def)
  have "\<not> ok" if "rr_status r = Round_Pending"
  proof
    assume "ok"
    then have "rr_reviewerRunId v \<noteq> None" using round_valid_facts(2) [OF v(1)] v(2) by simp
    then show False using that inv v(2) by (simp add: round_inv_def)
  qed
  then show "round_status_step (rr_status r) (FinishRound ok f) = Some (rr_status v)" using st v(2) by auto
qed

lemma lane_retry:
  assumes "retryRunningReviewExecutionLane ho r l i = Inr v"
  shows "v = r" "rr_status r = Round_Running"
  using assms by (auto simp: retryRunningReviewExecutionLane_def split: round_status.splits option.splits if_split_asm)

lemma workspace_recorded:
  assumes "recordReviewWorkspaceDisposition ho r d now = Inr v" and inv: "round_inv ho r"
  shows "moves ho r v" "round_terminal (rr_status r)" "rr_status v = rr_status r"
proof -
  from assms have st: "round_terminal (rr_status r)"
    and v: "v = r \<or> (round_valid ho v \<and> map_option fst (rr_workspaceDisposition r) \<noteq> Some Review_Removed
      \<and> v = r\<lparr>rr_workspaceDisposition := Some (d, iso_string now)\<rparr>)"
    by (auto simp: recordReviewWorkspaceDisposition_def split: if_split_asm)
  show "round_terminal (rr_status r)" by fact
  show "rr_status v = rr_status r" using v by auto
  from v show "moves ho r v"
  proof
    assume "round_valid ho v \<and> map_option fst (rr_workspaceDisposition r) \<noteq> Some Review_Removed
      \<and> v = r\<lparr>rr_workspaceDisposition := Some (d, iso_string now)\<rparr>"
    then show ?thesis using inv evidence_refl [of ho r]
      by (auto simp: moves_def round_inv_def same_target_def attempt_evidence_def)
  qed (use inv moves_refl in simp)
qed

lemma group_set:
  assumes "round_inv ho r" and "round_valid ho (r\<lparr>rr_executionGroup := Some g\<rparr>)"
    and "group_moved group_le (rr_executionGroup r) (Some g)"
  shows "moves ho r (r\<lparr>rr_executionGroup := Some g\<rparr>)"
  using assms by (auto simp: moves_def round_inv_def same_target_def attempt_evidence_def)

lemma group_attached:
  assumes "attachReviewExecutionGroup ho r g = Inr v" and inv: "round_inv ho r"
  shows "moves ho r v" "rr_status r = Round_Pending" "rr_status v = Round_Pending"
proof -
  from assms have st: "rr_status r = Round_Pending"
    and v: "v = r \<or> (round_valid ho v \<and> rr_executionGroup r = None \<and> v = r\<lparr>rr_executionGroup := Some g\<rparr>)"
    by (auto simp: attachReviewExecutionGroup_def split: option.splits if_split_asm)
  show "rr_status r = Round_Pending" by fact
  show "rr_status v = Round_Pending" using v st by auto
  show "moves ho r v" using v inv moves_refl group_set [of ho r g] by auto
qed

lemma group_updated:
  assumes "updateReviewExecutionGroup ho r g = Inr v" and inv: "round_inv ho r"
  shows "moves ho r v" "rr_status v = rr_status r"
proof -
  have "v = r \<or> (round_valid ho v \<and> group_moved group_le (rr_executionGroup r) (Some g)
      \<and> v = r\<lparr>rr_executionGroup := Some g\<rparr>)"
  proof (cases "rr_executionGroup r")
    case None
    then show ?thesis using assms by (auto simp: updateReviewExecutionGroup_def)
  next
    case (Some old)
    have "group_le old g" if "assertExecutionGroupTransition (rh_launchOk ho) old g = Inr u" "old \<noteq> g" for u
      using that by (simp add: assert_transition_eq)
    then show ?thesis using assms Some by (auto simp: updateReviewExecutionGroup_def split: if_split_asm)
  qed
  then show "moves ho r v" "rr_status v = rr_status r" using inv moves_refl group_set [of ho r g] by auto
qed

lemma retried_lanes_group:
  assumes "retried_lanes ho r g now = Inr g'" and "group_valid (rh_launchOk ho) g"
  shows "group_retried g g'"
  using assms retried_group(3) group_retried_refl by (auto simp: retried_lanes_def split: if_split_asm)

lemma retried_round_facts:
  assumes "retryReviewRound ho r a now = Inr v" and inv: "round_inv ho r"
  shows "round_inv ho v" "round_le r v" "rr_status r = Round_Failed" "rr_status v = Round_Pending"
proof -
  from assms obtain d g where st: "rr_status r = Round_Failed" and r: "round_valid ho r"
    and d: "optionally validateDeltaRecheckRecord (rr_deltaRecheck r) = Inr d"
    and g: "optionally (\<lambda>g. retried_lanes ho r g now) (rr_executionGroup r) = Inr g"
    and v: "round_valid ho v" "v = retried_round r a d g"
    unfolding retryReviewRound_def by auto
  have "d = rr_deltaRecheck r" by (rule optionally_self [OF d]) (rule delta_record.returns_self)
  then have "same_target r v"
    using v(2) round_valid_facts(4,5) [OF r] by (simp add: retried_round_def same_target_def Let_def)
  moreover have "group_moved group_retried (rr_executionGroup r) g"
    using g retried_lanes_group round_valid_facts(1) [OF r] by (cases "rr_executionGroup r") auto
  ultimately show "round_le r v" using st v(2) by (simp add: round_le_def retried_round_def Let_def)
  show "round_inv ho v" using v by (simp add: round_inv_def retried_round_def Let_def)
  show "rr_status r = Round_Failed" "rr_status v = Round_Pending"
    using st v(2) by (simp_all add: retried_round_def Let_def)
qed

lemma continued_round:
  assumes "continuingRound r p i = Inr u" and "saveReviewRound ho taskId u = Inr v" and inv: "round_inv ho r"
  shows "round_inv ho v" "round_le r v" "rr_status r \<noteq> Round_Pending" "rr_status v = Round_Running"
    "rr_reviewerRunId r = Some p" "rr_workspaceDisposition r = None"
proof -
  from assms(1,2) have r: "rr_reviewerRunId r = Some p" and valid: "round_valid ho v"
    and v: "v = r\<lparr>rr_status := Round_Running, rr_reviewerRunId := Some i, rr_failure := None, rr_endedAt := None\<rparr>"
    by (auto simp: continuingRound_def saveReviewRound_def split: if_split_asm)
  show "round_inv ho v" using valid v by (simp add: round_inv_def)
  have "group_moved group_retried (rr_executionGroup r) (rr_executionGroup r)"
    using inv by (auto simp: round_inv_def intro: group_moved_refl group_retried_refl)
  then show "round_le r v" using v by (simp add: round_le_def same_target_def)
  show "rr_status r \<noteq> Round_Pending" using r inv by (auto simp: round_inv_def)
  show "rr_status v = Round_Running" "rr_reviewerRunId r = Some p" using v r by simp_all
  show "rr_workspaceDisposition r = None" using round_valid_facts(6) [OF valid] v by simp
qed

lemmas round_op_facts = workspace_attached started_round replicated_round finished_round workspace_recorded
  group_attached group_updated retried_round_facts

fun new_attempt_op :: "round_op \<Rightarrow> bool" where
  \<comment> \<open>the two calls that begin another attempt of the Reviewer\<close>
  "new_attempt_op (RetryRound _) \<longleftrightarrow> True"
| "new_attempt_op (ContinueRound _ _) \<longleftrightarrow> True"
| "new_attempt_op _ \<longleftrightarrow> False"

fun is_continuation :: "round_op \<Rightarrow> bool" where
  "is_continuation (ContinueRound _ _) \<longleftrightarrow> True"
| "is_continuation _ \<longleftrightarrow> False"

lemma round_step_apply:
  assumes "round_step ho taskId r (op, now) = Inr v"
  shows "round_apply ho r op now = Inr v" and "saveReviewRound ho taskId v = Inr v"
  using assms by (auto simp: saveReviewRound_def split: if_split_asm)

lemma round_step_moves:
  assumes "round_step ho taskId r (op, now) = Inr v" and "round_inv ho r" and "\<not> new_attempt_op op"
  shows "moves ho r v"
proof (cases op)
  case (RetryLane l i)
  then show ?thesis using round_step_apply [OF assms(1)] assms lane_retry [of ho r l i v] moves_refl by simp
qed (use round_step_apply [OF assms(1)] assms in \<open>auto dest: round_op_facts\<close>)

lemma round_step_facts:
  assumes "round_step ho taskId r (op, now) = Inr v" and "round_inv ho r"
  shows "round_inv ho v \<and> round_le r v"
proof (cases op)
  case (RetryRound a)
  then show ?thesis using round_step_apply(1) [OF assms(1)] assms(2) retried_round_facts [of ho r a now v] by simp
next
  case (ContinueRound p i)
  then show ?thesis using round_step_apply [OF assms(1)] assms(2) continued_round [of r p i v ho taskId v] by simp
qed (use round_step_moves [OF assms] moves_le in \<open>auto simp: moves_def\<close>)

lemma round_step_status:
  assumes step: "round_step ho taskId r (op, now) = Inr v" and inv: "round_inv ho r"
  shows "round_status_step (rr_status r) op = Some (rr_status v)"
proof -
  note assms = round_step_apply [OF step] inv
  show ?thesis
  proof (cases op)
    case (AttachReviewWorkspace w)
    then show ?thesis using assms workspace_attached [of ho r w v] by simp
  next
    case (StartReviewer i)
    then show ?thesis using assms started_round [of ho r i v] by auto
  next
    case StartReplicated
    then show ?thesis using assms replicated_round [of ho r v] by simp
  next
    case (FinishRound ok f)
    then show ?thesis using assms finished_round [of ho r ok now f v] by simp
  next
    case (RetryRound a)
    then show ?thesis using assms retried_round_facts [of ho r a now v] by simp
  next
    case (RetryLane l i)
    then show ?thesis using assms lane_retry [of ho r l i v] by simp
  next
    case (RecordReviewWorkspace d)
    then show ?thesis using assms workspace_recorded [of ho r d now v] by (cases "rr_status r") simp_all
  next
    case (AttachReviewGroup g)
    then show ?thesis using assms group_attached [of ho r g v] by simp
  next
    case (UpdateReviewGroup g)
    then show ?thesis using assms group_updated [of ho r g v] by (cases "rr_status r") simp_all
  next
    case (ContinueRound p i)
    then show ?thesis using assms continued_round [of r p i v ho taskId v] by simp
  qed
qed

interpretation stored_round: step_order "round_step ho taskId" "round_inv ho"
  "\<lambda>a b. round_inv ho a \<longrightarrow> round_inv ho b \<and> round_le a b" for ho taskId
proof
  show "round_inv ho a \<longrightarrow> round_inv ho a \<and> round_le a a" for a
    using round_le_refl by (auto simp: round_inv_def)
  show "round_inv ho a \<longrightarrow> round_inv ho c \<and> round_le a c"
    if "round_inv ho a \<longrightarrow> round_inv ho b \<and> round_le a b" "round_inv ho b \<longrightarrow> round_inv ho c \<and> round_le b c" for a b c
    using that round_le_trans by blast
qed (use round_step_facts in \<open>metis prod.exhaust\<close>)+

lemma round_run_cons:
  assumes "run_steps (round_step ho taskId) r (e # ops) = Inr v"
  obtains op now u where "e = (op, now)" and "round_step ho taskId r (op, now) = Inr u"
    and "run_steps (round_step ho taskId) u ops = Inr v"
  using assms by (cases e) auto

lemma run_round_statuses:
  "run_steps (round_step ho taskId) r ops = Inr v \<Longrightarrow> round_inv ho r \<Longrightarrow>
     run_round_status (rr_status r) (map fst ops) = Some (rr_status v)"
proof (induction ops arbitrary: r)
  case (Cons e ops)
  then obtain op now u where u: "e = (op, now)" "round_step ho taskId r (op, now) = Inr u"
    "run_steps (round_step ho taskId) u ops = Inr v" by (elim round_run_cons)
  show ?case using Cons.IH [OF u(3)] round_step_status [OF u(2) Cons.prems(2)] round_step_facts [OF u(2) Cons.prems(2)] u(1)
    by simp
qed simp

lemma run_attempt:
  "run_steps (round_step ho taskId) r ops = Inr v \<Longrightarrow> round_inv ho r \<Longrightarrow>
     list_all (\<lambda>e. \<not> new_attempt_op (fst e)) ops \<Longrightarrow> attempt_evidence r v"
proof (induction ops arbitrary: r)
  case Nil
  then show ?case by (auto simp: round_inv_def intro: evidence_refl)
next
  case (Cons e ops)
  then obtain op now u where u: "e = (op, now)" "round_step ho taskId r (op, now) = Inr u"
    "run_steps (round_step ho taskId) u ops = Inr v" by (elim round_run_cons)
  have "moves ho r u" using round_step_moves [OF u(2) Cons.prems(2)] Cons.prems(3) u(1) by simp
  with Cons.IH [OF u(3)] Cons.prems(3) evidence_trans show ?case by (auto simp: moves_def)
qed

lemma run_completed:
  assumes "run_steps (round_step ho taskId) r ops = Inr v" and "round_inv ho r" and "rr_status r = Round_Completed"
    and "list_all (\<lambda>e. \<not> is_continuation (fst e)) ops"
  shows "rr_status v = Round_Completed \<and> rr_reviewerRunId v = rr_reviewerRunId r \<and> rr_endedAt v = rr_endedAt r"
proof -
  have "list_all (\<lambda>e. \<not> new_attempt_op (fst e)) ops"
    if "run_round_status Round_Completed (map fst ops) \<noteq> None" "list_all (\<lambda>e. \<not> is_continuation (fst e)) ops" for ops :: "(round_op \<times> date) list"
    using that
  proof (induction ops)
    case (Cons e ops)
    then have "\<not> new_attempt_op (fst e)" "round_status_step Round_Completed (fst e) \<in> {None, Some Round_Completed}"
      by (cases "fst e"; simp)+
    with Cons show ?case by (auto split: option.splits)
  qed simp
  then have "attempt_evidence r v" using run_attempt [OF assms(1,2)] run_round_statuses [OF assms(1,2)] assms(3,4) by simp
  then show ?thesis using assms(3) by (simp add: attempt_evidence_def)
qed

lemma created_round:
  "createReviewRound ho i t w c role src base now g = Inr r \<Longrightarrow>
     round_inv ho r \<and> rr_id r = js_trim i \<and> rr_status r = Round_Pending"
  "task_round ho i t role src cand d now k g = Inr r \<Longrightarrow>
     round_inv ho r \<and> rr_id r = js_trim i \<and> rr_status r = Round_Pending"
  by (auto simp: createReviewRound_def task_round_def round_inv_def)

definition round_born :: "review_host \<Rightarrow> string \<Rightarrow> review_round \<Rightarrow> bool" where
  \<comment> \<open>the result of one of the three ways to create a round\<close>
  "round_born ho i r \<longleftrightarrow>
     (\<exists>t w c role src base now g. createReviewRound ho i t w c role src base now g = Inr r)
     \<or> (\<exists>t role src cand now k g. createTaskReviewRound ho i t role src cand now k g = Inr r)
     \<or> (\<exists>t role src cand d now k g. createTaskDeltaReviewRound ho i t role src cand d now k g = Inr r)"

lemma round_born_inv: "round_born ho i r \<Longrightarrow> round_inv ho r \<and> rr_id r = js_trim i \<and> rr_status r = Round_Pending"
  by (auto simp: round_born_def createTaskReviewRound_def createTaskDeltaReviewRound_def dest: created_round)

lemma retried_group_success:
  "group_moved group_retried (Some g) y \<Longrightarrow> l \<in> set (eg_lanes g) \<Longrightarrow> ln_disposition l = Lane_Succeeded \<Longrightarrow>
     \<exists>h. y = Some h \<and> l \<in> set (eg_lanes h)"
  by (cases y) (auto intro: retried_success)

subsection \<open>Properties\<close>

text \<open>
  C18.  The life of a review round, retries and message continuations included, refines the machine
  \<open>round_status_step\<close>.  After any history of stored records a created round is valid with the status the
  machine reaches; from there on it keeps its identity, its target and its workspace, what a producer Lane has
  delivered stays, and a completed round stays completed by the same Reviewer run until a message continues it.
\<close>

theorem review_round_lifecycle:
  assumes "round_born ho i r0" and "run_steps (round_step ho task) r0 ops = Inr r"
    and "run_steps (round_step ho task) r later = Inr v"
  shows "validateReviewRound ho r = Inr r \<and> rr_id r = js_trim i
    \<and> run_round_status Round_Pending (map fst ops) = Some (rr_status r)
    \<and> run_round_status (rr_status r) (map fst later) = Some (rr_status v)
    \<and> same_target r v
    \<and> (rr_status r = Round_Completed \<longrightarrow> rr_reviewerRunId r \<noteq> None)
    \<and> (rr_status r = Round_Completed \<and> list_all (\<lambda>e. \<not> is_continuation (fst e)) later \<longrightarrow>
         rr_status v = Round_Completed \<and> rr_reviewerRunId v = rr_reviewerRunId r \<and> rr_endedAt v = rr_endedAt r)
    \<and> (\<forall>g l. rr_executionGroup r = Some g \<and> l \<in> set (eg_lanes g) \<and> ln_disposition l = Lane_Succeeded \<longrightarrow>
         (\<exists>h. rr_executionGroup v = Some h \<and> l \<in> set (eg_lanes h)))"
proof -
  note b = round_born_inv [OF assms(1)]
  have r: "round_inv ho r" "round_le r0 r" using stored_round.run_le [OF _ assms(2)] b by auto
  have v: "round_le r v" using stored_round.run_le [OF _ assms(3)] r(1) by auto
  have "run_round_status Round_Pending (map fst ops) = Some (rr_status r)"
    "run_round_status (rr_status r) (map fst later) = Some (rr_status v)"
    using run_round_statuses [OF assms(2)] run_round_statuses [OF assms(3)] b r(1) by auto
  moreover have "rr_id r = js_trim i" using r(2) b by (simp add: round_le_def same_target_def)
  moreover have "validateReviewRound ho r = Inr r" using r(1) by (simp add: round_inv_def)
  moreover have "rr_status r = Round_Completed \<Longrightarrow> rr_reviewerRunId r \<noteq> None"
    using r(1) round_valid_facts(2) by (auto simp: round_inv_def)
  moreover note run_completed [OF assms(3) r(1)]
  ultimately show ?thesis using v retried_group_success by (auto simp: round_le_def)
qed

definition sample_commit :: string where
  "sample_commit = replicate 40 (CHR ''a'')"

definition sample_review_workspace :: managed_workspace where
  "sample_review_workspace = \<lparr>mw_owner = Owner_ReviewRound ''task-1'' ''review-round-1'', mw_root = ''/w'',
     mw_entries = [\<lparr>pe_projectId = ''p'', pe_directory = ''p'', pe_access = Access_Write, pe_path = ''/r/p'',
       pe_branch = ''b'', pe_baseRef = ''main'', pe_baseCommit = sample_commit\<rparr>],
     mw_createdAt = iso_string 0, mw_updatedAt = iso_string 0\<rparr>"

definition sample_review_host :: review_host where
  "sample_review_host = \<lparr>rh_cwd = ''/'', rh_launchOk = (\<lambda>_. True)\<rparr>"

definition sample_round :: review_round where
  "sample_round = \<lparr>rr_id = ''review-round-1'', rr_taskId = ''task-1'', rr_workItemId = Some ''work-item-1'',
     rr_candidateId = Some ''candidate-1'', rr_reviewerRoleName = ''reviewer'', rr_reviewerRunId = None,
     rr_reviewBaseCommit = sample_commit, rr_scope = None, rr_taskCandidate = None, rr_finalContract = None,
     rr_deltaRecheck = None, rr_executionGroup = None, rr_workspace = None, rr_requestedBy = By_Policy,
     rr_status = Round_Pending, rr_failure = None, rr_workspaceDisposition = None, rr_createdAt = iso_string 0,
     rr_endedAt = None\<rparr>"

definition sample_review_run :: "(round_op \<times> date) list" where
  "sample_review_run = [(AttachReviewWorkspace sample_review_workspace, 1), (StartReviewer ''run-1'', 2),
     (FinishRound False (Some \<lparr>rf_kind = Failure_Execution, rf_message = ''lost''\<rparr>), 3)]"

definition failed_sample_round :: review_round where
  "failed_sample_round = sample_round\<lparr>rr_workspace := Some sample_review_workspace, rr_reviewerRunId := Some ''run-1'',
     rr_status := Round_Failed, rr_failure := Some \<lparr>rf_kind = Failure_Execution, rf_message = ''lost''\<rparr>,
     rr_endedAt := Some (iso_string 3)\<rparr>"

lemma sample_round_born: "round_born sample_review_host ''review-round-1'' sample_round"
proof -
  have "createReviewRound sample_review_host ''review-round-1'' ''task-1'' ''work-item-1'' ''candidate-1''
     ''reviewer'' By_Policy sample_commit 0 None = Inr sample_round" by code_simp
  then show ?thesis unfolding round_born_def by - (rule disjI1, intro exI)
qed

definition pending_sample_round :: review_round where
  "pending_sample_round = sample_round\<lparr>rr_workspace := Some sample_review_workspace\<rparr>"

definition running_sample_round :: "string \<Rightarrow> review_round" where
  "running_sample_round i = pending_sample_round\<lparr>rr_reviewerRunId := Some i, rr_status := Round_Running\<rparr>"

definition completed_sample_round :: review_round where
  "completed_sample_round = (running_sample_round ''run-2'')\<lparr>rr_requestedBy := Requested_By By_Leader,
     rr_status := Round_Completed, rr_endedAt := Some (iso_string 6)\<rparr>"

lemma sample_rounds_valid:
  "round_valid sample_review_host sample_round" "round_valid sample_review_host pending_sample_round"
  "round_valid sample_review_host (running_sample_round ''run-1'')"
  "round_valid sample_review_host failed_sample_round"
  "round_valid sample_review_host (pending_sample_round\<lparr>rr_requestedBy := Requested_By By_Leader\<rparr>)"
  "round_valid sample_review_host ((running_sample_round ''run-2'')\<lparr>rr_requestedBy := Requested_By By_Leader\<rparr>)"
  "round_valid sample_review_host completed_sample_round"
  "round_valid sample_review_host (failed_sample_round\<lparr>rr_workspaceDisposition := Some (Review_Preserved, iso_string 4)\<rparr>)"
  unfolding round_valid_def by code_simp+

lemma sample_continued_valid: "round_valid sample_review_host (running_sample_round ''run-2'')"
  unfolding round_valid_def by code_simp

lemma sample_run_ids:
  "identity_ok ''run-1'' \<and> js_trim ''run-1'' = ''run-1''" "identity_ok ''run-2'' \<and> js_trim ''run-2'' = ''run-2''"
  by code_simp+

lemmas sample_round_defs = sample_round_def pending_sample_round_def running_sample_round_def failed_sample_round_def
  completed_sample_round_def

lemma sample_review_calls:
  "attachReviewRoundWorkspace sample_review_host sample_round sample_review_workspace = Inr pending_sample_round"
  "startReviewRound sample_review_host pending_sample_round ''run-1'' = Inr (running_sample_round ''run-1'')"
  "finishReviewRound sample_review_host (running_sample_round ''run-1'') False 3
     (Some \<lparr>rf_kind = Failure_Execution, rf_message = ''lost''\<rparr>) = Inr failed_sample_round"
proof -
  have w: "isOk (validateReviewWorkspace sample_review_host sample_round sample_review_workspace)" by code_simp
  have "isOk (validateReviewRoundFailure \<lparr>rf_kind = Failure_Execution, rf_message = ''lost''\<rparr>)" by code_simp
  then have f: "validateReviewRoundFailure \<lparr>rf_kind = Failure_Execution, rf_message = ''lost''\<rparr>
      = Inr \<lparr>rf_kind = Failure_Execution, rf_message = ''lost''\<rparr>"
    by (simp only: round_failure.ok_eq)
  show "attachReviewRoundWorkspace sample_review_host sample_round sample_review_workspace = Inr pending_sample_round"
    using sample_rounds_valid(1,2) w
    by (auto simp: attachReviewRoundWorkspace_def isOk_iff sample_round_def pending_sample_round_def)
  show "startReviewRound sample_review_host pending_sample_round ''run-1'' = Inr (running_sample_round ''run-1'')"
    using sample_rounds_valid(2,3) sample_run_ids(1)
    by (simp add: startReviewRound_def sample_round_def pending_sample_round_def running_sample_round_def)
  show "finishReviewRound sample_review_host (running_sample_round ''run-1'') False 3
     (Some \<lparr>rf_kind = Failure_Execution, rf_message = ''lost''\<rparr>) = Inr failed_sample_round"
    using sample_rounds_valid(3,4) f
    by (simp add: finishReviewRound_def sample_round_defs valid_date_def)
qed

lemma sample_review_runs:
  "run_steps (round_step sample_review_host ''task-1'') sample_round sample_review_run = Inr failed_sample_round"
  using sample_rounds_valid
  by (simp add: sample_review_run_def sample_review_calls saveReviewRound_def)
    (simp add: sample_round_defs)

lemma sample_review_retried:
  "run_steps (round_step sample_review_host ''task-1'') failed_sample_round
     [(RetryRound By_Leader, 4), (StartReviewer ''run-2'', 5), (FinishRound True None, 6)] = Inr completed_sample_round"
  using sample_rounds_valid sample_run_ids(2)
  by (simp add: retryReviewRound_def retried_round_def round_scope_def startReviewRound_def finishReviewRound_def
      saveReviewRound_def sample_round_defs valid_date_def Let_def)

lemma sample_review_continued:
  "run_steps (round_step sample_review_host ''task-1'') failed_sample_round [(ContinueRound ''run-1'' ''run-2'', 4)]
     = Inr (running_sample_round ''run-2'')"
  using sample_rounds_valid sample_continued_valid
  by (simp add: continuingRound_def saveReviewRound_def) (simp add: sample_round_defs)

lemma sample_review_preserved:
  "run_steps (round_step sample_review_host ''task-1'') failed_sample_round [(RecordReviewWorkspace Review_Preserved, 4)]
     = Inr (failed_sample_round\<lparr>rr_workspaceDisposition := Some (Review_Preserved, iso_string 4)\<rparr>)"
  using sample_rounds_valid
  by (simp add: recordReviewWorkspaceDisposition_def saveReviewRound_def sample_round_defs valid_date_def)

theorem review_round_lifecycle_witness:
  "same_target failed_sample_round completed_sample_round \<and> rr_status completed_sample_round = Round_Completed
     \<and> run_round_status Round_Pending (map fst sample_review_run) = Some Round_Failed"
  using review_round_lifecycle [OF sample_round_born sample_review_runs sample_review_retried]
  by (simp add: sample_review_run_def completed_sample_round_def)

text \<open>
  C20.  Within one attempt the evidence stays.  As long as a round is neither retried nor continued by a
  message, the Reviewer run it names, the status and end of a terminal round, its terminal Lanes and the removal
  of its workspace are not changed by any later record; only a failed round is retried, and only a round that
  names the run to be continued, and whose workspace has no recorded disposition, is continued.
\<close>

theorem review_attempt_evidence:
  assumes "round_born ho i r0" and "run_steps (round_step ho task) r0 ops = Inr r"
    and "run_steps (round_step ho task) r later = Inr v" and "list_all (\<lambda>e. \<not> new_attempt_op (fst e)) later"
  shows "attempt_evidence r v
    \<and> (\<forall>g l. rr_executionGroup r = Some g \<and> l \<in> set (eg_lanes g) \<and> ln_disposition l \<noteq> Lane_Open \<longrightarrow>
         (\<exists>h. rr_executionGroup v = Some h \<and> l \<in> set (eg_lanes h)))
    \<and> (isOk (round_step ho task v (RetryRound actor, now)) \<longrightarrow> rr_status v = Round_Failed)
    \<and> (isOk (round_step ho task v (ContinueRound previous next_run, now)) \<longrightarrow>
         rr_reviewerRunId v = Some previous \<and> rr_workspaceDisposition v = None)"
proof -
  have r: "round_inv ho r" using stored_round.run_inv [OF _ assms(2)] round_born_inv [OF assms(1)] by auto
  have v: "round_inv ho v" using stored_round.run_inv [OF r assms(3)] .
  note e = run_attempt [OF assms(3) r assms(4)]
  have "\<exists>h. rr_executionGroup v = Some h \<and> l \<in> set (eg_lanes h)"
    if "rr_executionGroup r = Some g" "l \<in> set (eg_lanes g)" "ln_disposition l \<noteq> Lane_Open" for g l
    using that e le_terminal by (cases "rr_executionGroup v") (auto simp: attempt_evidence_def)
  moreover have "rr_status v = Round_Failed" if "isOk (round_step ho task v (RetryRound actor, now))"
    using that v retried_round_facts(3) by (auto simp: isOk_iff)
  moreover have "rr_reviewerRunId v = Some previous \<and> rr_workspaceDisposition v = None"
    if "isOk (round_step ho task v (ContinueRound previous next_run, now))"
    using that v continued_round(5,6) by (auto simp: isOk_iff)
  ultimately show ?thesis using e by blast
qed

theorem review_attempt_evidence_witness:
  "attempt_evidence failed_sample_round
     (failed_sample_round\<lparr>rr_workspaceDisposition := Some (Review_Preserved, iso_string 4)\<rparr>)"
  using review_attempt_evidence [OF sample_round_born sample_review_runs sample_review_preserved] by simp

text \<open>
  The same write seen from the other side: a round whose Reviewer failed, or had completed, is running again
  after a continuation, under another run and without an end.
\<close>

lemma continuation_reopens:
  assumes "round_step ho task r (ContinueRound previous i, now) = Inr v"
  shows "rr_status v = Round_Running" and "rr_reviewerRunId v = Some i" and "rr_endedAt v = None"
  using assms by (auto simp: continuingRound_def saveReviewRound_def split: if_split_asm)

end
