(* ===== verification/Release_Workflow.thy ===== *)
theory Release_Workflow
  imports Capability_Grant
begin

section \<open>Release workflows\<close>

text \<open>
  \<open>src/release/releaseWorkflow.ts\<close>: the record of a release, a fixed plan of steps with one step record
  each.  A step goes from pending over running to succeeded, failed or unknown; an authoritative query can
  confirm an unknown or failed step.  The step records, keyed by step id, are the list of entries in
  enumeration order, like the parameters of a plan entry.
\<close>

subsection \<open>Records\<close>

datatype release_kind =
    Pr_Create | Ci_Confirm | Merge_Branch | Version_Tag | Npm_Publish | Install_Smoke | Cli_Update
  | Controller_Replace | Project_Migrate | Post_Verify

datatype step_status = Step_Pending | Step_Running | Step_Succeeded | Step_Failed | Step_Unknown | Step_Skipped

record release_source =
  so_owner :: string
  so_name :: string
  so_commit :: string
  so_artifact :: "(string \<times> string) option"

type_synonym identity = "string \<times> string"
  \<comment> \<open>\<open>externalIdentity\<close>: kind and value\<close>

type_synonym params = "(string \<times> string) list"

record step_plan =
  sp_id :: string
  sp_kind :: release_kind
  sp_idempotencyKey :: string
  sp_params :: "params option"
  sp_irreversibility :: "irreversibility option"

record step_record =
  sr_planId :: string
  sr_status :: step_status
  sr_attempts :: int
  sr_externalId :: "string option"
  sr_identity :: "identity option"
  sr_logs :: "string list"
  sr_lastAttemptAt :: "string option"
  sr_terminalAt :: "string option"

record release_workflow =
  rw_id :: string
  rw_taskId :: string
  rw_grantId :: string
  rw_source :: release_source
  rw_plan :: "step_plan list"
  rw_steps :: "(string \<times> step_record) list"
  rw_createdAt :: string
  rw_updatedAt :: string

record plan_input =
  pn_id :: string
  pn_kind :: release_kind
  pn_params :: "params option"
  pn_irreversibility :: "irreversibility option"

record step_result =
  \<comment> \<open>the argument \<open>result\<close> of the operations: absent logs are \<open>None\<close>\<close>
  ps_externalId :: "string option"
  ps_identity :: "identity option"
  ps_logs :: "string list option"

definition step_done :: "step_status \<Rightarrow> bool" where
  \<comment> \<open>\<open>TERMINAL_STEP_STATUSES\<close>\<close>
  "step_done s \<longleftrightarrow> s = Step_Succeeded \<or> s = Step_Skipped"

definition step_of :: "release_workflow \<Rightarrow> string \<Rightarrow> step_record option" where
  "step_of w i = map_of (rw_steps w) i"

subsection \<open>Validation\<close>

definition is_sha :: "string \<Rightarrow> bool" where
  \<comment> \<open>\<open>^[0-9a-fA-F]{40}$\<close>\<close>
  "is_sha s \<longleftrightarrow> length s = 40 \<and> list_all (\<lambda>c. is_hex_lower (char_lower c)) s"

definition normalizeSource :: "release_source \<Rightarrow> release_source result" where
  "normalizeSource source =
     andThen (requireText (so_owner source) ''Release workflow source repository owner'') (\<lambda>owner.
     andThen (requireText (so_name source) ''Release workflow source repository name'') (\<lambda>name.
     andThen (requireText (so_commit source) ''Release workflow source commit'') (\<lambda>commit.
       if \<not> is_sha commit then throw ''Release workflow source commit must be a full 40-hex commit sha''
       else andThen (optionally (\<lambda>(n, integrity).
           andThen (requireText n ''Release workflow source artifact name'') (\<lambda>n'.
           andThen (requireText integrity ''Release workflow source artifact integrity'') (\<lambda>i'. Inr (n', i'))))
           (so_artifact source)) (\<lambda>artifact.
         Inr \<lparr>so_owner = owner, so_name = name, so_commit = commit, so_artifact = artifact\<rparr>))))"

fun normalizeEachParam :: "params \<Rightarrow> params \<Rightarrow> params result" where
  "normalizeEachParam normalized [] = Inr normalized"
| "normalizeEachParam normalized ((name, value) # rest) =
     andThen (requireIdentity name ''Release step param'') (\<lambda>key.
     andThen (requireText value ''Release step param'') (\<lambda>text.
       normalizeEachParam (assign key text normalized) rest))"

definition normalizeParams :: "params option \<Rightarrow> params option result" where
  "normalizeParams ps = optionally (normalizeEachParam []) ps"

definition step_key :: "string \<Rightarrow> string \<Rightarrow> string \<Rightarrow> string" where
  "step_key taskId workflowId i = taskId @ ''/'' @ workflowId @ ''/'' @ i"

definition normalizePlanEntry :: "string \<Rightarrow> string \<Rightarrow> plan_input \<Rightarrow> step_plan result" where
  "normalizePlanEntry taskId workflowId entry =
     andThen (requireIdentity (pn_id entry) ''Release step id'') (\<lambda>i.
     andThen (normalizeParams (pn_params entry)) (\<lambda>params.
       Inr \<lparr>sp_id = i, sp_kind = pn_kind entry, sp_idempotencyKey = step_key taskId workflowId i,
            sp_params = params, sp_irreversibility = pn_irreversibility entry\<rparr>))"

definition normalizePlan :: "plan_input list \<Rightarrow> string \<Rightarrow> string \<Rightarrow> step_plan list result" where
  "normalizePlan plan taskId workflowId =
     (if plan = [] then throw ''Release workflow plan must be a non-empty array.''
      else andThen (traverse (normalizePlanEntry taskId workflowId) plan) (\<lambda>normalized.
        if \<not> distinct (map sp_id normalized) then throw ''Release workflow plan ids must be unique.''
        else Inr normalized))"

definition plan_like :: "step_plan \<Rightarrow> plan_input" where
  \<comment> \<open>a stored plan entry as \<open>ReleaseStepPlanLike\<close>: its key is recomputed\<close>
  "plan_like p = \<lparr>pn_id = sp_id p, pn_kind = sp_kind p, pn_params = sp_params p, pn_irreversibility = sp_irreversibility p\<rparr>"

definition normalizeExternalIdentity :: "identity \<Rightarrow> identity result" where
  "normalizeExternalIdentity v =
     andThen (requireText (fst v) ''Release step externalIdentity kind'') (\<lambda>k.
     andThen (requireText (snd v) ''Release step externalIdentity value'') (\<lambda>x. Inr (k, x)))"

definition validateStepRecord :: "string \<Rightarrow> step_record \<Rightarrow> unit result" where
  "validateStepRecord planId s = all_ok
     [refuse (sr_planId s \<noteq> planId) ''Release step record planId does not match its key'',
      refuse (\<not> safe_integer (sr_attempts s) \<or> sr_attempts s < 0)
        ''Release step attempts must be a non-negative integer'',
      whenSome (sr_externalId s) (\<lambda>i. skip (requireText i ''Release step externalId'')),
      whenSome (sr_identity s) (\<lambda>i. skip (normalizeExternalIdentity i)),
      all_ok (map (\<lambda>line. skip (requireText line ''Release step log'')) (sr_logs s)),
      whenSome (sr_lastAttemptAt s) (\<lambda>t. skip (requireTimestamp t ''Release step lastAttemptAt'')),
      refuse (sr_status s = Step_Running \<and> sr_lastAttemptAt s = None)
        ''Release step running status requires lastAttemptAt'',
      whenSome (sr_terminalAt s) (\<lambda>t. skip (requireTimestamp t ''Release step terminalAt'')),
      refuse (step_done (sr_status s) \<and> sr_terminalAt s = None) ''Release step status requires terminalAt'']"

definition validateEachStep :: "release_workflow \<Rightarrow> step_plan list \<Rightarrow> unit result" where
  "validateEachStep w plan = all_ok (map (\<lambda>entry.
     (case step_of w (sp_id entry) of
        None \<Rightarrow> throw ''Release workflow step record is missing''
      | Some s \<Rightarrow> validateStepRecord (sp_id entry) s)) plan)"

definition validateReleaseWorkflow :: "release_workflow \<Rightarrow> release_workflow result" where
  "validateReleaseWorkflow w = checked w
     [skip (validateTaskRecordReference (rw_taskId w) (rw_id w) ReleaseWorkflowKind),
      skip (requireIdentity (rw_taskId w) ''Task id''),
      skip (requireText (rw_grantId w) ''Release workflow grantId''),
      skip (normalizeSource (rw_source w)),
      andThen (normalizePlan (map plan_like (rw_plan w)) (rw_taskId w) (rw_id w)) (\<lambda>plan. all_ok
        [refuse (list_ex (\<lambda>e. sp_kind e = Npm_Publish) plan \<and> so_artifact (rw_source w) = None)
           ''Release workflow npm-publish step requires a source artifact.'',
         refuse (list_ex (\<lambda>e. map_option sp_idempotencyKey (find (\<lambda>c. sp_id c = sp_id e) (rw_plan w))
             \<noteq> Some (sp_idempotencyKey e)) plan)
           ''Release step idempotencyKey is invalid'',
         refuse (list_ex (\<lambda>e. sp_id e \<notin> fst ` set (rw_steps w)) plan) ''Release workflow step record is missing'',
         refuse (list_ex (\<lambda>k. k \<notin> sp_id ` set plan) (map fst (rw_steps w)))
           ''Release workflow step record has no plan entry'',
         validateEachStep w plan]),
      skip (requireTimestamp (rw_createdAt w) ''Release workflow createdAt''),
      skip (requireTimestamp (rw_updatedAt w) ''Release workflow updatedAt'')]"

subsection \<open>Creation and projections\<close>

definition pending_step :: "string \<Rightarrow> step_record" where
  "pending_step i = \<lparr>sr_planId = i, sr_status = Step_Pending, sr_attempts = 0, sr_externalId = None,
     sr_identity = None, sr_logs = [], sr_lastAttemptAt = None, sr_terminalAt = None\<rparr>"

definition createReleaseWorkflow ::
    "string \<Rightarrow> string \<Rightarrow> string \<Rightarrow> release_source \<Rightarrow> plan_input list \<Rightarrow> date \<Rightarrow> release_workflow result" where
  "createReleaseWorkflow i taskId grantId source plan now =
     andThen (toISOString now) (\<lambda>timestamp.
     andThen (validateTaskRecordReference taskId i ReleaseWorkflowKind) (\<lambda>(task, local_id).
     andThen (requireText grantId ''Release workflow grantId'') (\<lambda>grant.
     andThen (normalizeSource source) (\<lambda>normalized.
     andThen (normalizePlan plan task local_id) (\<lambda>entries.
       validateReleaseWorkflow
         \<lparr>rw_id = local_id, rw_taskId = task, rw_grantId = grant, rw_source = normalized, rw_plan = entries,
          rw_steps = map (\<lambda>e. (sp_id e, pending_step (sp_id e))) entries,
          rw_createdAt = timestamp, rw_updatedAt = timestamp\<rparr>)))))"

definition step_status_of :: "release_workflow \<Rightarrow> string \<Rightarrow> step_status option" where
  "step_status_of w i = map_option sr_status (step_of w i)"

definition open_step :: "release_workflow \<Rightarrow> step_plan \<Rightarrow> bool" where
  "open_step w e \<longleftrightarrow> (case step_status_of w (sp_id e) of None \<Rightarrow> True | Some s \<Rightarrow> \<not> step_done s)"

definition resumeCursor :: "release_workflow \<Rightarrow> string option result" where
  "resumeCursor w =
     andThen (validateReleaseWorkflow w) (\<lambda>_. Inr (map_option sp_id (find (open_step w) (rw_plan w))))"

datatype workflow_state = Workflow_Pending | Workflow_Running | Workflow_Failed | Workflow_Unknown | Workflow_Succeeded

fun first_stop :: "step_status option list \<Rightarrow> bool \<Rightarrow> workflow_state option \<times> bool" where
  \<comment> \<open>the loop over the plan, with the flag \<open>running\<close>\<close>
  "first_stop [] running = (None, running)"
| "first_stop (s # ss) running =
     (if s = Some Step_Failed then (Some Workflow_Failed, running)
      else if s = Some Step_Unknown then (Some Workflow_Unknown, running)
      else first_stop ss (running \<or> s = Some Step_Running))"

definition workflowStatus :: "release_workflow \<Rightarrow> workflow_state result" where
  "workflowStatus w =
     andThen (validateReleaseWorkflow w) (\<lambda>_. Inr
       (case first_stop (map (\<lambda>e. step_status_of w (sp_id e)) (rw_plan w)) False of
          (Some s, _) \<Rightarrow> s
        | (None, running) \<Rightarrow>
            if running then Workflow_Running
            else if list_all (\<lambda>e. \<not> open_step w e) (rw_plan w) then Workflow_Succeeded else Workflow_Pending))"

subsection \<open>Operations\<close>

definition requireStep :: "release_workflow \<Rightarrow> string \<Rightarrow> step_record result" where
  "requireStep w stepId =
     (case step_of w stepId of None \<Rightarrow> throw ''Release step is not part of the workflow plan'' | Some s \<Rightarrow> Inr s)"

definition appendLogs :: "string list \<Rightarrow> string list option \<Rightarrow> string list result" where
  "appendLogs logs extra =
     (case extra of
        None \<Rightarrow> Inr logs
      | Some new \<Rightarrow> andThen (traverse (\<lambda>line. requireText line ''Release step log line'') new) (\<lambda>lines. Inr (logs @ lines)))"

definition replaceStep :: "release_workflow \<Rightarrow> string \<Rightarrow> step_record \<Rightarrow> date option \<Rightarrow> release_workflow result" where
  "replaceStep w stepId s now =
     andThen (optionally toISOString now) (\<lambda>t.
       validateReleaseWorkflow (w\<lparr>rw_steps := assign stepId s (rw_steps w),
         rw_updatedAt := (case t of None \<Rightarrow> rw_updatedAt w | Some x \<Rightarrow> x)\<rparr>))"

definition new_attempt :: "step_record \<Rightarrow> string \<Rightarrow> step_record" where
  \<comment> \<open>running, without the evidence of the previous attempt\<close>
  "new_attempt s timestamp = s\<lparr>sr_status := Step_Running, sr_attempts := sr_attempts s + 1, sr_externalId := None,
     sr_identity := None, sr_lastAttemptAt := Some timestamp, sr_terminalAt := None\<rparr>"

definition on_step ::
    "release_workflow \<Rightarrow> string \<Rightarrow> (step_status \<Rightarrow> bool) \<Rightarrow> date \<Rightarrow> (step_record \<Rightarrow> step_record result)
       \<Rightarrow> release_workflow result" where
  \<comment> \<open>what the operations share: validation, the guard on the status, the new record saved at \<open>now\<close>\<close>
  "on_step w stepId guard now f =
     andThen (validateReleaseWorkflow w) (\<lambda>_.
     andThen (requireStep w stepId) (\<lambda>s.
       if \<not> guard (sr_status s) then throw ''Release step cannot change from its status''
       else andThen (f s) (\<lambda>s'. replaceStep w stepId s' (Some now))))"

definition attempt_again :: "date \<Rightarrow> step_record \<Rightarrow> step_record result" where
  "attempt_again now s = andThen (toISOString now) (\<lambda>t. Inr (new_attempt s t))"

definition startStep :: "release_workflow \<Rightarrow> string \<Rightarrow> date \<Rightarrow> release_workflow result" where
  "startStep w stepId now =
     on_step w stepId (\<lambda>st. st \<in> {Step_Pending, Step_Failed, Step_Unknown}) now (attempt_again now)"

definition succeeded_step :: "step_record \<Rightarrow> string option \<Rightarrow> string list \<Rightarrow> string \<Rightarrow> step_record" where
  "succeeded_step s externalId logs t = s\<lparr>sr_status := Step_Succeeded,
     sr_externalId := (case externalId of None \<Rightarrow> sr_externalId s | Some i \<Rightarrow> Some i),
     sr_logs := logs, sr_terminalAt := Some t\<rparr>"

definition succeed :: "step_result \<Rightarrow> date \<Rightarrow> step_record \<Rightarrow> step_record result" where
  \<comment> \<open>the new record of \<open>completeStep\<close> and of the two confirmations\<close>
  "succeed r now s =
     andThen (optionally (\<lambda>i. requireText i ''Release step externalId'') (ps_externalId r)) (\<lambda>externalId.
     andThen (appendLogs (sr_logs s) (ps_logs r)) (\<lambda>logs.
     andThen (toISOString now) (\<lambda>t. Inr (succeeded_step s externalId logs t))))"

definition completeStep :: "release_workflow \<Rightarrow> string \<Rightarrow> step_result \<Rightarrow> date \<Rightarrow> release_workflow result" where
  "completeStep w stepId r now = on_step w stepId (\<lambda>st. st = Step_Running) now (succeed r now)"

definition given_identity :: "identity option \<Rightarrow> step_record \<Rightarrow> identity option" where
  "given_identity i s = (case i of None \<Rightarrow> sr_identity s | Some x \<Rightarrow> Some x)"

definition stopped_step ::
    "step_record \<Rightarrow> step_status \<Rightarrow> identity option \<Rightarrow> string list \<Rightarrow> string option \<Rightarrow> step_record" where
  \<comment> \<open>failed with a terminal time, or unknown without one\<close>
  "stopped_step s status i logs t = s\<lparr>sr_status := status, sr_identity := given_identity i s, sr_logs := logs,
     sr_terminalAt := (case t of None \<Rightarrow> sr_terminalAt s | Some x \<Rightarrow> Some x)\<rparr>"

definition failStep :: "release_workflow \<Rightarrow> string \<Rightarrow> step_result \<Rightarrow> date \<Rightarrow> release_workflow result" where
  "failStep w stepId r now = on_step w stepId (\<lambda>st. st = Step_Running) now (\<lambda>s.
     andThen (optionally normalizeExternalIdentity (ps_identity r)) (\<lambda>i.
     andThen (appendLogs (sr_logs s) (ps_logs r)) (\<lambda>logs.
     andThen (toISOString now) (\<lambda>t. Inr (stopped_step s Step_Failed i logs (Some t))))))"

definition markStepUnknown :: "release_workflow \<Rightarrow> string \<Rightarrow> step_result \<Rightarrow> date \<Rightarrow> release_workflow result" where
  "markStepUnknown w stepId r now = on_step w stepId (\<lambda>st. st = Step_Running) now (\<lambda>s.
     andThen (optionally normalizeExternalIdentity (ps_identity r)) (\<lambda>i.
     andThen (appendLogs (sr_logs s) (ps_logs r)) (\<lambda>logs. Inr (stopped_step s Step_Unknown i logs None))))"

definition skipped_step :: "step_record \<Rightarrow> string list \<Rightarrow> string \<Rightarrow> step_record" where
  "skipped_step s logs t = s\<lparr>sr_status := Step_Skipped, sr_logs := logs, sr_terminalAt := Some t\<rparr>"

definition skipStep :: "release_workflow \<Rightarrow> string \<Rightarrow> string \<Rightarrow> date \<Rightarrow> release_workflow result" where
  "skipStep w stepId reason now = on_step w stepId (\<lambda>st. st = Step_Pending) now (\<lambda>s.
     andThen (requireText reason ''Release step skip reason'') (\<lambda>why.
     andThen (appendLogs (sr_logs s) (Some [''Skipped: '' @ why])) (\<lambda>logs.
     andThen (toISOString now) (\<lambda>t. Inr (skipped_step s logs t)))))"

definition confirmStep :: "release_workflow \<Rightarrow> string \<Rightarrow> step_result \<Rightarrow> date \<Rightarrow> release_workflow result" where
  "confirmStep w stepId r now = on_step w stepId (\<lambda>st. st = Step_Unknown) now (succeed r now)"

definition confirmFailedStep :: "release_workflow \<Rightarrow> string \<Rightarrow> step_result \<Rightarrow> date \<Rightarrow> release_workflow result" where
  "confirmFailedStep w stepId r now = on_step w stepId (\<lambda>st. st = Step_Failed) now (\<lambda>s.
     if sr_identity s = None then throw ''Release step confirm-failed requires an externalIdentity''
     else succeed r now s)"

definition recoverRunningStep :: "release_workflow \<Rightarrow> string \<Rightarrow> date \<Rightarrow> release_workflow result" where
  "recoverRunningStep w stepId now = on_step w stepId (\<lambda>st. st = Step_Running) now (attempt_again now)"

definition rebindGrant :: "release_workflow \<Rightarrow> string \<Rightarrow> date \<Rightarrow> release_workflow result" where
  "rebindGrant w grantId now =
     andThen (validateReleaseWorkflow w) (\<lambda>_.
     andThen (requireText grantId ''Release workflow grantId'') (\<lambda>grant.
     andThen (toISOString now) (\<lambda>timestamp.
       validateReleaseWorkflow (w\<lparr>rw_grantId := grant, rw_updatedAt := timestamp\<rparr>))))"

definition appendStepLog :: "release_workflow \<Rightarrow> string \<Rightarrow> string \<Rightarrow> release_workflow result" where
  "appendStepLog w stepId line =
     andThen (validateReleaseWorkflow w) (\<lambda>_.
     andThen (requireStep w stepId) (\<lambda>s.
       if step_done (sr_status s) then throw ''Release step is terminal and cannot log''
       else andThen (requireText line ''Release step log line'') (\<lambda>entry.
         andThen (appendLogs (sr_logs s) (Some [entry])) (\<lambda>logs.
           replaceStep w stepId (s\<lparr>sr_logs := logs\<rparr>) None))))"

subsection \<open>The record and its operations\<close>

interpretation release: record_validator validateReleaseWorkflow
  by unfold_locales (simp add: validateReleaseWorkflow_def)

definition workflow_valid :: "release_workflow \<Rightarrow> bool" where
  "workflow_valid w \<longleftrightarrow> isOk (validateReleaseWorkflow w)"

lemma validateReleaseWorkflow_eq [simp]:
  "validateReleaseWorkflow w = Inr w' \<longleftrightarrow> workflow_valid w \<and> w' = w"
  using release.returns_self [of w w'] release.ok_eq [of w] by (auto simp: workflow_valid_def)

lemma appendLogs_eq:
  "appendLogs logs extra = Inr logs' \<longleftrightarrow>
     (case extra of None \<Rightarrow> logs' = logs
      | Some new \<Rightarrow> list_all text_ok new \<and> logs' = logs @ map js_trim new)"
proof (cases extra)
  case (Some new)
  have "traverse (\<lambda>line. requireText line ''Release step log line'') new = Inr lines
          \<longleftrightarrow> list_all text_ok new \<and> lines = map js_trim new" for lines
    by (induction new arbitrary: lines) auto
  with Some show ?thesis by (auto simp: appendLogs_def)
qed (auto simp: appendLogs_def)

lemma on_step_eq:
  "on_step w i guard now f = Inr w' \<longleftrightarrow>
     workflow_valid w \<and> valid_date now \<and> workflow_valid w'
     \<and> (\<exists>s s'. step_of w i = Some s \<and> guard (sr_status s) \<and> f s = Inr s'
          \<and> w' = w\<lparr>rw_steps := assign i s' (rw_steps w), rw_updatedAt := iso_string now\<rparr>)"
  by (auto simp: on_step_def requireStep_def replaceStep_def split: option.splits)

lemma map_of_assign: "map_of (assign k v xs) k' = (if k' = k then Some v else map_of xs k')"
  by (induction k v xs rule: assign.induct) auto

lemma keys_assign: "map fst (assign k v xs) = (if k \<in> fst ` set xs then map fst xs else map fst xs @ [k])"
  by (induction k v xs rule: assign.induct) auto

lemma step_of_assign:
  "step_of (w\<lparr>rw_steps := assign i s (rw_steps w), rw_updatedAt := u\<rparr>) k = (if k = i then Some s else step_of w k)"
  by (simp add: step_of_def map_of_assign)

lemma step_of_key: "step_of w i = Some s \<Longrightarrow> i \<in> fst ` set (rw_steps w)"
  unfolding step_of_def by (force dest: map_of_SomeD)

subsection \<open>The life of a step\<close>

datatype release_op =
    StartStep string | CompleteStep string step_result | FailStep string step_result
  | MarkUnknown string step_result | SkipStep string string | ConfirmStep string step_result
  | ConfirmFailed string step_result | RecoverRunning string | RebindGrant string | AppendLog string string

fun release_step :: "release_workflow \<Rightarrow> release_op \<times> date \<Rightarrow> release_workflow result" where
  "release_step w (StartStep i, now) = startStep w i now"
| "release_step w (CompleteStep i r, now) = completeStep w i r now"
| "release_step w (FailStep i r, now) = failStep w i r now"
| "release_step w (MarkUnknown i r, now) = markStepUnknown w i r now"
| "release_step w (SkipStep i reason, now) = skipStep w i reason now"
| "release_step w (ConfirmStep i r, now) = confirmStep w i r now"
| "release_step w (ConfirmFailed i r, now) = confirmFailedStep w i r now"
| "release_step w (RecoverRunning i, now) = recoverRunningStep w i now"
| "release_step w (RebindGrant g, now) = rebindGrant w g now"
| "release_step w (AppendLog i line, now) = appendStepLog w i line"

fun op_target :: "release_op \<Rightarrow> string option" where
  "op_target (StartStep i) = Some i"
| "op_target (CompleteStep i r) = Some i"
| "op_target (FailStep i r) = Some i"
| "op_target (MarkUnknown i r) = Some i"
| "op_target (SkipStep i reason) = Some i"
| "op_target (ConfirmStep i r) = Some i"
| "op_target (ConfirmFailed i r) = Some i"
| "op_target (RecoverRunning i) = Some i"
| "op_target (RebindGrant g) = None"
| "op_target (AppendLog i line) = Some i"

text \<open>The automaton of one step; it also counts the attempts.\<close>

fun step_machine_step :: "step_status \<times> int \<Rightarrow> release_op \<Rightarrow> (step_status \<times> int) option" where
  "step_machine_step (s, n) (StartStep i) =
     (if s \<in> {Step_Pending, Step_Failed, Step_Unknown} then Some (Step_Running, n + 1) else None)"
| "step_machine_step (s, n) (CompleteStep i r) = (if s = Step_Running then Some (Step_Succeeded, n) else None)"
| "step_machine_step (s, n) (FailStep i r) = (if s = Step_Running then Some (Step_Failed, n) else None)"
| "step_machine_step (s, n) (MarkUnknown i r) = (if s = Step_Running then Some (Step_Unknown, n) else None)"
| "step_machine_step (s, n) (SkipStep i reason) = (if s = Step_Pending then Some (Step_Skipped, n) else None)"
| "step_machine_step (s, n) (ConfirmStep i r) = (if s = Step_Unknown then Some (Step_Succeeded, n) else None)"
| "step_machine_step (s, n) (ConfirmFailed i r) = (if s = Step_Failed then Some (Step_Succeeded, n) else None)"
| "step_machine_step (s, n) (RecoverRunning i) = (if s = Step_Running then Some (Step_Running, n + 1) else None)"
| "step_machine_step (s, n) (RebindGrant g) = None"
| "step_machine_step (s, n) (AppendLog i line) = (if step_done s then None else Some (s, n))"

fun machine_run :: "step_status \<times> int \<Rightarrow> release_op list \<Rightarrow> (step_status \<times> int) option" where
  "machine_run c [] = Some c"
| "machine_run c (op # ops) = (case step_machine_step c op of None \<Rightarrow> None | Some c' \<Rightarrow> machine_run c' ops)"

definition step_le :: "step_record \<Rightarrow> step_record \<Rightarrow> bool" where
  \<comment> \<open>what a history may change of a step\<close>
  "step_le s s' \<longleftrightarrow> sr_planId s' = sr_planId s \<and> sr_attempts s \<le> sr_attempts s'
     \<and> (\<exists>more. sr_logs s' = sr_logs s @ more) \<and> (step_done (sr_status s) \<longrightarrow> s' = s)"

definition step_config :: "step_record \<Rightarrow> step_status \<times> int" where
  "step_config s = (sr_status s, sr_attempts s)"

definition step_moved :: "release_op \<Rightarrow> step_record \<Rightarrow> step_record \<Rightarrow> bool" where
  "step_moved op s s' \<longleftrightarrow> step_le s s' \<and> step_machine_step (step_config s) op = Some (step_config s')"

definition workflow_le :: "release_workflow \<Rightarrow> release_workflow \<Rightarrow> bool" where
  "workflow_le w w' \<longleftrightarrow> rw_id w' = rw_id w \<and> rw_taskId w' = rw_taskId w \<and> rw_source w' = rw_source w
     \<and> rw_plan w' = rw_plan w \<and> rw_createdAt w' = rw_createdAt w \<and> map fst (rw_steps w') = map fst (rw_steps w)
     \<and> (\<forall>i s. step_of w i = Some s \<longrightarrow> (\<exists>s'. step_of w' i = Some s' \<and> step_le s s'))"

lemma moved_attempt:
  "attempt_again now s = Inr s' \<Longrightarrow> sr_status s \<in> {Step_Pending, Step_Failed, Step_Unknown} \<Longrightarrow> step_moved (StartStep i) s s'"
  "attempt_again now s = Inr s' \<Longrightarrow> sr_status s = Step_Running \<Longrightarrow> step_moved (RecoverRunning i) s s'"
  by (auto simp: attempt_again_def new_attempt_def step_moved_def step_le_def step_config_def step_done_def)

lemma logs_prefix: "appendLogs logs extra = Inr logs' \<Longrightarrow> \<exists>more. logs' = logs @ more"
  by (auto simp: appendLogs_eq split: option.splits)

lemma moved_succeed:
  assumes "succeed r now s = Inr s'"
  shows "sr_status s = Step_Running \<Longrightarrow> step_moved (CompleteStep i r) s s'"
    and "sr_status s = Step_Unknown \<Longrightarrow> step_moved (ConfirmStep i r) s s'"
    and "sr_status s = Step_Failed \<Longrightarrow> step_moved (ConfirmFailed i r) s s'"
  using assms
  by (auto simp: succeed_def succeeded_step_def step_moved_def step_le_def step_config_def step_done_def dest: logs_prefix)

lemma moved_stopped:
  assumes "appendLogs (sr_logs s) extra = Inr logs" and "sr_status s = Step_Running"
  shows "step_moved (FailStep i r) s (stopped_step s Step_Failed x logs t)"
    and "step_moved (MarkUnknown i r) s (stopped_step s Step_Unknown x logs t)"
  using assms by (auto simp: stopped_step_def step_moved_def step_le_def step_config_def step_done_def dest: logs_prefix)

lemma moved_skipped:
  "appendLogs (sr_logs s) extra = Inr logs \<Longrightarrow> sr_status s = Step_Pending
     \<Longrightarrow> step_moved (SkipStep i reason) s (skipped_step s logs t)"
  by (auto simp: skipped_step_def step_moved_def step_le_def step_config_def step_done_def dest: logs_prefix)

lemma release_step_cases:
  assumes "release_step w (op, now) = Inr w'"
  shows "workflow_valid w" and "workflow_valid w'"
    and "(\<exists>g. op = RebindGrant g \<and> text_ok g \<and> valid_date now
            \<and> w' = w\<lparr>rw_grantId := js_trim g, rw_updatedAt := iso_string now\<rparr>)
         \<or> (\<exists>i s s' u. op_target op = Some i \<and> step_of w i = Some s \<and> step_moved op s s'
              \<and> w' = w\<lparr>rw_steps := assign i s' (rw_steps w), rw_updatedAt := u\<rparr>
              \<and> (u = iso_string now \<and> valid_date now \<or> u = rw_updatedAt w))"
proof -
  show "workflow_valid w" and "workflow_valid w'"
    using assms by (cases op; auto simp: startStep_def completeStep_def failStep_def markStepUnknown_def skipStep_def
      confirmStep_def confirmFailedStep_def recoverRunningStep_def rebindGrant_def appendStepLog_def replaceStep_def on_step_eq)+
  show "(\<exists>g. op = RebindGrant g \<and> text_ok g \<and> valid_date now
            \<and> w' = w\<lparr>rw_grantId := js_trim g, rw_updatedAt := iso_string now\<rparr>)
         \<or> (\<exists>i s s' u. op_target op = Some i \<and> step_of w i = Some s \<and> step_moved op s s'
              \<and> w' = w\<lparr>rw_steps := assign i s' (rw_steps w), rw_updatedAt := u\<rparr>
              \<and> (u = iso_string now \<and> valid_date now \<or> u = rw_updatedAt w))"
  proof (cases op)
    case (StartStep i)
    with assms show ?thesis by (auto simp: startStep_def on_step_eq dest: moved_attempt(1))
  next
    case (CompleteStep i r)
    with assms show ?thesis by (auto simp: completeStep_def on_step_eq dest: moved_succeed(1))
  next
    case (FailStep i r)
    with assms show ?thesis by (auto simp: failStep_def on_step_eq dest: moved_stopped(1))
  next
    case (MarkUnknown i r)
    with assms show ?thesis by (auto simp: markStepUnknown_def on_step_eq dest: moved_stopped(2))
  next
    case (SkipStep i reason)
    with assms show ?thesis by (auto simp: skipStep_def on_step_eq dest: moved_skipped)
  next
    case (ConfirmStep i r)
    with assms show ?thesis by (auto simp: confirmStep_def on_step_eq dest: moved_succeed(2))
  next
    case (ConfirmFailed i r)
    with assms show ?thesis by (auto simp: confirmFailedStep_def on_step_eq dest: moved_succeed(3))
  next
    case (RecoverRunning i)
    with assms show ?thesis by (auto simp: recoverRunningStep_def on_step_eq dest: moved_attempt(2))
  next
    case (RebindGrant g)
    with assms show ?thesis by (auto simp: rebindGrant_def)
  next
    case (AppendLog i line)
    with assms obtain s logs where s: "step_of w i = Some s" "\<not> step_done (sr_status s)"
        and logs: "appendLogs (sr_logs s) (Some [js_trim line]) = Inr logs"
        and w': "w' = w\<lparr>rw_steps := assign i (s\<lparr>sr_logs := logs\<rparr>) (rw_steps w)\<rparr>"
      by (auto simp: appendStepLog_def requireStep_def replaceStep_def split: option.splits)
    have "step_moved op s (s\<lparr>sr_logs := logs\<rparr>)"
      using s(2) logs_prefix [OF logs] AppendLog by (auto simp: step_moved_def step_le_def step_config_def)
    moreover have "w' = w\<lparr>rw_steps := assign i (s\<lparr>sr_logs := logs\<rparr>) (rw_steps w), rw_updatedAt := rw_updatedAt w\<rparr>"
      by (simp add: w')
    ultimately show ?thesis using s(1) AppendLog by (intro disjI2 exI conjI) auto
  qed
qed

lemma release_step_le: "release_step w e = Inr w' \<Longrightarrow> workflow_valid w' \<and> workflow_le w w'"
proof (cases e)
  case (Pair op now)
  assume r: "release_step w e = Inr w'"
  note c = release_step_cases [OF r [unfolded Pair]]
  have refl: "step_le s s" for s by (simp add: step_le_def)
  from c(3) consider (grant) g where "w' = w\<lparr>rw_grantId := js_trim g, rw_updatedAt := iso_string now\<rparr>"
    | (step) i s s' u where "step_of w i = Some s" "step_moved op s s'"
        "w' = w\<lparr>rw_steps := assign i s' (rw_steps w), rw_updatedAt := u\<rparr>"
    by blast
  then have "workflow_le w w'"
  proof cases
    case grant
    then show ?thesis by (simp add: workflow_le_def step_of_def refl)
  next
    case step
    then have "\<exists>t'. step_of w' k = Some t' \<and> step_le t t'" if "step_of w k = Some t" for k t
      using that refl by (auto simp: step_of_assign step_moved_def)
    with step step_of_key [OF step(1)] show ?thesis by (auto simp: workflow_le_def keys_assign)
  qed
  with c(2) show ?thesis by simp
qed

lemma step_le_trans: "step_le a b \<Longrightarrow> step_le b c \<Longrightarrow> step_le a c"
  unfolding step_le_def by auto

lemma workflow_le_trans:
  assumes "workflow_le a b" and "workflow_le b c"
  shows "workflow_le a c"
proof -
  have "\<exists>s'. step_of c i = Some s' \<and> step_le s s'" if "step_of a i = Some s" for i s
    using assms that unfolding workflow_le_def by (meson step_le_trans)
  with assms show ?thesis by (simp add: workflow_le_def)
qed

interpretation release_workflow: step_order release_step workflow_valid workflow_le
proof
  show "workflow_le a a" for a by (simp add: workflow_le_def step_le_def)
  show "workflow_le a b \<Longrightarrow> workflow_le b c \<Longrightarrow> workflow_le a c" for a b c by (rule workflow_le_trans)
qed (auto dest: release_step_le)

text \<open>The operations of a history that concern one step drive its automaton.\<close>

definition ops_on :: "string \<Rightarrow> (release_op \<times> date) list \<Rightarrow> release_op list" where
  "ops_on i ops = filter (\<lambda>op. op_target op = Some i) (map fst ops)"

definition config_of :: "release_workflow \<Rightarrow> string \<Rightarrow> (step_status \<times> int) option" where
  "config_of w i = map_option step_config (step_of w i)"

lemma config_step:
  assumes "release_step w (op, now) = Inr w'" and "config_of w i = Some c"
  shows "if op_target op = Some i then step_machine_step c op = config_of w' i else config_of w' i = Some c"
proof -
  from release_step_cases(3) [OF assms(1)]
  consider (grant) g where "op = RebindGrant g" "w' = w\<lparr>rw_grantId := js_trim g, rw_updatedAt := iso_string now\<rparr>"
    | (step) k s s' u where "op_target op = Some k" "step_of w k = Some s" "step_moved op s s'"
        "w' = w\<lparr>rw_steps := assign k s' (rw_steps w), rw_updatedAt := u\<rparr>"
    by blast
  then show ?thesis
  proof cases
    case grant
    with assms(2) show ?thesis by (simp add: config_of_def step_of_def)
  next
    case step
    with assms(2) show ?thesis by (auto simp: config_of_def step_of_assign step_moved_def)
  qed
qed

lemma config_run:
  "run_steps release_step w ops = Inr w' \<Longrightarrow> config_of w i = Some c \<Longrightarrow> config_of w' i = machine_run c (ops_on i ops)"
proof (induction ops arbitrary: w c)
  case (Cons e ops)
  obtain op now where e: "e = (op, now)" by (cases e)
  from Cons.prems e obtain w1 where w1: "release_step w (op, now) = Inr w1" "run_steps release_step w1 ops = Inr w'"
    by auto
  have "\<exists>s. step_of w1 i = Some s"
    using release_step_le [OF w1(1)] Cons.prems(2) by (auto simp: config_of_def workflow_le_def)
  then obtain c1 where "config_of w1 i = Some c1" by (metis config_of_def option.map(2))
  with config_step [OF w1(1) Cons.prems(2)] Cons.IH [OF w1(2)] show ?case
    by (auto simp: ops_on_def e split: if_splits)
qed (simp add: ops_on_def)

lemma machine_done: "step_done s \<Longrightarrow> machine_run (s, n) ops = Some c \<Longrightarrow> ops = []"
  by (cases ops; cases "hd ops") (auto simp: step_done_def split: if_splits)

lemma created_workflow:
  assumes "createReleaseWorkflow i taskId grantId source plan now = Inr w"
  shows "workflow_valid w" and "rw_steps w = map (\<lambda>e. (sp_id e, pending_step (sp_id e))) (rw_plan w)"
  using assms by (auto simp: createReleaseWorkflow_def)

lemma created_config:
  assumes "createReleaseWorkflow i taskId grantId source plan now = Inr w" and "e \<in> set (rw_plan w)"
  shows "config_of w (sp_id e) = Some (Step_Pending, 0)"
proof -
  have "map_of (map (\<lambda>e. (sp_id e, pending_step (sp_id e))) es) (sp_id e) = Some (pending_step (sp_id e))"
    if "e \<in> set es" for es
    using that by (induction es) auto
  with created_workflow(2) [OF assms(1)] assms(2) show ?thesis
    by (simp add: config_of_def step_of_def step_config_def pending_step_def)
qed

subsection \<open>Cursor and status\<close>

lemma first_stop_None:
  "first_stop ss r = (None, b) \<longleftrightarrow>
     (\<forall>s \<in> set ss. s \<noteq> Some Step_Failed \<and> s \<noteq> Some Step_Unknown) \<and> (b \<longleftrightarrow> r \<or> Some Step_Running \<in> set ss)"
  by (induction ss arbitrary: r) auto

lemma first_stop_Some:
  "first_stop ss r = (Some x, b) \<Longrightarrow> x \<in> {Workflow_Failed, Workflow_Unknown}
     \<and> (x = Workflow_Failed \<longrightarrow> Some Step_Failed \<in> set ss) \<and> (x = Workflow_Unknown \<longrightarrow> Some Step_Unknown \<in> set ss)"
  by (induction ss arbitrary: r) (auto split: if_splits)

lemma cursor_eq:
  "resumeCursor w = Inr c \<longleftrightarrow> workflow_valid w \<and> c = map_option sp_id (find (open_step w) (rw_plan w))"
  by (auto simp: resumeCursor_def)

lemma valid_plan:
  assumes "workflow_valid w"
  obtains plan where "list_all2 (\<lambda>p q. normalizePlanEntry (rw_taskId w) (rw_id w) (plan_like p) = Inr q) (rw_plan w) plan"
    and "plan \<noteq> []" and "distinct (map sp_id plan)" and "\<forall>q \<in> set plan. \<exists>p \<in> set (rw_plan w). sp_id p = sp_id q"
    and "\<forall>q \<in> set plan. \<exists>s. step_of w (sp_id q) = Some s \<and> validateStepRecord (sp_id q) s = Inr ()"
    and "\<forall>k \<in> fst ` set (rw_steps w). k \<in> sp_id ` set plan"
proof -
  from assms obtain plan where n: "normalizePlan (map plan_like (rw_plan w)) (rw_taskId w) (rw_id w) = Inr plan"
    and v: "isOk (validateEachStep w plan)"
    and k: "\<forall>e \<in> set plan. \<exists>z. find (\<lambda>c. sp_id c = sp_id e) (rw_plan w) = Some z \<and> sp_idempotencyKey z = sp_idempotencyKey e"
    and x: "\<not> list_ex (\<lambda>k. k \<notin> sp_id ` set plan) (map fst (rw_steps w))"
    by (auto simp: workflow_valid_def validateReleaseWorkflow_def list_all_iff list_ex_iff)
  have "list_all2 (\<lambda>p q. normalizePlanEntry (rw_taskId w) (rw_id w) (plan_like p) = Inr q) (rw_plan w) plan"
    and "plan \<noteq> []" and "distinct (map sp_id plan)"
    using n by (auto simp: normalizePlan_def traverse_eq_Inr list_all2_map1 split: if_splits)
  moreover have "\<forall>q \<in> set plan. \<exists>p \<in> set (rw_plan w). sp_id p = sp_id q"
    using k by (fastforce simp: find_Some_iff in_set_conv_nth)
  moreover have "\<forall>q \<in> set plan. \<exists>s. step_of w (sp_id q) = Some s \<and> validateStepRecord (sp_id q) s = Inr ()"
    using v by (auto simp: validateEachStep_def list_all_iff isOk_iff split: option.splits)
  moreover have "\<forall>k \<in> fst ` set (rw_steps w). k \<in> sp_id ` set plan"
    using x by (auto simp: list_ex_iff)
  ultimately show thesis by (rule that)
qed

text \<open>The ids of a valid plan are normalized and unique, and are the keys of the steps.\<close>

lemma plan_entry_id: "normalizePlanEntry t i (plan_like p) = Inr q \<Longrightarrow> identity_ok (sp_id p) \<and> sp_id q = js_trim (sp_id p)"
  by (auto simp: normalizePlanEntry_def plan_like_def)

lemma valid_plan_ids:
  assumes "workflow_valid w"
  shows "\<forall>p \<in> set (rw_plan w). js_trim (sp_id p) = sp_id p \<and> identity_ok (sp_id p)"
    and "distinct (map sp_id (rw_plan w))" and "rw_plan w \<noteq> []"
proof -
  obtain plan where all: "list_all2 (\<lambda>p q. normalizePlanEntry (rw_taskId w) (rw_id w) (plan_like p) = Inr q) (rw_plan w) plan"
    and plan: "plan \<noteq> []" "distinct (map sp_id plan)" "\<forall>q \<in> set plan. \<exists>p \<in> set (rw_plan w). sp_id p = sp_id q"
    using assms by (rule valid_plan)
  have ids: "sp_id (plan ! n) = js_trim (sp_id (rw_plan w ! n)) \<and> identity_ok (sp_id (rw_plan w ! n))"
    if "n < length (rw_plan w)" for n
    using all that plan_entry_id unfolding list_all2_conv_all_nth by blast
  have len: "length plan = length (rw_plan w)" using all by (simp add: list_all2_lengthD)
  have fixed: "js_trim (sp_id (rw_plan w ! n)) = sp_id (rw_plan w ! n)" if n: "n < length (rw_plan w)" for n
  proof -
    obtain m where m: "m < length (rw_plan w)" "sp_id (rw_plan w ! m) = sp_id (plan ! n)"
      using plan(3) n len by (metis in_set_conv_nth nth_mem)
    then have "sp_id (plan ! m) = sp_id (plan ! n)" using ids [OF m(1)] ids [OF n] by simp
    then have "m = n" using plan(2) m(1) n len by (simp add: distinct_conv_nth) metis
    with m ids [OF n] show ?thesis by simp
  qed
  then show "\<forall>p \<in> set (rw_plan w). js_trim (sp_id p) = sp_id p \<and> identity_ok (sp_id p)"
    using ids by (auto simp: in_set_conv_nth)
  have "map sp_id (rw_plan w) = map sp_id plan"
    using fixed ids len by (intro nth_equalityI) auto
  with plan(2) show "distinct (map sp_id (rw_plan w))" by simp
  show "rw_plan w \<noteq> []" using plan(1) len by auto
qed

lemma valid_step:
  assumes "workflow_valid w" and "e \<in> set (rw_plan w)"
  obtains s where "step_of w (sp_id e) = Some s" and "validateStepRecord (sp_id e) s = Inr ()"
proof -
  obtain plan where all: "list_all2 (\<lambda>p q. normalizePlanEntry (rw_taskId w) (rw_id w) (plan_like p) = Inr q) (rw_plan w) plan"
    and steps: "\<forall>q \<in> set plan. \<exists>s. step_of w (sp_id q) = Some s \<and> validateStepRecord (sp_id q) s = Inr ()"
    using assms(1) by (rule valid_plan)
  from assms(2) obtain n where n: "n < length (rw_plan w)" "rw_plan w ! n = e" by (auto simp: in_set_conv_nth)
  then have "plan ! n \<in> set plan" and "normalizePlanEntry (rw_taskId w) (rw_id w) (plan_like e) = Inr (plan ! n)"
    using all by (auto simp: list_all2_conv_all_nth)
  moreover from this(2) have "sp_id (plan ! n) = sp_id e"
    using plan_entry_id [of "rw_taskId w" "rw_id w" e] valid_plan_ids(1) [OF assms(1)] assms(2) by simp
  ultimately show thesis using steps that by fastforce
qed

lemma cursor_None: "workflow_valid w \<Longrightarrow> resumeCursor w = Inr None \<longleftrightarrow> (\<forall>e \<in> set (rw_plan w). \<not> open_step w e)"
  by (auto simp: cursor_eq find_None_iff)

lemma find_first: "find P xs = Some x \<Longrightarrow> \<exists>ys zs. xs = ys @ x # zs \<and> P x \<and> (\<forall>y \<in> set ys. \<not> P y)"
proof (induction xs)
  case (Cons a xs)
  show ?case
  proof (cases "P a")
    case True
    with Cons.prems show ?thesis by (intro exI [of _ "[]"] exI [of _ xs]) auto
  next
    case False
    with Cons obtain ys zs where "xs = ys @ x # zs \<and> P x \<and> (\<forall>y \<in> set ys. \<not> P y)" by auto
    with False have "a # xs = (a # ys) @ x # zs \<and> P x \<and> (\<forall>y \<in> set (a # ys). \<not> P y)" by simp
    then show ?thesis by blast
  qed
qed simp

lemma cursor_Some:
  assumes "resumeCursor w = Inr (Some i)"
  obtains before e after where "rw_plan w = before @ e # after" and "sp_id e = i" and "open_step w e"
    and "\<forall>p \<in> set before. \<not> open_step w p"
proof -
  from assms obtain e where "find (open_step w) (rw_plan w) = Some e" "sp_id e = i" 
    by (auto simp: cursor_eq split: option.splits dest!: sym [of "Some i"])
  with find_first that show thesis by metis
qed

lemma open_status: "e \<in> set (rw_plan w) \<Longrightarrow> step_status_of w (sp_id e) = Some st \<Longrightarrow> \<not> step_done st \<Longrightarrow> \<exists>e \<in> set (rw_plan w). open_step w e"
  by (auto simp: open_step_def intro!: bexI [of _ e])

lemma status_cursor:
  assumes "workflow_valid w"
  shows "workflowStatus w = Inr Workflow_Succeeded \<longleftrightarrow> resumeCursor w = Inr None"
proof -
  let ?ss = "map (\<lambda>e. step_status_of w (sp_id e)) (rw_plan w)"
  have some: "\<exists>e \<in> set (rw_plan w). open_step w e" if "Some st \<in> set ?ss" "\<not> step_done st" for st
    using that open_status by (metis (no_types, lifting) imageE list.set_map)
  obtain s b where f: "first_stop ?ss False = (s, b)" by (cases "first_stop ?ss False")
  show ?thesis
  proof (cases s)
    case None
    with f have "b \<longleftrightarrow> Some Step_Running \<in> set ?ss" by (simp add: first_stop_None)
    with None f some [of Step_Running] assms show ?thesis
      unfolding cursor_None [OF assms] by (auto simp: workflowStatus_def list_all_iff step_done_def)
  next
    case (Some x)
    with first_stop_Some f some [of Step_Failed] some [of Step_Unknown]
    have "\<exists>e \<in> set (rw_plan w). open_step w e" and "x \<noteq> Workflow_Succeeded"
      by (fastforce simp: step_done_def)+
    with Some f assms show ?thesis unfolding cursor_None [OF assms] by (auto simp: workflowStatus_def)
  qed
qed

lemma status_stop:
  assumes "workflowStatus w = Inr status" and "status \<in> {Workflow_Failed, Workflow_Unknown}"
  shows "\<exists>p \<in> set (rw_plan w). step_status_of w (sp_id p) = Some (if status = Workflow_Failed then Step_Failed else Step_Unknown)"
proof -
  let ?ss = "map (\<lambda>e. step_status_of w (sp_id e)) (rw_plan w)"
  obtain x b where f: "first_stop ?ss False = (x, b)" by (cases "first_stop ?ss False")
  have "x = Some status"
    using assms f by (cases x) (auto simp: workflowStatus_def split: if_splits)
  from first_stop_Some [OF f [unfolded this]] assms(2)
  have "Some (if status = Workflow_Failed then Step_Failed else Step_Unknown) \<in> set ?ss" by auto
  then show ?thesis by (metis (no_types, lifting) imageE list.set_map)
qed

subsection \<open>Properties\<close>

definition sample_source :: release_source where
  "sample_source = \<lparr>so_owner = ''acme'', so_name = ''tool'', so_commit = replicate 40 (CHR ''a''), so_artifact = None\<rparr>"

definition sample_plan_input :: "plan_input list" where
  "sample_plan_input =
     [\<lparr>pn_id = ''pr'', pn_kind = Pr_Create, pn_params = None, pn_irreversibility = None\<rparr>,
      \<lparr>pn_id = ''tag'', pn_kind = Version_Tag, pn_params = Some [(''version'', ''1.0.0'')], pn_irreversibility = None\<rparr>]"

definition sample_release :: release_workflow where
  "sample_release = \<lparr>rw_id = ''release-workflow-1'', rw_taskId = ''t'', rw_grantId = ''capability-grant-1'',
     rw_source = sample_source,
     rw_plan = [\<lparr>sp_id = ''pr'', sp_kind = Pr_Create, sp_idempotencyKey = ''t/release-workflow-1/pr'', sp_params = None,
                 sp_irreversibility = None\<rparr>,
               \<lparr>sp_id = ''tag'', sp_kind = Version_Tag, sp_idempotencyKey = ''t/release-workflow-1/tag'',
                 sp_params = Some [(''version'', ''1.0.0'')], sp_irreversibility = None\<rparr>],
     rw_steps = [(''pr'', pending_step ''pr''), (''tag'', pending_step ''tag'')],
     rw_createdAt = ''1970-01-01T00:00:00.000Z'', rw_updatedAt = ''1970-01-01T00:00:00.000Z''\<rparr>"

definition sample_result :: step_result where
  "sample_result = \<lparr>ps_externalId = Some ''12'', ps_identity = None, ps_logs = None\<rparr>"

definition sample_release_ops :: "(release_op \<times> date) list" where
  "sample_release_ops = [(StartStep ''pr'', 1), (CompleteStep ''pr'' sample_result, 2), (StartStep ''tag'', 3),
     (MarkUnknown ''tag'' sample_result, 4), (ConfirmStep ''tag'' sample_result, 5)]"

lemma sample_release_created:
  "createReleaseWorkflow ''release-workflow-1'' ''t'' ''capability-grant-1'' sample_source sample_plan_input 0
     = Inr sample_release"
  by code_simp

lemma sample_release_runs: "isOk (run_steps release_step sample_release sample_release_ops)"
  by code_simp

text \<open>
  C12. The life of a release step is exactly its automaton: after any history of operations that return
  from a new workflow, the plan, the source and the owner of the workflow are those it was created with,
  every planned step has a record whose status and attempt count are those the automaton reaches from
  (pending, 0) over the operations on that step, and a step that had succeeded or was skipped at any
  earlier point keeps its record for ever: no later operation on it returns.
\<close>

theorem release_step_lifecycle:
  assumes "createReleaseWorkflow i taskId grantId source plan t0 = Inr w0"
    and "run_steps release_step w0 ops = Inr w" and "e \<in> set (rw_plan w0)"
  shows "rw_plan w = rw_plan w0 \<and> rw_source w = rw_source w0 \<and> rw_taskId w = rw_taskId w0
    \<and> (\<exists>s. step_of w (sp_id e) = Some s
         \<and> machine_run (Step_Pending, 0) (ops_on (sp_id e) ops) = Some (sr_status s, sr_attempts s))
    \<and> (\<forall>before after v s. ops = before @ after \<longrightarrow> run_steps release_step w0 before = Inr v
         \<longrightarrow> step_of v (sp_id e) = Some s \<longrightarrow> step_done (sr_status s)
         \<longrightarrow> step_of w (sp_id e) = Some s \<and> ops_on (sp_id e) after = [])"
proof (intro conjI allI impI)
  note valid = created_workflow(1) [OF assms(1)] and start = created_config [OF assms(1,3)]
  have le: "workflow_le w0 w" by (rule release_workflow.run_le [OF valid assms(2)])
  then show "rw_plan w = rw_plan w0" and "rw_source w = rw_source w0" and "rw_taskId w = rw_taskId w0"
    by (simp_all add: workflow_le_def)
  from start obtain s0 where "step_of w0 (sp_id e) = Some s0" by (auto simp: config_of_def)
  with le obtain s where s: "step_of w (sp_id e) = Some s" unfolding workflow_le_def by blast
  with config_run [OF assms(2) start] show "\<exists>s. step_of w (sp_id e) = Some s
      \<and> machine_run (Step_Pending, 0) (ops_on (sp_id e) ops) = Some (sr_status s, sr_attempts s)"
    by (auto simp: config_of_def step_config_def)
  fix before after v s
  assume split: "ops = before @ after" "run_steps release_step w0 before = Inr v"
    and v: "step_of v (sp_id e) = Some s" and final: "step_done (sr_status s)"
  then have rest: "run_steps release_step v after = Inr w" using assms(2) by (simp add: run_steps_append)
  have "workflow_valid v" by (rule release_workflow.run_inv [OF valid split(2)])
  then have "workflow_le v w" by (rule release_workflow.run_le [OF _ rest])
  with v final show same: "step_of w (sp_id e) = Some s" by (auto simp: workflow_le_def step_le_def)
  have c: "config_of v (sp_id e) = Some (sr_status s, sr_attempts s)" by (simp add: config_of_def v step_config_def)
  have "config_of w (sp_id e) = Some (sr_status s, sr_attempts s)" by (simp add: config_of_def same step_config_def)
  with config_run [OF rest c] machine_done [OF final] show "ops_on (sp_id e) after = []" by metis
qed

theorem release_step_lifecycle_witness:
  "\<exists>w s. run_steps release_step sample_release sample_release_ops = Inr w
     \<and> step_of w ''tag'' = Some s \<and> sr_status s = Step_Succeeded \<and> sr_attempts s = 1"
proof -
  from sample_release_runs obtain w where w: "run_steps release_step sample_release sample_release_ops = Inr w"
    by (auto simp: isOk_iff)
  have e: "rw_plan sample_release ! 1 \<in> set (rw_plan sample_release)" by (simp add: sample_release_def)
  from release_step_lifecycle [OF sample_release_created w e] w show ?thesis
    by (auto simp: sample_release_def sample_release_ops_def ops_on_def sample_result_def)
qed

text \<open>
  Cursor and status of a workflow agree: on every workflow reached by a history both projections
  return; the workflow counts as succeeded exactly when there is no step to resume at; otherwise the cursor
  is the first planned step that is neither succeeded nor skipped, with every step before it done; and the
  status reports a failure or an unknown effect only when a step of the plan has that status.
\<close>

theorem release_cursor_agrees:
  assumes "createReleaseWorkflow i taskId grantId source plan t0 = Inr w0"
    and "run_steps release_step w0 ops = Inr w"
  shows "\<exists>cursor status. resumeCursor w = Inr cursor \<and> workflowStatus w = Inr status
    \<and> (status = Workflow_Succeeded \<longleftrightarrow> cursor = None)
    \<and> (\<forall>c. cursor = Some c \<longrightarrow> (\<exists>before e after s. rw_plan w = before @ e # after \<and> sp_id e = c
          \<and> step_of w c = Some s \<and> \<not> step_done (sr_status s)
          \<and> (\<forall>p \<in> set before. \<exists>s. step_of w (sp_id p) = Some s \<and> step_done (sr_status s))))
    \<and> (status = Workflow_Failed \<longrightarrow> (\<exists>p \<in> set (rw_plan w). step_status_of w (sp_id p) = Some Step_Failed))
    \<and> (status = Workflow_Unknown \<longrightarrow> (\<exists>p \<in> set (rw_plan w). step_status_of w (sp_id p) = Some Step_Unknown))"
proof -
  have valid: "workflow_valid w" by (rule release_workflow.run_inv [OF created_workflow(1) [OF assms(1)] assms(2)])
  then obtain cursor status where c: "resumeCursor w = Inr cursor" and s: "workflowStatus w = Inr status"
    by (auto simp: resumeCursor_def workflowStatus_def)
  have "status = Workflow_Succeeded \<longleftrightarrow> cursor = None"
    using status_cursor [OF valid] c s by auto
  moreover have "\<exists>before e after s. rw_plan w = before @ e # after \<and> sp_id e = i \<and> step_of w i = Some s
      \<and> \<not> step_done (sr_status s) \<and> (\<forall>p \<in> set before. \<exists>s. step_of w (sp_id p) = Some s \<and> step_done (sr_status s))"
    if i: "cursor = Some i" for i
  proof -
    obtain before e after where e: "rw_plan w = before @ e # after" "sp_id e = i" "open_step w e"
        "\<forall>p \<in> set before. \<not> open_step w p"
      using cursor_Some c i by metis
    then obtain s where "step_of w i = Some s" using valid_step [OF valid, of e] by auto
    moreover from this e(2,3) have "\<not> step_done (sr_status s)" by (simp add: open_step_def step_status_of_def)
    moreover have "\<forall>p \<in> set before. \<exists>s. step_of w (sp_id p) = Some s \<and> step_done (sr_status s)"
      using e(4) by (auto simp: open_step_def step_status_of_def split: option.splits)
    ultimately show ?thesis using e(1,2) by blast
  qed
  moreover have "status = Workflow_Failed \<longrightarrow> (\<exists>p \<in> set (rw_plan w). step_status_of w (sp_id p) = Some Step_Failed)"
    and "status = Workflow_Unknown \<longrightarrow> (\<exists>p \<in> set (rw_plan w). step_status_of w (sp_id p) = Some Step_Unknown)"
    using status_stop [OF s] by auto
  ultimately show ?thesis using c s by blast
qed

theorem release_cursor_agrees_witness:
  "\<exists>cursor status. resumeCursor sample_release = Inr cursor \<and> workflowStatus sample_release = Inr status
     \<and> (status = Workflow_Succeeded \<longleftrightarrow> cursor = None)"
proof -
  have "run_steps release_step sample_release [] = Inr sample_release" by simp
  from release_cursor_agrees [OF sample_release_created this] show ?thesis by blast
qed

end
