(* ===== verification/Release_Store.thy ===== *)
theory Release_Store
  imports Release_Workflow
begin

section \<open>Stored grants and release workflows\<close>

text \<open>
  \<open>src/storage/taskStore.ts\<close> and \<open>src/storage/sqliteStore.ts\<close>: which capability grants and release
  workflows the store takes, and which replacements of a stored record it accepts.  The shape checks of
  the JSON values (object, exact fields, known constants) hold by the types; the field checks, which ask
  that every text is already normalized, are definitions.  A row is an entry of a map; the transaction
  around a save and the columns derived from the record are not modelled.
\<close>

subsection \<open>Field checks\<close>

definition requireNormalizedText :: "string \<Rightarrow> string \<Rightarrow> string result" where
  "requireNormalizedText value label =
     (if NUL \<in> set value then throw (label @ '' is invalid.'')
      else let normalized = js_trim value in
        if normalized = [] then throw (label @ '' is required.'')
        else if normalized \<noteq> value then throw (label @ '' must be normalized.'')
        else Inr normalized)"

definition requireRecordIdentity :: "string \<Rightarrow> string \<Rightarrow> string result" where
  "requireRecordIdentity value label =
     andThen (requireNormalizedText value label) (\<lambda>normalized.
       if normalized \<in> set reserved_identities \<or> has_path_char normalized then throw (label @ '' is invalid.'')
       else Inr normalized)"

definition norm_text :: "string \<Rightarrow> bool" where
  "norm_text s \<longleftrightarrow> text_ok s \<and> js_trim s = s"

definition norm_identity :: "string \<Rightarrow> bool" where
  "norm_identity s \<longleftrightarrow> identity_ok s \<and> js_trim s = s"

lemma requireNormalizedText_eq [simp]: "requireNormalizedText v l = Inr t \<longleftrightarrow> norm_text v \<and> t = v"
  by (auto simp: requireNormalizedText_def norm_text_def text_ok_def Let_def)

lemma requireRecordIdentity_eq [simp]: "requireRecordIdentity v l = Inr t \<longleftrightarrow> norm_identity v \<and> t = v"
  by (auto simp: requireRecordIdentity_def norm_identity_def identity_ok_def norm_text_def)

lemma normalized_ok [simp]:
  "isOk (requireNormalizedText v l) \<longleftrightarrow> norm_text v" "isOk (requireRecordIdentity v l) \<longleftrightarrow> norm_identity v"
  by (auto simp: isOk_iff)

lemma normal_text_trim [simp]: "text_ok v \<Longrightarrow> norm_text (js_trim v)"
  using text_ok_trim [of v] by (simp add: norm_text_def)

lemma normal_identity_trim [simp]: "identity_ok v \<Longrightarrow> norm_identity (js_trim v)"
  using identity_ok_trim [of v] by (simp add: norm_identity_def)

subsection \<open>Stored grants\<close>

definition storedCapabilityGrantScope :: "grant_scope \<Rightarrow> unit result" where
  "storedCapabilityGrantScope scope = all_ok
     [refuse (sc_taskId scope = None \<and> sc_projectIds scope = None \<and> sc_repositories scope = None
        \<and> sc_packages scope = None \<and> sc_homePath scope = None)
        ''Capability grant scope requires at least one selector'',
      whenSome (sc_taskId scope) (\<lambda>t. skip (requireRecordIdentity t ''Capability grant scope taskId'')),
      whenSome (sc_projectIds scope) (\<lambda>ps. all_ok
        [refuse (ps = []) ''Capability grant scope projectIds must be a non-empty array.'',
         skip (traverse (\<lambda>p. requireRecordIdentity p ''Capability grant scope Project'') ps),
         refuse (\<not> distinct ps) ''Capability grant scope Project ids must be unique.'']),
      whenSome (sc_repositories scope) (\<lambda>rs. all_ok
        [refuse (rs = []) ''Capability grant scope repositories must be a non-empty array.'',
         all_ok (map (\<lambda>r. all_ok
           [skip (requireNormalizedText (gr_owner r) ''Capability grant scope repository owner''),
            skip (requireNormalizedText (gr_name r) ''Capability grant scope repository name'')]) rs),
         refuse (\<not> distinct (map repository_key rs)) ''Capability grant scope repositories must be unique.'']),
      whenSome (sc_packages scope) (\<lambda>ps. all_ok
        [refuse (ps = []) ''Capability grant scope packages must be a non-empty array.'',
         skip (traverse (\<lambda>p. requireNormalizedText p ''Capability grant scope package'') ps),
         refuse (\<not> distinct ps) ''Capability grant scope packages must be unique.'']),
      whenSome (sc_homePath scope) (\<lambda>h. skip (requireNormalizedText h ''Capability grant scope homePath''))]"

definition storedBound :: "string \<times> string list \<Rightarrow> unit result" where
  "storedBound entry = all_ok
     [skip (requireRecordIdentity (fst entry) ''Capability grant parameter''),
      refuse (snd entry = []) ''Capability grant parameter bound must list allowed values'',
      skip (traverse (\<lambda>v. requireNormalizedText v ''Capability grant parameter value'') (snd entry)),
      refuse (\<not> distinct (snd entry)) ''Capability grant parameter bound values must be unique'']"

definition storedCapabilityGrant :: "capability_grant \<Rightarrow> capability_grant result" where
  "storedCapabilityGrant grant =
     andThen (all_ok
       [skip (requireRecordIdentity (gt_id grant) ''Capability grant id''),
        skip (requireRecordIdentity (gt_taskId grant) ''Capability grant Task id''),
        skip (validateTaskRecordReference (gt_taskId grant) (gt_id grant) CapabilityGrantKind),
        skip (requireNormalizedText (gt_granter grant) ''Capability grant granter''),
        storedCapabilityGrantScope (gt_scope grant),
        refuse (gt_actions grant = []) ''Capability grant actions must be a non-empty array.'',
        skip (traverse (\<lambda>a. requireNormalizedText a ''Capability grant action'') (gt_actions grant)),
        refuse (\<not> distinct (gt_actions grant)) ''Capability grant actions must be unique.'',
        all_ok (map storedBound (gt_parameterBounds grant)),
        whenSome (gt_expiresAt grant) (\<lambda>t. skip (requireTimestamp t ''Capability grant expiresAt'')),
        whenSome (gt_maxUses grant) (\<lambda>n. refuse (\<not> safe_integer n \<or> n < 1)
          ''Capability grant maxUses must be a positive integer.''),
        refuse (\<not> safe_integer (gt_usesUsed grant) \<or> gt_usesUsed grant < 0)
          ''Capability grant usesUsed must be a non-negative integer.'',
        whenSome (gt_maxUses grant) (\<lambda>n. refuse (gt_usesUsed grant > n)
          ''Capability grant usesUsed cannot exceed maxUses.''),
        refuse ((gt_revokedAt grant = None) \<noteq> (gt_revokedBy grant = None))
          ''Capability grant revocation requires both revokedAt and revokedBy.'',
        whenSome (gt_revokedAt grant) (\<lambda>t. all_ok
          [skip (requireTimestamp t ''Capability grant revokedAt''),
           whenSome (gt_revokedBy grant) (\<lambda>by. skip (requireNormalizedText by ''Capability grant revokedBy''))]),
        skip (requireTimestamp (gt_createdAt grant) ''Capability grant createdAt''),
        skip (requireTimestamp (gt_updatedAt grant) ''Capability grant updatedAt'')])
     (\<lambda>_. validateCapabilityGrant grant)"

definition same_bounds :: "bounds \<Rightarrow> bounds \<Rightarrow> bool" where
  \<comment> \<open>\<open>isDeepStrictEqual\<close> of two objects does not compare the order of their keys\<close>
  "same_bounds a b \<longleftrightarrow> set a = set b \<and> length a = length b"

definition reservationsAppendOnly :: "string list \<Rightarrow> string list \<Rightarrow> bool" where
  "reservationsAppendOnly existing candidate \<longleftrightarrow>
     (if existing = [] then True
      else if length candidate < length existing then False
      else take (length existing) candidate = existing)"

definition grant_terms_kept :: "capability_grant \<Rightarrow> capability_grant \<Rightarrow> bool" where
  \<comment> \<open>\<open>immutable\<close>\<close>
  "grant_terms_kept existing candidate \<longleftrightarrow>
     gt_id candidate = gt_id existing \<and> gt_taskId candidate = gt_taskId existing
     \<and> gt_granter candidate = gt_granter existing \<and> gt_scope candidate = gt_scope existing
     \<and> gt_actions candidate = gt_actions existing
     \<and> same_bounds (gt_parameterBounds candidate) (gt_parameterBounds existing)
     \<and> gt_expiresAt candidate = gt_expiresAt existing \<and> gt_maxUses candidate = gt_maxUses existing
     \<and> gt_irreversibilityCeiling candidate = gt_irreversibilityCeiling existing
     \<and> gt_createdAt candidate = gt_createdAt existing"

definition isValidCapabilityGrantTransition :: "capability_grant \<Rightarrow> capability_grant \<Rightarrow> bool" where
  "isValidCapabilityGrantTransition existing candidate \<longleftrightarrow>
     (if gt_revokedAt existing \<noteq> None then
        same_bounds (gt_parameterBounds candidate) (gt_parameterBounds existing)
        \<and> candidate\<lparr>gt_parameterBounds := []\<rparr> = existing\<lparr>gt_parameterBounds := []\<rparr>
      else if \<not> grant_terms_kept existing candidate then False
      else if gt_revokedAt candidate \<noteq> None then
        gt_usesUsed candidate = gt_usesUsed existing
        \<and> gt_useReservations candidate = gt_useReservations existing
        \<and> date_le (gt_updatedAt existing) (gt_updatedAt candidate)
      else gt_usesUsed candidate > gt_usesUsed existing
        \<and> reservationsAppendOnly (gt_useReservations existing) (gt_useReservations candidate)
        \<and> date_le (gt_updatedAt existing) (gt_updatedAt candidate))"

subsection \<open>Stored release workflows\<close>

definition storedReleaseWorkflowSource :: "release_source \<Rightarrow> unit result" where
  "storedReleaseWorkflowSource source = all_ok
     [skip (requireNormalizedText (so_owner source) ''Release workflow source repository owner''),
      skip (requireNormalizedText (so_name source) ''Release workflow source repository name''),
      skip (requireNormalizedText (so_commit source) ''Release workflow source commit''),
      whenSome (so_artifact source) (\<lambda>(n, integrity). all_ok
        [skip (requireNormalizedText n ''Release workflow source artifact name''),
         skip (requireNormalizedText integrity ''Release workflow source artifact integrity'')])]"

definition storedParam :: "string \<times> string \<Rightarrow> unit result" where
  "storedParam entry = all_ok
     [skip (requireRecordIdentity (fst entry) ''Release step param''),
      skip (requireNormalizedText (snd entry) ''Release step param'')]"

fun storedPlan :: "string list \<Rightarrow> step_plan list \<Rightarrow> unit result" where
  \<comment> \<open>the loop over the plan with the set \<open>planIds\<close>\<close>
  "storedPlan planIds [] = Inr ()"
| "storedPlan planIds (p # ps) = all_ok
     [skip (requireRecordIdentity (sp_id p) ''Release step id''),
      refuse (sp_id p \<in> set planIds) ''Release workflow plan ids must be unique'',
      skip (requireNormalizedText (sp_idempotencyKey p) ''Release step idempotencyKey''),
      whenSome (sp_params p) (\<lambda>params. all_ok (map storedParam params)),
      storedPlan (sp_id p # planIds) ps]"

definition storedReleaseStep :: "string \<Rightarrow> step_record \<Rightarrow> unit result" where
  "storedReleaseStep planId s = all_ok
     [skip (requireNormalizedText (sr_planId s) ''Release step planId''),
      refuse (sr_planId s \<noteq> planId) ''Release step record planId does not match its key'',
      refuse (\<not> safe_integer (sr_attempts s) \<or> sr_attempts s < 0)
        ''Release step attempts must be a non-negative integer'',
      whenSome (sr_externalId s) (\<lambda>i. skip (requireNormalizedText i ''Release step externalId'')),
      whenSome (sr_identity s) (\<lambda>i. all_ok
        [skip (requireNormalizedText (fst i) ''Release step externalIdentity kind''),
         skip (requireNormalizedText (snd i) ''Release step externalIdentity value'')]),
      all_ok (map (\<lambda>line. skip (requireNormalizedText line ''Release step log'')) (sr_logs s)),
      whenSome (sr_lastAttemptAt s) (\<lambda>t. skip (requireTimestamp t ''Release step lastAttemptAt'')),
      refuse (sr_status s = Step_Running \<and> sr_lastAttemptAt s = None)
        ''Release step running status requires lastAttemptAt'',
      whenSome (sr_terminalAt s) (\<lambda>t. skip (requireTimestamp t ''Release step terminalAt'')),
      refuse (step_done (sr_status s) \<and> sr_terminalAt s = None) ''Release step status requires terminalAt'']"

definition storedReleaseWorkflow :: "release_workflow \<Rightarrow> release_workflow result" where
  "storedReleaseWorkflow w =
     andThen (all_ok
       [skip (requireRecordIdentity (rw_id w) ''Release workflow id''),
        skip (requireRecordIdentity (rw_taskId w) ''Release workflow Task id''),
        skip (validateTaskRecordReference (rw_taskId w) (rw_id w) ReleaseWorkflowKind),
        skip (requireNormalizedText (rw_grantId w) ''Release workflow grantId''),
        storedReleaseWorkflowSource (rw_source w),
        refuse (rw_plan w = []) ''Release workflow plan must be a non-empty array.'',
        storedPlan [] (rw_plan w),
        refuse (list_ex (\<lambda>p. sp_id p \<notin> fst ` set (rw_steps w)) (rw_plan w))
          ''Release workflow step record is missing'',
        refuse (list_ex (\<lambda>k. k \<notin> sp_id ` set (rw_plan w)) (map fst (rw_steps w)))
          ''Release workflow step record has no plan entry'',
        all_ok (map (\<lambda>p. (case step_of w (sp_id p) of
            None \<Rightarrow> throw ''Release step record must be an object'' | Some s \<Rightarrow> storedReleaseStep (sp_id p) s)) (rw_plan w)),
        skip (requireTimestamp (rw_createdAt w) ''Release workflow createdAt''),
        skip (requireTimestamp (rw_updatedAt w) ''Release workflow updatedAt'')])
     (\<lambda>_. validateReleaseWorkflow w)"

definition same_plan_entry :: "step_plan \<Rightarrow> step_plan \<Rightarrow> bool" where
  "same_plan_entry a b \<longleftrightarrow> a\<lparr>sp_params := None\<rparr> = b\<lparr>sp_params := None\<rparr>
     \<and> (case (sp_params a, sp_params b) of
          (None, None) \<Rightarrow> True | (Some x, Some y) \<Rightarrow> set x = set y \<and> length x = length y | _ \<Rightarrow> False)"

fun legal_step_transitions :: "step_status \<Rightarrow> step_status list" where
  "legal_step_transitions Step_Pending = [Step_Running, Step_Skipped, Step_Failed]"
| "legal_step_transitions Step_Running = [Step_Running, Step_Succeeded, Step_Failed, Step_Unknown]"
| "legal_step_transitions Step_Failed = [Step_Running, Step_Succeeded]"
| "legal_step_transitions Step_Unknown = [Step_Running, Step_Succeeded]"
| "legal_step_transitions Step_Succeeded = []"
| "legal_step_transitions Step_Skipped = []"

definition isLegalStepTransition :: "step_status \<Rightarrow> step_status \<Rightarrow> bool" where
  "isLegalStepTransition from to \<longleftrightarrow> from = to \<or> to \<in> set (legal_step_transitions from)"

definition step_may_follow :: "step_record option \<Rightarrow> step_record option \<Rightarrow> bool" where
  \<comment> \<open>the body of the loop over the keys\<close>
  "step_may_follow from to \<longleftrightarrow> (case (from, to) of
     (Some a, Some b) \<Rightarrow> isLegalStepTransition (sr_status a) (sr_status b) \<and> sr_attempts b \<ge> sr_attempts a
   | _ \<Rightarrow> False)"

definition isValidReleaseWorkflowTransition :: "release_workflow \<Rightarrow> release_workflow \<Rightarrow> bool" where
  "isValidReleaseWorkflowTransition existing candidate \<longleftrightarrow>
     (if date_less (rw_updatedAt candidate) (rw_updatedAt existing) then False
      else if rw_source candidate \<noteq> rw_source existing then False
      else if \<not> list_all2 same_plan_entry (rw_plan candidate) (rw_plan existing) then False
      else if length (rw_steps existing) \<noteq> length (rw_steps candidate) then False
      else list_all (\<lambda>key. step_may_follow (step_of existing key) (step_of candidate key)) (map fst (rw_steps existing)))"

subsection \<open>The store\<close>

type_synonym record_key = "string \<times> string"
  \<comment> \<open>Task and record id\<close>

record release_store =
  rs_tasks :: "string list"
  rs_workflows :: "record_key \<Rightarrow> release_workflow option"
  rs_grants :: "record_key \<Rightarrow> capability_grant option"

definition getReleaseWorkflow :: "release_store \<Rightarrow> string \<Rightarrow> string \<Rightarrow> release_workflow option" where
  "getReleaseWorkflow db taskId workflowId = rs_workflows db (taskId, workflowId)"

definition getCapabilityGrant :: "release_store \<Rightarrow> string \<Rightarrow> string \<Rightarrow> capability_grant option" where
  "getCapabilityGrant db taskId grantId = rs_grants db (taskId, grantId)"

definition require_task :: "release_store \<Rightarrow> string \<Rightarrow> unit result" where
  \<comment> \<open>\<open>#requireTask\<close>\<close>
  "require_task db taskId = refuse (taskId \<notin> set (rs_tasks db)) ''Task not found''"

definition put_grant :: "release_store \<Rightarrow> string \<Rightarrow> capability_grant \<Rightarrow> release_store" where
  "put_grant db taskId g = db\<lparr>rs_grants := (rs_grants db)((taskId, gt_id g) := Some g)\<rparr>"

definition put_workflow :: "release_store \<Rightarrow> string \<Rightarrow> release_workflow \<Rightarrow> release_store" where
  "put_workflow db taskId w = db\<lparr>rs_workflows := (rs_workflows db)((taskId, rw_id w) := Some w)\<rparr>"

definition saveCapabilityGrant :: "release_store \<Rightarrow> string \<Rightarrow> capability_grant \<Rightarrow> release_store result" where
  "saveCapabilityGrant db taskId grant =
     andThen (storedCapabilityGrant grant) (\<lambda>stored.
       if gt_taskId stored \<noteq> taskId then throw ''Capability grant belongs to another Task''
       else andThen (require_task db taskId) (\<lambda>_.
         (case getCapabilityGrant db taskId (gt_id stored) of
            None \<Rightarrow>
              if gt_revokedAt stored \<noteq> None then throw ''Capability grant must start unrevoked''
              else if gt_usesUsed stored \<noteq> 0 then throw ''Capability grant must start unused''
              else Inr (put_grant db taskId stored)
          | Some existing \<Rightarrow>
              if \<not> isValidCapabilityGrantTransition existing stored
              then throw ''Capability grant cannot be overwritten''
              else Inr (put_grant db taskId stored))))"

definition saveReleaseWorkflow :: "release_store \<Rightarrow> string \<Rightarrow> release_workflow \<Rightarrow> release_store result" where
  "saveReleaseWorkflow db taskId workflow =
     andThen (storedReleaseWorkflow workflow) (\<lambda>stored.
       if rw_taskId stored \<noteq> taskId then throw ''Release workflow belongs to another Task''
       else andThen (require_task db taskId) (\<lambda>_.
         (case getReleaseWorkflow db taskId (rw_id stored) of
            Some existing \<Rightarrow>
              if \<not> isValidReleaseWorkflowTransition existing stored
              then throw ''Release workflow cannot be overwritten''
              else Inr (put_workflow db taskId stored)
          | None \<Rightarrow> Inr (put_workflow db taskId stored))))"

datatype store_op = SaveGrant string capability_grant | SaveWorkflow string release_workflow

fun store_step :: "release_store \<Rightarrow> store_op \<Rightarrow> release_store result" where
  "store_step db (SaveGrant taskId g) = saveCapabilityGrant db taskId g"
| "store_step db (SaveWorkflow taskId w) = saveReleaseWorkflow db taskId w"

subsection \<open>What a stored workflow is\<close>

definition norm_step :: "step_record \<Rightarrow> bool" where
  "norm_step s \<longleftrightarrow> norm_text (sr_planId s) \<and> (\<forall>i. sr_externalId s = Some i \<longrightarrow> norm_text i)
     \<and> (\<forall>k x. sr_identity s = Some (k, x) \<longrightarrow> norm_text k \<and> norm_text x) \<and> list_all norm_text (sr_logs s)"

definition norm_plan :: "step_plan \<Rightarrow> bool" where
  "norm_plan p \<longleftrightarrow> norm_identity (sp_id p) \<and> norm_text (sp_idempotencyKey p)
     \<and> (\<forall>ps. sp_params p = Some ps \<longrightarrow> list_all (\<lambda>(n, v). norm_identity n \<and> norm_text v) ps)"

definition norm_workflow :: "release_workflow \<Rightarrow> bool" where
  "norm_workflow w \<longleftrightarrow> norm_identity (rw_id w) \<and> norm_identity (rw_taskId w) \<and> norm_text (rw_grantId w)
     \<and> storedReleaseWorkflowSource (rw_source w) = Inr () \<and> list_all norm_plan (rw_plan w)
     \<and> (\<forall>i s. step_of w i = Some s \<longrightarrow> norm_step s)"

lemma normalizeExternalIdentity_eq:
  "normalizeExternalIdentity (k, x) = Inr i \<longleftrightarrow> text_ok k \<and> text_ok x \<and> i = (js_trim k, js_trim x)"
  by (auto simp: normalizeExternalIdentity_def)

lemma stored_step_eq:
  "storedReleaseStep i s = Inr () \<longleftrightarrow> validateStepRecord i s = Inr () \<and> norm_step s"
proof -
  have "isOk (normalizeExternalIdentity j) \<longleftrightarrow> text_ok (fst j) \<and> text_ok (snd j)" for j
    by (cases j) (auto simp: isOk_iff normalizeExternalIdentity_eq)
  then show ?thesis
    by (auto simp: storedReleaseStep_def validateStepRecord_def norm_step_def norm_text_def list_all_iff)
qed

lemma stored_plan_eq:
  "storedPlan ids ps = Inr () \<longleftrightarrow> list_all norm_plan ps \<and> distinct (map sp_id ps) \<and> set ids \<inter> sp_id ` set ps = {}"
proof (induction ps arbitrary: ids)
  case (Cons p ps)
  have "all_ok (map storedParam qs) = Inr () \<longleftrightarrow> list_all (\<lambda>(n, v). norm_identity n \<and> norm_text v) qs" for qs
    by (induction qs) (auto simp: storedParam_def isOk_iff)
  with Cons [of "sp_id p # ids"] show ?case by (auto simp: norm_plan_def isOk_iff)
qed simp

lemma stored_workflow_eq:
  "storedReleaseWorkflow w = Inr w' \<longleftrightarrow> workflow_valid w \<and> norm_workflow w \<and> w' = w"
proof (cases "workflow_valid w")
  case True
  note ids = valid_plan_ids [OF True]
  have refs: "isOk (validateTaskRecordReference (rw_taskId w) (rw_id w) ReleaseWorkflowKind)"
    and dates: "is_date (rw_createdAt w)" "is_date (rw_updatedAt w)"
    using True by (auto simp: workflow_valid_def validateReleaseWorkflow_def)
  obtain plan where "list_all2 (\<lambda>p q. normalizePlanEntry (rw_taskId w) (rw_id w) (plan_like p) = Inr q) (rw_plan w) plan"
    and keys: "\<forall>k \<in> fst ` set (rw_steps w). k \<in> sp_id ` set plan"
    and planned: "\<forall>q \<in> set plan. \<exists>p \<in> set (rw_plan w). sp_id p = sp_id q"
    using valid_plan [OF True] by metis
  have known: "\<exists>p \<in> set (rw_plan w). sp_id p = i" if "step_of w i = Some s" for i s
    using step_of_key [OF that] keys planned by fastforce
  have steps: "(\<forall>p \<in> set (rw_plan w). isOk (case step_of w (sp_id p) of
      None \<Rightarrow> throw ''Release step record must be an object'' | Some s \<Rightarrow> storedReleaseStep (sp_id p) s))
    \<longleftrightarrow> (\<forall>i s. step_of w i = Some s \<longrightarrow> norm_step s)" (is "?l = ?r")
  proof
    assume l: ?l
    show ?r
    proof (intro allI impI)
      fix i s
      assume s: "step_of w i = Some s"
      with known obtain p where "p \<in> set (rw_plan w)" "sp_id p = i" by blast
      with l s show "norm_step s" by (auto simp: isOk_iff stored_step_eq)
    qed
  next
    assume r: ?r
    show ?l
    proof
      fix p
      assume "p \<in> set (rw_plan w)"
      then obtain s where "step_of w (sp_id p) = Some s" "validateStepRecord (sp_id p) s = Inr ()"
        using valid_step [OF True] by blast
      with r show "isOk (case step_of w (sp_id p) of
        None \<Rightarrow> throw ''Release step record must be an object'' | Some s \<Rightarrow> storedReleaseStep (sp_id p) s)"
        by (auto simp: isOk_iff stored_step_eq)
    qed
  qed
  have missing: "\<not> list_ex (\<lambda>p. sp_id p \<notin> fst ` set (rw_steps w)) (rw_plan w)"
    using valid_step [OF True] step_of_key by (metis (no_types, lifting) list_ex_iff)
  have extra: "\<not> list_ex (\<lambda>k. k \<notin> sp_id ` set (rw_plan w)) (map fst (rw_steps w))"
  proof -
    have "k \<in> sp_id ` set (rw_plan w)" if "k \<in> fst ` set (rw_steps w)" for k
      using keys planned that by (metis (no_types, lifting) image_iff)
    then show ?thesis by (auto simp: list_ex_iff)
  qed
  show ?thesis
    using True ids refs dates missing extra steps
    by (auto simp: storedReleaseWorkflow_def norm_workflow_def stored_plan_eq isOk_iff list_all_iff)
qed (simp add: storedReleaseWorkflow_def)

subsection \<open>Operations keep stored workflows stored\<close>

lemma norm_logs: "appendLogs logs extra = Inr logs' \<Longrightarrow> list_all norm_text logs \<Longrightarrow> list_all norm_text logs'"
  by (auto simp: appendLogs_eq list_all_iff split: option.splits)

lemma norm_succeed:
  assumes "succeed r now s = Inr s'" and "norm_step s"
  shows "norm_step s'"
proof -
  from assms(1) obtain i logs where i: "optionally (\<lambda>i. requireText i ''Release step externalId'') (ps_externalId r) = Inr i"
    and logs: "appendLogs (sr_logs s) (ps_logs r) = Inr logs" and s': "s' = succeeded_step s i logs (iso_string now)"
    by (auto simp: succeed_def)
  from i have "\<forall>x. i = Some x \<longrightarrow> norm_text x" by (auto simp: optionally_eq_Inr)
  with assms(2) norm_logs [OF logs] show ?thesis
    by (auto simp: s' succeeded_step_def norm_step_def split: option.splits)
qed

lemma norm_attempt: "attempt_again now s = Inr s' \<Longrightarrow> norm_step s \<Longrightarrow> norm_step s'"
  by (auto simp: attempt_again_def new_attempt_def norm_step_def)

lemma norm_stopped:
  assumes "optionally normalizeExternalIdentity i = Inr j" and "appendLogs (sr_logs s) extra = Inr logs" and "norm_step s"
  shows "norm_step (stopped_step s st j logs t)"
proof -
  have "norm_text k \<and> norm_text x" if "given_identity j s = Some (k, x)" for k x
    using assms(1,3) that
    by (cases i) (auto simp: given_identity_def norm_step_def normalizeExternalIdentity_eq split: option.splits)
  with assms(3) norm_logs [OF assms(2)] show ?thesis by (simp add: stopped_step_def norm_step_def)
qed

lemma norm_skipped: "appendLogs (sr_logs s) extra = Inr logs \<Longrightarrow> norm_step s \<Longrightarrow> norm_step (skipped_step s logs t)"
  by (auto simp: skipped_step_def norm_step_def dest: norm_logs)

lemma norm_assigned:
  "norm_workflow w \<Longrightarrow> norm_step s \<Longrightarrow> norm_workflow (w\<lparr>rw_steps := assign i s (rw_steps w), rw_updatedAt := u\<rparr>)"
  "norm_workflow w \<Longrightarrow> norm_step s \<Longrightarrow> norm_workflow (w\<lparr>rw_steps := assign i s (rw_steps w)\<rparr>)"
  by (auto simp: norm_workflow_def step_of_def map_of_assign split: if_splits)

lemma norm_known: "norm_workflow w \<Longrightarrow> step_of w i = Some s \<Longrightarrow> norm_step s"
  by (simp add: norm_workflow_def)

lemma norm_on_step:
  assumes "on_step w i guard now f = Inr w'" and "norm_workflow w"
    and "\<And>s s'. f s = Inr s' \<Longrightarrow> norm_step s \<Longrightarrow> norm_step s'"
  shows "norm_workflow w'"
  using assms norm_known by (auto simp: on_step_eq intro!: norm_assigned)

lemma release_step_norm:
  assumes "release_step w (op, now) = Inr w'" and n: "norm_workflow w"
  shows "norm_workflow w'"
proof (cases op)
  case (AppendLog i line)
  with assms obtain s logs where s: "step_of w i = Some s"
      and logs: "appendLogs (sr_logs s) (Some [js_trim line]) = Inr logs"
      and w': "w' = w\<lparr>rw_steps := assign i (s\<lparr>sr_logs := logs\<rparr>) (rw_steps w)\<rparr>"
    by (auto simp: appendStepLog_def requireStep_def replaceStep_def split: option.splits)
  have "norm_step (s\<lparr>sr_logs := logs\<rparr>)"
    using norm_known [OF n s] norm_logs [OF logs] by (simp add: norm_step_def)
  with n w' show ?thesis by (simp add: norm_assigned)
next
  case (RebindGrant g)
  with assms show ?thesis by (auto simp: rebindGrant_def norm_workflow_def step_of_def)
next
  case (SkipStep i reason)
  with assms(1) show ?thesis
    by (auto simp: skipStep_def intro: norm_skipped intro!: norm_on_step [OF _ n])
qed (use assms(1) in \<open>auto simp: startStep_def completeStep_def failStep_def markStepUnknown_def confirmStep_def
  confirmFailedStep_def recoverRunningStep_def intro: norm_succeed norm_attempt norm_stopped intro!: norm_on_step [OF _ n]\<close>)

lemma norm_text_join: "norm_text a \<Longrightarrow> norm_text b \<Longrightarrow> norm_text (a @ ''/'' @ b)"
proof -
  assume "norm_text a" and "norm_text b"
  then have t: "js_trim a = a" "js_trim b = b" "a \<noteq> []" "b \<noteq> []" "NUL \<notin> set a" "NUL \<notin> set b"
    by (auto simp: norm_text_def text_ok_def)
  then have "\<not> is_ws (hd (a @ ''/'' @ b))" and "\<not> is_ws (last (a @ ''/'' @ b))"
    using js_trim_ends [of a] js_trim_ends [of b] by auto
  then have "js_trim (a @ ''/'' @ b) = a @ ''/'' @ b" by (intro js_trim_id) simp
  with t show ?thesis by (simp add: norm_text_def text_ok_def NUL_def)
qed

lemma norm_identity_text: "norm_identity s \<Longrightarrow> norm_text s"
  by (simp add: norm_identity_def identity_ok_def norm_text_def)

lemma set_assign: "set (assign k v xs) \<subseteq> insert (k, v) (set xs)"
  by (induction k v xs rule: assign.induct) auto

lemma norm_params:
  "normalizeEachParam done ps = Inr ps' \<Longrightarrow> list_all (\<lambda>(n, v). norm_identity n \<and> norm_text v) done
     \<Longrightarrow> list_all (\<lambda>(n, v). norm_identity n \<and> norm_text v) ps'"
proof (induction "done" ps rule: normalizeEachParam.induct)
  case (2 normalized name "value" rest)
  then have ok: "identity_ok name" "text_ok value"
    and r: "normalizeEachParam (assign (js_trim name) (js_trim value) normalized) rest = Inr ps'"
    by auto
  have "list_all (\<lambda>(n, v). norm_identity n \<and> norm_text v) (assign (js_trim name) (js_trim value) normalized)"
    using set_assign [of "js_trim name" "js_trim value" normalized] 2(3) ok by (fastforce simp: list_all_iff)
  with 2 r ok show ?case by simp
qed simp

lemma norm_source: "normalizeSource source = Inr s \<Longrightarrow> storedReleaseWorkflowSource s = Inr ()"
  by (auto simp: normalizeSource_def storedReleaseWorkflowSource_def optionally_eq_Inr)

lemma norm_entry:
  assumes "normalizePlanEntry t i e = Inr p" and "norm_text t" and "norm_text i"
  shows "norm_plan p"
proof -
  from assms(1) obtain ps where ok: "identity_ok (pn_id e)" and ps: "normalizeParams (pn_params e) = Inr ps"
    and p: "p = \<lparr>sp_id = js_trim (pn_id e), sp_kind = pn_kind e, sp_idempotencyKey = step_key t i (js_trim (pn_id e)),
      sp_params = ps, sp_irreversibility = pn_irreversibility e\<rparr>"
    by (auto simp: normalizePlanEntry_def)
  have "norm_text (step_key t i (js_trim (pn_id e)))"
    using norm_text_join [OF assms(2) norm_text_join [OF assms(3) norm_identity_text [OF normal_identity_trim [OF ok]]]]
    by (simp add: step_key_def)
  moreover have "\<forall>qs. ps = Some qs \<longrightarrow> list_all (\<lambda>(n, v). norm_identity n \<and> norm_text v) qs"
    using ps norm_params [of "[]"] by (auto simp: normalizeParams_def optionally_eq_Inr)
  ultimately show ?thesis using ok by (simp add: p norm_plan_def)
qed

lemma created_stored:
  assumes "createReleaseWorkflow i taskId grantId source plan now = Inr w"
  shows "storedReleaseWorkflow w = Inr w"
proof -
  from assms obtain s entries where s: "normalizeSource source = Inr s"
    and ok: "record_ref_ok taskId i ReleaseWorkflowKind" "text_ok grantId"
    and e: "normalizePlan plan (js_trim taskId) (js_trim i) = Inr entries"
    and w: "rw_id w = js_trim i" "rw_taskId w = js_trim taskId" "rw_grantId w = js_trim grantId" "rw_source w = s"
      "rw_plan w = entries" "rw_steps w = map (\<lambda>e. (sp_id e, pending_step (sp_id e))) entries"
    by (auto simp: createReleaseWorkflow_def)
  have ids: "norm_identity (js_trim i)" "norm_identity (js_trim taskId)"
    using ok(1) by (simp_all add: record_ref_ok_def)
  have "list_all2 (\<lambda>p q. normalizePlanEntry (js_trim taskId) (js_trim i) p = Inr q) plan entries"
    using e by (auto simp: normalizePlan_def traverse_eq_Inr split: if_splits)
  then have plans: "list_all norm_plan entries"
    using ids norm_entry norm_identity_text by (fastforce simp: list_all2_conv_all_nth list_all_length)
  have "norm_step t" if "step_of w k = Some t" for k t
  proof -
    from that obtain p where "p \<in> set entries" "t = pending_step (sp_id p)"
      by (auto simp: step_of_def w dest!: map_of_SomeD)
    with plans show ?thesis by (auto simp: list_all_iff norm_plan_def norm_step_def pending_step_def norm_identity_text)
  qed
  with plans ids ok(2) norm_source [OF s] created_workflow(1) [OF assms] show ?thesis
    by (simp add: stored_workflow_eq norm_workflow_def w)
qed

subsection \<open>Operations are accepted replacements\<close>

lemma moved_follows: "step_moved op s s' \<Longrightarrow> step_may_follow (Some s) (Some s')"
  by (cases op)
    (auto simp: step_moved_def step_config_def step_may_follow_def isLegalStepTransition_def split: if_splits)

lemma same_plan_refl: "same_plan_entry p p"
  by (auto simp: same_plan_entry_def split: option.splits)

lemma release_step_accepted:
  assumes r: "release_step w (op, now) = Inr w'" and t: "date_parse (rw_updatedAt w) = Some t" "t \<le> now"
  shows "isValidReleaseWorkflowTransition w w'"
proof -
  have later: "\<not> date_less (iso_string now) (rw_updatedAt w)" if "valid_date now"
    using t that by (simp add: date_less_def date_parse_iso)
  have plan: "list_all2 same_plan_entry (rw_plan w) (rw_plan w)"
    by (simp add: list_all2_refl same_plan_refl)
  have same: "list_all (\<lambda>k. step_may_follow (step_of w k) (step_of w k)) (map fst (rw_steps w))"
  proof -
    have "step_may_follow (step_of w k) (step_of w k)" if "k \<in> fst ` set (rw_steps w)" for k
    proof -
      from that obtain s where "map_of (rw_steps w) k = Some s"
        by (metis (no_types, lifting) imageE weak_map_of_SomeI prod.collapse)
      then show ?thesis by (simp add: step_may_follow_def isLegalStepTransition_def step_of_def)
    qed
    then show ?thesis by (auto simp: list_all_iff)
  qed
  from release_step_cases(3) [OF r]
  consider (grant) g where "valid_date now" "w' = w\<lparr>rw_grantId := js_trim g, rw_updatedAt := iso_string now\<rparr>"
    | (step) i s s' u where "step_of w i = Some s" "step_moved op s s'"
        "w' = w\<lparr>rw_steps := assign i s' (rw_steps w), rw_updatedAt := u\<rparr>"
        "u = iso_string now \<and> valid_date now \<or> u = rw_updatedAt w"
    by blast
  then show ?thesis
  proof cases
    case grant
    with later plan same show ?thesis by (simp add: isValidReleaseWorkflowTransition_def step_of_def)
  next
    case step
    have "\<not> date_less u (rw_updatedAt w)" using step(4) later by (auto simp: date_less_def split: option.splits)
    moreover have "length (rw_steps w') = length (rw_steps w)"
      using step(3) step_of_key [OF step(1)] keys_assign [of i s' "rw_steps w"]
      by (metis length_map release_workflow.select_convs(6) release_workflow.surjective release_workflow.update_convs(6,8))
    moreover have "list_all (\<lambda>k. step_may_follow (step_of w k) (step_of w' k)) (map fst (rw_steps w))"
      using same step(1) moved_follows [OF step(2)] by (auto simp: list_all_iff step(3) step_of_assign)
    ultimately show ?thesis using plan step(3) by (simp add: isValidReleaseWorkflowTransition_def)
  qed
qed

subsection \<open>Histories of the store\<close>

definition empty_store :: "string list \<Rightarrow> release_store" where
  "empty_store tasks = \<lparr>rs_tasks = tasks, rs_workflows = (\<lambda>_. None), rs_grants = (\<lambda>_. None)\<rparr>"

definition grant_storable :: "capability_grant \<Rightarrow> bool" where
  "grant_storable g \<longleftrightarrow> isOk (storedCapabilityGrant g)"

lemma storedCapabilityGrant_eq: "storedCapabilityGrant g = Inr g' \<longleftrightarrow> grant_storable g \<and> g' = g"
proof -
  have "storedCapabilityGrant g = Inr h \<Longrightarrow> h = g" for h by (simp add: storedCapabilityGrant_def)
  then show ?thesis by (auto simp: grant_storable_def isOk_iff)
qed

lemma storable_valid: "grant_storable g \<Longrightarrow> grant_valid g"
  by (auto simp: grant_storable_def storedCapabilityGrant_def isOk_iff)

definition store_ok :: "release_store \<Rightarrow> bool" where
  "store_ok db \<longleftrightarrow>
     (\<forall>t i w. rs_workflows db (t, i) = Some w \<longrightarrow> storedReleaseWorkflow w = Inr w \<and> rw_taskId w = t \<and> rw_id w = i
        \<and> t \<in> set (rs_tasks db))
     \<and> (\<forall>t i g. rs_grants db (t, i) = Some g \<longrightarrow> grant_storable g \<and> gt_taskId g = t
          \<and> gt_id g = i \<and> t \<in> set (rs_tasks db))"

definition saved_step_le :: "step_record \<Rightarrow> step_record \<Rightarrow> bool" where
  "saved_step_le a b \<longleftrightarrow> sr_attempts a \<le> sr_attempts b \<and> (step_done (sr_status a) \<longrightarrow> sr_status b = sr_status a)"

definition saved_workflow_le :: "release_workflow \<Rightarrow> release_workflow \<Rightarrow> bool" where
  "saved_workflow_le w w' \<longleftrightarrow> rw_source w' = rw_source w \<and> list_all2 same_plan_entry (rw_plan w') (rw_plan w)
     \<and> (\<forall>i s. step_of w i = Some s \<longrightarrow> (\<exists>s'. step_of w' i = Some s' \<and> saved_step_le s s'))"

definition saved_grant_le :: "capability_grant \<Rightarrow> capability_grant \<Rightarrow> bool" where
  "saved_grant_le g g' \<longleftrightarrow> grant_terms_kept g g' \<and> gt_usesUsed g \<le> gt_usesUsed g'
     \<and> (\<exists>ks. gt_useReservations g' = gt_useReservations g @ ks)
     \<and> (gt_revokedAt g \<noteq> None \<longrightarrow> gt_revokedAt g' = gt_revokedAt g \<and> gt_revokedBy g' = gt_revokedBy g
          \<and> gt_usesUsed g' = gt_usesUsed g)"

definition store_le :: "release_store \<Rightarrow> release_store \<Rightarrow> bool" where
  "store_le db db' \<longleftrightarrow> rs_tasks db' = rs_tasks db
     \<and> (\<forall>k w. rs_workflows db k = Some w \<longrightarrow> (\<exists>w'. rs_workflows db' k = Some w' \<and> saved_workflow_le w w'))
     \<and> (\<forall>k g. rs_grants db k = Some g \<longrightarrow> (\<exists>g'. rs_grants db' k = Some g' \<and> saved_grant_le g g'))"

lemma saved_le_refl: "saved_workflow_le w w" "saved_grant_le g g"
  by (simp_all add: saved_workflow_le_def saved_step_le_def saved_grant_le_def grant_terms_kept_def same_bounds_def
        list_all2_refl same_plan_refl)

lemma same_plan_trans: "same_plan_entry a b \<Longrightarrow> same_plan_entry b c \<Longrightarrow> same_plan_entry a c"
  by (auto simp: same_plan_entry_def split: option.splits)

lemma saved_step_le_trans: "saved_step_le a b \<Longrightarrow> saved_step_le b c \<Longrightarrow> saved_step_le a c"
  by (auto simp: saved_step_le_def)

lemma saved_workflow_le_trans:
  assumes "saved_workflow_le a b" and "saved_workflow_le b c"
  shows "saved_workflow_le a c"
proof -
  have "list_all2 same_plan_entry (rw_plan c) (rw_plan a)"
  proof (rule list_all2_trans [OF same_plan_trans])
    show "list_all2 same_plan_entry (rw_plan c) (rw_plan b)" and "list_all2 same_plan_entry (rw_plan b) (rw_plan a)"
      using assms by (simp_all add: saved_workflow_le_def)
  qed
  moreover have "\<exists>s'. step_of c i = Some s' \<and> saved_step_le s s'" if "step_of a i = Some s" for i s
    using assms that unfolding saved_workflow_le_def by (meson saved_step_le_trans)
  ultimately show ?thesis using assms by (simp add: saved_workflow_le_def)
qed

lemma terms_kept_trans: "grant_terms_kept a b \<Longrightarrow> grant_terms_kept b c \<Longrightarrow> grant_terms_kept a c"
  by (auto simp: grant_terms_kept_def same_bounds_def)

lemma saved_grant_le_trans:
  assumes ab: "saved_grant_le a b" and bc: "saved_grant_le b c"
  shows "saved_grant_le a c"
proof -
  have "grant_terms_kept a c" using ab bc terms_kept_trans unfolding saved_grant_le_def by blast
  moreover have "\<exists>ks. gt_useReservations c = gt_useReservations a @ ks"
    using ab bc unfolding saved_grant_le_def by (metis append.assoc)
  moreover have "gt_usesUsed a \<le> gt_usesUsed c" using ab bc by (simp add: saved_grant_le_def)
  moreover have "gt_revokedAt c = gt_revokedAt a \<and> gt_revokedBy c = gt_revokedBy a \<and> gt_usesUsed c = gt_usesUsed a"
    if "gt_revokedAt a \<noteq> None"
    using ab bc that unfolding saved_grant_le_def by metis
  ultimately show ?thesis by (simp add: saved_grant_le_def)
qed

lemma legal_done: "isLegalStepTransition a b \<Longrightarrow> step_done a \<Longrightarrow> b = a"
  by (cases a) (auto simp: isLegalStepTransition_def step_done_def)

lemma accepted_workflow_le: "isValidReleaseWorkflowTransition w w' \<Longrightarrow> saved_workflow_le w w'"
proof -
  assume v: "isValidReleaseWorkflowTransition w w'"
  have "\<exists>s'. step_of w' i = Some s' \<and> saved_step_le s s'" if "step_of w i = Some s" for i s
  proof -
    from v step_of_key [OF that] have "step_may_follow (step_of w i) (step_of w' i)"
      by (auto simp: isValidReleaseWorkflowTransition_def list_all_iff split: if_splits)
    with that show ?thesis
      by (auto simp: step_may_follow_def saved_step_le_def dest: legal_done split: option.splits)
  qed
  with v show ?thesis by (auto simp: saved_workflow_le_def isValidReleaseWorkflowTransition_def split: if_splits)
qed

lemma append_only: "reservationsAppendOnly xs ys \<Longrightarrow> \<exists>ks. ys = xs @ ks"
  unfolding reservationsAppendOnly_def by (metis append_Nil append_take_drop_id)

lemma equal_but_bounds:
  "a\<lparr>gt_parameterBounds := []\<rparr> = b\<lparr>gt_parameterBounds := []\<rparr> \<longleftrightarrow>
     (\<exists>bs. a = b\<lparr>gt_parameterBounds := bs\<rparr>)"
  by (cases a; cases b) auto

lemma accepted_grant_le: "isValidCapabilityGrantTransition g g' \<Longrightarrow> saved_grant_le g g'"
  by (auto simp: isValidCapabilityGrantTransition_def saved_grant_le_def equal_but_bounds grant_terms_kept_def
      dest: append_only split: if_splits)

lemma save_grant_cases:
  "saveCapabilityGrant db taskId g = Inr db' \<longleftrightarrow>
     grant_storable g \<and> gt_taskId g = taskId \<and> taskId \<in> set (rs_tasks db) \<and> db' = put_grant db taskId g
     \<and> (case rs_grants db (taskId, gt_id g) of None \<Rightarrow> gt_revokedAt g = None \<and> gt_usesUsed g = 0
        | Some existing \<Rightarrow> isValidCapabilityGrantTransition existing g)"
  by (auto simp: saveCapabilityGrant_def getCapabilityGrant_def require_task_def storedCapabilityGrant_eq split: option.splits)

lemma save_workflow_cases:
  "saveReleaseWorkflow db taskId w = Inr db' \<longleftrightarrow>
     storedReleaseWorkflow w = Inr w \<and> rw_taskId w = taskId \<and> taskId \<in> set (rs_tasks db) \<and> db' = put_workflow db taskId w
     \<and> (case rs_workflows db (taskId, rw_id w) of None \<Rightarrow> True
        | Some existing \<Rightarrow> isValidReleaseWorkflowTransition existing w)"
  by (auto simp: saveReleaseWorkflow_def getReleaseWorkflow_def require_task_def stored_workflow_eq split: option.splits)

lemma put_grant_facts [simp]:
  "rs_tasks (put_grant db t g) = rs_tasks db" "rs_workflows (put_grant db t g) = rs_workflows db"
  "rs_grants (put_grant db t g) = (rs_grants db)((t, gt_id g) := Some g)"
  by (simp_all add: put_grant_def)

lemma put_workflow_facts [simp]:
  "rs_tasks (put_workflow db t w) = rs_tasks db" "rs_grants (put_workflow db t w) = rs_grants db"
  "rs_workflows (put_workflow db t w) = (rs_workflows db)((t, rw_id w) := Some w)"
  by (simp_all add: put_workflow_def)

lemma store_step_ok: "store_step db op = Inr db' \<Longrightarrow> store_ok db \<Longrightarrow> store_ok db'"
proof (cases op)
  case (SaveGrant t g)
  moreover assume "store_step db op = Inr db'" and "store_ok db"
  ultimately show ?thesis by (auto simp: save_grant_cases store_ok_def)
next
  case (SaveWorkflow t w)
  moreover assume "store_step db op = Inr db'" and "store_ok db"
  ultimately show ?thesis by (auto simp: save_workflow_cases store_ok_def)
qed

lemma store_step_le: "store_step db op = Inr db' \<Longrightarrow> store_le db db'"
proof (cases op)
  case (SaveGrant t g)
  moreover assume "store_step db op = Inr db'"
  ultimately show ?thesis
    by (auto simp: save_grant_cases store_le_def saved_le_refl dest: accepted_grant_le)
next
  case (SaveWorkflow t w)
  moreover assume "store_step db op = Inr db'"
  ultimately show ?thesis
    by (auto simp: save_workflow_cases store_le_def saved_le_refl dest: accepted_workflow_le)
qed

lemma store_le_trans:
  assumes ab: "store_le a b" and bc: "store_le b c"
  shows "store_le a c"
proof -
  have "\<exists>w'. rs_workflows c k = Some w' \<and> saved_workflow_le w w'" if "rs_workflows a k = Some w" for k w
  proof -
    from ab that obtain v where "rs_workflows b k = Some v" "saved_workflow_le w v" unfolding store_le_def by blast
    moreover from bc this(1) obtain u where "rs_workflows c k = Some u" "saved_workflow_le v u"
      unfolding store_le_def by blast
    ultimately show ?thesis using saved_workflow_le_trans by blast
  qed
  moreover have "\<exists>g'. rs_grants c k = Some g' \<and> saved_grant_le g g'" if "rs_grants a k = Some g" for k g
  proof -
    from ab that obtain h where "rs_grants b k = Some h" "saved_grant_le g h" unfolding store_le_def by blast
    moreover from bc this(1) obtain u where "rs_grants c k = Some u" "saved_grant_le h u"
      unfolding store_le_def by blast
    ultimately show ?thesis using saved_grant_le_trans by blast
  qed
  moreover have "rs_tasks c = rs_tasks a" using ab bc by (simp add: store_le_def)
  ultimately show ?thesis by (simp add: store_le_def)
qed

interpretation release_store: step_order store_step store_ok store_le
proof
  show "store_le a a" for a by (simp add: store_le_def saved_le_refl)
  show "store_le a c" if "store_le a b" "store_le b c" for a b c using that by (rule store_le_trans)
qed (auto dest: store_step_ok store_step_le)

lemma empty_store_ok: "store_ok (empty_store tasks)"
  by (simp add: empty_store_def store_ok_def)

lemma reached_store_ok: "run_steps store_step (empty_store tasks) ops = Inr db \<Longrightarrow> store_ok db"
  using release_store.run_inv empty_store_ok by blast

subsection \<open>Uses of a stored grant\<close>

lemma use_storable:
  assumes "recordGrantUse g now key = Inr g'" and "grant_storable g"
  shows "grant_storable g'"
proof -
  have g': "grant_valid g'" "g' = g\<lparr>gt_usesUsed := gt_usesUsed g + 1,
      gt_useReservations := gt_useReservations g @ (case key of None \<Rightarrow> [] | Some k \<Rightarrow> [k]),
      gt_updatedAt := iso_string now\<rparr>" and now: "valid_date now"
    using assms(1) unfolding use_eq by blast+
  have "safe_integer (gt_usesUsed g')" and "0 \<le> gt_usesUsed g'" and "\<forall>n. gt_maxUses g' = Some n \<longrightarrow> gt_usesUsed g' \<le> n"
    using g'(1) by (auto simp: grant_valid_def validateCapabilityGrant_def)
  moreover from this(3) have "\<forall>n. gt_maxUses g = Some n \<longrightarrow> \<not> n \<le> gt_usesUsed g" by (fastforce simp: g'(2))
  ultimately show ?thesis using assms(2) g' now
    by (simp add: grant_storable_def storedCapabilityGrant_def is_date_iso grant_valid_def)
qed

lemma use_revocation: "recordGrantUse g now key = Inr g' \<Longrightarrow> gt_revokedAt g' = gt_revokedAt g \<and> gt_usesUsed g' = gt_usesUsed g + 1"
  by (simp add: use_eq)

lemma use_accepted:
  assumes "recordGrantUse g now key = Inr g'" and "gt_revokedAt g = None"
    and "date_parse (gt_updatedAt g) = Some t" and "t \<le> now"
  shows "isValidCapabilityGrantTransition g g'"
proof -
  from assms(1) have g': "g' = g\<lparr>gt_usesUsed := gt_usesUsed g + 1,
      gt_useReservations := gt_useReservations g @ (case key of None \<Rightarrow> [] | Some k \<Rightarrow> [k]),
      gt_updatedAt := iso_string now\<rparr>" and now: "valid_date now"
    by (simp_all add: use_eq)
  have "date_le (gt_updatedAt g) (iso_string now)" using assms(3,4) now by (simp add: date_le_def date_parse_iso)
  with assms(2) g' show ?thesis
    by (simp add: isValidCapabilityGrantTransition_def grant_terms_kept_def same_bounds_def reservationsAppendOnly_def)
qed

lemma stale_refused:
  assumes "getCapabilityGrant db taskId i = Some a" and "gt_id b = i" and "\<not> isValidCapabilityGrantTransition a b"
  shows "\<not> isOk (saveCapabilityGrant db taskId b)"
  using assms by (auto simp: isOk_iff save_grant_cases getCapabilityGrant_def)

subsection \<open>Properties\<close>

definition sample_release_store :: release_store where
  "sample_release_store = put_workflow (put_grant (empty_store [''t'']) ''t'' sample_grant) ''t'' sample_release"

lemma sample_grant_storable: "grant_storable sample_grant"
  unfolding grant_storable_def by code_simp

lemma sample_store_reached:
  "run_steps store_step (empty_store [''t'']) [SaveGrant ''t'' sample_grant, SaveWorkflow ''t'' sample_release]
     = Inr sample_release_store"
proof -
  have "saveCapabilityGrant (empty_store [''t'']) ''t'' sample_grant = Inr (put_grant (empty_store [''t'']) ''t'' sample_grant)"
    by (simp add: save_grant_cases sample_grant_storable empty_store_def) (simp add: sample_grant_def)
  moreover have "saveReleaseWorkflow (put_grant (empty_store [''t'']) ''t'' sample_grant) ''t'' sample_release
      = Inr sample_release_store"
    using created_stored [OF sample_release_created]
    by (simp add: save_workflow_cases sample_release_store_def empty_store_def) (simp add: sample_release_def)
  ultimately show ?thesis by simp
qed

lemma sample_store_rows:
  "getCapabilityGrant sample_release_store ''t'' ''capability-grant-1'' = Some sample_grant"
  "getReleaseWorkflow sample_release_store ''t'' ''release-workflow-1'' = Some sample_release"
  by (simp_all add: sample_release_store_def getCapabilityGrant_def getReleaseWorkflow_def sample_grant_def
      sample_release_def)

text \<open>
  C9. The store takes what the operations produce: in any store reached from an empty one, when an
  operation on a stored release workflow returns at a time that is not before its last update, saving the
  result succeeds, the workflow read back is the result, and no other record changes.
\<close>

theorem release_operation_saved:
  assumes "run_steps store_step (empty_store tasks) ops = Inr db"
    and "getReleaseWorkflow db taskId i = Some w" and "release_step w (op, now) = Inr w'"
    and "date_parse (rw_updatedAt w) = Some t" and "t \<le> now"
  shows "\<exists>db'. saveReleaseWorkflow db taskId w' = Inr db' \<and> getReleaseWorkflow db' taskId i = Some w'
    \<and> (\<forall>k. k \<noteq> (taskId, i) \<longrightarrow> rs_workflows db' k = rs_workflows db k) \<and> rs_grants db' = rs_grants db"
proof -
  have w: "storedReleaseWorkflow w = Inr w" "rw_taskId w = taskId" "rw_id w = i" "taskId \<in> set (rs_tasks db)"
    using reached_store_ok [OF assms(1)] assms(2) by (auto simp: store_ok_def getReleaseWorkflow_def)
  have le: "workflow_valid w'" "workflow_le w w'" using release_step_le [OF assms(3)] by simp_all
  have "norm_workflow w'"
    using release_step_norm [OF assms(3)] w(1) by (simp add: stored_workflow_eq)
  then have "saveReleaseWorkflow db taskId w' = Inr (put_workflow db taskId w')"
    using w le release_step_accepted [OF assms(3-5)] assms(2)
    by (simp add: save_workflow_cases stored_workflow_eq workflow_le_def getReleaseWorkflow_def)
  with w(3) le(2) show ?thesis
    by (intro exI [of _ "put_workflow db taskId w'"]) (auto simp: getReleaseWorkflow_def workflow_le_def)
qed

theorem release_operation_saved_witness:
  "\<exists>w' db'. release_step sample_release (StartStep ''pr'', 1) = Inr w'
     \<and> saveReleaseWorkflow sample_release_store ''t'' w' = Inr db'"
proof -
  have "isOk (release_step sample_release (StartStep ''pr'', 1))" by code_simp
  then obtain w' where w': "release_step sample_release (StartStep ''pr'', 1) = Inr w'" by (auto simp: isOk_iff)
  have t: "date_parse (rw_updatedAt sample_release) = Some 0" by code_simp
  from release_operation_saved [OF sample_store_reached sample_store_rows(2) w' t] w' show ?thesis by auto
qed

text \<open>
  C16. The store never rewinds: whatever records are offered to it, in any order, a stored workflow keeps its
  source and its plan, the attempts of a step never decrease, and a step that has succeeded or was skipped
  keeps that status; a stored grant keeps its terms, its counter never decreases and never exceeds its
  limit, its reservations are only added to, and a revocation is final.
\<close>

theorem release_store_never_rewinds:
  assumes "run_steps store_step (empty_store tasks) ops1 = Inr db" and "run_steps store_step db ops2 = Inr db'"
  shows "(\<forall>t i w. getReleaseWorkflow db t i = Some w \<longrightarrow> (\<exists>w'. getReleaseWorkflow db' t i = Some w'
        \<and> rw_source w' = rw_source w \<and> list_all2 same_plan_entry (rw_plan w') (rw_plan w)
        \<and> (\<forall>k s. step_of w k = Some s \<longrightarrow> (\<exists>s'. step_of w' k = Some s' \<and> sr_attempts s \<le> sr_attempts s'
             \<and> (sr_status s \<in> {Step_Succeeded, Step_Skipped} \<longrightarrow> sr_status s' = sr_status s)))))
    \<and> (\<forall>t i g. getCapabilityGrant db t i = Some g \<longrightarrow> (\<exists>g'. getCapabilityGrant db' t i = Some g'
        \<and> gt_scope g' = gt_scope g \<and> gt_actions g' = gt_actions g \<and> gt_maxUses g' = gt_maxUses g
        \<and> gt_usesUsed g \<le> gt_usesUsed g' \<and> (\<forall>n. gt_maxUses g = Some n \<longrightarrow> gt_usesUsed g' \<le> n)
        \<and> (\<exists>ks. gt_useReservations g' = gt_useReservations g @ ks) \<and> distinct (gt_useReservations g')
        \<and> (gt_revokedAt g \<noteq> None \<longrightarrow> gt_revokedAt g' = gt_revokedAt g \<and> gt_usesUsed g' = gt_usesUsed g)))"
proof -
  have ok: "store_ok db" by (rule reached_store_ok [OF assms(1)])
  have ok': "store_ok db'" and le: "store_le db db'"
    by (rule release_store.run_inv [OF ok assms(2)], rule release_store.run_le [OF ok assms(2)])
  have w: "\<exists>w'. rs_workflows db' (t, i) = Some w' \<and> saved_workflow_le w w'" if "rs_workflows db (t, i) = Some w" for t i w
    using le that unfolding store_le_def by blast
  have g: "\<exists>g'. rs_grants db' (t, i) = Some g' \<and> saved_grant_le g g' \<and> grant_valid g'" if "rs_grants db (t, i) = Some g" for t i g
    using le that ok' unfolding store_le_def store_ok_def by (meson storable_valid)
  show ?thesis
  proof (intro conjI allI impI)
    fix t i w
    assume "getReleaseWorkflow db t i = Some w"
    with w obtain w' where "rs_workflows db' (t, i) = Some w'" "saved_workflow_le w w'"
      unfolding getReleaseWorkflow_def by blast
    then show "\<exists>w'. getReleaseWorkflow db' t i = Some w'
        \<and> rw_source w' = rw_source w \<and> list_all2 same_plan_entry (rw_plan w') (rw_plan w)
        \<and> (\<forall>k s. step_of w k = Some s \<longrightarrow> (\<exists>s'. step_of w' k = Some s' \<and> sr_attempts s \<le> sr_attempts s'
             \<and> (sr_status s \<in> {Step_Succeeded, Step_Skipped} \<longrightarrow> sr_status s' = sr_status s)))"
      by (simp add: getReleaseWorkflow_def saved_workflow_le_def saved_step_le_def step_done_def)
  next
    fix t i g
    assume "getCapabilityGrant db t i = Some g"
    with g obtain g' where "rs_grants db' (t, i) = Some g'" "saved_grant_le g g'" "grant_valid g'"
      unfolding getCapabilityGrant_def by blast
    with grant_bounds [of g'] show "\<exists>g'. getCapabilityGrant db' t i = Some g'
        \<and> gt_scope g' = gt_scope g \<and> gt_actions g' = gt_actions g \<and> gt_maxUses g' = gt_maxUses g
        \<and> gt_usesUsed g \<le> gt_usesUsed g' \<and> (\<forall>n. gt_maxUses g = Some n \<longrightarrow> gt_usesUsed g' \<le> n)
        \<and> (\<exists>ks. gt_useReservations g' = gt_useReservations g @ ks) \<and> distinct (gt_useReservations g')
        \<and> (gt_revokedAt g \<noteq> None \<longrightarrow> gt_revokedAt g' = gt_revokedAt g \<and> gt_usesUsed g' = gt_usesUsed g)"
      by (simp add: getCapabilityGrant_def saved_grant_le_def grant_terms_kept_def)
  qed
qed

theorem release_store_never_rewinds_witness:
  "\<exists>g'. getCapabilityGrant sample_release_store ''t'' ''capability-grant-1'' = Some g' \<and> gt_usesUsed g' \<le> 2"
proof -
  have "run_steps store_step sample_release_store [] = Inr sample_release_store" by simp
  note this = release_store_never_rewinds [OF sample_store_reached this]
  from this [THEN conjunct2, rule_format, OF sample_store_rows(1)] show ?thesis
    by (auto simp: sample_grant_def)
qed

text \<open>
  C17. A grant cannot be spent twice from one reading: when two writers record a use (or one revokes)
  on the same stored grant, the store takes the first save and refuses the second, so the counter moves
  by exactly the uses that were saved.
\<close>

theorem stale_grant_write_refused:
  assumes "getCapabilityGrant db taskId i = Some g" and "gt_id g = i" and "gt_revokedAt g = None"
    and "recordGrantUse g now1 key1 = Inr a" and "saveCapabilityGrant db taskId a = Inr db1"
  shows "(\<exists>g1. getCapabilityGrant db1 taskId i = Some g1 \<and> gt_usesUsed g1 = gt_usesUsed g + 1)
    \<and> (\<forall>now2 key2 b. recordGrantUse g now2 key2 = Inr b \<longrightarrow> \<not> isOk (saveCapabilityGrant db1 taskId b))
    \<and> (\<forall>actor now2 b. revokeGrant g actor now2 = Inr b \<longrightarrow> \<not> isOk (saveCapabilityGrant db1 taskId b))
    \<and> (\<forall>actor now2 b db2. revokeGrant g actor now2 = Inr b \<longrightarrow> saveCapabilityGrant db taskId b = Inr db2
         \<longrightarrow> \<not> isOk (saveCapabilityGrant db2 taskId a))"
proof (intro conjI allI impI)
  from assms(5) have db1: "db1 = put_grant db taskId a" by (simp add: save_grant_cases)
  have a: "gt_id a = i" "gt_usesUsed a = gt_usesUsed g + 1" "gt_revokedAt a = None"
    using assms(2,3,4) by (simp_all add: use_eq)
  have row: "getCapabilityGrant db1 taskId i = Some a" by (simp add: db1 getCapabilityGrant_def a)
  with a show "\<exists>g1. getCapabilityGrant db1 taskId i = Some g1 \<and> gt_usesUsed g1 = gt_usesUsed g + 1" by simp
  show "\<not> isOk (saveCapabilityGrant db1 taskId b)" if "recordGrantUse g now2 key2 = Inr b" for now2 key2 b
  proof (rule stale_refused [OF row])
    show "gt_id b = i" and "\<not> isValidCapabilityGrantTransition a b"
      using that a assms(2,3) by (simp_all add: use_eq isValidCapabilityGrantTransition_def)
  qed
  show "\<not> isOk (saveCapabilityGrant db1 taskId b)" if "revokeGrant g actor now2 = Inr b" for actor now2 b
  proof (rule stale_refused [OF row])
    note r = revoke_cases [OF that]
    show "gt_id b = i" using r(3) assms(2) by (simp add: grant_le_def)
    show "\<not> isValidCapabilityGrantTransition a b"
      using r(2,4) a by (simp add: isValidCapabilityGrantTransition_def)
  qed
  show "\<not> isOk (saveCapabilityGrant db2 taskId a)"
    if "revokeGrant g actor now2 = Inr b" and "saveCapabilityGrant db taskId b = Inr db2" for actor now2 b db2
  proof (rule stale_refused)
    note r = revoke_cases [OF that(1)]
    have "gt_id b = i" using r(3) assms(2) by (simp add: grant_le_def)
    with that(2) show "getCapabilityGrant db2 taskId i = Some b"
      by (auto simp: save_grant_cases getCapabilityGrant_def)
    show "gt_id a = i" by (rule a)
    show "\<not> isValidCapabilityGrantTransition b a"
      using r(2,4) a by (auto simp: isValidCapabilityGrantTransition_def equal_but_bounds)
  qed
qed

theorem stale_grant_write_refused_witness:
  "\<exists>a db1. recordGrantUse sample_grant 1 (Some ''w/1#1'') = Inr a \<and> saveCapabilityGrant sample_release_store ''t'' a = Inr db1
     \<and> \<not> isOk (saveCapabilityGrant db1 ''t'' a)"
proof -
  obtain a where a: "recordGrantUse sample_grant 1 (Some ''w/1#1'') = Inr a" using sample_grant_use by blast
  have t: "date_parse (gt_updatedAt sample_grant) = Some 0" by code_simp
  have g: "gt_id sample_grant = ''capability-grant-1''" "gt_revokedAt sample_grant = None" "gt_taskId sample_grant = ''t''"
    by (simp_all add: sample_grant_def)
  have "rs_grants sample_release_store (''t'', ''capability-grant-1'') = Some sample_grant"
    using sample_store_rows(1) by (simp add: getCapabilityGrant_def)
  then have save: "saveCapabilityGrant sample_release_store ''t'' a = Inr (put_grant sample_release_store ''t'' a)"
    using use_storable [OF a sample_grant_storable] use_accepted [OF a g(2) t] a g
    by (simp add: save_grant_cases use_eq) (simp add: sample_release_store_def empty_store_def)
  have "\<not> isOk (saveCapabilityGrant (put_grant sample_release_store ''t'' a) ''t'' a)"
    using stale_grant_write_refused [OF sample_store_rows(1) g(1,2) a save] a by blast
  with a save show ?thesis by blast
qed

end
