(* ===== verification/Release_Engine.thy ===== *)
theory Release_Engine
  imports Release_Store
begin

section \<open>The release engine\<close>

text \<open>
  \<open>src/release/releaseWorkflowEngine.ts\<close>: \<open>runReleaseWorkflow\<close> drives a stored workflow from its resume
  cursor.  Every transition is saved before the next call to an external system; a process may die
  between any two of its actions, and a later run resumes from what was saved.

  The world is a parameter: what the clock shows, what other processes write to the store, whether the
  process dies, and what the ports answer, each at the \<open>n\<close>th action, so any behaviour of the environment is
  an instance.  The calls of the ports and their answers are events of a log.  The lock that serializes the
  runs of one workflow (\<open>workflowFileLock.ts\<close>) is not modelled: runs of it happen one after the other, and
  the hypothesis \<open>world_fair\<close> says that no other process writes its record.
\<close>

subsection \<open>Actions\<close>

datatype effect_outcome = Effect_Succeeded | Effect_Failed | Effect_Timeout

record step_effect =
  ef_outcome :: effect_outcome
  ef_externalId :: "string option"
  ef_identity :: "identity option"
  ef_logs :: "string list option"
  ef_error :: "string option"

datatype query_state = Effect_Exists | Effect_Absent | Effect_Unknowable

record step_query =
  qu_state :: query_state
  qu_externalId :: "string option"

datatype engine_event =
    Submitted string int string  \<comment> \<open>step, attempt, grant: \<open>executeStep\<close> is called\<close>
  | Answered string "effect_outcome option"  \<comment> \<open>its outcome; \<open>None\<close> when it threw\<close>
  | Asked string query_state  \<comment> \<open>\<open>queryStepEffect\<close> answered\<close>

record world =
  wd_clock :: "nat \<Rightarrow> date"
  wd_others :: "nat \<Rightarrow> store_op list"
  wd_dies :: "nat \<Rightarrow> bool"
  wd_execute :: "nat \<Rightarrow> step_plan \<Rightarrow> params \<Rightarrow> string + step_effect"
  wd_query :: "nat \<Rightarrow> step_plan \<Rightarrow> identity option \<Rightarrow> step_query result"
  wd_home :: "string option"

record engine =
  en_store :: release_store
  en_log :: "engine_event list"
  en_time :: nat

datatype run_stop = Died | Threw err

type_synonym 'a run = "engine \<Rightarrow> engine \<times> (run_stop + 'a)"

definition returns :: "'a \<Rightarrow> 'a run" where
  "returns x = (\<lambda>s. (s, Inr x))"

definition follow :: "'a run \<Rightarrow> ('a \<Rightarrow> 'b run) \<Rightarrow> 'b run" where
  "follow m f = (\<lambda>s. case m s of (s', Inl e) \<Rightarrow> (s', Inl e) | (s', Inr x) \<Rightarrow> f x s')"

definition of_result :: "'a result \<Rightarrow> 'a run" where
  "of_result r = (\<lambda>s. (s, case r of Inl e \<Rightarrow> Inl (Threw e) | Inr x \<Rightarrow> Inr x))"

definition alive :: "world \<Rightarrow> nat run" where
  \<comment> \<open>the number of the next action, unless the process dies before it\<close>
  "alive wd = (\<lambda>s. (s\<lparr>en_time := Suc (en_time s)\<rparr>, if wd_dies wd (en_time s) then Inl Died else Inr (en_time s)))"

definition emit :: "engine_event \<Rightarrow> unit run" where
  "emit e = (\<lambda>s. (s\<lparr>en_log := en_log s @ [e]\<rparr>, Inr ()))"

definition clock :: "world \<Rightarrow> date run" where
  "clock wd = follow (alive wd) (\<lambda>n. returns (wd_clock wd n))"

fun store_try :: "release_store \<Rightarrow> store_op list \<Rightarrow> release_store" where
  \<comment> \<open>what other processes wrote; a refused write changes nothing\<close>
  "store_try db [] = db"
| "store_try db (op # ops) = store_try (case store_step db op of Inl _ \<Rightarrow> db | Inr db' \<Rightarrow> db') ops"

definition db_action :: "world \<Rightarrow> (release_store \<Rightarrow> release_store \<times> (run_stop + 'a)) \<Rightarrow> 'a run" where
  \<comment> \<open>one call of the store, after what other processes did meanwhile\<close>
  "db_action wd f = follow (alive wd) (\<lambda>n s.
     (case f (store_try (en_store s) (wd_others wd n)) of (db, r) \<Rightarrow> (s\<lparr>en_store := db\<rparr>, r)))"

definition get_grant :: "world \<Rightarrow> string \<Rightarrow> string \<Rightarrow> capability_grant option run" where
  "get_grant wd taskId i = db_action wd (\<lambda>db. (db, Inr (getCapabilityGrant db taskId i)))"

definition get_workflow :: "world \<Rightarrow> string \<Rightarrow> string \<Rightarrow> release_workflow option run" where
  "get_workflow wd taskId i = db_action wd (\<lambda>db. (db, Inr (getReleaseWorkflow db taskId i)))"

definition save_with :: "(release_store \<Rightarrow> release_store result) \<Rightarrow> release_store \<Rightarrow> release_store \<times> (run_stop + unit)" where
  "save_with f db = (case f db of Inl e \<Rightarrow> (db, Inl (Threw e)) | Inr db' \<Rightarrow> (db', Inr ()))"

definition save_grant :: "world \<Rightarrow> string \<Rightarrow> capability_grant \<Rightarrow> unit run" where
  "save_grant wd taskId g = db_action wd (save_with (\<lambda>db. saveCapabilityGrant db taskId g))"

definition save_workflow :: "world \<Rightarrow> string \<Rightarrow> release_workflow \<Rightarrow> unit run" where
  "save_workflow wd taskId w = db_action wd (save_with (\<lambda>db. saveReleaseWorkflow db taskId w))"

definition ask :: "world \<Rightarrow> step_plan \<Rightarrow> identity option \<Rightarrow> step_query run" where
  \<comment> \<open>\<open>ports.queryStepEffect\<close>\<close>
  "ask wd plan identity = follow (alive wd) (\<lambda>n.
     follow (of_result (wd_query wd n plan identity)) (\<lambda>q.
     follow (emit (Asked (sp_id plan) (qu_state q))) (\<lambda>_. returns q)))"

definition submit :: "world \<Rightarrow> step_plan \<Rightarrow> int \<Rightarrow> string \<Rightarrow> params \<Rightarrow> (string + step_effect) run" where
  \<comment> \<open>\<open>ports.executeStep\<close> inside its \<open>try\<close>: the process may die after the call was made\<close>
  "submit wd plan attempt grantId params =
     follow (alive wd) (\<lambda>_.
     follow (emit (Submitted (sp_id plan) attempt grantId)) (\<lambda>_.
     follow (alive wd) (\<lambda>n.
       let r = wd_execute wd n plan params in
         follow (emit (Answered (sp_id plan) (case r of Inl _ \<Rightarrow> None | Inr e \<Rightarrow> Some (ef_outcome e)))) (\<lambda>_. returns r))))"

subsection \<open>Irreversibility, parameters and denials\<close>

fun kind_name :: "release_kind \<Rightarrow> string" where
  "kind_name Pr_Create = ''pr-create-or-reuse''"
| "kind_name Ci_Confirm = ''ci-confirm''"
| "kind_name Merge_Branch = ''merge''"
| "kind_name Version_Tag = ''version-tag''"
| "kind_name Npm_Publish = ''npm-publish''"
| "kind_name Install_Smoke = ''fresh-install-smoke''"
| "kind_name Cli_Update = ''cli-update''"
| "kind_name Controller_Replace = ''controller-replace''"
| "kind_name Project_Migrate = ''project-migrate''"
| "kind_name Post_Verify = ''post-verify''"

definition inherent_irreversibility :: "release_kind \<Rightarrow> irreversibility" where
  \<comment> \<open>\<open>INHERENT_IRREVERSIBILITY\<close>\<close>
  "inherent_irreversibility k = (if k \<in> {Npm_Publish, Version_Tag, Merge_Branch, Controller_Replace, Project_Migrate,
     Cli_Update, Post_Verify} then Irr_Irreversible else Irr_None)"

definition effectiveStepIrreversibility :: "step_plan \<Rightarrow> irreversibility" where
  "effectiveStepIrreversibility plan =
     (let inherent = inherent_irreversibility (sp_kind plan);
          declared = (case sp_irreversibility plan of None \<Rightarrow> Irr_None | Some r \<Rightarrow> r)
      in if irreversibility_rank inherent \<ge> irreversibility_rank declared then inherent else declared)"

definition reference_char :: "char \<Rightarrow> bool" where
  "reference_char c \<longleftrightarrow> is_digit c \<or> CHR ''A'' \<le> c \<and> c \<le> CHR ''Z'' \<or> CHR ''a'' \<le> c \<and> c \<le> CHR ''z'' \<or> c = CHR ''_'' \<or> c = CHR ''-''"

definition external_reference :: "string \<Rightarrow> string option" where
  \<comment> \<open>\<open>^\$externalId:([A-Za-z0-9_-]+)$\<close>\<close>
  "external_reference v =
     (let r = drop 12 v in if take 12 v = ''$externalId:'' \<and> r \<noteq> [] \<and> list_all reference_char r then Some r else None)"

definition resolveParam :: "release_workflow \<Rightarrow> string \<times> string \<Rightarrow> (string \<times> string) result" where
  "resolveParam w entry = (case external_reference (snd entry) of
     None \<Rightarrow> Inr entry
   | Some i \<Rightarrow>
       (case Option.bind (step_of w i) sr_externalId of
          None \<Rightarrow> throw ''Release step param references an unconfirmed step''
        | Some referenced \<Rightarrow> Inr (fst entry, referenced)))"

definition resolveParams :: "release_workflow \<Rightarrow> step_plan \<Rightarrow> params result" where
  "resolveParams w plan = (case sp_params plan of None \<Rightarrow> Inr [] | Some ps \<Rightarrow> traverse (resolveParam w) ps)"

definition repositoryScopeDenial :: "capability_grant \<Rightarrow> release_workflow \<Rightarrow> string option" where
  "repositoryScopeDenial grant w =
     (case sc_repositories (gt_scope grant) of
        None \<Rightarrow> None
      | Some repositories \<Rightarrow>
          if repositories = [] then None
          else if list_ex (\<lambda>r. gr_owner r = so_owner (rw_source w) \<and> gr_name r = so_name (rw_source w)) repositories then None
          else Some ''grant-scope-repository-not-allowed'')"

definition versionTagCheckoutDenial :: "capability_grant \<Rightarrow> step_plan \<Rightarrow> params \<Rightarrow> string option" where
  "versionTagCheckoutDenial grant plan params =
     (if sp_kind plan \<noteq> Version_Tag \<or> \<not> some_items (sc_repositories (gt_scope grant)) then None
      else (case map_of params ''repositoryPath'' of
          None \<Rightarrow> Some ''grant-scope-repository-path-required''
        | Some p \<Rightarrow> if js_trim p = [] then Some ''grant-scope-repository-path-required'' else None))"

definition packageScopeDenial :: "capability_grant \<Rightarrow> step_plan \<Rightarrow> params \<Rightarrow> release_workflow \<Rightarrow> string option" where
  "packageScopeDenial grant plan params w =
     (case sc_packages (gt_scope grant) of
        None \<Rightarrow> None
      | Some packages \<Rightarrow>
          if packages = [] \<or> sp_kind plan \<notin> {Npm_Publish, Install_Smoke} then None
          else let target = (case map_of params ''package'' of
                 None \<Rightarrow> ''@'' @ so_owner (rw_source w) @ ''/'' @ so_name (rw_source w) | Some p \<Rightarrow> p)
               in if target \<in> set packages then None else Some ''grant-scope-package-not-allowed'')"

definition publishArtifactDenial :: "step_plan \<Rightarrow> release_workflow \<Rightarrow> string option" where
  "publishArtifactDenial plan w =
     (if sp_kind plan \<noteq> Npm_Publish then None
      else if so_artifact (rw_source w) = None then Some ''artifact-required'' else None)"

definition projectScopeDenial :: "capability_grant \<Rightarrow> step_plan \<Rightarrow> params \<Rightarrow> string option" where
  "projectScopeDenial grant plan params =
     (case sc_projectIds (gt_scope grant) of
        None \<Rightarrow> None
      | Some projectIds \<Rightarrow>
          if projectIds = [] \<or> sp_kind plan \<noteq> Project_Migrate then None
          else (case map_of params ''project'' of
              None \<Rightarrow> Some ''grant-scope-project-required''
            | Some target \<Rightarrow> if target \<in> set projectIds then None else Some ''grant-scope-project-not-allowed''))"

definition homeScopeDenial :: "capability_grant \<Rightarrow> step_plan \<Rightarrow> string option \<Rightarrow> string option" where
  "homeScopeDenial grant plan home =
     (case sc_homePath (gt_scope grant) of
        None \<Rightarrow> None
      | Some homePath \<Rightarrow>
          if sp_kind plan \<notin> {Cli_Update, Controller_Replace} then None
          else (case home of
              None \<Rightarrow> Some ''grant-scope-home-unverified''
            | Some adapterHome \<Rightarrow> if adapterHome = homePath then None else Some ''grant-scope-home-not-allowed''))"

definition after_digits :: "string \<Rightarrow> string option" where
  \<comment> \<open>\<open>\d+\<close>\<close>
  "after_digits s = (if s = [] \<or> \<not> is_digit (hd s) then None else Some (dropWhile is_digit s))"

definition after_dot :: "string \<Rightarrow> string option" where
  "after_dot s = (if s = [] \<or> hd s \<noteq> CHR ''.'' then None else Some (tl s))"

definition version_suffix :: "string \<Rightarrow> bool" where
  \<comment> \<open>\<open>(?:[-+][0-9A-Za-z.-]+)?$\<close>\<close>
  "version_suffix s \<longleftrightarrow> s = [] \<or> (hd s \<in> {CHR ''-'', CHR ''+''} \<and> tl s \<noteq> []
     \<and> list_all (\<lambda>c. reference_char c \<and> c \<noteq> CHR ''_'' \<or> c = CHR ''.'') (tl s))"

definition isConcreteVersion :: "string \<Rightarrow> bool" where
  "isConcreteVersion value \<longleftrightarrow>
     (case Option.bind (after_digits (js_trim value)) (\<lambda>s. Option.bind (after_dot s) (\<lambda>s.
        Option.bind (after_digits s) (\<lambda>s. Option.bind (after_dot s) after_digits))) of
        None \<Rightarrow> False | Some rest \<Rightarrow> version_suffix rest)"

definition cliUpdateVersionDenial :: "step_plan \<Rightarrow> params \<Rightarrow> string option" where
  "cliUpdateVersionDenial plan params =
     (if sp_kind plan \<noteq> Cli_Update then None
      else (case map_of params ''version'' of
          None \<Rightarrow> Some ''cli-update-version-required''
        | Some version \<Rightarrow> if isConcreteVersion version then None else Some ''cli-update-version-required''))"

fun first_denial :: "string option list \<Rightarrow> string option" where
  "first_denial [] = None"
| "first_denial (None # ds) = first_denial ds"
| "first_denial (Some d # ds) = Some d"

definition decision_denial :: "grant_decision \<Rightarrow> bool \<Rightarrow> string option" where
  \<comment> \<open>a recognized use only exempts from the exhaustion of the grant\<close>
  "decision_denial decision useAlreadyConsumed = (case decision of
     Allowed \<Rightarrow> None
   | Denied reason \<Rightarrow> if reason \<noteq> ''grant-uses-exhausted'' \<or> \<not> useAlreadyConsumed then Some reason else None)"

definition step_request :: "step_plan \<Rightarrow> params \<Rightarrow> grant_request" where
  "step_request plan params = \<lparr>rq_action = kind_name (sp_kind plan), rq_params = Some params,
     rq_irreversibility = Some (effectiveStepIrreversibility plan)\<rparr>"

definition denial ::
    "world \<Rightarrow> capability_grant \<Rightarrow> release_workflow \<Rightarrow> step_plan \<Rightarrow> params \<Rightarrow> grant_decision \<Rightarrow> bool \<Rightarrow> string option" where
  \<comment> \<open>the checks of a submission in their order\<close>
  "denial wd grant w plan params decision useAlreadyConsumed = first_denial
     [decision_denial decision useAlreadyConsumed,
      repositoryScopeDenial grant w,
      versionTagCheckoutDenial grant plan params,
      packageScopeDenial grant plan params w,
      publishArtifactDenial plan w,
      projectScopeDenial grant plan params,
      homeScopeDenial grant plan (wd_home wd),
      cliUpdateVersionDenial plan params]"

subsection \<open>Uses of the grant\<close>

definition attemptReservationKey :: "string \<Rightarrow> string \<Rightarrow> int \<Rightarrow> string" where
  "attemptReservationKey workflowId stepId n = workflowId @ ''/'' @ stepId @ ''#'' @ int_str n"

definition grantUseRecognized :: "capability_grant \<Rightarrow> string \<Rightarrow> string \<Rightarrow> int \<Rightarrow> bool" where
  "grantUseRecognized grant workflowId stepId n \<longleftrightarrow> attemptReservationKey workflowId stepId n \<in> set (gt_useReservations grant)"

definition caught :: "'a run \<Rightarrow> (err + 'a) run" where
  \<comment> \<open>\<open>try\<close>: an error is caught, the death of the process is not\<close>
  "caught m = (\<lambda>s. case m s of (s', Inl (Threw e)) \<Rightarrow> (s', Inr (Inl e)) | (s', Inl Died) \<Rightarrow> (s', Inl Died)
     | (s', Inr x) \<Rightarrow> (s', Inr (Inr x)))"

fun consume_attempts ::
    "world \<Rightarrow> string \<Rightarrow> string \<Rightarrow> date \<Rightarrow> string \<Rightarrow> nat \<Rightarrow> capability_grant \<Rightarrow> bool run" where
  \<comment> \<open>the compare-and-swap loop; the value is \<open>exhausted\<close>\<close>
  "consume_attempts wd taskId grantId now key 0 current = of_result (throw ''Grant use CAS retries exhausted'')"
| "consume_attempts wd taskId grantId now key (Suc k) current =
     (case recordGrantUse current now (Some key) of
        Inl _ \<Rightarrow> returns True
      | Inr next \<Rightarrow>
          follow (caught (save_grant wd taskId next)) (\<lambda>r. (case r of
            Inr _ \<Rightarrow> returns False
          | Inl e \<Rightarrow>
              follow (get_grant wd taskId grantId) (\<lambda>found. (case found of
                None \<Rightarrow> of_result (Inl e)
              | Some fresh \<Rightarrow>
                  if key \<in> set (gt_useReservations fresh) then of_result (Inl e)
                  else if gt_usesUsed fresh = gt_usesUsed current then of_result (Inl e)
                  else consume_attempts wd taskId grantId now key k fresh)))))"

definition consumeGrantUse :: "world \<Rightarrow> string \<Rightarrow> capability_grant \<Rightarrow> date \<Rightarrow> string \<Rightarrow> bool run" where
  "consumeGrantUse wd taskId grant now key = consume_attempts wd taskId (gt_id grant) now key 8 grant"

subsection \<open>One pass of the loop\<close>

datatype outcome = Run_Succeeded | Run_Failed | Run_Unknown | Run_Unauthorized | Run_Unconfirmed | Run_Out_Of_Budget

record run_result =
  rr_workflow :: release_workflow
  rr_status :: workflow_state
  rr_outcome :: outcome
  rr_stopReason :: "string option"
  rr_attempted :: "string list"

datatype pass = Advanced release_workflow "string list" | Finished run_result

definition finish_result :: "release_workflow \<Rightarrow> outcome \<Rightarrow> string option \<Rightarrow> string list \<Rightarrow> run_result run" where
  "finish_result w outcome stopReason attempted =
     of_result (andThen (workflowStatus w) (\<lambda>status. Inr \<lparr>rr_workflow = w, rr_status = status, rr_outcome = outcome,
       rr_stopReason = stopReason, rr_attempted = attempted\<rparr>))"

definition stop_with :: "release_workflow \<Rightarrow> outcome \<Rightarrow> string option \<Rightarrow> string list \<Rightarrow> pass run" where
  \<comment> \<open>\<open>return finish(...)\<close> inside the loop\<close>
  "stop_with w outcome stopReason attempted =
     follow (finish_result w outcome stopReason attempted) (\<lambda>r. returns (Finished r))"

definition op_save :: "world \<Rightarrow> string \<Rightarrow> release_workflow result \<Rightarrow> release_workflow run" where
  \<comment> \<open>\<open>workflow = op(workflow, ...); store.saveReleaseWorkflow(taskId, workflow)\<close>\<close>
  "op_save wd taskId r = follow (of_result r) (\<lambda>w. follow (save_workflow wd taskId w) (\<lambda>_. returns w))"

definition with_logs :: "string option \<Rightarrow> string list option \<Rightarrow> step_result" where
  "with_logs externalId logs = \<lparr>ps_externalId = externalId, ps_identity = None, ps_logs = logs\<rparr>"

definition confirm_step ::
    "release_workflow \<Rightarrow> string \<Rightarrow> step_status \<Rightarrow> step_query \<Rightarrow> string \<Rightarrow> date \<Rightarrow> release_workflow result" where
  \<comment> \<open>the query proved that the effect exists\<close>
  "confirm_step w cursor status q what now =
     (let r = with_logs (qu_externalId q) (Some [''confirmed by authoritative query: '' @ what])
      in if status = Step_Unknown then confirmStep w cursor r now
         else if status = Step_Failed then confirmFailedStep w cursor r now
         else completeStep w cursor r now)"

datatype prepared = Confirmed release_workflow | Halted outcome string | Proceed release_workflow bool

definition resolve_by_identity ::
    "world \<Rightarrow> string \<Rightarrow> release_workflow \<Rightarrow> step_plan \<Rightarrow> step_record \<Rightarrow> identity \<Rightarrow> date \<Rightarrow> prepared run" where
  "resolve_by_identity wd taskId w plan record identity now =
     follow (ask wd plan (Some identity)) (\<lambda>q. (case qu_state q of
       Effect_Exists \<Rightarrow>
         follow (op_save wd taskId (confirm_step w (sp_id plan) (sr_status record) q (fst identity @ ''='' @ snd identity) now))
           (\<lambda>w'. returns (Confirmed w'))
     | Effect_Unknowable \<Rightarrow> returns (Halted Run_Unknown (''unknown:'' @ sp_id plan))
     | Effect_Absent \<Rightarrow>
         if sr_status record = Step_Running
         then follow (op_save wd taskId (recoverRunningStep w (sp_id plan) now)) (\<lambda>w'. returns (Proceed w' False))
         else returns (Proceed w False)))"

definition resume_running ::
    "world \<Rightarrow> string \<Rightarrow> string \<Rightarrow> release_workflow \<Rightarrow> step_plan \<Rightarrow> step_record \<Rightarrow> date \<Rightarrow> prepared run" where
  \<comment> \<open>a running step without an identity\<close>
  "resume_running wd taskId workflowId w plan record now =
     follow (get_grant wd taskId (rw_grantId w)) (\<lambda>resumeGrant.
       let useRecognized = (case resumeGrant of None \<Rightarrow> False
             | Some g \<Rightarrow> grantUseRecognized g workflowId (sp_id plan) (sr_attempts record))
       in if effectiveStepIrreversibility plan = Irr_Irreversible
          then follow (ask wd plan None) (\<lambda>q. (case qu_state q of
              Effect_Exists \<Rightarrow>
                follow (op_save wd taskId (confirm_step w (sp_id plan) Step_Running q (kind_name (sp_kind plan)) now))
                  (\<lambda>w'. returns (Confirmed w'))
            | Effect_Unknowable \<Rightarrow> returns (Halted Run_Unconfirmed (''unconfirmed:'' @ sp_id plan))
            | Effect_Absent \<Rightarrow>
                follow (op_save wd taskId (recoverRunningStep w (sp_id plan) now)) (\<lambda>w'. returns (Proceed w' useRecognized))))
          else returns (Proceed w useRecognized))"

definition prepare_step ::
    "world \<Rightarrow> string \<Rightarrow> string \<Rightarrow> release_workflow \<Rightarrow> step_plan \<Rightarrow> step_record \<Rightarrow> date \<Rightarrow> prepared run" where
  "prepare_step wd taskId workflowId w plan record now =
     (if sr_status record \<in> {Step_Unknown, Step_Running, Step_Failed} then
        (case sr_identity record of
           Some identity \<Rightarrow> resolve_by_identity wd taskId w plan record identity now
         | None \<Rightarrow>
             if sr_status record = Step_Unknown then returns (Halted Run_Unconfirmed (''unconfirmed:'' @ sp_id plan))
             else if sr_status record = Step_Running then resume_running wd taskId workflowId w plan record now
             else returns (Proceed w False))
      else returns (Proceed w False))"

definition deny ::
    "world \<Rightarrow> string \<Rightarrow> release_workflow \<Rightarrow> string \<Rightarrow> date \<Rightarrow> string \<Rightarrow> outcome \<Rightarrow> string \<Rightarrow> string list \<Rightarrow> pass run" where
  \<comment> \<open>a pending step records the denial on itself: started and failed in one save\<close>
  "deny wd taskId w cursor now line outcome stopReason attempted =
     follow (if step_status_of w cursor = Some Step_Pending
             then op_save wd taskId (andThen (startStep w cursor now) (\<lambda>w1. failStep w1 cursor (with_logs None (Some [line])) now))
             else returns w)
       (\<lambda>w'. stop_with w' outcome (Some stopReason) attempted)"

definition prior_confirmed :: "release_workflow \<Rightarrow> string \<Rightarrow> bool" where
  "prior_confirmed w cursor \<longleftrightarrow>
     list_all (\<lambda>e. step_status_of w (sp_id e) = Some Step_Succeeded) (takeWhile (\<lambda>e. sp_id e \<noteq> cursor) (rw_plan w))"

definition settle_effect ::
    "world \<Rightarrow> string \<Rightarrow> release_workflow \<Rightarrow> string \<Rightarrow> step_effect \<Rightarrow> date \<Rightarrow> string list \<Rightarrow> pass run" where
  "settle_effect wd taskId w cursor effect now attempted =
     (let logs = (case ef_logs effect of None \<Rightarrow> [] | Some ls \<Rightarrow> ls) in
      case ef_outcome effect of
        Effect_Succeeded \<Rightarrow>
          follow (op_save wd taskId (completeStep w cursor (with_logs (ef_externalId effect) (ef_logs effect)) now))
            (\<lambda>w'. returns (Advanced w' attempted))
      | Effect_Failed \<Rightarrow>
          follow (op_save wd taskId (failStep w cursor \<lparr>ps_externalId = None, ps_identity = ef_identity effect,
              ps_logs = Some (logs @ (case ef_error effect of None \<Rightarrow> [] | Some e \<Rightarrow> [''error: '' @ e]))\<rparr> now))
            (\<lambda>w'. stop_with w' Run_Failed (Some (''failed:'' @ cursor)) attempted)
      | Effect_Timeout \<Rightarrow>
          (case ef_identity effect of
             None \<Rightarrow>
               follow (op_save wd taskId (markStepUnknown w cursor
                   (with_logs None (Some (logs @ [''timeout without external identity'']))) now))
                 (\<lambda>w'. stop_with w' Run_Unknown (Some (''unknown:'' @ cursor)) attempted)
           | Some identity \<Rightarrow>
               follow (op_save wd taskId (markStepUnknown w cursor
                   \<lparr>ps_externalId = None, ps_identity = Some identity, ps_logs = ef_logs effect\<rparr> now))
                 (\<lambda>w'. stop_with w' Run_Unknown (Some (''unknown:'' @ cursor)) attempted)))"

definition perform ::
    "world \<Rightarrow> string \<Rightarrow> release_workflow \<Rightarrow> step_plan \<Rightarrow> int \<Rightarrow> params \<Rightarrow> string list \<Rightarrow> pass run" where
  \<comment> \<open>\<open>executeStep\<close> and what becomes of its result; a thrown error is recorded and thrown again\<close>
  "perform wd taskId w plan n params attempted =
     follow (submit wd plan n (rw_grantId w) params) (\<lambda>r. (case r of
       Inl message \<Rightarrow>
         follow (clock wd) (\<lambda>crashNow.
           let logs = with_logs None (Some [''executeStep crashed: '' @ message]) in
           follow (op_save wd taskId
             (if effectiveStepIrreversibility plan = Irr_Irreversible then markStepUnknown w (sp_id plan) logs crashNow
              else failStep w (sp_id plan) logs crashNow))
             (\<lambda>_. of_result (throw message)))
     | Inr effect \<Rightarrow>
         follow (clock wd) (\<lambda>effectNow. settle_effect wd taskId w (sp_id plan) effect effectNow attempted)))"

definition attempts_of :: "release_workflow \<Rightarrow> string \<Rightarrow> int" where
  "attempts_of w i = (case step_of w i of None \<Rightarrow> 0 | Some s \<Rightarrow> sr_attempts s)"

definition launch ::
    "world \<Rightarrow> string \<Rightarrow> string \<Rightarrow> release_workflow \<Rightarrow> step_plan \<Rightarrow> date \<Rightarrow> date \<Rightarrow> capability_grant \<Rightarrow> params
       \<Rightarrow> bool \<Rightarrow> bool \<Rightarrow> bool \<Rightarrow> string list \<Rightarrow> pass run" where
  \<comment> \<open>the running state is saved before the use is recorded, the use before the submission\<close>
  "launch wd taskId workflowId w plan now grantNow grant params wasRunning recheckGrantUses useAlreadyConsumed attempted =
     follow (if wasRunning then returns w else op_save wd taskId (startStep w (sp_id plan) now)) (\<lambda>w1.
     let n = attempts_of w1 (sp_id plan) in
     follow (if (\<not> wasRunning \<or> recheckGrantUses) \<and> \<not> useAlreadyConsumed
             then consumeGrantUse wd taskId grant grantNow (attemptReservationKey workflowId (sp_id plan) n)
             else returns False) (\<lambda>exhausted.
       if exhausted
       then follow (op_save wd taskId (failStep w1 (sp_id plan) (with_logs None (Some [''unauthorized: grant-uses-exhausted''])) now))
              (\<lambda>w2. stop_with w2 Run_Unauthorized (Some ''unauthorized:grant-uses-exhausted'') attempted)
       else perform wd taskId w1 plan n params (attempted @ [sp_id plan])))"

definition authorize_and_submit ::
    "world \<Rightarrow> string \<Rightarrow> string \<Rightarrow> release_workflow \<Rightarrow> step_plan \<Rightarrow> step_record \<Rightarrow> date \<Rightarrow> bool \<Rightarrow> string list \<Rightarrow> pass run" where
  "authorize_and_submit wd taskId workflowId w plan record now recognizedPriorUse attempted =
     follow (clock wd) (\<lambda>grantNow.
     let wasRunning = (step_status_of w (sp_id plan) = Some Step_Running);
         recheckGrantUses = (wasRunning \<and> sr_identity record = None) in
     follow (get_grant wd taskId (rw_grantId w)) (\<lambda>found. (case found of
       None \<Rightarrow> stop_with w Run_Unauthorized (Some ''unauthorized:grant-missing'') attempted
     | Some grant \<Rightarrow>
         follow (of_result (resolveParams w plan)) (\<lambda>params.
         follow (of_result (checkGrant grant (step_request plan params) grantNow (wasRunning \<and> \<not> recheckGrantUses))) (\<lambda>decision.
           (case denial wd grant w plan params decision recognizedPriorUse of
              Some reason \<Rightarrow>
                deny wd taskId w (sp_id plan) now (''unauthorized: '' @ reason) Run_Unauthorized (''unauthorized:'' @ reason) attempted
            | None \<Rightarrow>
                if effectiveStepIrreversibility plan = Irr_Irreversible \<and> \<not> prior_confirmed w (sp_id plan)
                then deny wd taskId w (sp_id plan) now ''prerequisite-not-confirmed'' Run_Failed ''prerequisite-not-confirmed'' attempted
                else launch wd taskId workflowId w plan now grantNow grant params wasRunning recheckGrantUses recognizedPriorUse
                       attempted))))))"

definition requirePlan :: "release_workflow \<Rightarrow> string \<Rightarrow> step_plan result" where
  "requirePlan w stepId = (case find (\<lambda>e. sp_id e = stepId) (rw_plan w) of
     None \<Rightarrow> throw ''Release workflow step is not in the plan'' | Some plan \<Rightarrow> Inr plan)"

definition run_pass :: "world \<Rightarrow> string \<Rightarrow> string \<Rightarrow> release_workflow \<Rightarrow> string list \<Rightarrow> pass run" where
  "run_pass wd taskId workflowId w attempted =
     follow (of_result (resumeCursor w)) (\<lambda>found. (case found of
       None \<Rightarrow> stop_with w Run_Succeeded None attempted
     | Some cursor \<Rightarrow>
         follow (of_result (requirePlan w cursor)) (\<lambda>plan.
         follow (of_result (requireStep w cursor)) (\<lambda>record.
         follow (clock wd) (\<lambda>now.
         follow (prepare_step wd taskId workflowId w plan record now) (\<lambda>p. (case p of
           Confirmed w' \<Rightarrow> returns (Advanced w' attempted)
         | Halted outcome reason \<Rightarrow> stop_with w outcome (Some reason) attempted
         | Proceed w' recognized \<Rightarrow> authorize_and_submit wd taskId workflowId w' plan record now recognized attempted)))))))"

fun run_loop :: "world \<Rightarrow> string \<Rightarrow> string \<Rightarrow> nat \<Rightarrow> release_workflow \<Rightarrow> string list \<Rightarrow> run_result run" where
  "run_loop wd taskId workflowId 0 w attempted =
     follow (of_result (resumeCursor w)) (\<lambda>remaining. (case remaining of
       None \<Rightarrow> finish_result w Run_Succeeded None attempted
     | Some i \<Rightarrow> finish_result w Run_Out_Of_Budget (Some (''budget-exhausted:'' @ i)) attempted))"
| "run_loop wd taskId workflowId (Suc budget) w attempted =
     follow (run_pass wd taskId workflowId w attempted) (\<lambda>p. (case p of
       Finished r \<Rightarrow> returns r
     | Advanced w' attempted' \<Rightarrow> run_loop wd taskId workflowId budget w' attempted'))"

record run_options =
  ro_maxSteps :: "nat option"
  ro_grantId :: "string option"

definition runReleaseWorkflow :: "world \<Rightarrow> string \<Rightarrow> string \<Rightarrow> run_options \<Rightarrow> run_result run" where
  "runReleaseWorkflow wd taskId workflowId options =
     follow (get_workflow wd taskId workflowId) (\<lambda>initial. (case initial of
       None \<Rightarrow> of_result (throw ''Release workflow not found'')
     | Some w \<Rightarrow>
         follow (case ro_grantId options of
             None \<Rightarrow> returns w
           | Some grantId \<Rightarrow>
               if grantId = rw_grantId w then returns w
               else follow (clock wd) (\<lambda>now. op_save wd taskId (rebindGrant w grantId now))) (\<lambda>w'.
         run_loop wd taskId workflowId (case ro_maxSteps options of None \<Rightarrow> 100 | Some n \<Rightarrow> n) w' [])))"

fun engine_runs :: "world \<Rightarrow> string \<Rightarrow> string \<Rightarrow> engine \<Rightarrow> run_options list \<Rightarrow> engine" where
  \<comment> \<open>any number of runs, one after the other, whatever each ended with\<close>
  "engine_runs wd taskId workflowId s [] = s"
| "engine_runs wd taskId workflowId s (options # rest) =
     engine_runs wd taskId workflowId (fst (runReleaseWorkflow wd taskId workflowId options s)) rest"

end
