(* ===== verification/Release_Engine_Laws.thy ===== *)
theory Release_Engine_Laws
  imports Release_Engine
begin

section \<open>What the release engine guarantees\<close>

text \<open>
  An invariant of the store and the log of port calls, kept by every action of a run, also when the
  process dies or an error is thrown in the middle.  A step is \<open>opened\<close> in a log when it was submitted and
  since then neither an answer said that it failed nor a query that its effect is absent.  The proofs go
  through the text of the engine with rules for preconditions and postconditions.
\<close>

subsection \<open>Rules\<close>

definition spec :: "(engine \<Rightarrow> bool) \<Rightarrow> 'a run \<Rightarrow> ('a \<Rightarrow> engine \<Rightarrow> bool) \<Rightarrow> (engine \<Rightarrow> bool) \<Rightarrow> bool" where
  \<comment> \<open>from \<open>P\<close>, a value comes with \<open>Q\<close>, and an early end with \<open>E\<close>\<close>
  "spec P m Q E \<longleftrightarrow> (\<forall>s. P s \<longrightarrow> (case m s of (s', Inl _) \<Rightarrow> E s' | (s', Inr x) \<Rightarrow> Q x s'))"

lemma spec_returns: "(\<And>s. P s \<Longrightarrow> Q x s) \<Longrightarrow> spec P (returns x) Q E"
  by (simp add: spec_def returns_def)

lemma spec_follow:
  assumes "spec P m R E" and "\<And>x. spec (R x) (f x) Q E"
  shows "spec P (follow m f) Q E"
  unfolding spec_def
proof (intro allI impI)
  fix s
  assume "P s"
  obtain s' r where m: "m s = (s', r)" by (cases "m s")
  show "case follow m f s of (s', Inl _) \<Rightarrow> E s' | (s', Inr x) \<Rightarrow> Q x s'"
  proof (cases r)
    case (Inl e)
    with assms(1) \<open>P s\<close> m show ?thesis by (auto simp: spec_def follow_def)
  next
    case (Inr x)
    with assms(1) \<open>P s\<close> m have "R x s'" by (auto simp: spec_def)
    with assms(2) [of x] m Inr show ?thesis by (simp add: spec_def follow_def)
  qed
qed

lemma spec_result:
  "(\<And>s. P s \<Longrightarrow> E s) \<Longrightarrow> (\<And>s x. P s \<Longrightarrow> r = Inr x \<Longrightarrow> Q x s) \<Longrightarrow> spec P (of_result r) Q E"
  by (auto simp: spec_def of_result_def split: sum.splits)

lemma spec_pre: "spec P' m Q E \<Longrightarrow> (\<And>s. P s \<Longrightarrow> P' s) \<Longrightarrow> spec P m Q E"
  by (auto simp: spec_def)

lemma spec_post:
  assumes "spec P m Q' E" and "\<And>x s. Q' x s \<Longrightarrow> Q x s"
  shows "spec P m Q E"
  using assms by (fastforce simp: spec_def split: prod.splits sum.splits)

lemma spec_pure: "(A \<Longrightarrow> spec P m Q E) \<Longrightarrow> spec (\<lambda>s. A \<and> P s) m Q E"
  by (auto simp: spec_def)

lemma spec_run_end:
  assumes "spec P m Q E" and "P s" and "\<And>x s. Q x s \<Longrightarrow> E s"
  shows "E (fst (m s))"
proof -
  obtain s' r where "m s = (s', r)" by (cases "m s")
  with assms show ?thesis by (cases r) (auto simp: spec_def)
qed

lemma spec_alive: "(\<And>s n. P s \<Longrightarrow> P (s\<lparr>en_time := n\<rparr>)) \<Longrightarrow> (\<And>s. P s \<Longrightarrow> E s) \<Longrightarrow> spec P (alive wd) (\<lambda>_. P) E"
  by (auto simp: spec_def alive_def)

subsection \<open>Reading the log\<close>

fun opened :: "string \<Rightarrow> bool \<Rightarrow> engine_event list \<Rightarrow> bool" where
  \<comment> \<open>from the flag \<open>b\<close>: a submission of the step whose effect is not settled\<close>
  "opened i b [] = b"
| "opened i b (Submitted j n g # es) = opened i (b \<or> j = i) es"
| "opened i b (Answered j r # es) = opened i (b \<and> \<not> (j = i \<and> r = Some Effect_Failed)) es"
| "opened i b (Asked j q # es) = opened i (b \<and> \<not> (j = i \<and> q = Effect_Absent)) es"

fun blind :: "string \<Rightarrow> bool \<Rightarrow> engine_event list \<Rightarrow> bool" where
  \<comment> \<open>some submission of the step happens while it is opened\<close>
  "blind i b [] = False"
| "blind i b (Submitted j n g # es) = (j = i \<and> b \<or> blind i (b \<or> j = i) es)"
| "blind i b (Answered j r # es) = blind i (b \<and> \<not> (j = i \<and> r = Some Effect_Failed)) es"
| "blind i b (Asked j q # es) = blind i (b \<and> \<not> (j = i \<and> q = Effect_Absent)) es"

lemma opened_append: "opened i b (xs @ ys) = opened i (opened i b xs) ys"
  by (induction i b xs rule: opened.induct) auto

lemma blind_append: "blind i b (xs @ ys) \<longleftrightarrow> blind i b xs \<or> blind i (opened i b xs) ys"
  by (induction i b xs rule: blind.induct) auto

definition submitted :: "string \<Rightarrow> engine_event list \<Rightarrow> bool" where
  "submitted i log \<longleftrightarrow> (\<exists>n g. Submitted i n g \<in> set log)"

definition settles :: "string \<Rightarrow> engine_event \<Rightarrow> bool" where
  "settles i e \<longleftrightarrow> e = Asked i Effect_Absent \<or> e = Answered i (Some Effect_Failed)"

lemma opened_stays: "b \<Longrightarrow> \<not> opened i b es \<Longrightarrow> \<exists>e \<in> set es. settles i e"
proof (induction i b es rule: opened.induct)
  case (3 i b j r es)
  then show ?case by (cases "j = i \<and> r = Some Effect_Failed") (auto simp: settles_def)
next
  case (4 i b j q es)
  then show ?case by (cases "j = i \<and> q = Effect_Absent") (auto simp: settles_def)
qed auto

lemma not_blind:
  assumes "\<not> blind i b (before @ [Submitted i n g] @ between @ [Submitted i n' g'] @ after)"
  shows "\<exists>e \<in> set between. settles i e"
  using assms opened_stays [of True i between] by (auto simp: blind_append opened_append)

subsection \<open>The invariant\<close>

definition irreversible :: "step_plan \<Rightarrow> bool" where
  "irreversible e \<longleftrightarrow> effectiveStepIrreversibility e = Irr_Irreversible"

definition row_ok :: "engine_event list \<Rightarrow> release_workflow \<Rightarrow> bool" where
  "row_ok log w \<longleftrightarrow>
     (\<forall>i s. step_of w i = Some s \<longrightarrow> sr_status s = Step_Running \<longrightarrow> sr_identity s = None)
     \<and> (\<forall>e \<in> set (rw_plan w). irreversible e \<longrightarrow> opened (sp_id e) False log
          \<longrightarrow> (\<exists>s. step_of w (sp_id e) = Some s \<and> sr_status s \<in> {Step_Running, Step_Unknown, Step_Succeeded}))
     \<and> (\<forall>e \<in> set (rw_plan w). irreversible e \<longrightarrow> submitted (sp_id e) log \<longrightarrow> prior_confirmed w (sp_id e))"

definition charged :: "release_store \<Rightarrow> string \<Rightarrow> string \<Rightarrow> string \<Rightarrow> int \<Rightarrow> string \<Rightarrow> bool" where
  \<comment> \<open>the grant holds the reservation of this or an earlier attempt of the step\<close>
  "charged db taskId workflowId i n grantId \<longleftrightarrow>
     (\<exists>m g. m \<le> n \<and> getCapabilityGrant db taskId grantId = Some g
        \<and> attemptReservationKey workflowId i m \<in> set (gt_useReservations g))"

definition row :: "string \<Rightarrow> string \<Rightarrow> engine \<Rightarrow> release_workflow option" where
  "row taskId workflowId s = getReleaseWorkflow (en_store s) taskId workflowId"

definition engine_ok :: "string \<Rightarrow> string \<Rightarrow> step_plan list \<Rightarrow> engine \<Rightarrow> bool" where
  "engine_ok taskId workflowId plan s \<longleftrightarrow>
     store_ok (en_store s)
     \<and> (\<exists>w. row taskId workflowId s = Some w \<and> rw_plan w = plan \<and> row_ok (en_log s) w)
     \<and> (\<forall>e \<in> set plan. irreversible e \<longrightarrow> \<not> blind (sp_id e) False (en_log s))
     \<and> (\<forall>i n g. Submitted i n g \<in> set (en_log s) \<longrightarrow> charged (en_store s) taskId workflowId i n g)"

definition synced :: "string \<Rightarrow> string \<Rightarrow> step_plan list \<Rightarrow> release_workflow \<Rightarrow> engine \<Rightarrow> bool" where
  \<comment> \<open>the workflow in memory is the stored one\<close>
  "synced taskId workflowId plan w s \<longleftrightarrow> engine_ok taskId workflowId plan s \<and> row taskId workflowId s = Some w"

definition world_fair :: "world \<Rightarrow> string \<Rightarrow> string \<Rightarrow> bool" where
  \<comment> \<open>no other process writes the record of the workflow\<close>
  "world_fair wd taskId workflowId \<longleftrightarrow>
     (\<forall>n t w. SaveWorkflow t w \<in> set (wd_others wd n) \<longrightarrow> \<not> (t = taskId \<and> rw_id w = workflowId))"

definition stable :: "(engine \<Rightarrow> bool) \<Rightarrow> bool" where
  \<comment> \<open>kept by whatever the store allows, and by queries\<close>
  "stable K \<longleftrightarrow> (\<forall>s s'. K s \<longrightarrow> store_le (en_store s) (en_store s')
     \<longrightarrow> (en_log s' = en_log s \<or> (\<exists>i q. en_log s' = en_log s @ [Asked i q])) \<longrightarrow> K s')"

lemma synced_facts:
  assumes "synced t i p w s"
  shows "engine_ok t i p s" and "rw_plan w = p" and "row_ok (en_log s) w" and "rw_taskId w = t" and "rw_id w = i"
    and "workflow_valid w" and "store_ok (en_store s)"
  using assms by (auto simp: synced_def engine_ok_def row_def getReleaseWorkflow_def store_ok_def stored_workflow_eq)

lemma charged_le: "charged db t w i n g \<Longrightarrow> store_le db db' \<Longrightarrow> charged db' t w i n g"
  unfolding charged_def getCapabilityGrant_def store_le_def saved_grant_le_def by fastforce

lemma charged_later: "charged db t w i n g \<Longrightarrow> n \<le> n' \<Longrightarrow> charged db t w i n' g"
  unfolding charged_def by (meson order_trans)

lemma engine_moves:
  assumes "engine_ok t i p s" and "en_log s' = en_log s" and "store_ok (en_store s')"
    and "store_le (en_store s) (en_store s')" and "row t i s' = Some w" and "rw_plan w = p" and "row_ok (en_log s) w"
  shows "synced t i p w s'"
  using assms charged_le unfolding synced_def engine_ok_def by metis

lemma stableD:
  "stable K \<Longrightarrow> K s \<Longrightarrow> store_le (en_store s) (en_store s')
     \<Longrightarrow> en_log s' = en_log s \<or> (\<exists>i q. en_log s' = en_log s @ [Asked i q]) \<Longrightarrow> K s'"
  unfolding stable_def by blast

lemma stable_updates:
  assumes "stable K" and "K s"
  shows "K (s\<lparr>en_time := n\<rparr>)" and "store_le (en_store s) db \<Longrightarrow> K (s\<lparr>en_store := db\<rparr>)"
    and "K (s\<lparr>en_log := en_log s @ [Asked j q]\<rparr>)"
proof -
  show "K (s\<lparr>en_time := n\<rparr>)" and "K (s\<lparr>en_log := en_log s @ [Asked j q]\<rparr>)"
    by (rule stableD [OF assms]; simp add: release_store.le_refl)+
  show "K (s\<lparr>en_store := db\<rparr>)" if "store_le (en_store s) db"
    by (rule stableD [OF assms]) (simp_all add: that)
qed

lemma stable_charged: "stable (\<lambda>s. charged (en_store s) t w i n g)"
  unfolding stable_def using charged_le by blast

lemma stable_cleared: "stable (\<lambda>s. \<not> opened i False (en_log s))"
  by (auto simp: stable_def opened_append)

lemma stable_True: "stable (\<lambda>s. True)"
  by (simp add: stable_def)

lemma stable_conj: "stable K \<Longrightarrow> stable L \<Longrightarrow> stable (\<lambda>s. K s \<and> L s)"
  unfolding stable_def by blast

lemma stable_imp: "stable K \<Longrightarrow> stable (\<lambda>s. A \<longrightarrow> K s)"
  unfolding stable_def by blast

lemmas stables = stable_True stable_conj stable_imp stable_charged stable_cleared

subsection \<open>Other processes\<close>

lemma store_try_facts:
  assumes "store_ok db" and "\<And>t w. SaveWorkflow t w \<in> set ops \<Longrightarrow> \<not> (t = taskId \<and> rw_id w = i)"
  shows "store_ok (store_try db ops) \<and> store_le db (store_try db ops)
    \<and> rs_workflows (store_try db ops) (taskId, i) = rs_workflows db (taskId, i)"
  using assms
proof (induction db ops rule: store_try.induct)
  case (1 db)
  then show ?case by (simp add: release_store.le_refl)
next
  case (2 db op ops)
  show ?case
  proof (cases "store_step db op")
    case (Inl e)
    with 2 show ?thesis by simp
  next
    case (Inr db1)
    have "rs_workflows db1 (taskId, i) = rs_workflows db (taskId, i)"
      using Inr 2(3) by (cases op) (auto simp: save_grant_cases save_workflow_cases)
    with 2 Inr store_step_ok [OF Inr 2(2)] store_step_le [OF Inr] show ?thesis
      by (auto intro: store_le_trans)
  qed
qed

lemma spec_db:
  assumes fair: "world_fair wd t i" and K: "stable K"
    and f: "\<And>s. synced t i p w s \<Longrightarrow> K s \<Longrightarrow> (case f (en_store s) of
          (db, Inl _) \<Rightarrow> E (s\<lparr>en_store := db\<rparr>) | (db, Inr x) \<Rightarrow> Q x (s\<lparr>en_store := db\<rparr>))"
    and E: "\<And>s. synced t i p w s \<Longrightarrow> K s \<Longrightarrow> E s"
  shows "spec (\<lambda>s. synced t i p w s \<and> K s) (db_action wd f) Q E"
proof -
  have keep: "synced t i p w s' \<and> K s'" if "synced t i p w s" "K s" "store_le (en_store s) (en_store s')"
      "store_ok (en_store s')" "rs_workflows (en_store s') (t, i) = rs_workflows (en_store s) (t, i)" "en_log s' = en_log s" for s s'
  proof -
    have "row t i s' = Some w" using that(1,5) by (simp add: synced_def row_def getReleaseWorkflow_def)
    moreover have "K s'" using K that unfolding stable_def by blast
    ultimately show ?thesis using engine_moves synced_facts [OF that(1)] that by blast
  qed
  have "spec (\<lambda>s. synced t i p w s \<and> K s) (\<lambda>s. case f (store_try (en_store s) (wd_others wd n)) of
      (db, r) \<Rightarrow> (s\<lparr>en_store := db\<rparr>, r)) Q E" for n
    unfolding spec_def
  proof (intro allI impI)
    fix s
    assume s: "synced t i p w s \<and> K s"
    let ?s = "s\<lparr>en_store := store_try (en_store s) (wd_others wd n)\<rparr>"
    have "synced t i p w ?s \<and> K ?s"
    proof (rule keep [of s])
      show "synced t i p w s" and "K s" using s by simp_all
      have "store_ok (en_store s)" using s synced_facts(7) by blast
      with store_try_facts [of "en_store s" "wd_others wd n" t i] fair
      show "store_le (en_store s) (en_store ?s)" and "store_ok (en_store ?s)"
        and "rs_workflows (en_store ?s) (t, i) = rs_workflows (en_store s) (t, i)"
        unfolding world_fair_def by auto
    qed simp
    with f [of ?s] show "case case f (store_try (en_store s) (wd_others wd n)) of (db, r) \<Rightarrow> (s\<lparr>en_store := db\<rparr>, r) of
        (s', Inl _) \<Rightarrow> E s' | (s', Inr x) \<Rightarrow> Q x s'"
      by (auto split: prod.splits sum.splits)
  qed
  moreover have "spec (\<lambda>s. synced t i p w s \<and> K s) (alive wd) (\<lambda>_ s. synced t i p w s \<and> K s) E"
  proof (rule spec_alive)
    show "synced t i p w (s\<lparr>en_time := n\<rparr>) \<and> K (s\<lparr>en_time := n\<rparr>)" if "synced t i p w s \<and> K s" for s n
      using that by (intro keep [of s]) (auto simp: release_store.le_refl synced_facts(7))
  qed (use E in auto)
  ultimately show ?thesis unfolding db_action_def by (rule spec_follow [rotated])
qed

subsection \<open>Calls of the store and of the ports\<close>

lemma spec_clock:
  assumes "stable K"
  shows "spec (\<lambda>s. synced t i p w s \<and> K s) (clock wd) (\<lambda>_ s. synced t i p w s \<and> K s) (engine_ok t i p)"
proof -
  have "spec (\<lambda>s. synced t i p w s \<and> K s) (alive wd) (\<lambda>_ s. synced t i p w s \<and> K s) (engine_ok t i p)"
  proof (rule spec_alive)
    fix s :: engine and n
    assume s: "synced t i p w s \<and> K s"
    then have "synced t i p w (s\<lparr>en_time := n\<rparr>)" by (auto simp: synced_def engine_ok_def row_def)
    moreover have "K (s\<lparr>en_time := n\<rparr>)"
      using s stable_updates(1) [OF assms] by blast
    ultimately show "synced t i p w (s\<lparr>en_time := n\<rparr>) \<and> K (s\<lparr>en_time := n\<rparr>)" by simp
  qed (auto simp: synced_def)
  then show ?thesis unfolding clock_def by (rule spec_follow) (rule spec_returns)
qed

lemma spec_get_grant:
  assumes "world_fair wd t i" and "stable K"
  shows "spec (\<lambda>s. synced t i p w s \<and> K s) (get_grant wd t g)
    (\<lambda>found s. synced t i p w s \<and> K s \<and> found = getCapabilityGrant (en_store s) t g) (engine_ok t i p)"
  unfolding get_grant_def by (rule spec_db [OF assms]) (simp_all add: synced_def)

definition save_fits :: "string \<Rightarrow> string \<Rightarrow> step_plan list \<Rightarrow> engine_event list \<Rightarrow> release_workflow \<Rightarrow> bool" where
  "save_fits t i p log w \<longleftrightarrow> rw_taskId w = t \<and> rw_id w = i \<and> rw_plan w = p \<and> row_ok log w"

lemma spec_op_save:
  assumes "world_fair wd t i" and K: "stable K"
    and fits: "\<And>s w'. synced t i p w s \<Longrightarrow> K s \<Longrightarrow> r = Inr w' \<Longrightarrow> save_fits t i p (en_log s) w'"
  shows "spec (\<lambda>s. synced t i p w s \<and> K s) (op_save wd t r)
    (\<lambda>w' s. synced t i p w' s \<and> K s \<and> r = Inr w') (engine_ok t i p)"
proof (cases r)
  case (Inl e)
  then show ?thesis by (auto simp: op_save_def spec_def follow_def of_result_def synced_def)
next
  case (Inr w')
  have "spec (\<lambda>s. synced t i p w s \<and> K s) (save_workflow wd t w') (\<lambda>_ s. synced t i p w' s \<and> K s) (engine_ok t i p)"
    unfolding save_workflow_def
  proof (rule spec_db [OF assms(1,2)])
    fix s
    assume s: "synced t i p w s" "K s"
    note f = fits [OF s Inr]
    show "case save_with (\<lambda>db. saveReleaseWorkflow db t w') (en_store s) of
        (db, Inl _) \<Rightarrow> engine_ok t i p (s\<lparr>en_store := db\<rparr>) | (db, Inr x) \<Rightarrow> synced t i p w' (s\<lparr>en_store := db\<rparr>) \<and> K (s\<lparr>en_store := db\<rparr>)"
    proof (cases "saveReleaseWorkflow (en_store s) t w'")
      case (Inl e)
      with s show ?thesis by (simp add: save_with_def synced_def)
    next
      case (Inr db)
      then have st: "store_step (en_store s) (SaveWorkflow t w') = Inr db" by simp
      note le = store_step_le [OF st]
      have "row t i (s\<lparr>en_store := db\<rparr>) = Some w'"
        using Inr f by (auto simp: row_def getReleaseWorkflow_def save_workflow_cases save_fits_def)
      then have "synced t i p w' (s\<lparr>en_store := db\<rparr>)"
        using engine_moves [of t i p s "s\<lparr>en_store := db\<rparr>" w'] le store_step_ok [OF st] synced_facts [OF s(1)] f
        by (simp add: save_fits_def)
      moreover have "K (s\<lparr>en_store := db\<rparr>)" by (rule stable_updates(2) [OF K s(2) le])
      ultimately show ?thesis using Inr by (simp add: save_with_def)
    qed
  qed (simp add: synced_def)
  then have "spec (\<lambda>s. synced t i p w s \<and> K s) (follow (save_workflow wd t w') (\<lambda>_. returns w'))
      (\<lambda>v s. synced t i p v s \<and> K s \<and> r = Inr v) (engine_ok t i p)"
    by (rule spec_follow) (rule spec_returns, simp add: Inr)
  then show ?thesis by (simp add: op_save_def Inr spec_def follow_def of_result_def)
qed

lemma quiet_event:
  assumes "synced t i p w s" and e: "\<And>j n g. e \<noteq> Submitted j n g"
  shows "synced t i p w (s\<lparr>en_log := en_log s @ [e]\<rparr>)"
proof -
  have o: "opened j False (en_log s @ [e]) \<Longrightarrow> opened j False (en_log s)" for j
    using e by (cases e) (auto simp: opened_append)
  have b: "blind j False (en_log s @ [e]) \<longleftrightarrow> blind j False (en_log s)" for j
    using e by (cases e) (auto simp: blind_append)
  have u: "Submitted j n g \<in> set (en_log s @ [e]) \<longleftrightarrow> Submitted j n g \<in> set (en_log s)" for j n g
    using e by auto
  have "row_ok (en_log s) v \<Longrightarrow> row_ok (en_log s @ [e]) v" for v
    using o u unfolding row_ok_def submitted_def by blast
  with assms(1) e show ?thesis by (auto simp: synced_def engine_ok_def row_def b)
qed

lemma spec_ask:
  assumes K: "stable K"
  shows "spec (\<lambda>s. synced t i p w s \<and> K s) (ask wd plan x)
    (\<lambda>q s. synced t i p w s \<and> K s \<and> (qu_state q = Effect_Absent \<longrightarrow> \<not> opened (sp_id plan) False (en_log s))) (engine_ok t i p)"
  unfolding ask_def
proof (rule spec_follow)
  show "spec (\<lambda>s. synced t i p w s \<and> K s) (alive wd) (\<lambda>_ s. synced t i p w s \<and> K s) (engine_ok t i p)"
  proof -
    have "K (s\<lparr>en_time := n\<rparr>)" if "K s" for s n
      by (rule stable_updates(1) [OF K that])
    then show ?thesis by (intro spec_alive) (auto simp: synced_def engine_ok_def row_def)
  qed
next
  fix n
  show "spec (\<lambda>s. synced t i p w s \<and> K s)
    (follow (of_result (wd_query wd n plan x)) (\<lambda>q. follow (emit (Asked (sp_id plan) (qu_state q))) (\<lambda>_. returns q)))
    (\<lambda>q s. synced t i p w s \<and> K s \<and> (qu_state q = Effect_Absent \<longrightarrow> \<not> opened (sp_id plan) False (en_log s))) (engine_ok t i p)"
  proof (rule spec_follow [where R = "\<lambda>_ s. synced t i p w s \<and> K s"])
    show "spec (\<lambda>s. synced t i p w s \<and> K s) (of_result (wd_query wd n plan x)) (\<lambda>_ s. synced t i p w s \<and> K s) (engine_ok t i p)"
      by (rule spec_result) (auto simp: synced_def)
    fix q
    have "K (s\<lparr>en_log := en_log s @ [Asked (sp_id plan) (qu_state q)]\<rparr>)" if "K s" for s
      by (rule stable_updates(3) [OF K that])
    then show "spec (\<lambda>s. synced t i p w s \<and> K s) (follow (emit (Asked (sp_id plan) (qu_state q))) (\<lambda>_. returns q))
      (\<lambda>q s. synced t i p w s \<and> K s \<and> (qu_state q = Effect_Absent \<longrightarrow> \<not> opened (sp_id plan) False (en_log s))) (engine_ok t i p)"
      by (auto simp: spec_def follow_def emit_def returns_def opened_append intro: quiet_event)
  qed
qed

lemma spec_submit:
  assumes "world_fair wd t i" and "plan \<in> set p"
  shows "spec (\<lambda>s. synced t i p w s \<and> charged (en_store s) t i (sp_id plan) n g
        \<and> (irreversible plan \<longrightarrow> \<not> opened (sp_id plan) False (en_log s) \<and> prior_confirmed w (sp_id plan)
             \<and> step_status_of w (sp_id plan) = Some Step_Running))
    (submit wd plan n g params)
    (\<lambda>r s. synced t i p w s \<and> (case r of Inl _ \<Rightarrow> True
        | Inr e \<Rightarrow> ef_outcome e = Effect_Failed \<longrightarrow> \<not> opened (sp_id plan) False (en_log s))) (engine_ok t i p)"
    (is "spec ?P _ ?Q _")
proof -
  have time: "synced t i p w (s\<lparr>en_time := m\<rparr>)" if "synced t i p w s" for s m
    using that by (auto simp: synced_def engine_ok_def row_def)
  have called: "synced t i p w (s\<lparr>en_log := en_log s @ [Submitted (sp_id plan) n g]\<rparr>)" if P: "?P s" for s
  proof -
    let ?e = "Submitted (sp_id plan) n g"
    have sy: "synced t i p w s" using P by simp
    have f: "rw_plan w = p" "row_ok (en_log s) w" "workflow_valid w" "engine_ok t i p s"
      by (rule synced_facts [OF sy])+
    have same: "e = plan" if "e \<in> set p" "sp_id e = sp_id plan" for e
      using valid_plan_ids(2) [OF f(3)] f(1) that assms(2) by (auto dest: inj_on_eq_iff simp: distinct_map)
    have o: "opened (sp_id e) False (en_log s @ [?e]) \<longleftrightarrow> opened (sp_id e) False (en_log s) \<or> sp_id e = sp_id plan" for e
      by (auto simp: opened_append)
    have b: "blind (sp_id e) False (en_log s @ [?e])
        \<longleftrightarrow> blind (sp_id e) False (en_log s) \<or> sp_id e = sp_id plan \<and> opened (sp_id plan) False (en_log s)" for e
      by (auto simp: blind_append)
    have u: "submitted (sp_id e) (en_log s @ [?e]) \<longleftrightarrow> submitted (sp_id e) (en_log s) \<or> sp_id e = sp_id plan" for e
      by (auto simp: submitted_def)
    have "row_ok (en_log s @ [?e]) w"
    proof -
      have "\<exists>r. step_of w (sp_id e) = Some r \<and> sr_status r \<in> {Step_Running, Step_Unknown, Step_Succeeded}"
        if "e \<in> set p" "irreversible e" "opened (sp_id e) False (en_log s @ [?e])" for e
        using that same [OF that(1)] P f(1,2) unfolding o by (auto simp: row_ok_def step_status_of_def)
      moreover have "prior_confirmed w (sp_id e)"
        if "e \<in> set p" "irreversible e" "submitted (sp_id e) (en_log s @ [?e])" for e
        using that same [OF that(1)] P f(1,2) unfolding u by (auto simp: row_ok_def)
      ultimately show ?thesis using f(1,2) by (simp add: row_ok_def)
    qed
    moreover have "\<not> blind (sp_id e) False (en_log s @ [?e])" if "e \<in> set p" "irreversible e" for e
      using that same [OF that(1)] P f(4) unfolding b engine_ok_def by blast
    ultimately show ?thesis
      using P f(1,4) by (auto simp: synced_def engine_ok_def row_def)
  qed
  have charge: "?P (s\<lparr>en_time := m\<rparr>)" if "?P s" for s m using that time by simp
  show ?thesis unfolding submit_def
  proof (rule spec_follow)
    show "spec ?P (alive wd) (\<lambda>_. ?P) (engine_ok t i p)"
      by (rule spec_alive) (use charge in \<open>auto simp: synced_def\<close>)
  next
    fix k
    show "spec ?P (follow (emit (Submitted (sp_id plan) n g)) (\<lambda>_. follow (alive wd) (\<lambda>m.
        let r = wd_execute wd m plan params in
        follow (emit (Answered (sp_id plan) (case r of Inl _ \<Rightarrow> None | Inr e \<Rightarrow> Some (ef_outcome e)))) (\<lambda>_. returns r)))) ?Q (engine_ok t i p)"
    proof (rule spec_follow [where R = "\<lambda>_. synced t i p w"])
      show "spec ?P (emit (Submitted (sp_id plan) n g)) (\<lambda>_. synced t i p w) (engine_ok t i p)"
        using called by (simp add: spec_def emit_def)
      fix u :: unit
      show "spec (synced t i p w) (follow (alive wd) (\<lambda>m. let r = wd_execute wd m plan params in
        follow (emit (Answered (sp_id plan) (case r of Inl _ \<Rightarrow> None | Inr e \<Rightarrow> Some (ef_outcome e)))) (\<lambda>_. returns r))) ?Q (engine_ok t i p)"
      proof (rule spec_follow)
        show "spec (synced t i p w) (alive wd) (\<lambda>_. synced t i p w) (engine_ok t i p)"
          by (rule spec_alive) (use time in \<open>auto simp: synced_def\<close>)
        show "spec (synced t i p w) (let r = wd_execute wd m plan params in
          follow (emit (Answered (sp_id plan) (case r of Inl _ \<Rightarrow> None | Inr e \<Rightarrow> Some (ef_outcome e)))) (\<lambda>_. returns r)) ?Q (engine_ok t i p)" for m
          by (auto simp: Let_def spec_def follow_def emit_def returns_def opened_append intro: quiet_event split: sum.splits)
      qed
    qed
  qed
qed

subsection \<open>Uses\<close>

definition holds_key :: "release_store \<Rightarrow> string \<Rightarrow> string \<Rightarrow> string \<Rightarrow> bool" where
  "holds_key db t grantId key \<longleftrightarrow> (\<exists>g. getCapabilityGrant db t grantId = Some g \<and> key \<in> set (gt_useReservations g))"

lemma spec_caught:
  assumes "spec P m Q E" and "\<And>s. E s \<Longrightarrow> E' s"
  shows "spec P (caught m) (\<lambda>r s. case r of Inl _ \<Rightarrow> E s | Inr x \<Rightarrow> Q x s) E'"
  unfolding spec_def
proof (intro allI impI)
  fix s
  assume "P s"
  obtain s' r where m: "m s = (s', r)" by (cases "m s")
  with assms(1) \<open>P s\<close> have "case r of Inl _ \<Rightarrow> E s' | Inr x \<Rightarrow> Q x s'" by (auto simp: spec_def)
  with assms(2) m show "case caught m s of (s', Inl _) \<Rightarrow> E' s' | (s', Inr r) \<Rightarrow> (case r of Inl _ \<Rightarrow> E s' | Inr x \<Rightarrow> Q x s')"
    by (auto simp: caught_def split: sum.splits run_stop.splits)
qed

lemma spec_save_use:
  assumes "world_fair wd t i" and K: "stable K" and use: "recordGrantUse g now (Some key) = Inr g'" and "gt_id g = grantId"
  shows "spec (\<lambda>s. synced t i p w s \<and> K s) (save_grant wd t g')
    (\<lambda>_ s. synced t i p w s \<and> K s \<and> holds_key (en_store s) t grantId key) (\<lambda>s. synced t i p w s \<and> K s)"
  unfolding save_grant_def
proof (rule spec_db [OF assms(1,2)])
  fix s
  assume s: "synced t i p w s" "K s"
  show "case save_with (\<lambda>db. saveCapabilityGrant db t g') (en_store s) of
      (db, Inl _) \<Rightarrow> synced t i p w (s\<lparr>en_store := db\<rparr>) \<and> K (s\<lparr>en_store := db\<rparr>)
    | (db, Inr x) \<Rightarrow> synced t i p w (s\<lparr>en_store := db\<rparr>) \<and> K (s\<lparr>en_store := db\<rparr>)
        \<and> holds_key (en_store (s\<lparr>en_store := db\<rparr>)) t grantId key"
  proof (cases "saveCapabilityGrant (en_store s) t g'")
    case (Inl e)
    with s show ?thesis by (simp add: save_with_def)
  next
    case (Inr db)
    then have st: "store_step (en_store s) (SaveGrant t g') = Inr db" by simp
    from Inr have db: "db = put_grant (en_store s) t g'" by (simp add: save_grant_cases)
    have "gt_id g' = grantId" and "key \<in> set (gt_useReservations g')" using use assms(4) by (auto simp: use_eq)
    then have key: "holds_key db t grantId key" by (simp add: holds_key_def db getCapabilityGrant_def)
    have "row t i (s\<lparr>en_store := db\<rparr>) = Some w"
      using s(1) by (simp add: synced_def row_def db getReleaseWorkflow_def)
    then have "synced t i p w (s\<lparr>en_store := db\<rparr>)"
      using engine_moves [of t i p s "s\<lparr>en_store := db\<rparr>" w] store_step_le [OF st] store_step_ok [OF st] synced_facts [OF s(1)]
      by simp
    with stable_updates(2) [OF K s(2) store_step_le [OF st]] key Inr show ?thesis by (simp add: save_with_def)
  qed
qed simp

lemma spec_consume:
  assumes "world_fair wd t i" and K: "stable K" and "gt_id g = grantId"
  shows "spec (\<lambda>s. synced t i p w s \<and> K s) (consume_attempts wd t grantId now key k g)
    (\<lambda>exhausted s. synced t i p w s \<and> K s \<and> (exhausted \<or> holds_key (en_store s) t grantId key)) (engine_ok t i p)"
  using assms(3)
proof (induction k arbitrary: g)
  case 0
  show ?case by (auto simp: synced_def intro!: spec_result)
next
  case (Suc k)
  show ?case
  proof (cases "recordGrantUse g now (Some key)")
    case (Inl e)
    then show ?thesis by (auto intro: spec_returns)
  next
    case (Inr g')
    have again: "spec (\<lambda>s. synced t i p w s \<and> K s \<and> found = getCapabilityGrant (en_store s) t grantId)
        (case found of None \<Rightarrow> of_result (Inl e)
         | Some fresh \<Rightarrow>
             if key \<in> set (gt_useReservations fresh) then of_result (Inl e)
             else if gt_usesUsed fresh = gt_usesUsed g then of_result (Inl e)
             else consume_attempts wd t grantId now key k fresh)
        (\<lambda>exhausted s. synced t i p w s \<and> K s \<and> (exhausted \<or> holds_key (en_store s) t grantId key)) (engine_ok t i p)" for found e
    proof (cases found)
      case None
      then show ?thesis by (auto simp: synced_def intro!: spec_result)
    next
      case (Some fresh)
      have "spec (\<lambda>s. gt_id fresh = grantId \<and> synced t i p w s \<and> K s) (consume_attempts wd t grantId now key k fresh)
        (\<lambda>exhausted s. synced t i p w s \<and> K s \<and> (exhausted \<or> holds_key (en_store s) t grantId key)) (engine_ok t i p)"
        by (rule spec_pure) (rule Suc.IH)
      then have "spec (\<lambda>s. synced t i p w s \<and> K s \<and> found = getCapabilityGrant (en_store s) t grantId)
        (consume_attempts wd t grantId now key k fresh)
        (\<lambda>exhausted s. synced t i p w s \<and> K s \<and> (exhausted \<or> holds_key (en_store s) t grantId key)) (engine_ok t i p)"
        by (rule spec_pre) (use Some synced_facts(7) in \<open>auto simp: store_ok_def getCapabilityGrant_def\<close>)
      with Some show ?thesis by (auto simp: synced_def intro!: spec_result)
    qed
    have "spec (\<lambda>s. synced t i p w s \<and> K s) (caught (save_grant wd t g'))
      (\<lambda>r s. case r of Inl _ \<Rightarrow> synced t i p w s \<and> K s
         | Inr _ \<Rightarrow> synced t i p w s \<and> K s \<and> holds_key (en_store s) t grantId key) (engine_ok t i p)"
      by (rule spec_caught [OF spec_save_use [OF assms(1,2) Inr Suc.prems]]) (simp add: synced_def)
    then show ?thesis unfolding consume_attempts.simps Inr sum.case
    proof (rule spec_follow)
      show "spec (\<lambda>s. case r of Inl _ \<Rightarrow> synced t i p w s \<and> K s
          | Inr _ \<Rightarrow> synced t i p w s \<and> K s \<and> holds_key (en_store s) t grantId key)
        (case r of Inr _ \<Rightarrow> returns False
         | Inl e \<Rightarrow> follow (get_grant wd t grantId) (\<lambda>found. case found of None \<Rightarrow> of_result (Inl e)
             | Some fresh \<Rightarrow>
                 if key \<in> set (gt_useReservations fresh) then of_result (Inl e)
                 else if gt_usesUsed fresh = gt_usesUsed g then of_result (Inl e)
                 else consume_attempts wd t grantId now key k fresh))
        (\<lambda>exhausted s. synced t i p w s \<and> K s \<and> (exhausted \<or> holds_key (en_store s) t grantId key)) (engine_ok t i p)" for r
        by (cases r) (auto intro: spec_returns spec_follow [OF spec_get_grant [OF assms(1,2)] again])
    qed
  qed
qed

subsection \<open>Operations fit the log\<close>

lemma identity_on_step:
  assumes "on_step w k guard now f = Inr w'"
    and "\<And>s s'. f s = Inr s' \<Longrightarrow> sr_status s' = Step_Running \<Longrightarrow> sr_identity s' = None"
    and "\<forall>i s. step_of w i = Some s \<longrightarrow> sr_status s = Step_Running \<longrightarrow> sr_identity s = None"
  shows "\<forall>i s. step_of w' i = Some s \<longrightarrow> sr_status s = Step_Running \<longrightarrow> sr_identity s = None"
  using assms by (auto simp: on_step_eq step_of_assign split: if_splits)

lemma identity_of_op:
  assumes "release_step w (op, now) = Inr w'"
    and "\<forall>i s. step_of w i = Some s \<longrightarrow> sr_status s = Step_Running \<longrightarrow> sr_identity s = None"
  shows "\<forall>i s. step_of w' i = Some s \<longrightarrow> sr_status s = Step_Running \<longrightarrow> sr_identity s = None"
proof (cases op)
  case (AppendLog i line)
  with assms(1) obtain s logs where "step_of w i = Some s"
      and "w' = w\<lparr>rw_steps := assign i (s\<lparr>sr_logs := logs\<rparr>) (rw_steps w)\<rparr>"
    by (auto simp: appendStepLog_def requireStep_def replaceStep_def split: option.splits)
  with assms(2) show ?thesis by (simp add: step_of_def map_of_assign)
next
  case (RebindGrant g)
  with assms show ?thesis by (auto simp: rebindGrant_def step_of_def)
next
  case (StartStep i)
  show ?thesis
    by (rule identity_on_step [OF assms(1) [unfolded StartStep release_step.simps startStep_def] _ assms(2)]) (auto simp: attempt_again_def new_attempt_def split: if_splits)
next
  case (RecoverRunning i)
  show ?thesis
    by (rule identity_on_step [OF assms(1) [unfolded RecoverRunning release_step.simps recoverRunningStep_def] _ assms(2)]) (auto simp: attempt_again_def new_attempt_def split: if_splits)
next
  case (CompleteStep i r)
  show ?thesis
    by (rule identity_on_step [OF assms(1) [unfolded CompleteStep release_step.simps completeStep_def] _ assms(2)]) (auto simp: succeed_def succeeded_step_def split: if_splits)
next
  case (ConfirmStep i r)
  show ?thesis
    by (rule identity_on_step [OF assms(1) [unfolded ConfirmStep release_step.simps confirmStep_def] _ assms(2)]) (auto simp: succeed_def succeeded_step_def split: if_splits)
next
  case (ConfirmFailed i r)
  show ?thesis
    by (rule identity_on_step [OF assms(1) [unfolded ConfirmFailed release_step.simps confirmFailedStep_def] _ assms(2)]) (auto simp: succeed_def succeeded_step_def split: if_splits)
next
  case (FailStep i r)
  show ?thesis
    by (rule identity_on_step [OF assms(1) [unfolded FailStep release_step.simps failStep_def] _ assms(2)]) (auto simp: stopped_step_def split: if_splits)
next
  case (MarkUnknown i r)
  show ?thesis
    by (rule identity_on_step [OF assms(1) [unfolded MarkUnknown release_step.simps markStepUnknown_def] _ assms(2)]) (auto simp: stopped_step_def split: if_splits)
next
  case (SkipStep i reason)
  show ?thesis
    by (rule identity_on_step [OF assms(1) [unfolded SkipStep release_step.simps skipStep_def] _ assms(2)]) (auto simp: skipped_step_def split: if_splits)
qed

lemma prior_later: "workflow_le w w' \<Longrightarrow> prior_confirmed w i \<Longrightarrow> prior_confirmed w' i"
proof -
  assume le: "workflow_le w w'" and p: "prior_confirmed w i"
  have "step_status_of w' k = Some Step_Succeeded" if k: "step_status_of w k = Some Step_Succeeded" for k
  proof -
    from k obtain s where s: "step_of w k = Some s" "sr_status s = Step_Succeeded" by (auto simp: step_status_of_def)
    with le obtain s' where "step_of w' k = Some s'" "step_le s s'" unfolding workflow_le_def by blast
    with s(2) show ?thesis by (auto simp: step_le_def step_done_def step_status_of_def)
  qed
  with le p show ?thesis by (auto simp: prior_confirmed_def list_all_iff workflow_le_def)
qed

definition closes :: "release_op \<Rightarrow> bool" where
  \<comment> \<open>the operations that leave a step open to a new submission\<close>
  "closes op \<longleftrightarrow> (\<exists>i r. op = FailStep i r) \<or> (\<exists>i r. op = SkipStep i r)"

lemma op_fits:
  assumes r: "release_step w (op, now) = Inr w'" and w: "save_fits t i p log w"
    and c: "\<And>e. e \<in> set p \<Longrightarrow> closes op \<Longrightarrow> op_target op = Some (sp_id e) \<Longrightarrow> irreversible e \<Longrightarrow> \<not> opened (sp_id e) False log"
  shows "save_fits t i p log w'"
proof -
  have le: "workflow_le w w'" using release_step_le [OF r] by simp
  have f: "rw_plan w = p" "rw_taskId w = t" "rw_id w = i" and ok: "row_ok log w" using w by (simp_all add: save_fits_def)
  have "\<exists>u. step_of w' (sp_id e) = Some u \<and> sr_status u \<in> {Step_Running, Step_Unknown, Step_Succeeded}"
    if e: "e \<in> set p" "irreversible e" "opened (sp_id e) False log" for e
  proof -
    from ok e f(1) obtain v where v: "step_of w (sp_id e) = Some v"
        "sr_status v \<in> {Step_Running, Step_Unknown, Step_Succeeded}"
      unfolding row_ok_def by blast
    from v(1) have cf: "config_of w (sp_id e) = Some (step_config v)" by (simp add: config_of_def)
    from le v(1) obtain u where u: "step_of w' (sp_id e) = Some u" unfolding workflow_le_def by blast
    show ?thesis
    proof (cases "op_target op = Some (sp_id e)")
      case False
      with config_step [OF r cf] u v(2) show ?thesis by (auto simp: config_of_def step_config_def)
    next
      case True
      with config_step [OF r cf] u have m: "step_machine_step (step_config v) op = Some (step_config u)"
        by (simp add: config_of_def)
      have "\<not> closes op" using c [OF e(1) _ True e(2)] e(3) by blast
      with m v(2) u show ?thesis
        by (cases op) (auto simp: step_config_def closes_def split: if_splits)
    qed
  qed
  moreover have "prior_confirmed w' (sp_id e)" if "e \<in> set p" "irreversible e" "submitted (sp_id e) log" for e
    using ok f(1) that prior_later [OF le] unfolding row_ok_def by blast
  moreover have "\<forall>i s. step_of w i = Some s \<longrightarrow> sr_status s = Step_Running \<longrightarrow> sr_identity s = None"
    using ok by (simp add: row_ok_def)
  ultimately show "save_fits t i p log w'"
    using identity_of_op [OF r] le f unfolding save_fits_def row_ok_def workflow_le_def by simp
qed

lemma synced_fits: "synced t i p w s \<Longrightarrow> save_fits t i p (en_log s) w"
  using synced_facts by (simp add: save_fits_def)

text \<open>One operation, saved.\<close>

lemma spec_op:
  assumes "world_fair wd t i" and "stable K"
    and r: "\<And>w'. r = Inr w' \<Longrightarrow> \<exists>op now. release_step w (op, now) = Inr w'
      \<and> (closes op \<longrightarrow> (\<forall>s e. K s \<longrightarrow> synced t i p w s \<longrightarrow> e \<in> set p \<longrightarrow> op_target op = Some (sp_id e) \<longrightarrow> irreversible e
            \<longrightarrow> \<not> opened (sp_id e) False (en_log s)))"
  shows "spec (\<lambda>s. synced t i p w s \<and> K s) (op_save wd t r)
    (\<lambda>w' s. synced t i p w' s \<and> K s \<and> r = Inr w') (engine_ok t i p)"
proof (rule spec_op_save [OF assms(1,2)])
  fix s w'
  assume s: "synced t i p w s" "K s" and w': "r = Inr w'"
  from r [OF w'] obtain op now where op: "release_step w (op, now) = Inr w'"
      and c: "closes op \<longrightarrow> (\<forall>s e. K s \<longrightarrow> synced t i p w s \<longrightarrow> e \<in> set p \<longrightarrow> op_target op = Some (sp_id e) \<longrightarrow> irreversible e
            \<longrightarrow> \<not> opened (sp_id e) False (en_log s))" by blast
  show "save_fits t i p (en_log s) w'"
    by (rule op_fits [OF op synced_fits [OF s(1)]]) (use c s in blast)
qed

lemma spec_stop: "spec (synced t i p w) (stop_with w out reason att) (\<lambda>q s. \<exists>r. q = Finished r \<and> engine_ok t i p s) (engine_ok t i p)"
  by (auto simp: stop_with_def finish_result_def spec_def follow_def of_result_def returns_def synced_def split: sum.splits)

subsection \<open>The phases of a pass\<close>

lemma recover_facts:
  assumes "recoverRunningStep w i now = Inr w'"
  shows "release_step w (RecoverRunning i, now) = Inr w'" and "rw_grantId w' = rw_grantId w"
    and "attempts_of w i \<le> attempts_of w' i"
  using assms by (auto simp: recoverRunningStep_def on_step_eq attempts_of_def step_of_assign attempt_again_def new_attempt_def)

lemma recover_charged:
  "recoverRunningStep w i now = Inr x \<Longrightarrow> charged db t k i (attempts_of w i) (rw_grantId w)
     \<Longrightarrow> charged db t k i (attempts_of x i) (rw_grantId x)"
  using recover_facts(2,3) [of w i now x] charged_later by auto

lemma start_facts:
  assumes "startStep w i now = Inr w'"
  shows "release_step w (StartStep i, now) = Inr w'" and "rw_grantId w' = rw_grantId w"
    and "attempts_of w i \<le> attempts_of w' i" and "step_status_of w' i = Some Step_Running"
  using assms by (auto simp: startStep_def on_step_eq attempts_of_def step_of_assign attempt_again_def new_attempt_def step_status_of_def)

lemma confirm_facts:
  "confirm_step w i st q what now = Inr w' \<Longrightarrow> \<exists>op. release_step w (op, now) = Inr w' \<and> \<not> closes op"
  by (auto simp: confirm_step_def Let_def closes_def split: if_splits
      intro: exI [of _ "ConfirmStep i r" for r] exI [of _ "ConfirmFailed i r" for r] exI [of _ "CompleteStep i r" for r])

lemma closed_otherwise:
  assumes "synced t i p w s" and "step_of w (sp_id e) = Some r" and "e \<in> set p" and "irreversible e"
    and "sr_status r \<notin> {Step_Running, Step_Unknown, Step_Succeeded}"
  shows "\<not> opened (sp_id e) False (en_log s)"
  using synced_facts(2,3) [OF assms(1)] assms(2-) unfolding row_ok_def by force

fun prep_ok :: "string \<Rightarrow> string \<Rightarrow> step_plan list \<Rightarrow> step_plan \<Rightarrow> step_record \<Rightarrow> release_workflow \<Rightarrow> prepared \<Rightarrow> engine \<Rightarrow> bool" where
  "prep_ok t i p plan record w (Confirmed w') s = synced t i p w' s"
| "prep_ok t i p plan record w (Halted r reason) s = synced t i p w s"
| "prep_ok t i p plan record w (Proceed w' recognized) s =
     (synced t i p w' s \<and> (irreversible plan \<longrightarrow> \<not> opened (sp_id plan) False (en_log s))
      \<and> (recognized \<longrightarrow> charged (en_store s) t i (sp_id plan) (attempts_of w' (sp_id plan)) (rw_grantId w'))
      \<and> (step_status_of w' (sp_id plan) = Some Step_Running \<longrightarrow> sr_identity record = None))"

lemma spec_confirmed:
  assumes "world_fair wd t i"
  shows "spec (synced t i p w) (follow (op_save wd t (confirm_step w (sp_id plan) st q what now)) (\<lambda>w'. returns (Confirmed w')))
    (prep_ok t i p plan record w) (engine_ok t i p)"
proof (rule spec_follow)
  show "spec (synced t i p w) (op_save wd t (confirm_step w (sp_id plan) st q what now)) (\<lambda>w' s. synced t i p w' s) (engine_ok t i p)"
    by (rule spec_post, rule spec_pre, rule spec_op [OF assms stable_True]) (use confirm_facts in \<open>blast+\<close>)
qed (rule spec_returns, simp)

lemma spec_recovered:
  assumes "world_fair wd t i" and "sr_identity record = None"
  shows "spec (\<lambda>s. synced t i p w s \<and> ((irreversible plan \<longrightarrow> \<not> opened (sp_id plan) False (en_log s))
        \<and> (recognized \<longrightarrow> charged (en_store s) t i (sp_id plan) (attempts_of w (sp_id plan)) (rw_grantId w))))
    (follow (op_save wd t (recoverRunningStep w (sp_id plan) now)) (\<lambda>w'. returns (Proceed w' recognized)))
    (prep_ok t i p plan record w) (engine_ok t i p)" (is "spec (\<lambda>s. _ \<and> ?K s) _ _ _")
proof (rule spec_follow)
  have "stable ?K" by (intro stables)
  then show "spec (\<lambda>s. synced t i p w s \<and> ?K s) (op_save wd t (recoverRunningStep w (sp_id plan) now))
      (\<lambda>w' s. synced t i p w' s \<and> ?K s \<and> recoverRunningStep w (sp_id plan) now = Inr w') (engine_ok t i p)"
    by (rule spec_op [OF assms(1)]) (auto simp: closes_def dest: recover_facts(1))
qed (rule spec_returns, use assms(2) in \<open>auto intro: recover_charged\<close>)

lemma spec_resolve:
  assumes "world_fair wd t i" and "step_of w (sp_id plan) = Some record" and "sr_status record \<noteq> Step_Running"
  shows "spec (synced t i p w) (resolve_by_identity wd t w plan record identity now) (prep_ok t i p plan record w) (engine_ok t i p)"
  unfolding resolve_by_identity_def
proof (rule spec_follow)
  show "spec (synced t i p w) (ask wd plan (Some identity))
      (\<lambda>q s. synced t i p w s \<and> (qu_state q = Effect_Absent \<longrightarrow> \<not> opened (sp_id plan) False (en_log s))) (engine_ok t i p)"
    by (rule spec_post, rule spec_pre, rule spec_ask [OF stable_True]) auto
next
  fix q
  show "spec (\<lambda>s. synced t i p w s \<and> (qu_state q = Effect_Absent \<longrightarrow> \<not> opened (sp_id plan) False (en_log s)))
     (case qu_state q of
       Effect_Exists \<Rightarrow>
         follow (op_save wd t (confirm_step w (sp_id plan) (sr_status record) q (fst identity @ ''='' @ snd identity) now))
           (\<lambda>w'. returns (Confirmed w'))
     | Effect_Absent \<Rightarrow>
         if sr_status record = Step_Running
         then follow (op_save wd t (recoverRunningStep w (sp_id plan) now)) (\<lambda>w'. returns (Proceed w' False))
         else returns (Proceed w False)
     | Effect_Unknowable \<Rightarrow> returns (Halted Run_Unknown (''unknown:'' @ sp_id plan)))
     (prep_ok t i p plan record w) (engine_ok t i p)"
  proof (cases "qu_state q")
    case Effect_Exists
    then show ?thesis by simp (rule spec_pre [OF spec_confirmed [OF assms(1)]], simp)
  next
    case Effect_Absent
    then show ?thesis using assms(2,3) by (auto simp: step_status_of_def intro!: spec_returns)
  next
    case Effect_Unknowable
    then show ?thesis by (auto intro!: spec_returns)
  qed
qed

lemma spec_resume:
  assumes "world_fair wd t i" and "step_of w (sp_id plan) = Some record" and "sr_identity record = None"
  shows "spec (synced t i p w) (resume_running wd t i w plan record now) (prep_ok t i p plan record w) (engine_ok t i p)"
  unfolding resume_running_def
proof (rule spec_follow)
  show "spec (synced t i p w) (get_grant wd t (rw_grantId w))
      (\<lambda>found s. synced t i p w s \<and> found = getCapabilityGrant (en_store s) t (rw_grantId w)) (engine_ok t i p)"
    by (rule spec_post, rule spec_pre, rule spec_get_grant [OF assms(1) stable_True]) auto
next
  fix found
  define known where "known = (case found of None \<Rightarrow> False | Some g \<Rightarrow> grantUseRecognized g i (sp_id plan) (sr_attempts record))"
  let ?C = "\<lambda>s. known \<longrightarrow> charged (en_store s) t i (sp_id plan) (attempts_of w (sp_id plan)) (rw_grantId w)"
  have C: "?C s" if "found = getCapabilityGrant (en_store s) t (rw_grantId w)" for s
    using that assms(2) by (auto simp: known_def grantUseRecognized_def charged_def attempts_of_def split: option.splits)
  have irr: "spec (\<lambda>s. synced t i p w s \<and> ?C s)
    (follow (ask wd plan None) (\<lambda>q. case qu_state q of
        Effect_Exists \<Rightarrow>
          follow (op_save wd t (confirm_step w (sp_id plan) Step_Running q (kind_name (sp_kind plan)) now)) (\<lambda>w'. returns (Confirmed w'))
      | Effect_Absent \<Rightarrow> follow (op_save wd t (recoverRunningStep w (sp_id plan) now)) (\<lambda>w'. returns (Proceed w' known))
      | Effect_Unknowable \<Rightarrow> returns (Halted Run_Unconfirmed (''unconfirmed:'' @ sp_id plan))))
    (prep_ok t i p plan record w) (engine_ok t i p)"
  proof (rule spec_follow [OF spec_ask])
    show "stable ?C" by (intro stables)
    fix q
    show "spec (\<lambda>s. synced t i p w s \<and> ?C s \<and> (qu_state q = Effect_Absent \<longrightarrow> \<not> opened (sp_id plan) False (en_log s)))
      (case qu_state q of
        Effect_Exists \<Rightarrow>
          follow (op_save wd t (confirm_step w (sp_id plan) Step_Running q (kind_name (sp_kind plan)) now)) (\<lambda>w'. returns (Confirmed w'))
      | Effect_Absent \<Rightarrow> follow (op_save wd t (recoverRunningStep w (sp_id plan) now)) (\<lambda>w'. returns (Proceed w' known))
      | Effect_Unknowable \<Rightarrow> returns (Halted Run_Unconfirmed (''unconfirmed:'' @ sp_id plan)))
      (prep_ok t i p plan record w) (engine_ok t i p)"
    proof (cases "qu_state q")
      case Effect_Exists
      then show ?thesis by simp (rule spec_pre [OF spec_confirmed [OF assms(1)]], simp)
    next
      case Effect_Absent
      then show ?thesis by simp (rule spec_pre [OF spec_recovered [OF assms(1,3)]], simp)
    next
      case Effect_Unknowable
      then show ?thesis by (auto intro!: spec_returns)
    qed
  qed
  have rev: "spec (\<lambda>s. synced t i p w s \<and> ?C s) (returns (Proceed w known)) (prep_ok t i p plan record w) (engine_ok t i p)"
    if "\<not> irreversible plan"
    using that assms(3) by (auto intro!: spec_returns)
  show "spec (\<lambda>s. synced t i p w s \<and> found = getCapabilityGrant (en_store s) t (rw_grantId w))
     (let useRecognized = (case found of None \<Rightarrow> False | Some g \<Rightarrow> grantUseRecognized g i (sp_id plan) (sr_attempts record))
       in if effectiveStepIrreversibility plan = Irr_Irreversible
          then follow (ask wd plan None) (\<lambda>q. case qu_state q of
              Effect_Exists \<Rightarrow>
                follow (op_save wd t (confirm_step w (sp_id plan) Step_Running q (kind_name (sp_kind plan)) now))
                  (\<lambda>w'. returns (Confirmed w'))
            | Effect_Absent \<Rightarrow>
                follow (op_save wd t (recoverRunningStep w (sp_id plan) now)) (\<lambda>w'. returns (Proceed w' useRecognized))
            | Effect_Unknowable \<Rightarrow> returns (Halted Run_Unconfirmed (''unconfirmed:'' @ sp_id plan)))
          else returns (Proceed w useRecognized))
     (prep_ok t i p plan record w) (engine_ok t i p)"
    unfolding known_def [symmetric] Let_def
    using irr rev C by (auto simp: irreversible_def intro: spec_pre)
qed

lemma spec_prepare:
  assumes "world_fair wd t i" and r: "step_of w (sp_id plan) = Some record" "\<not> step_done (sr_status record)" and "plan \<in> set p"
  shows "spec (synced t i p w) (prepare_step wd t i w plan record now) (prep_ok t i p plan record w) (engine_ok t i p)"
proof (cases "sr_status record")
  case Step_Pending
  with assms closed_otherwise [OF _ r(1) assms(4)] show ?thesis
    by (auto simp: prepare_step_def step_status_of_def intro!: spec_returns)
next
  case Step_Running
  show ?thesis
  proof (cases "sr_identity record")
    case None
    with Step_Running spec_resume [OF assms(1) r(1)] show ?thesis by (simp add: prepare_step_def)
  next
    case (Some x)
    have False if "synced t i p w s" for s
      using synced_facts(3) [OF that] r(1) Step_Running Some unfolding row_ok_def by force
    then show ?thesis by (auto simp: spec_def)
  qed
next
  case Step_Failed
  show ?thesis
  proof (cases "sr_identity record")
    case None
    with Step_Failed closed_otherwise [OF _ r(1) assms(4)] r(1) show ?thesis
      by (auto simp: prepare_step_def step_status_of_def intro!: spec_returns)
  next
    case (Some x)
    with Step_Failed spec_resolve [OF assms(1) r(1)] show ?thesis by (simp add: prepare_step_def)
  qed
next
  case Step_Unknown
  show ?thesis
  proof (cases "sr_identity record")
    case None
    with Step_Unknown show ?thesis by (auto simp: prepare_step_def intro!: spec_returns)
  next
    case (Some x)
    with Step_Unknown spec_resolve [OF assms(1) r(1)] show ?thesis by (simp add: prepare_step_def)
  qed
qed (use r(2) in \<open>simp_all add: step_done_def\<close>)

lemma same_entry: "synced t i p w s \<Longrightarrow> e \<in> set p \<Longrightarrow> plan \<in> set p \<Longrightarrow> sp_id e = sp_id plan \<Longrightarrow> e = plan"
  using valid_plan_ids(2) synced_facts(2,6) by (metis distinct_map inj_on_eq_iff)

fun pass_ok :: "string \<Rightarrow> string \<Rightarrow> step_plan list \<Rightarrow> pass \<Rightarrow> engine \<Rightarrow> bool" where
  "pass_ok t i p (Advanced w att) s = synced t i p w s"
| "pass_ok t i p (Finished r) s = engine_ok t i p s"

lemma spec_stopped: "spec (synced t i p w) (stop_with w out reason att) (pass_ok t i p) (engine_ok t i p)"
  by (rule spec_post [OF spec_stop]) auto

text \<open>An operation, saved, then the end of the pass.\<close>

lemma spec_fail:
  assumes "world_fair wd t i" and "plan \<in> set p"
  shows "spec (\<lambda>s. synced t i p w s \<and> (irreversible plan \<longrightarrow> \<not> opened (sp_id plan) False (en_log s)))
    (op_save wd t (failStep w (sp_id plan) r now)) (\<lambda>w'. synced t i p w') (engine_ok t i p)"
proof (rule spec_post)
  have "stable (\<lambda>s. irreversible plan \<longrightarrow> \<not> opened (sp_id plan) False (en_log s))" by (intro stables)
  then show "spec (\<lambda>s. synced t i p w s \<and> (irreversible plan \<longrightarrow> \<not> opened (sp_id plan) False (en_log s)))
    (op_save wd t (failStep w (sp_id plan) r now))
    (\<lambda>w' s. synced t i p w' s \<and> (irreversible plan \<longrightarrow> \<not> opened (sp_id plan) False (en_log s))
       \<and> failStep w (sp_id plan) r now = Inr w') (engine_ok t i p)"
    by (rule spec_op [OF assms(1)]) (use same_entry assms(2) in \<open>fastforce intro: exI [of _ "FailStep (sp_id plan) r"] exI [of _ now]\<close>)
qed simp

lemma spec_op_plain:
  assumes "world_fair wd t i" and "\<And>w'. r = Inr w' \<Longrightarrow> \<exists>op now. release_step w (op, now) = Inr w' \<and> \<not> closes op"
  shows "spec (synced t i p w) (op_save wd t r) (\<lambda>w'. synced t i p w') (engine_ok t i p)"
  by (rule spec_post, rule spec_pre, rule spec_op [OF assms(1) stable_True]) (use assms(2) in \<open>blast+\<close>)

lemma unknown_plain: "markStepUnknown w i r now = Inr w' \<Longrightarrow> \<exists>op now. release_step w (op, now) = Inr w' \<and> \<not> closes op"
  by (rule exI [of _ "MarkUnknown i r"], rule exI [of _ now]) (simp add: closes_def)

lemma complete_plain: "completeStep w i r now = Inr w' \<Longrightarrow> \<exists>op now. release_step w (op, now) = Inr w' \<and> \<not> closes op"
  by (rule exI [of _ "CompleteStep i r"], rule exI [of _ now]) (simp add: closes_def)

lemma spec_settle:
  assumes "world_fair wd t i" and "plan \<in> set p"
  shows "spec (\<lambda>s. synced t i p w s \<and> (ef_outcome e = Effect_Failed \<longrightarrow> \<not> opened (sp_id plan) False (en_log s)))
    (settle_effect wd t w (sp_id plan) e now att) (pass_ok t i p) (engine_ok t i p)"
proof (cases "ef_outcome e")
  case Effect_Succeeded
  then show ?thesis unfolding settle_effect_def Let_def
    by (auto intro!: spec_follow [OF spec_op_plain [OF assms(1) complete_plain]] spec_returns)
next
  case Effect_Failed
  then show ?thesis unfolding settle_effect_def Let_def
    by (auto intro!: spec_follow [OF spec_pre [OF spec_fail [OF assms]]] spec_stopped)
next
  case Effect_Timeout
  then show ?thesis unfolding settle_effect_def Let_def
    by (cases "ef_identity e") (auto intro!: spec_follow [OF spec_op_plain [OF assms(1) unknown_plain]] spec_stopped)
qed

lemma spec_perform:
  assumes "world_fair wd t i" and "plan \<in> set p"
  shows "spec (\<lambda>s. synced t i p w s \<and> charged (en_store s) t i (sp_id plan) n (rw_grantId w)
        \<and> (irreversible plan \<longrightarrow> \<not> opened (sp_id plan) False (en_log s) \<and> prior_confirmed w (sp_id plan)
             \<and> step_status_of w (sp_id plan) = Some Step_Running))
    (perform wd t w plan n params att) (pass_ok t i p) (engine_ok t i p)"
  unfolding perform_def
proof (rule spec_follow [OF spec_submit [OF assms]])
  fix r
  show "spec (\<lambda>s. synced t i p w s \<and> (case r of Inl _ \<Rightarrow> True
        | Inr e \<Rightarrow> ef_outcome e = Effect_Failed \<longrightarrow> \<not> opened (sp_id plan) False (en_log s)))
     (case r of
       Inl message \<Rightarrow>
         follow (clock wd) (\<lambda>crashNow.
           let logs = with_logs None (Some [''executeStep crashed: '' @ message]) in
           follow (op_save wd t
             (if effectiveStepIrreversibility plan = Irr_Irreversible then markStepUnknown w (sp_id plan) logs crashNow
              else failStep w (sp_id plan) logs crashNow))
             (\<lambda>_. of_result (throw message)))
     | Inr effect \<Rightarrow>
         follow (clock wd) (\<lambda>effectNow. settle_effect wd t w (sp_id plan) effect effectNow att))
     (pass_ok t i p) (engine_ok t i p)"
  proof (cases r)
    case (Inl message)
    have crash: "spec (synced t i p w)
      (op_save wd t
         (if effectiveStepIrreversibility plan = Irr_Irreversible then markStepUnknown w (sp_id plan) logs now
          else failStep w (sp_id plan) logs now)) (\<lambda>w'. synced t i p w') (engine_ok t i p)" for logs now
    proof (cases "irreversible plan")
      case True
      then show ?thesis using spec_op_plain [OF assms(1) unknown_plain] by (simp add: irreversible_def)
    next
      case False
      then show ?thesis using spec_pre [OF spec_fail [OF assms], of "synced t i p w"] by (simp add: irreversible_def)
    qed
    have time: "spec (synced t i p w) (clock wd) (\<lambda>_. synced t i p w) (engine_ok t i p)"
      using spec_clock [OF stable_True] by simp
    show ?thesis unfolding Inl sum.case Let_def simp_thms
      by (rule spec_follow [OF time], rule spec_follow [OF crash], rule spec_result) (auto simp: synced_def)
  next
    case (Inr e)
    have "stable (\<lambda>s. ef_outcome e = Effect_Failed \<longrightarrow> \<not> opened (sp_id plan) False (en_log s))" by (intro stables)
    from spec_clock [OF this] show ?thesis unfolding Inr sum.case
      by (rule spec_follow) (rule spec_settle [OF assms])
  qed
qed

lemma spec_launch:
  assumes "world_fair wd t i" and "plan \<in> set p" and "gt_id grant = rw_grantId w"
    and "irreversible plan \<longrightarrow> prior_confirmed w (sp_id plan)"
  shows "spec (\<lambda>s. synced t i p w s \<and> ((irreversible plan \<longrightarrow> \<not> opened (sp_id plan) False (en_log s))
        \<and> (recognized \<longrightarrow> charged (en_store s) t i (sp_id plan) (attempts_of w (sp_id plan)) (rw_grantId w))))
    (launch wd t i w plan now grantNow grant params (step_status_of w (sp_id plan) = Some Step_Running)
       (step_status_of w (sp_id plan) = Some Step_Running) recognized att) (pass_ok t i p) (engine_ok t i p)"
    (is "spec (\<lambda>s. _ \<and> (?C s \<and> ?D w s)) _ _ _")
  unfolding launch_def
proof (rule spec_follow)
  let ?started = "\<lambda>w1. rw_grantId w1 = rw_grantId w \<and> step_status_of w1 (sp_id plan) = Some Step_Running
    \<and> (irreversible plan \<longrightarrow> prior_confirmed w1 (sp_id plan))"
  have KC: "stable (\<lambda>s. ?C s \<and> ?D v s)" for v by (intro stables)
  show "spec (\<lambda>s. synced t i p w s \<and> (?C s \<and> ?D w s))
    (if step_status_of w (sp_id plan) = Some Step_Running then returns w else op_save wd t (startStep w (sp_id plan) now))
    (\<lambda>w1 s. ?started w1 \<and> synced t i p w1 s \<and> (?C s \<and> ?D w1 s)) (engine_ok t i p)"
  proof (cases "step_status_of w (sp_id plan) = Some Step_Running")
    case True
    with assms(4) show ?thesis by (auto intro!: spec_returns)
  next
    case False
    have "?started w1 \<and> (?D w s \<longrightarrow> ?D w1 s)" if st: "startStep w (sp_id plan) now = Inr w1" for w1 s
    proof -
      note f = start_facts [OF st]
      have "workflow_le w w1" using release_step_le [OF f(1)] by simp
      with assms(4) f prior_later show ?thesis using charged_later by metis
    qed
    moreover have "spec (\<lambda>s. synced t i p w s \<and> (?C s \<and> ?D w s)) (op_save wd t (startStep w (sp_id plan) now))
      (\<lambda>w1 s. synced t i p w1 s \<and> (?C s \<and> ?D w s) \<and> startStep w (sp_id plan) now = Inr w1) (engine_ok t i p)"
      by (rule spec_op [OF assms(1) KC])
        (auto simp: closes_def intro!: exI [of _ "StartStep (sp_id plan)"] exI [of _ now] dest: start_facts(1))
    ultimately have "spec (\<lambda>s. synced t i p w s \<and> (?C s \<and> ?D w s)) (op_save wd t (startStep w (sp_id plan) now))
      (\<lambda>w1 s. ?started w1 \<and> synced t i p w1 s \<and> (?C s \<and> ?D w1 s)) (engine_ok t i p)"
      by (elim spec_post) blast
    with False show ?thesis by simp
  qed
next
  fix w1
  let ?n = "attempts_of w1 (sp_id plan)"
  let ?K = "\<lambda>s. ?C s \<and> ?D w1 s"
  have K: "stable ?K" by (intro stables)
  have consume: "spec (\<lambda>s. synced t i p w1 s \<and> ?K s)
      (if ((step_status_of w (sp_id plan) \<noteq> Some Step_Running \<or> step_status_of w (sp_id plan) = Some Step_Running) \<and> \<not> recognized)
       then consumeGrantUse wd t grant grantNow (attemptReservationKey i (sp_id plan) ?n) else returns False)
      (\<lambda>exhausted s. synced t i p w1 s \<and> ?C s
         \<and> (exhausted \<or> charged (en_store s) t i (sp_id plan) ?n (rw_grantId w1))) (engine_ok t i p)"
    if w1: "rw_grantId w1 = rw_grantId w"
  proof (cases recognized)
    case True
    then show ?thesis by (auto intro!: spec_returns)
  next
    case False
    have "charged db t i (sp_id plan) ?n (rw_grantId w1)"
      if "holds_key db t (gt_id grant) (attemptReservationKey i (sp_id plan) ?n)" for db
      using that w1 assms(3) by (auto simp: holds_key_def charged_def)
    moreover have "stable ?C" by (intro stables)
    then have "spec (\<lambda>s. synced t i p w1 s \<and> ?C s) (consumeGrantUse wd t grant grantNow (attemptReservationKey i (sp_id plan) ?n))
      (\<lambda>exhausted s. synced t i p w1 s \<and> ?C s
         \<and> (exhausted \<or> holds_key (en_store s) t (gt_id grant) (attemptReservationKey i (sp_id plan) ?n))) (engine_ok t i p)"
      unfolding consumeGrantUse_def by (rule spec_consume [OF assms(1) _ refl])
    ultimately have "spec (\<lambda>s. synced t i p w1 s \<and> ?C s) (consumeGrantUse wd t grant grantNow (attemptReservationKey i (sp_id plan) ?n))
      (\<lambda>exhausted s. synced t i p w1 s \<and> ?C s
         \<and> (exhausted \<or> charged (en_store s) t i (sp_id plan) ?n (rw_grantId w1))) (engine_ok t i p)"
      by (elim spec_post) blast
    with False show ?thesis by simp
  qed
  show "spec (\<lambda>s. (rw_grantId w1 = rw_grantId w \<and> step_status_of w1 (sp_id plan) = Some Step_Running
        \<and> (irreversible plan \<longrightarrow> prior_confirmed w1 (sp_id plan))) \<and> synced t i p w1 s \<and> (?C s \<and> ?D w1 s))
     (let n = attempts_of w1 (sp_id plan) in
      follow (if (step_status_of w (sp_id plan) \<noteq> Some Step_Running \<or> step_status_of w (sp_id plan) = Some Step_Running) \<and> \<not> recognized
             then consumeGrantUse wd t grant grantNow (attemptReservationKey i (sp_id plan) n)
             else returns False) (\<lambda>exhausted.
       if exhausted
       then follow (op_save wd t (failStep w1 (sp_id plan) (with_logs None (Some [''unauthorized: grant-uses-exhausted''])) now))
              (\<lambda>w2. stop_with w2 Run_Unauthorized (Some ''unauthorized:grant-uses-exhausted'') att)
       else perform wd t w1 plan n params (att @ [sp_id plan]))) (pass_ok t i p) (engine_ok t i p)"
  proof (rule spec_pure)
    assume w1: "rw_grantId w1 = rw_grantId w \<and> step_status_of w1 (sp_id plan) = Some Step_Running
      \<and> (irreversible plan \<longrightarrow> prior_confirmed w1 (sp_id plan))"
    have "spec (\<lambda>s. synced t i p w1 s \<and> ?C s \<and> (exhausted \<or> charged (en_store s) t i (sp_id plan) ?n (rw_grantId w1)))
      (if exhausted
       then follow (op_save wd t (failStep w1 (sp_id plan) (with_logs None (Some [''unauthorized: grant-uses-exhausted''])) now))
              (\<lambda>w2. stop_with w2 Run_Unauthorized (Some ''unauthorized:grant-uses-exhausted'') att)
       else perform wd t w1 plan ?n params (att @ [sp_id plan])) (pass_ok t i p) (engine_ok t i p)" for exhausted
    proof (cases exhausted)
      case True
      then show ?thesis by (auto intro!: spec_follow [OF spec_pre [OF spec_fail [OF assms(1,2)]]] spec_stopped)
    next
      case False
      with w1 show ?thesis by (auto intro!: spec_pre [OF spec_perform [OF assms(1,2)]])
    qed
    then show "spec (\<lambda>s. synced t i p w1 s \<and> (?C s \<and> ?D w1 s))
     (let n = attempts_of w1 (sp_id plan) in
      follow (if (step_status_of w (sp_id plan) \<noteq> Some Step_Running \<or> step_status_of w (sp_id plan) = Some Step_Running) \<and> \<not> recognized
             then consumeGrantUse wd t grant grantNow (attemptReservationKey i (sp_id plan) n)
             else returns False) (\<lambda>exhausted.
       if exhausted
       then follow (op_save wd t (failStep w1 (sp_id plan) (with_logs None (Some [''unauthorized: grant-uses-exhausted''])) now))
              (\<lambda>w2. stop_with w2 Run_Unauthorized (Some ''unauthorized:grant-uses-exhausted'') att)
       else perform wd t w1 plan n params (att @ [sp_id plan]))) (pass_ok t i p) (engine_ok t i p)"
      unfolding Let_def using w1 by (intro spec_follow [OF consume]) auto
  qed
qed

lemma spec_deny:
  assumes "world_fair wd t i" and "plan \<in> set p"
  shows "spec (synced t i p w) (deny wd t w (sp_id plan) now line out reason att) (pass_ok t i p) (engine_ok t i p)"
  unfolding deny_def
proof (rule spec_follow)
  let ?r = "andThen (startStep w (sp_id plan) now) (\<lambda>w1. failStep w1 (sp_id plan) (with_logs None (Some [line])) now)"
  show "spec (synced t i p w) (if step_status_of w (sp_id plan) = Some Step_Pending then op_save wd t ?r else returns w)
    (\<lambda>w'. synced t i p w') (engine_ok t i p)"
  proof (cases "step_status_of w (sp_id plan) = Some Step_Pending")
    case True
    have "save_fits t i p (en_log s) w2" if s: "synced t i p w s" and r: "?r = Inr w2" for s w2
    proof -
      from r obtain w1 where w1: "startStep w (sp_id plan) now = Inr w1"
          and w2: "failStep w1 (sp_id plan) (with_logs None (Some [line])) now = Inr w2" by auto
      have closed: "\<not> opened (sp_id e) False (en_log s)" if "e \<in> set p" "irreversible e" "sp_id e = sp_id plan" for e
        using closed_otherwise [OF s _ that(1,2)] True that(3) by (auto simp: step_status_of_def)
      have f1: "save_fits t i p (en_log s) w1"
        by (rule op_fits [OF start_facts(1) [OF w1] synced_fits [OF s]]) (simp add: closes_def)
      have "release_step w1 (FailStep (sp_id plan) (with_logs None (Some [line])), now) = Inr w2" using w2 by simp
      from op_fits [OF this f1] show ?thesis using closed by simp
    qed
    then have "spec (\<lambda>s. synced t i p w s \<and> True) (op_save wd t ?r) (\<lambda>w' s. synced t i p w' s \<and> True \<and> ?r = Inr w') (engine_ok t i p)"
      by (intro spec_op_save [OF assms(1) stable_True]) blast
    then have "spec (synced t i p w) (op_save wd t ?r) (\<lambda>w'. synced t i p w') (engine_ok t i p)"
      by (rule spec_post [OF spec_pre]) simp_all
    with True show ?thesis by simp
  qed (auto intro!: spec_returns)
qed (rule spec_stopped)

lemma spec_authorize:
  assumes "world_fair wd t i" and "plan \<in> set p"
    and "step_status_of w (sp_id plan) = Some Step_Running \<longrightarrow> sr_identity record = None"
  shows "spec (\<lambda>s. synced t i p w s \<and> ((irreversible plan \<longrightarrow> \<not> opened (sp_id plan) False (en_log s))
        \<and> (recognized \<longrightarrow> charged (en_store s) t i (sp_id plan) (attempts_of w (sp_id plan)) (rw_grantId w))))
    (authorize_and_submit wd t i w plan record now recognized att) (pass_ok t i p) (engine_ok t i p)"
    (is "spec (\<lambda>s. _ \<and> ?K s) _ _ _")
proof -
  have K: "stable ?K" by (intro stables)
  have same: "(step_status_of w (sp_id plan) = Some Step_Running \<and> sr_identity record = None)
    = (step_status_of w (sp_id plan) = Some Step_Running)" using assms(3) by blast
  have body: "spec (\<lambda>s. synced t i p w s \<and> ?K s \<and> found = getCapabilityGrant (en_store s) t (rw_grantId w))
    (case found of
       None \<Rightarrow> stop_with w Run_Unauthorized (Some ''unauthorized:grant-missing'') att
     | Some grant \<Rightarrow>
         follow (of_result (resolveParams w plan)) (\<lambda>params.
         follow (of_result (checkGrant grant (step_request plan params) grantNow
             (step_status_of w (sp_id plan) = Some Step_Running \<and> \<not> (step_status_of w (sp_id plan) = Some Step_Running)))) (\<lambda>decision.
           (case denial wd grant w plan params decision recognized of
              Some reason \<Rightarrow>
                deny wd t w (sp_id plan) now (''unauthorized: '' @ reason) Run_Unauthorized (''unauthorized:'' @ reason) att
            | None \<Rightarrow>
                if effectiveStepIrreversibility plan = Irr_Irreversible \<and> \<not> prior_confirmed w (sp_id plan)
                then deny wd t w (sp_id plan) now ''prerequisite-not-confirmed'' Run_Failed ''prerequisite-not-confirmed'' att
                else launch wd t i w plan now grantNow grant params (step_status_of w (sp_id plan) = Some Step_Running)
                       (step_status_of w (sp_id plan) = Some Step_Running) recognized att))))
    (pass_ok t i p) (engine_ok t i p)" for found grantNow
  proof (cases found)
    case None
    then show ?thesis by (auto intro!: spec_pre [OF spec_stopped])
  next
    case (Some grant)
    have grant: "gt_id grant = rw_grantId w" if "synced t i p w s" "found = getCapabilityGrant (en_store s) t (rw_grantId w)" for s
      using synced_facts(7) [OF that(1)] that(2) Some by (simp add: store_ok_def getCapabilityGrant_def)
    have choice: "spec (\<lambda>s. synced t i p w s \<and> ?K s)
      (case denial wd grant w plan params decision recognized of
              Some reason \<Rightarrow>
                deny wd t w (sp_id plan) now (''unauthorized: '' @ reason) Run_Unauthorized (''unauthorized:'' @ reason) att
            | None \<Rightarrow>
                if effectiveStepIrreversibility plan = Irr_Irreversible \<and> \<not> prior_confirmed w (sp_id plan)
                then deny wd t w (sp_id plan) now ''prerequisite-not-confirmed'' Run_Failed ''prerequisite-not-confirmed'' att
                else launch wd t i w plan now grantNow grant params (step_status_of w (sp_id plan) = Some Step_Running)
                       (step_status_of w (sp_id plan) = Some Step_Running) recognized att)
      (pass_ok t i p) (engine_ok t i p)" if g: "gt_id grant = rw_grantId w" for params decision
    proof (cases "denial wd grant w plan params decision recognized")
      case None
      show ?thesis
      proof (cases "irreversible plan \<and> \<not> prior_confirmed w (sp_id plan)")
        case True
        with None show ?thesis by (auto simp: irreversible_def intro!: spec_pre [OF spec_deny [OF assms(1,2)]])
      next
        case False
        then have prior: "irreversible plan \<longrightarrow> prior_confirmed w (sp_id plan)"
          and no: "(effectiveStepIrreversibility plan = Irr_Irreversible \<and> \<not> prior_confirmed w (sp_id plan)) = False"
          by (simp_all add: irreversible_def)
        show ?thesis unfolding None option.case no if_False by (rule spec_launch [OF assms(1,2) g prior])
      qed
    next
      case (Some reason)
      then show ?thesis by (auto intro!: spec_pre [OF spec_deny [OF assms(1,2)]])
    qed
    have keep: "spec (\<lambda>s. synced t i p w s \<and> ?K s) (of_result r) (\<lambda>_ s. synced t i p w s \<and> ?K s) (engine_ok t i p)" for r
      by (rule spec_result) (auto simp: synced_def)
    have "spec (\<lambda>s. gt_id grant = rw_grantId w \<and> synced t i p w s \<and> ?K s)
      (follow (of_result (resolveParams w plan)) (\<lambda>params.
         follow (of_result (checkGrant grant (step_request plan params) grantNow
             (step_status_of w (sp_id plan) = Some Step_Running \<and> \<not> (step_status_of w (sp_id plan) = Some Step_Running)))) (\<lambda>decision.
           (case denial wd grant w plan params decision recognized of
              Some reason \<Rightarrow>
                deny wd t w (sp_id plan) now (''unauthorized: '' @ reason) Run_Unauthorized (''unauthorized:'' @ reason) att
            | None \<Rightarrow>
                if effectiveStepIrreversibility plan = Irr_Irreversible \<and> \<not> prior_confirmed w (sp_id plan)
                then deny wd t w (sp_id plan) now ''prerequisite-not-confirmed'' Run_Failed ''prerequisite-not-confirmed'' att
                else launch wd t i w plan now grantNow grant params (step_status_of w (sp_id plan) = Some Step_Running)
                       (step_status_of w (sp_id plan) = Some Step_Running) recognized att))))
      (pass_ok t i p) (engine_ok t i p)"
      by (rule spec_pure, rule spec_follow [OF keep], rule spec_follow [OF keep]) (rule choice)
    with Some grant show ?thesis by (simp only: option.case) (rule spec_pre, assumption, blast)
  qed
  show ?thesis unfolding authorize_and_submit_def Let_def same
    by (rule spec_follow [OF spec_clock [OF K]], rule spec_follow [OF spec_get_grant [OF assms(1) K]]) (rule body)
qed

lemma spec_run_pass:
  assumes "world_fair wd t i"
  shows "spec (synced t i p w) (run_pass wd t i w att) (pass_ok t i p) (engine_ok t i p)"
proof -
  have keep: "spec (synced t i p w) (of_result r) (\<lambda>x s. r = Inr x \<and> synced t i p w s) (engine_ok t i p)" for r :: "'a result"
    by (rule spec_result) (auto simp: synced_def)
  have after: "spec (prep_ok t i p plan rec w q)
     (case q of Confirmed w' \<Rightarrow> returns (Advanced w' att)
      | Halted out reason \<Rightarrow> stop_with w out (Some reason) att
      | Proceed w' recognized \<Rightarrow> authorize_and_submit wd t i w' plan rec now recognized att) (pass_ok t i p) (engine_ok t i p)"
    if "plan \<in> set p" for plan rec q now
  proof (cases q)
    case (Confirmed w')
    then show ?thesis by (auto intro!: spec_returns)
  next
    case (Halted out reason)
    then show ?thesis by (auto intro!: spec_pre [OF spec_stopped])
  next
    case (Proceed w' recognized)
    have "spec (\<lambda>s. (step_status_of w' (sp_id plan) = Some Step_Running \<longrightarrow> sr_identity rec = None)
        \<and> synced t i p w' s \<and> ((irreversible plan \<longrightarrow> \<not> opened (sp_id plan) False (en_log s))
        \<and> (recognized \<longrightarrow> charged (en_store s) t i (sp_id plan) (attempts_of w' (sp_id plan)) (rw_grantId w'))))
      (authorize_and_submit wd t i w' plan rec now recognized att) (pass_ok t i p) (engine_ok t i p)"
      by (rule spec_pure) (rule spec_authorize [OF assms that])
    then show ?thesis unfolding Proceed prepared.case by (rule spec_pre) simp
  qed
  show ?thesis unfolding run_pass_def
  proof (rule spec_follow [OF keep], rule spec_pure)
    fix found
    assume c: "resumeCursor w = Inr found"
    show "spec (synced t i p w) (case found of None \<Rightarrow> stop_with w Run_Succeeded None att
      | Some cursor \<Rightarrow>
         follow (of_result (requirePlan w cursor)) (\<lambda>plan.
         follow (of_result (requireStep w cursor)) (\<lambda>rec.
         follow (clock wd) (\<lambda>now.
         follow (prepare_step wd t i w plan rec now) (\<lambda>q. case q of
           Confirmed w' \<Rightarrow> returns (Advanced w' att)
         | Halted out reason \<Rightarrow> stop_with w out (Some reason) att
         | Proceed w' recognized \<Rightarrow> authorize_and_submit wd t i w' plan rec now recognized att)))))
      (pass_ok t i p) (engine_ok t i p)"
    proof (cases found)
      case None
      then show ?thesis by (simp add: spec_stopped)
    next
      case (Some cursor)
      show ?thesis unfolding Some option.case
      proof (rule spec_follow [OF keep], rule spec_pure, rule spec_follow [OF keep], rule spec_pure)
        fix plan rec
        assume plan: "requirePlan w cursor = Inr plan" and rec: "requireStep w cursor = Inr rec"
        from plan have plan': "plan \<in> set (rw_plan w)" "sp_id plan = cursor"
          by (auto simp: requirePlan_def find_Some_iff split: option.splits)
        from rec have r: "step_of w (sp_id plan) = Some rec" by (auto simp: requireStep_def plan' split: option.splits)
        obtain e where "open_step w e" "sp_id e = cursor" using cursor_Some c Some by metis
        then have "\<not> step_done (sr_status rec)" using r plan' by (simp add: open_step_def step_status_of_def)
        note prep = spec_prepare [OF assms r this]
        have time: "spec (synced t i p w) (clock wd) (\<lambda>_. synced t i p w) (engine_ok t i p)"
          using spec_clock [OF stable_True] by simp
        have "spec (\<lambda>s. plan \<in> set p \<and> synced t i p w s)
          (follow (clock wd) (\<lambda>now. follow (prepare_step wd t i w plan rec now) (\<lambda>q. case q of
             Confirmed w' \<Rightarrow> returns (Advanced w' att)
           | Halted out reason \<Rightarrow> stop_with w out (Some reason) att
           | Proceed w' recognized \<Rightarrow> authorize_and_submit wd t i w' plan rec now recognized att)))
          (pass_ok t i p) (engine_ok t i p)"
          by (rule spec_pure, rule spec_follow [OF time], rule spec_follow [OF prep]) (simp_all add: after)
        then show "spec (synced t i p w)
          (follow (clock wd) (\<lambda>now. follow (prepare_step wd t i w plan rec now) (\<lambda>q. case q of
             Confirmed w' \<Rightarrow> returns (Advanced w' att)
           | Halted out reason \<Rightarrow> stop_with w out (Some reason) att
           | Proceed w' recognized \<Rightarrow> authorize_and_submit wd t i w' plan rec now recognized att)))
          (pass_ok t i p) (engine_ok t i p)"
          by (rule spec_pre) (use plan' synced_facts(2) in blast)
      qed
    qed
  qed
qed

subsection \<open>Runs\<close>

lemma engine_ok_synced: "engine_ok t i p s \<Longrightarrow> \<exists>w. synced t i p w s"
  by (auto simp: engine_ok_def synced_def)

lemma spec_finish: "spec (synced t i p w) (finish_result w out reason att) (\<lambda>_. engine_ok t i p) (engine_ok t i p)"
  unfolding finish_result_def by (rule spec_result) (auto simp: synced_def)

lemma spec_run_loop:
  assumes "world_fair wd t i"
  shows "spec (synced t i p w) (run_loop wd t i budget w att) (\<lambda>_. engine_ok t i p) (engine_ok t i p)"
proof (induction budget arbitrary: w att)
  case 0
  have "spec (synced t i p w) (of_result r) (\<lambda>_. synced t i p w) (engine_ok t i p)" for r :: "'a result"
    by (rule spec_result) (auto simp: synced_def)
  then show ?case unfolding run_loop.simps
    by (rule spec_follow) (auto intro: spec_finish split: option.split)
next
  case (Suc budget)
  show ?case unfolding run_loop.simps
  proof (rule spec_follow [OF spec_run_pass [OF assms]])
    show "spec (pass_ok t i p q) (case q of Finished r \<Rightarrow> returns r
      | Advanced w' att' \<Rightarrow> run_loop wd t i budget w' att') (\<lambda>_. engine_ok t i p) (engine_ok t i p)" for q
    proof (cases q)
      case (Advanced w' att')
      from spec_pre [OF Suc.IH [of w' att'], of "pass_ok t i p q"] Advanced show ?thesis by simp
    next
      case (Finished r)
      then show ?thesis by (auto intro!: spec_returns)
    qed
  qed
qed

lemma spec_run:
  assumes "world_fair wd t i"
  shows "spec (engine_ok t i p) (runReleaseWorkflow wd t i options) (\<lambda>_. engine_ok t i p) (engine_ok t i p)"
proof -
  have body: "spec (\<lambda>s. synced t i p w s \<and> initial = Some w) (case initial of
       None \<Rightarrow> of_result (throw ''Release workflow not found'')
     | Some w \<Rightarrow>
         follow (case ro_grantId options of
             None \<Rightarrow> returns w
           | Some grantId \<Rightarrow>
               if grantId = rw_grantId w then returns w
               else follow (clock wd) (\<lambda>now. op_save wd t (rebindGrant w grantId now))) (\<lambda>w'.
         run_loop wd t i (case ro_maxSteps options of None \<Rightarrow> 100 | Some n \<Rightarrow> n) w' []))
     (\<lambda>_. engine_ok t i p) (engine_ok t i p)" for w initial
  proof (cases "initial = Some w")
    case True
    have rebind: "rebindGrant w g now = Inr w' \<Longrightarrow> \<exists>op now. release_step w (op, now) = Inr w' \<and> \<not> closes op" for g now w'
      by (rule exI [of _ "RebindGrant g"], rule exI [of _ now]) (simp add: closes_def)
    have time: "spec (synced t i p w) (clock wd) (\<lambda>_. synced t i p w) (engine_ok t i p)"
      using spec_clock [OF stable_True] by simp
    have stay: "spec (synced t i p w) (returns w) (\<lambda>w'. synced t i p w') (engine_ok t i p)" by (rule spec_returns)
    have "spec (synced t i p w) (case ro_grantId options of
             None \<Rightarrow> returns w
           | Some grantId \<Rightarrow>
               if grantId = rw_grantId w then returns w
               else follow (clock wd) (\<lambda>now. op_save wd t (rebindGrant w grantId now))) (\<lambda>w'. synced t i p w') (engine_ok t i p)"
      using stay spec_follow [OF time spec_op_plain [OF assms rebind]] by (simp split: option.split)
    from spec_follow [OF this spec_run_loop [OF assms]] True show ?thesis by (auto intro: spec_pre)
  qed (auto simp: spec_def)
  have "spec (\<lambda>s. synced t i p w s) (runReleaseWorkflow wd t i options) (\<lambda>_. engine_ok t i p) (engine_ok t i p)" for w
    unfolding runReleaseWorkflow_def
  proof (rule spec_follow)
    show "spec (synced t i p w) (get_workflow wd t i) (\<lambda>found s. synced t i p w s \<and> found = Some w) (engine_ok t i p)"
      unfolding get_workflow_def
      by (rule spec_pre [OF spec_db [OF assms stable_True]]) (auto simp: synced_def row_def)
  qed (rule body)
  then show ?thesis using engine_ok_synced unfolding spec_def by metis
qed

lemma engine_runs_ok:
  assumes "world_fair wd t i"
  shows "engine_ok t i p s \<Longrightarrow> engine_ok t i p (engine_runs wd t i s runs)"
proof (induction runs arbitrary: s)
  case (Cons options runs)
  have "engine_ok t i p (fst (runReleaseWorkflow wd t i options s))"
    by (rule spec_run_end [OF spec_run [OF assms] Cons.prems]) simp
  with Cons.IH show ?case by simp
qed simp

definition engine_start :: "release_store \<Rightarrow> engine" where
  "engine_start db = \<lparr>en_store = db, en_log = [], en_time = 0\<rparr>"

lemma engine_start_ok:
  assumes "run_steps store_step (empty_store tasks) ops = Inr db" and "getReleaseWorkflow db t i = Some w"
    and "\<And>k s. step_of w k = Some s \<Longrightarrow> sr_status s = Step_Running \<Longrightarrow> sr_identity s = None"
  shows "engine_ok t i (rw_plan w) (engine_start db)"
  using assms reached_store_ok [OF assms(1)]
  by (auto simp: engine_ok_def engine_start_def row_def row_ok_def submitted_def)

end
