(* ===== verification/Release_Runs.thy ===== *)
theory Release_Runs
  imports Release_Engine_Laws
begin

section \<open>Runs of the release engine\<close>

text \<open>
  The properties of the engine over any number of runs from a workflow that was created and never run, with
  sample runs: a submission that times out and is resubmitted after a query, a plan of two steps that reaches
  its end, and a process that dies twice.
\<close>

subsection \<open>Samples\<close>

definition tag_input :: "plan_input list" where
  "tag_input = [\<lparr>pn_id = ''tag'', pn_kind = Version_Tag, pn_params = None, pn_irreversibility = None\<rparr>]"

definition tag_release :: release_workflow where
  "tag_release = \<lparr>rw_id = ''release-workflow-1'', rw_taskId = ''t'', rw_grantId = ''capability-grant-1'',
     rw_source = sample_source,
     rw_plan = [\<lparr>sp_id = ''tag'', sp_kind = Version_Tag, sp_idempotencyKey = ''t/release-workflow-1/tag'',
                 sp_params = None, sp_irreversibility = None\<rparr>],
     rw_steps = [(''tag'', pending_step ''tag'')],
     rw_createdAt = ''1970-01-01T00:00:00.000Z'', rw_updatedAt = ''1970-01-01T00:00:00.000Z''\<rparr>"

lemma tag_release_created:
  "createReleaseWorkflow ''release-workflow-1'' ''t'' ''capability-grant-1'' sample_source tag_input 0 = Inr tag_release"
  by code_simp

definition run_grant :: "int \<Rightarrow> capability_grant" where
  "run_grant uses = sample_grant\<lparr>gt_actions := [''pr-create-or-reuse'', ''version-tag''], gt_parameterBounds := [],
     gt_maxUses := Some uses, gt_irreversibilityCeiling := Irr_Irreversible\<rparr>"

definition run_store :: "int \<Rightarrow> release_workflow \<Rightarrow> release_store" where
  "run_store uses w = put_workflow (put_grant (empty_store [''t'']) ''t'' (run_grant uses)) ''t'' w"

definition sample_effect :: step_effect where
  "sample_effect = \<lparr>ef_outcome = Effect_Succeeded, ef_externalId = Some ''12'', ef_identity = None, ef_logs = None,
     ef_error = None\<rparr>"

definition calm_world :: world where
  \<comment> \<open>ports that succeed, and a query that finds nothing\<close>
  "calm_world = \<lparr>wd_clock = int, wd_others = (\<lambda>_. []), wd_dies = (\<lambda>_. False), wd_execute = (\<lambda>_ _ _. Inr sample_effect),
     wd_query = (\<lambda>_ _ _. Inr \<lparr>qu_state = Effect_Absent, qu_externalId = None\<rparr>), wd_home = None\<rparr>"

definition timeout_world :: world where
  \<comment> \<open>the first submission times out\<close>
  "timeout_world = calm_world\<lparr>wd_execute := (\<lambda>n _ _. Inr (if n < 10
     then sample_effect\<lparr>ef_outcome := Effect_Timeout, ef_identity := Some (''tag'', ''v1'')\<rparr> else sample_effect))\<rparr>"

definition crash_world :: world where
  \<comment> \<open>the process dies twice before it reaches the submission of the tag\<close>
  "crash_world = calm_world\<lparr>wd_dies := (\<lambda>n. n = 6 \<or> n = 12)\<rparr>"

definition plain_options :: run_options where
  "plain_options = \<lparr>ro_maxSteps = None, ro_grantId = None\<rparr>"

lemma run_grant_storable: "grant_storable (run_grant 1)" "grant_storable (run_grant 2)"
  unfolding grant_storable_def by code_simp+

lemma created_owner: "createReleaseWorkflow i taskId grantId source plan now = Inr w \<Longrightarrow> rw_taskId w = js_trim taskId"
  by (auto simp: createReleaseWorkflow_def)

lemma trim_t: "js_trim ''t'' = ''t''"
  by code_simp

lemma run_store_reached:
  assumes "createReleaseWorkflow ''release-workflow-1'' ''t'' ''capability-grant-1'' source input t0 = Inr w"
    and "grant_storable (run_grant n)"
  shows "run_steps store_step (empty_store [''t'']) [SaveGrant ''t'' (run_grant n), SaveWorkflow ''t'' w] = Inr (run_store n w)"
proof -
  have owner: "rw_taskId w = ''t''"
    using created_owner [OF assms(1)] by (simp add: trim_t)
  have "saveCapabilityGrant (empty_store [''t'']) ''t'' (run_grant n) = Inr (put_grant (empty_store [''t'']) ''t'' (run_grant n))"
    using assms(2) by (simp add: save_grant_cases empty_store_def) (simp add: run_grant_def sample_grant_def)
  moreover have "saveReleaseWorkflow (put_grant (empty_store [''t'']) ''t'' (run_grant n)) ''t'' w = Inr (run_store n w)"
    using created_stored [OF assms(1)] owner by (simp add: save_workflow_cases run_store_def empty_store_def)
  ultimately show ?thesis by simp
qed

lemma run_store_row: "rw_taskId w = ''t'' \<Longrightarrow> getReleaseWorkflow (run_store n w) ''t'' (rw_id w) = Some w"
  by (simp add: run_store_def getReleaseWorkflow_def)

text \<open>
  The stores of the runs are updated functions: \<open>code_simp\<close> evaluates each update once when it applies the
  updated function to its argument.
\<close>

declare fun_upd_def [code del]
declare fun_upd_apply [code]

definition tag_state :: engine where
  "tag_state = engine_runs timeout_world ''t'' ''release-workflow-1'' (engine_start (run_store 2 tag_release))
     [plain_options, plain_options]"

lemma tag_log:
  "en_log tag_state
     = [Submitted ''tag'' 1 ''capability-grant-1'', Answered ''tag'' (Some Effect_Timeout), Asked ''tag'' Effect_Absent,
        Submitted ''tag'' 2 ''capability-grant-1'', Answered ''tag'' (Some Effect_Succeeded)]"
  by code_simp

definition plan_state :: engine where
  "plan_state = engine_runs calm_world ''t'' ''release-workflow-1'' (engine_start (run_store 2 sample_release)) [plain_options]"

lemma plan_log:
  "en_log plan_state
     = [Submitted ''pr'' 1 ''capability-grant-1'', Answered ''pr'' (Some Effect_Succeeded),
        Submitted ''tag'' 1 ''capability-grant-1'', Answered ''tag'' (Some Effect_Succeeded)]"
  by code_simp

definition created_in :: "release_store \<Rightarrow> string \<Rightarrow> string \<Rightarrow> release_workflow \<Rightarrow> bool" where
  \<comment> \<open>the store holds a workflow that was created and never run\<close>
  "created_in db taskId i w \<longleftrightarrow> getReleaseWorkflow db taskId i = Some w
     \<and> list_all (\<lambda>s. sr_status (snd s) = Step_Pending) (rw_steps w)"

lemma created_in_samples:
  "created_in (run_store n tag_release) ''t'' ''release-workflow-1'' tag_release"
  "created_in (run_store n sample_release) ''t'' ''release-workflow-1'' sample_release"
  by (simp_all add: created_in_def run_store_def getReleaseWorkflow_def tag_release_def sample_release_def pending_step_def)

lemma sample_worlds_fair: "world_fair timeout_world t i" "world_fair calm_world t i"
  by (simp_all add: world_fair_def timeout_world_def calm_world_def)

lemma created_in_start:
  assumes "run_steps store_step (empty_store tasks) ops = Inr db" and "created_in db t i w" and "world_fair wd t i"
  shows "engine_ok t i (rw_plan w) (engine_runs wd t i (engine_start db) runs)"
proof (rule engine_runs_ok [OF assms(3)], rule engine_start_ok [OF assms(1)])
  show "getReleaseWorkflow db t i = Some w" using assms(2) by (simp add: created_in_def)
  show "sr_identity s = None" if "step_of w k = Some s" "sr_status s = Step_Running" for k s
    using that assms(2) by (auto simp: created_in_def step_of_def list_all_iff dest!: map_of_SomeD)
qed

subsection \<open>Properties\<close>

text \<open>
  C10. No blind resubmission: over any number of runs of a workflow, in any world (the process may die
  between any two actions, the ports may answer or fail in any way, other processes may write anything but
  the record of this workflow), between two submissions of an irreversible step a query has
  found the effect absent or the earlier submission was answered as failed.
\<close>

theorem no_blind_resubmission:
  assumes "run_steps store_step (empty_store tasks) ops = Inr db" and "created_in db taskId i w"
    and "world_fair wd taskId i"
    and "e \<in> set (rw_plan w)" and "effectiveStepIrreversibility e = Irr_Irreversible"
    and "en_log (engine_runs wd taskId i (engine_start db) runs)
      = before @ [Submitted (sp_id e) n g] @ between @ [Submitted (sp_id e) n' g'] @ after"
  shows "\<exists>event \<in> set between. event = Asked (sp_id e) Effect_Absent \<or> event = Answered (sp_id e) (Some Effect_Failed)"
proof -
  have "engine_ok taskId i (rw_plan w) (engine_runs wd taskId i (engine_start db) runs)"
    by (rule created_in_start [OF assms(1-3)])
  with assms(4-6) have "\<not> blind (sp_id e) False (before @ [Submitted (sp_id e) n g] @ between @ [Submitted (sp_id e) n' g'] @ after)"
    by (simp add: engine_ok_def irreversible_def)
  from not_blind [OF this] show ?thesis by (simp add: settles_def)
qed

theorem no_blind_resubmission_witness:
  "\<exists>event \<in> {Answered ''tag'' (Some Effect_Timeout), Asked ''tag'' Effect_Absent}.
     event = Asked ''tag'' Effect_Absent \<or> event = Answered ''tag'' (Some Effect_Failed)"
proof -
  let ?e = "hd (rw_plan tag_release)"
  have e: "?e \<in> set (rw_plan tag_release)" "effectiveStepIrreversibility ?e = Irr_Irreversible"
    by (simp_all add: tag_release_def effectiveStepIrreversibility_def inherent_irreversibility_def)
  have id: "sp_id ?e = ''tag''" by (simp add: tag_release_def)
  have log: "en_log tag_state = [] @ [Submitted (sp_id ?e) 1 ''capability-grant-1'']
      @ [Answered ''tag'' (Some Effect_Timeout), Asked ''tag'' Effect_Absent]
      @ [Submitted (sp_id ?e) 2 ''capability-grant-1''] @ [Answered ''tag'' (Some Effect_Succeeded)]"
    unfolding id tag_log by simp
  from no_blind_resubmission [OF run_store_reached [OF tag_release_created run_grant_storable(2)] created_in_samples(1)
      sample_worlds_fair(1) e log [unfolded tag_state_def]]
  show ?thesis unfolding id by simp
qed

text \<open>
  C15. Every submission is paid for: whenever a run has called \<open>executeStep\<close>, the grant it was authorized
  by holds a reservation of that attempt or of an earlier attempt of the same step, and a grant never holds
  more reservations than uses nor more uses than its limit, whatever other processes do with the grant.
\<close>

theorem submissions_are_charged:
  assumes "run_steps store_step (empty_store tasks) ops = Inr db" and "created_in db taskId i w"
    and "world_fair wd taskId i" and "s = engine_runs wd taskId i (engine_start db) runs"
    and "Submitted j n g \<in> set (en_log s)"
  shows "\<exists>m grant. m \<le> n \<and> getCapabilityGrant (en_store s) taskId g = Some grant
    \<and> attemptReservationKey i j m \<in> set (gt_useReservations grant)
    \<and> distinct (gt_useReservations grant) \<and> int (length (gt_useReservations grant)) \<le> gt_usesUsed grant
    \<and> (\<forall>limit. gt_maxUses grant = Some limit \<longrightarrow> gt_usesUsed grant \<le> limit)"
proof -
  have ok: "engine_ok taskId i (rw_plan w) s" unfolding assms(4) by (rule created_in_start [OF assms(1-3)])
  with assms(5) obtain m grant where m: "m \<le> n" "getCapabilityGrant (en_store s) taskId g = Some grant"
      "attemptReservationKey i j m \<in> set (gt_useReservations grant)"
    unfolding engine_ok_def charged_def by blast
  have "store_ok (en_store s)" using ok by (simp add: engine_ok_def)
  with m(2) have "grant_valid grant" unfolding store_ok_def getCapabilityGrant_def using storable_valid by blast
  with m grant_bounds [of grant] show ?thesis by blast
qed

theorem submissions_are_charged_witness:
  "\<exists>m grant. m \<le> 2 \<and> getCapabilityGrant (en_store tag_state) ''t'' ''capability-grant-1'' = Some grant
     \<and> attemptReservationKey ''release-workflow-1'' ''tag'' m \<in> set (gt_useReservations grant)"
proof -
  have "Submitted ''tag'' 2 ''capability-grant-1'' \<in> set (en_log tag_state)"
    by (simp add: tag_log)
  from submissions_are_charged [OF run_store_reached [OF tag_release_created run_grant_storable(2)] created_in_samples(1)
      sample_worlds_fair(1) tag_state_def this]
  show ?thesis by metis
qed

text \<open>
  C24. Irreversible steps wait for their prefix: once a run has submitted an irreversible step, every step
  that the plan puts before it has the status succeeded in the store, then and for ever.
\<close>

theorem irreversible_after_prefix:
  assumes "run_steps store_step (empty_store tasks) ops = Inr db" and "created_in db taskId i w"
    and "world_fair wd taskId i" and "s = engine_runs wd taskId i (engine_start db) runs"
    and "rw_plan w = before @ e # after" and "effectiveStepIrreversibility e = Irr_Irreversible"
    and "Submitted (sp_id e) n g \<in> set (en_log s)"
  shows "\<exists>v. getReleaseWorkflow (en_store s) taskId i = Some v \<and> rw_plan v = rw_plan w
    \<and> (\<forall>p \<in> set before. \<exists>r. step_of v (sp_id p) = Some r \<and> sr_status r = Step_Succeeded)"
proof -
  have ok: "engine_ok taskId i (rw_plan w) s" unfolding assms(4) by (rule created_in_start [OF assms(1-3)])
  then obtain v where v: "synced taskId i (rw_plan w) v s" using engine_ok_synced by blast
  note f = synced_facts [OF v]
  have "submitted (sp_id e) (en_log s)" using assms(7) by (auto simp: submitted_def)
  then have p: "prior_confirmed v (sp_id e)" using f(2,3) assms(5,6) by (simp add: row_ok_def irreversible_def)
  have "distinct (map sp_id (before @ e # after))" using valid_plan_ids(2) [OF f(6)] f(2) assms(5) by simp
  then have "takeWhile (\<lambda>p. sp_id p \<noteq> sp_id e) (rw_plan v) = before"
    using f(2) assms(5) by (auto simp: takeWhile_append image_iff)
  with p have "\<forall>p \<in> set before. \<exists>r. step_of v (sp_id p) = Some r \<and> sr_status r = Step_Succeeded"
    by (auto simp: prior_confirmed_def list_all_iff step_status_of_def)
  with v f(2) show ?thesis by (auto simp: synced_def row_def)
qed

theorem irreversible_after_prefix_witness:
  "\<exists>v r. getReleaseWorkflow (en_store plan_state) ''t'' ''release-workflow-1'' = Some v
     \<and> step_of v ''pr'' = Some r \<and> sr_status r = Step_Succeeded"
proof -
  let ?a = "hd (rw_plan sample_release)" and ?b = "last (rw_plan sample_release)"
  have plan: "rw_plan sample_release = [?a] @ ?b # []" by (simp add: sample_release_def)
  have irr: "effectiveStepIrreversibility ?b = Irr_Irreversible"
    by (simp add: sample_release_def effectiveStepIrreversibility_def inherent_irreversibility_def)
  have ids: "sp_id ?a = ''pr''" "sp_id ?b = ''tag''" by (simp_all add: sample_release_def)
  have "Submitted (sp_id ?b) 1 ''capability-grant-1'' \<in> set (en_log plan_state)"
    unfolding ids plan_log by simp
  from irreversible_after_prefix [OF run_store_reached [OF sample_release_created run_grant_storable(2)]
      created_in_samples(2) sample_worlds_fair(2) plan_state_def plan irr this]
  show ?thesis by (auto simp: ids)
qed

definition crashed_state :: engine where
  "crashed_state = engine_runs crash_world ''t'' ''release-workflow-1'' (engine_start (run_store 1 tag_release))
     [plain_options, plain_options]"

text \<open>
  A recovery that was free is charged when it is interrupted: a grant with one use for a plan of one
  step, and ports that would succeed.  The process dies after it has charged the tag and again after the
  resumed run has recorded the recovery attempt, which leaves no reservation for that attempt.  The tag was
  never submitted, but the next run does not recognize the use, finds the grant exhausted and
  ends unauthorized.
\<close>

theorem interrupted_recovery_strands_step:
  "en_log crashed_state = [Asked ''tag'' Effect_Absent]
   \<and> map_option (\<lambda>g. (gt_usesUsed g, gt_useReservations g)) (getCapabilityGrant (en_store crashed_state) ''t'' ''capability-grant-1'')
       = Some (1, [attemptReservationKey ''release-workflow-1'' ''tag'' 1])
   \<and> (case snd (runReleaseWorkflow crash_world ''t'' ''release-workflow-1'' plain_options crashed_state) of
        Inl _ \<Rightarrow> False
      | Inr r \<Rightarrow> rr_outcome r = Run_Unauthorized \<and> rr_stopReason r = Some ''unauthorized:grant-uses-exhausted''
          \<and> rr_attempted r = [] \<and> step_status_of (rr_workflow r) ''tag'' = Some Step_Running)"
  by code_simp

end
