(* ===== verification/Spec2Isabelle.thy ===== *)
theory Spec2Isabelle
  imports Mailbox_Store Keyed_Queue Draft_Plan Durable_Job Supervisor_Progress Capability_Grant
    Integration_Attempt Activation_Service Work_Item_Laws Review_Round_Laws Release_Runs
begin

text \<open>
  A verification development for the control plane of Yui (TaskMux, \<open>src/\<close>).

  \<^bold>\<open>The program.\<close>  Yui lets a Leader agent work on a Task with the help of other agents.  A
  Controller process owns a SQLite store; commands and agents write requests into it, and the
  Controller moves the records through their state machines.  Signals for an agent are collected in
  durable mailboxes (\<open>coordination/\<close>), keys with work are scheduled through an in-memory queue
  (\<open>coordination/keyedWorkQueue.ts\<close>), a Task starts as a Draft and is activated on request (\<open>task/\<close>),
  the results of agents are submitted as Candidates of Work Items (\<open>workItem/\<close>), produced by one agent or by a
  group of Lanes (\<open>execution/\<close>) in workspaces with one owner (\<open>worktree/\<close>), and reviewed in rounds (\<open>review/\<close>);
  long commands run as durable jobs under a supervisor (\<open>job/\<close>,
  \<open>controller/jobSupervisor.ts\<close>), the plan of a Task is a graph of Work Items (\<open>task/draftPlan.ts\<close>,
  \<open>workItem/dependencyGate.ts\<close>), results are integrated into the branch of the Task
  (\<open>integration/\<close>), and a release is a plan of steps (\<open>release/\<close>) whose irreversible actions need a grant (\<open>grant/\<close>).  The records are immutable
  objects; every operation is a function that validates the record it gets, checks its guard, and
  validates the record it returns, throwing an \<open>Error\<close> otherwise.

  \<^bold>\<open>How it is modelled.\<close>  A function that may throw is a HOL function into \<open>err + 'a\<close>
  (\<open>'a result\<close>, theory \<open>Yui_Prelude\<close>), an object type a record, an enumeration a datatype, an optional
  field an option, a \<open>Date\<close> the \<open>int\<close> of its milliseconds and a time stamp the string
  \<open>toISOString\<close> prints (\<open>Yui_Time\<close>, with the parser of such strings).  Strings are lists of
  characters of one byte; a character beyond that range is outside the model.  Values of an
  enumeration type outside the type, and the version field of a record, are not modelled: the
  checks that refuse them have no branch.  A number is an \<open>int\<close>; where the code asks for a safe integer
  the bound \<open>2^53\<close> is explicit.

  \<^bold>\<open>The theories, bottom up.\<close>
  \<^item> \<open>Yui_Prelude\<close>: results and their sequencing, sequences of checks, histories of calls; the locales
    \<open>step_machine\<close> (an invariant of one call holds for a history), \<open>step_order\<close> (what one call may
    change, lifted to a history) and \<open>record_validator\<close>, which every component interprets on its own
    operations.  \<open>Yui_Text\<close>: strings, \<open>trim\<close>, numerals, \<open>encodeURIComponent\<close>, JSON values.  \<open>Yui_Time\<close>:
    dates, with the round trip of the ISO format.  \<open>Yui_Validation\<close>: \<open>domain/validation.ts\<close> and
    \<open>task/taskRecordReference.ts\<close>; the locale \<open>normalizer\<close> is interpreted on every normalizing check.
  \<^item> \<open>Work_Mailbox\<close>, \<open>Mailbox_Laws\<close>, \<open>Signal_Queue\<close>: \<open>coordination/workMailbox.ts\<close>, its invariant with
    the exact equation of every operation, and the refinement of an abstract queue of numbered keys.
    C1-C5, C8.
  \<^item> \<open>Mailbox_Store\<close>: \<open>coordination/workMailboxQueue.ts\<close> over any store that keeps the contract of the
    locale \<open>mailbox_store\<close>, interpreted on the mailbox table of \<open>storage/sqliteStore.ts\<close>.
  \<^item> \<open>Keyed_Queue\<close>: \<open>coordination/keyedWorkQueue.ts\<close>, promises being events of a log.  The dispatch loop
    recurses with a proved measure.  C13, C14.
  \<^item> \<open>Draft_Plan\<close>: \<open>task/draftPlan.ts\<close>, \<open>workItem/dependencyGate.ts\<close>; the depth-first search is a
    \<open>function\<close> with a termination proof on the finite set of Work Items.  C19, C21.
  \<^item> \<open>Operation_Facts\<close>: \<open>kernel/operationFacts.ts\<close>, the evidence that jobs and activation requests carry.
    \<open>Durable_Job\<close>: \<open>job/durableJob.ts\<close> with the transition check the store applies to every update.
    C22, C23.
  \<^item> \<open>Job_Supervisor\<close>, \<open>Supervisor_Progress\<close>: \<open>controller/jobSupervisor.ts\<close> over the job table and the
    transaction of the scheduler adapter; effects on processes and files are a list in order.  C25-C29.
  \<^item> \<open>Capability_Grant\<close>: \<open>grant/capabilityGrant.ts\<close>.  C30-C32.
  \<^item> \<open>Integration_Attempt\<close>: \<open>integration/integrationAttempt.ts\<close>, \<open>integration/checkResult.ts\<close>,
    \<open>integration/integrationQueueEntry.ts\<close>, with the lifecycle of a queue entry as specification.
    C33-C35.
  \<^item> \<open>Task_Activation\<close>: \<open>task/taskActivation.ts\<close>, \<open>event/taskEvent.ts\<close>.  \<open>Task_Record\<close>: \<open>task/task.ts\<close>,
    \<open>repository/taskWorkspaceIdentity.ts\<close>, with the lifecycle of a Task as specification.  C36, C37.
  \<^item> \<open>Activation_Service\<close>: \<open>task/taskActivationService.ts\<close> over the tables of Tasks, events, runs and
    mailboxes; its invariant relates the request a Task holds to the ledger of events.  C38-C40.
  \<^item> \<open>Managed_Workspace\<close>: \<open>worktree/managedWorkspace.ts\<close>, with posix paths.  \<open>Execution_Group\<close>:
    \<open>execution/workItemExecution.ts\<close> and the snapshot references of \<open>context/contextSnapshot.ts\<close>; one preorder for
    updates of Lanes and a weaker one for retries.  C6.  \<open>Review_Contract\<close>: \<open>review/reviewConfig.ts\<close>,
    \<open>review/taskFinalReviewContract.ts\<close>.
  \<^item> \<open>Work_Item\<close>, \<open>Work_Item_Laws\<close>: \<open>workItem/workItem.ts\<close> with Candidates, groups, acceptance and retirement, and
    the machine of its statuses.  C7, C11.
  \<^item> \<open>Review_Round\<close>, \<open>Review_Round_Laws\<close>: \<open>review/reviewRound.ts\<close> and the record that
    \<open>message/messageContinuation.ts\<close> writes without it, with the machine of its statuses.  C18, C20.

  \<^item> \<open>Release_Workflow\<close>: \<open>release/releaseWorkflow.ts\<close>, a plan of steps with one record each, and the automaton of a
    step.  C12.  \<open>Release_Store\<close>: the parts of \<open>storage/taskStore.ts\<close> and \<open>storage/sqliteStore.ts\<close> that take grants and
    release workflows and compare a replacement with the stored record.  C9, C16, C17.
  \<^item> \<open>Release_Engine\<close>: \<open>release/releaseWorkflowEngine.ts\<close>, the run of a workflow as a sequence of actions, with the
    calls of the ports and their answers in a log; an action may be preceded by the death of the process and
    by writes of other processes.  \<open>Release_Engine_Laws\<close>: its invariant, phase by phase, over any number of runs;
    \<open>Release_Runs\<close>: what it gives for submissions, and sample runs.  C10, C15, C24.

  \<^bold>\<open>What the lemmas show.\<close>  For each record: what its validation accepts, that every operation returns
  a valid record, what a history may change of it, and when exactly an operation throws.  For the
  components with a contract: the mailbox is a queue unless a batch is released
  across a gap, the keyed queue is exclusive, fair and total,
  the search decides the graph property, the updates of a job are the ones the store accepts, a pass
  of the supervisor spawns at most one runner per job and harvests a finished one, the statuses of a
  Task follow its lifecycle, and a cancelled activation stays cancelled.  The store takes every result of an
  operation on a release workflow, refuses stale writes to a grant, and never rewinds a record; the engine,
  however often it dies and whatever the ports answer, submits no irreversible step blindly, without a charge
  or before its prefix.

  \<^bold>\<open>Parameters.\<close>  SHA-256, the comparison \<open>localeCompare\<close>, the answers of the process and file ports of
  the supervisor, the store operations of the mailbox client, the working directory and the validation of launch
  snapshots (\<open>executor/effectiveLaunch.ts\<close>) are arguments of the definitions that use them, and so is the world of
  the release engine: what the clock shows, what other processes write, when the process dies, and what
  \<open>executeStep\<close> and \<open>queryStepEffect\<close> answer.  Its one assumption (\<open>world_fair\<close>) is what the lock around a run
  promises: nobody else writes the record of the workflow.  There is no fuel: every loop is structural or has a
  termination proof; the budget of a run (100 passes) and the eight attempts to record a use are the code's.

  \<^bold>\<open>Not modelled.\<close>  SQL, git, tmux, HTTP, the agent executables and everything that only orchestrates
  them (\<open>commands/\<close>, \<open>cli/\<close>, \<open>runtime/\<close>, \<open>executor/\<close>, \<open>repository/\<close>, the adapters and the file lock of \<open>release/\<close>, most of \<open>controller/\<close> and
  \<open>storage/\<close>): their behaviour is that of the services they call.  The records of input requests and
  agent runs are not modelled yet.
\<close>

end
